(* ===== verification/Z3Prelude.thy ===== *)
theory Z3Prelude
  imports Main "HOL-Library.Word"
begin

text \<open>
  Shared vocabulary of the development: machine integers, result codes, faults, and the
  parts of the C library the program uses on strings (\<open>isspace\<close>, \<open>_stricmp\<close>, \<open>strlen\<close>,
  \<open>strchr\<close>, \<open>atoi\<close>, \<open>sscanf_s\<close> of a version, \<open>%d\<close>).

  Memory that the program mutates through \<open>char *\<close> pointers is a \<^typ>\<open>char list\<close> of fixed
  length, and a pointer into it is an offset; a C string that is only read is the
  \<^typ>\<open>string\<close> of the characters before its terminator. Whatever the source leaves
  undefined (a read past an allocation, a failed \<open>assert\<close>, a NULL dereference) is a value of
  \<open>fault\<close>, so that a theorem "the operation returns \<open>Inr\<close>" excludes it.
\<close>

named_theorems cstring "facts about C strings in memory"

section \<open>Machine integers and result codes\<close>

type_synonym u8 = "8 word"
type_synonym u16 = "16 word"
type_synonym u32 = "32 word"
type_synonym u64 = "64 word"

text \<open>The result codes of \<open>z3_errno.hpp\<close> and \<open>z3_rtsp_error.hpp\<close>, the two \<open>errno.h\<close> values the
  program returns, and the codes it makes from the last Winsock or system error.\<close>

datatype z3_errno =
    Z3_EOK | Z3_ERROR | Z3_ENOMEM | Z3_EINVAL | Z3_EINTR
  | Z3_WSA_ERROR u32 | Z3_SYS_ERROR u32

datatype z3_rtsp_errno =
    Z3_RTSP_ENOTIMPL | Z3_RTSP_EPARSE | Z3_RTSP_EINTR | Z3_RTSP_EUNSUPPORTED
  | Z3_RTSP_EOUTOFPORTS | Z3_RTSP_ESTREAMCOUNTS | Z3_RTSP_EMEDIASESSION
  | Z3_RTSP_ENOSESSIONID | Z3_RTSP_ESESSIONID | Z3_RTSP_SESSION_ECONNECT

datatype result = Z3 z3_errno | RTSP z3_rtsp_errno | EINVAL | ENOMEM

abbreviation EOK :: result where "EOK \<equiv> Z3 Z3_EOK"

fun z3_errno_code :: "z3_errno \<Rightarrow> u32" where
  "z3_errno_code Z3_EOK = 0"
| "z3_errno_code Z3_ERROR = 0x399B6001"
| "z3_errno_code Z3_ENOMEM = 0x399B6002"
| "z3_errno_code Z3_EINVAL = 0x399B6003"
| "z3_errno_code Z3_EINTR = 0x399B6004"
| "z3_errno_code (Z3_WSA_ERROR e) = 0x40000000 + e"
| "z3_errno_code (Z3_SYS_ERROR e) = 0x60000000 + e"

fun z3_rtsp_errno_code :: "z3_rtsp_errno \<Rightarrow> u32" where
  "z3_rtsp_errno_code Z3_RTSP_ENOTIMPL = 0x80001001"
| "z3_rtsp_errno_code Z3_RTSP_EPARSE = 0x80001002"
| "z3_rtsp_errno_code Z3_RTSP_EINTR = 0x80001003"
| "z3_rtsp_errno_code Z3_RTSP_EUNSUPPORTED = 0x80001004"
| "z3_rtsp_errno_code Z3_RTSP_EOUTOFPORTS = 0x80001005"
| "z3_rtsp_errno_code Z3_RTSP_ESTREAMCOUNTS = 0x80001006"
| "z3_rtsp_errno_code Z3_RTSP_EMEDIASESSION = 0x80001007"
| "z3_rtsp_errno_code Z3_RTSP_ENOSESSIONID = 0x80001008"
| "z3_rtsp_errno_code Z3_RTSP_ESESSIONID = 0x80001009"
| "z3_rtsp_errno_code Z3_RTSP_SESSION_ECONNECT = 0x90001001"

lemma unat_of_nat_u32: "n < 4294967296 \<Longrightarrow> unat (of_nat n :: u32) = n"
  by (simp add: unat_of_nat)

lemma unat_of_nat_u16: "n < 65536 \<Longrightarrow> unat (of_nat n :: u16) = n"
  by (simp add: unat_of_nat)

lemma unat_power2_u32: "k < 32 \<Longrightarrow> unat (2 ^ k :: u32) = 2 ^ k"
proof -
  assume "k < 32"
  then have "(2::nat) ^ k < 2 ^ 32" by (intro power_strict_increasing) simp_all
  then have "unat (of_nat (2 ^ k) :: u32) = 2 ^ k" by (intro unat_of_nat_u32) simp
  then show ?thesis by simp
qed

section \<open>Faults\<close>

datatype fault =
    NullDeref       \<comment> \<open>a NULL pointer is dereferenced\<close>
  | OutOfBounds     \<comment> \<open>an access outside the object the pointer points into\<close>
  | AssertFailed    \<comment> \<open>an \<open>assert\<close> of the source, or a check of the arguments by a \<open>_s\<close> function, fails\<close>
  | Unterminated    \<comment> \<open>a string function runs past memory that holds no terminator\<close>
  | OutOfFuel       \<comment> \<open>the model's loop bound is reached; never a behaviour of the code\<close>

type_synonym 'a outcome = "fault + 'a"

fun bindE :: "'a outcome \<Rightarrow> ('a \<Rightarrow> 'b outcome) \<Rightarrow> 'b outcome" where
  "bindE (Inl f) k = Inl f"
| "bindE (Inr a) k = k a"

lemma map_sum_Inr_iff: "map_sum id snd r = Inr s \<longleftrightarrow> (\<exists>x. r = Inr (x, s))"
  by (cases r) auto

lemma bindE_Inr_iff: "bindE m k = Inr b \<longleftrightarrow> (\<exists>a. m = Inr a \<and> k a = Inr b)"
  by (cases m) auto

lemma bindE_cong [fundef_cong]:
  "m = m' \<Longrightarrow> (\<And>a. m' = Inr a \<Longrightarrow> k a = k' a) \<Longrightarrow> bindE m k = bindE m' k'"
  by (cases m') auto

definition assertE :: "bool \<Rightarrow> unit outcome" where
  "assertE b = (if b then Inr () else Inl AssertFailed)"

lemma assertE_simps [simp]: "assertE True = Inr ()" "assertE False = Inl AssertFailed"
  by (simp_all add: assertE_def)

lemma assertE_Inr_iff [simp]: "assertE b = Inr u \<longleftrightarrow> b"
  by (simp add: assertE_def)

section \<open>Characters\<close>

abbreviation NUL :: char where "NUL \<equiv> CHR 0x00"
abbreviation CR :: char where "CR \<equiv> CHR 0x0D"
abbreviation LF :: char where "LF \<equiv> CHR 0x0A"

text \<open>\<open>isspace\<close> in the C locale: space, TAB, LF, VT, FF and CR.\<close>

definition is_space :: "char \<Rightarrow> bool" where
  "is_space c \<longleftrightarrow> c = CHR 0x20 \<or> c = CHR 0x09 \<or> c = CHR 0x0A \<or> c = CHR 0x0B \<or> c = CHR 0x0C \<or> c = CHR 0x0D"

lemma is_space_NUL [simp]: "\<not> is_space NUL" by (simp add: is_space_def)
lemma is_space_blank [simp]: "is_space CHR 0x20" by (simp add: is_space_def)

definition is_digit :: "char \<Rightarrow> bool" where
  "is_digit c \<longleftrightarrow> (48::nat) \<le> of_char c \<and> (of_char c::nat) \<le> 57"

definition digit_val :: "char \<Rightarrow> nat" where
  "digit_val c = of_char c - 48"

text \<open>\<open>tolower\<close> in the C locale sets bit 5 of the letters \<open>A\<close> to \<open>Z\<close>.\<close>

fun set_bit5 :: "char \<Rightarrow> char" where
  "set_bit5 (Char b0 b1 b2 b3 b4 b5 b6 b7) = Char b0 b1 b2 b3 b4 True b6 b7"

definition to_lower :: "char \<Rightarrow> char" where
  "to_lower c = (if (65::nat) \<le> of_char c \<and> (of_char c::nat) \<le> 90 then set_bit5 c else c)"

text \<open>\<open>_stricmp (s, t) == 0\<close>.\<close>

definition stricmp_eq :: "string \<Rightarrow> string \<Rightarrow> bool" where
  "stricmp_eq s t \<longleftrightarrow> map to_lower s = map to_lower t"

lemma stricmp_eq_refl [simp]: "stricmp_eq s s"
  by (simp add: stricmp_eq_def)

lemma stricmp_eq_sym: "stricmp_eq s t \<Longrightarrow> stricmp_eq t s"
  by (simp add: stricmp_eq_def)

lemma stricmp_eq_trans: "stricmp_eq s t \<Longrightarrow> stricmp_eq t u \<Longrightarrow> stricmp_eq s u"
  by (simp add: stricmp_eq_def)

lemma stricmp_eq_length: "stricmp_eq s t \<Longrightarrow> length s = length t"
  by (metis length_map stricmp_eq_def)

section \<open>Strings in memory\<close>

text \<open>\<open>cstr m\<close> is the C string at the start of the memory \<open>m\<close>; \<open>terminated m\<close> says that \<open>m\<close>
  holds its terminator, without which every string function reads past \<open>m\<close>.\<close>

definition cstr :: "char list \<Rightarrow> string" where
  "cstr m = takeWhile (\<lambda>c. c \<noteq> NUL) m"

definition terminated :: "char list \<Rightarrow> bool" where
  "terminated m \<longleftrightarrow> NUL \<in> set m"

abbreviation strlen :: "char list \<Rightarrow> nat" where
  "strlen m \<equiv> length (cstr m)"

lemma cstr_Nil [simp]: "cstr [] = []" by (simp add: cstr_def)
lemma cstr_Cons [simp]: "cstr (c # m) = (if c = NUL then [] else c # cstr m)"
  by (simp add: cstr_def)

lemma terminated_simps [simp]:
  "\<not> terminated []" "terminated (c # m) \<longleftrightarrow> c = NUL \<or> terminated m"
  by (auto simp: terminated_def)

lemma cstr_append_NUL [cstring]: "NUL \<notin> set s \<Longrightarrow> cstr (s @ NUL # r) = s"
  by (induction s) auto

lemma cstr_no_NUL [cstring]: "NUL \<notin> set s \<Longrightarrow> cstr s = s"
  by (induction s) auto

lemma NUL_notin_cstr [cstring, simp]: "NUL \<notin> set (cstr m)"
  by (induction m) auto

lemma cstr_idem [simp]: "cstr (cstr m) = cstr m"
  by (simp add: cstr_no_NUL)

lemma strlen_less [cstring]: "terminated m \<Longrightarrow> strlen m < length m"
  by (induction m) auto

lemma strlen_le [cstring]: "strlen m \<le> length m"
  by (simp add: cstr_def length_takeWhile_le)

lemma terminated_split [cstring]: "terminated m \<Longrightarrow> \<exists>r. m = cstr m @ NUL # r"
  by (induction m) auto

text \<open>\<open>strchr (s, c)\<close> as the index of the first \<open>c\<close> in the string.\<close>

fun index_of :: "char \<Rightarrow> string \<Rightarrow> nat option" where
  "index_of c [] = None"
| "index_of c (x # xs) = (if x = c then Some 0 else map_option Suc (index_of c xs))"

lemma index_of_None_iff: "index_of c s = None \<longleftrightarrow> c \<notin> set s"
  by (induction s) auto

lemma index_of_SomeD:
  "index_of c s = Some i \<Longrightarrow> i < length s \<and> s ! i = c \<and> c \<notin> set (take i s)"
proof (induction s arbitrary: i)
  case (Cons x xs)
  then show ?case by (auto split: if_splits)
qed simp

lemma index_of_append_here [simp]: "c \<notin> set s \<Longrightarrow> index_of c (s @ c # r) = Some (length s)"
  by (induction s) auto

section \<open>Numbers in strings\<close>

fun digits_val :: "nat \<Rightarrow> string \<Rightarrow> nat" where
  "digits_val acc [] = acc"
| "digits_val acc (c # cs) =
     (if is_digit c then digits_val (acc * 10 + digit_val c) cs else acc)"

text \<open>\<open>atoi\<close> and \<open>atol\<close> (32 bits on Windows): leading spaces, a sign, digits; out of range
  values saturate, as the Microsoft library documents.\<close>

definition clamp32 :: "int \<Rightarrow> int" where
  "clamp32 i = max (-2147483648) (min 2147483647 i)"

definition atoi :: "string \<Rightarrow> int" where
  "atoi s = (case dropWhile is_space s of
       [] \<Rightarrow> 0
     | c # cs \<Rightarrow> if c = CHR ''-'' then clamp32 (- int (digits_val 0 cs))
                else if c = CHR ''+'' then clamp32 (int (digits_val 0 cs))
                else clamp32 (int (digits_val 0 (c # cs))))"

text \<open>\<open>%u\<close> of \<open>sscanf\<close>: \<open>None\<close> when no digit is found; otherwise the value and the rest.\<close>

definition scan_u :: "string \<Rightarrow> (u32 \<times> string) option" where
  "scan_u s =
     (let t = dropWhile is_space s;
          neg = (t \<noteq> [] \<and> hd t = CHR ''-'');
          u = (if t \<noteq> [] \<and> (hd t = CHR ''-'' \<or> hd t = CHR ''+'') then tl t else t)
      in if u \<noteq> [] \<and> is_digit (hd u)
         then Some ((if neg then - of_nat (digits_val 0 u) else of_nat (digits_val 0 u)),
                    dropWhile is_digit u)
         else None)"

text \<open>\<open>sscanf_s (s, "%u.%u%c", &major, &minor, &dummy)\<close>: the number of conversions made and
  the values stored; a variable that is not stored keeps the value it is given here.\<close>

definition sscanf_version :: "u32 \<Rightarrow> u32 \<Rightarrow> string \<Rightarrow> nat \<times> u32 \<times> u32" where
  "sscanf_version major minor s =
     (case scan_u s of
        None \<Rightarrow> (0, major, minor)
      | Some (a, r) \<Rightarrow>
          (case r of
             [] \<Rightarrow> (1, a, minor)
           | c # r' \<Rightarrow>
               if c \<noteq> CHR ''.'' then (1, a, minor)
               else (case scan_u r' of
                       None \<Rightarrow> (1, a, minor)
                     | Some (b, r'') \<Rightarrow> (if r'' = [] then 2 else 3, a, b))))"

text \<open>\<open>%d\<close> of \<open>printf\<close>.\<close>

definition digit_char :: "nat \<Rightarrow> char" where
  "digit_char d = ''0123456789'' ! d"

fun dec_nat :: "nat \<Rightarrow> string" where
  "dec_nat n = (if n < 10 then [digit_char n] else dec_nat (n div 10) @ [digit_char (n mod 10)])"

declare dec_nat.simps [simp del]

definition dec_int :: "int \<Rightarrow> string" where
  "dec_int i = (if i < 0 then CHR ''-'' # dec_nat (nat (- i)) else dec_nat (nat i))"

lemma less_10_cases: "(n::nat) < 10 \<Longrightarrow> n \<in> {0,1,2,3,4,5,6,7,8,9}"
  by auto

lemma digit_char_props [simp]:
  assumes "d < 10"
  shows "is_digit (digit_char d)" "digit_val (digit_char d) = d" "\<not> is_space (digit_char d)"
    "digit_char d \<noteq> NUL" "digit_char d \<noteq> CHR ''-''" "digit_char d \<noteq> CHR ''+''"
  using less_10_cases [OF assms]
  by (auto simp: digit_char_def is_digit_def digit_val_def is_space_def)

lemma dec_nat_digits: "\<forall>c \<in> set (dec_nat n). is_digit c"
proof (induction n rule: dec_nat.induct)
  case (1 n)
  then show ?case by (cases "n < 10") (auto simp: dec_nat.simps [of n])
qed

lemma dec_nat_ne [simp]: "dec_nat n \<noteq> []"
  by (subst dec_nat.simps) simp

lemma length_dec_nat: "n < 10 ^ k \<Longrightarrow> 0 < k \<Longrightarrow> length (dec_nat n) \<le> k"
proof (induction k arbitrary: n)
  case (Suc k)
  show ?case
  proof (cases "n < 10")
    case True
    then show ?thesis by (simp add: dec_nat.simps [of n])
  next
    case False
    then have "0 < k" using Suc.prems(1) by (cases k) auto
    moreover have "n div 10 < 10 ^ k" using Suc.prems(1) by (simp add: less_mult_imp_div_less)
    ultimately show ?thesis using Suc.IH [of "n div 10"] False by (subst dec_nat.simps) simp
  qed
qed simp

lemma digits_val_append:
  "\<forall>c \<in> set ds. is_digit c \<Longrightarrow> digits_val acc (ds @ s) = digits_val (digits_val acc ds) s"
  by (induction ds arbitrary: acc) auto

lemma digits_val_dec_nat: "digits_val 0 (dec_nat n) = n"
proof (induction n rule: dec_nat.induct)
  case (1 n)
  show ?case
  proof (cases "n < 10")
    case True
    then show ?thesis by (simp add: dec_nat.simps [of n])
  next
    case False
    then have "digits_val 0 (dec_nat n) = digits_val n' [digit_char (n mod 10)]"
      if "n' = digits_val 0 (dec_nat (n div 10))" for n'
      using that by (simp add: dec_nat.simps [of n] digits_val_append dec_nat_digits)
    with 1 False show ?thesis by simp
  qed
qed

lemma is_digit_not: "is_digit c \<Longrightarrow> \<not> is_space c \<and> c \<noteq> NUL \<and> c \<noteq> CHR ''-'' \<and> c \<noteq> CHR ''+''"
  by (auto simp: is_digit_def is_space_def)

text \<open>Printing a non-negative \<open>int\<close> and reading it back.\<close>

lemma atoi_dec_nat:
  assumes "n \<le> 2147483647"
  shows "atoi (dec_nat n) = int n"
proof -
  obtain c cs where n: "dec_nat n = c # cs" by (cases "dec_nat n") auto
  then have "is_digit c" using dec_nat_digits [of n] by simp
  with n have "dropWhile is_space (dec_nat n) = c # cs" "c \<noteq> CHR ''-''" "c \<noteq> CHR ''+''"
    by (auto dest: is_digit_not)
  with n assms digits_val_dec_nat [of n] show ?thesis
    by (simp add: atoi_def clamp32_def)
qed

section \<open>Allocation\<close>

text \<open>\<open>mok n\<close> says whether the allocator can serve a request of \<open>n\<close> bytes.\<close>

type_synonym alloc = "nat \<Rightarrow> bool"

definition alloc_ok :: alloc where "alloc_ok n = True"

lemma alloc_ok: "alloc_ok n" by (simp add: alloc_ok_def)

text \<open>The string a pointer points to, where a function walks to its terminator.\<close>

definition cstrE :: "char list option \<Rightarrow> string outcome" where
  "cstrE p = (case p of None \<Rightarrow> Inl NullDeref
                | Some m \<Rightarrow> if terminated m then Inr (cstr m) else Inl Unterminated)"

lemma cstrE_Some_NUL [simp]: "NUL \<notin> set s \<Longrightarrow> cstrE (Some (s @ NUL # r)) = Inr s"
  by (simp add: cstrE_def cstr_append_NUL terminated_def)

text \<open>\<open>z3_strdup\<close> is \<open>_z3_strdup\<close> of \<open>z3_utilib/z3_alloc.c\<close> in a debug build, which makes no copy of
  an empty string and returns NULL, and the C library's \<open>strdup\<close> otherwise.\<close>

definition z3_strdup :: "bool \<Rightarrow> alloc \<Rightarrow> string \<Rightarrow> string option" where
  "z3_strdup debug mok s =
     (if debug then (if length s + 1 > 1 then (if mok (length s + 1) then Some s else None) else None)
      else if mok (length s + 1) then Some s else None)"

end
