(* ===== verification/RtspDef.thy ===== *)
theory RtspDef
  imports Z3Prelude
begin

unbundle bit_operations_syntax

text \<open>
  The protocol vocabulary and line utilities of \<open>z3_rtsp_client/z3_rtsp_def.cpp\<close>: method and
  header tables with their lookups, status texts, white-space normalisation in place, and the
  bounded token readers. Functions that write through their pointer take the memory from that
  pointer on and return it with its length unchanged.
\<close>

section \<open>Methods, header fields, versions\<close>

type_synonym RTSP_METHOD = u32
type_synonym RTSP_HEADER_FIELD = u32
type_synonym RTSP_VERSION = u32
type_synonym RTSP_STATUS_CODE = u32

abbreviation (input) RTSP_INVALID :: RTSP_METHOD where "RTSP_INVALID \<equiv> 0"
abbreviation (input) RTSP_DESCRIBE :: RTSP_METHOD where "RTSP_DESCRIBE \<equiv> 1"  \<comment> \<open>\<open>1 << 0\<close>\<close>
abbreviation (input) RTSP_ANNOUNCE :: RTSP_METHOD where "RTSP_ANNOUNCE \<equiv> 2"  \<comment> \<open>\<open>1 << 1\<close>\<close>
abbreviation (input) RTSP_GET_PARAMETER :: RTSP_METHOD where "RTSP_GET_PARAMETER \<equiv> 4"  \<comment> \<open>\<open>1 << 2\<close>\<close>
abbreviation (input) RTSP_OPTIONS :: RTSP_METHOD where "RTSP_OPTIONS \<equiv> 8"  \<comment> \<open>\<open>1 << 3\<close>\<close>
abbreviation (input) RTSP_PAUSE :: RTSP_METHOD where "RTSP_PAUSE \<equiv> 16"  \<comment> \<open>\<open>1 << 4\<close>\<close>
abbreviation (input) RTSP_PLAY :: RTSP_METHOD where "RTSP_PLAY \<equiv> 32"  \<comment> \<open>\<open>1 << 5\<close>\<close>
abbreviation (input) RTSP_RECORD :: RTSP_METHOD where "RTSP_RECORD \<equiv> 64"  \<comment> \<open>\<open>1 << 6\<close>\<close>
abbreviation (input) RTSP_REDIRECT :: RTSP_METHOD where "RTSP_REDIRECT \<equiv> 128"  \<comment> \<open>\<open>1 << 7\<close>\<close>
abbreviation (input) RTSP_SETUP :: RTSP_METHOD where "RTSP_SETUP \<equiv> 256"  \<comment> \<open>\<open>1 << 8\<close>\<close>
abbreviation (input) RTSP_SET_PARAMETER :: RTSP_METHOD where "RTSP_SET_PARAMETER \<equiv> 512"  \<comment> \<open>\<open>1 << 9\<close>\<close>
abbreviation (input) RTSP_TEARDOWN :: RTSP_METHOD where "RTSP_TEARDOWN \<equiv> 1024"  \<comment> \<open>\<open>1 << 10\<close>\<close>
abbreviation (input) RTSP_GET :: RTSP_METHOD where "RTSP_GET \<equiv> 2048"  \<comment> \<open>\<open>1 << 11\<close>\<close>
abbreviation (input) RTSP_POST :: RTSP_METHOD where "RTSP_POST \<equiv> 4096"  \<comment> \<open>\<open>1 << 12\<close>\<close>

abbreviation (input) RTSP_VERSION_INVALID :: RTSP_VERSION where "RTSP_VERSION_INVALID \<equiv> 0x00"
abbreviation (input) RTSP_VERSION_1_0 :: RTSP_VERSION where "RTSP_VERSION_1_0 \<equiv> 0x10"
abbreviation (input) RTSP_VERSION_1_1 :: RTSP_VERSION where "RTSP_VERSION_1_1 \<equiv> 0x11"

abbreviation (input) RTSP_HDR_INVALID :: RTSP_HEADER_FIELD where "RTSP_HDR_INVALID \<equiv> 0"
abbreviation (input) RTSP_HDR_ACCEPT :: RTSP_HEADER_FIELD where "RTSP_HDR_ACCEPT \<equiv> 1"
abbreviation (input) RTSP_HDR_ACCEPT_ENCODING :: RTSP_HEADER_FIELD where "RTSP_HDR_ACCEPT_ENCODING \<equiv> 2"
abbreviation (input) RTSP_HDR_ACCEPT_LANGUAGE :: RTSP_HEADER_FIELD where "RTSP_HDR_ACCEPT_LANGUAGE \<equiv> 3"
abbreviation (input) RTSP_HDR_ALLOW :: RTSP_HEADER_FIELD where "RTSP_HDR_ALLOW \<equiv> 4"
abbreviation (input) RTSP_HDR_AUTHORIZATION :: RTSP_HEADER_FIELD where "RTSP_HDR_AUTHORIZATION \<equiv> 5"
abbreviation (input) RTSP_HDR_BANDWIDTH :: RTSP_HEADER_FIELD where "RTSP_HDR_BANDWIDTH \<equiv> 6"
abbreviation (input) RTSP_HDR_BLOCKSIZE :: RTSP_HEADER_FIELD where "RTSP_HDR_BLOCKSIZE \<equiv> 7"
abbreviation (input) RTSP_HDR_CACHE_CONTROL :: RTSP_HEADER_FIELD where "RTSP_HDR_CACHE_CONTROL \<equiv> 8"
abbreviation (input) RTSP_HDR_CONFERENCE :: RTSP_HEADER_FIELD where "RTSP_HDR_CONFERENCE \<equiv> 9"
abbreviation (input) RTSP_HDR_CONNECTION :: RTSP_HEADER_FIELD where "RTSP_HDR_CONNECTION \<equiv> 10"
abbreviation (input) RTSP_HDR_CONTENT_BASE :: RTSP_HEADER_FIELD where "RTSP_HDR_CONTENT_BASE \<equiv> 11"
abbreviation (input) RTSP_HDR_CONTENT_ENCODING :: RTSP_HEADER_FIELD where "RTSP_HDR_CONTENT_ENCODING \<equiv> 12"
abbreviation (input) RTSP_HDR_CONTENT_LANGUAGE :: RTSP_HEADER_FIELD where "RTSP_HDR_CONTENT_LANGUAGE \<equiv> 13"
abbreviation (input) RTSP_HDR_CONTENT_LENGTH :: RTSP_HEADER_FIELD where "RTSP_HDR_CONTENT_LENGTH \<equiv> 14"
abbreviation (input) RTSP_HDR_CONTENT_LOCATION :: RTSP_HEADER_FIELD where "RTSP_HDR_CONTENT_LOCATION \<equiv> 15"
abbreviation (input) RTSP_HDR_CONTENT_TYPE :: RTSP_HEADER_FIELD where "RTSP_HDR_CONTENT_TYPE \<equiv> 16"
abbreviation (input) RTSP_HDR_CSEQ :: RTSP_HEADER_FIELD where "RTSP_HDR_CSEQ \<equiv> 17"
abbreviation (input) RTSP_HDR_DATE :: RTSP_HEADER_FIELD where "RTSP_HDR_DATE \<equiv> 18"
abbreviation (input) RTSP_HDR_EXPIRES :: RTSP_HEADER_FIELD where "RTSP_HDR_EXPIRES \<equiv> 19"
abbreviation (input) RTSP_HDR_FROM :: RTSP_HEADER_FIELD where "RTSP_HDR_FROM \<equiv> 20"
abbreviation (input) RTSP_HDR_IF_MODIFIED_SINCE :: RTSP_HEADER_FIELD where "RTSP_HDR_IF_MODIFIED_SINCE \<equiv> 21"
abbreviation (input) RTSP_HDR_LAST_MODIFIED :: RTSP_HEADER_FIELD where "RTSP_HDR_LAST_MODIFIED \<equiv> 22"
abbreviation (input) RTSP_HDR_PROXY_AUTHENTICATE :: RTSP_HEADER_FIELD where "RTSP_HDR_PROXY_AUTHENTICATE \<equiv> 23"
abbreviation (input) RTSP_HDR_PROXY_REQUIRE :: RTSP_HEADER_FIELD where "RTSP_HDR_PROXY_REQUIRE \<equiv> 24"
abbreviation (input) RTSP_HDR_PUBLIC :: RTSP_HEADER_FIELD where "RTSP_HDR_PUBLIC \<equiv> 25"
abbreviation (input) RTSP_HDR_RANGE :: RTSP_HEADER_FIELD where "RTSP_HDR_RANGE \<equiv> 26"
abbreviation (input) RTSP_HDR_REFERER :: RTSP_HEADER_FIELD where "RTSP_HDR_REFERER \<equiv> 27"
abbreviation (input) RTSP_HDR_REQUIRE :: RTSP_HEADER_FIELD where "RTSP_HDR_REQUIRE \<equiv> 28"
abbreviation (input) RTSP_HDR_RETRY_AFTER :: RTSP_HEADER_FIELD where "RTSP_HDR_RETRY_AFTER \<equiv> 29"
abbreviation (input) RTSP_HDR_RTP_INFO :: RTSP_HEADER_FIELD where "RTSP_HDR_RTP_INFO \<equiv> 30"
abbreviation (input) RTSP_HDR_SCALE :: RTSP_HEADER_FIELD where "RTSP_HDR_SCALE \<equiv> 31"
abbreviation (input) RTSP_HDR_SESSION :: RTSP_HEADER_FIELD where "RTSP_HDR_SESSION \<equiv> 32"
abbreviation (input) RTSP_HDR_SERVER :: RTSP_HEADER_FIELD where "RTSP_HDR_SERVER \<equiv> 33"
abbreviation (input) RTSP_HDR_SPEED :: RTSP_HEADER_FIELD where "RTSP_HDR_SPEED \<equiv> 34"
abbreviation (input) RTSP_HDR_TRANSPORT :: RTSP_HEADER_FIELD where "RTSP_HDR_TRANSPORT \<equiv> 35"
abbreviation (input) RTSP_HDR_UNSUPPORTED :: RTSP_HEADER_FIELD where "RTSP_HDR_UNSUPPORTED \<equiv> 36"
abbreviation (input) RTSP_HDR_USER_AGENT :: RTSP_HEADER_FIELD where "RTSP_HDR_USER_AGENT \<equiv> 37"
abbreviation (input) RTSP_HDR_VIA :: RTSP_HEADER_FIELD where "RTSP_HDR_VIA \<equiv> 38"
abbreviation (input) RTSP_HDR_WWW_AUTHENTICATE :: RTSP_HEADER_FIELD where "RTSP_HDR_WWW_AUTHENTICATE \<equiv> 39"
abbreviation (input) RTSP_HDR_LOCATION :: RTSP_HEADER_FIELD where "RTSP_HDR_LOCATION \<equiv> 40"
abbreviation (input) RTSP_HDR_ETAG :: RTSP_HEADER_FIELD where "RTSP_HDR_ETAG \<equiv> 41"
abbreviation (input) RTSP_HDR_IF_MATCH :: RTSP_HEADER_FIELD where "RTSP_HDR_IF_MATCH \<equiv> 42"
abbreviation (input) RTSP_HDR_TIMESTAMP :: RTSP_HEADER_FIELD where "RTSP_HDR_TIMESTAMP \<equiv> 43"
abbreviation (input) RTSP_HDR_AUTHENTICATION_INFO :: RTSP_HEADER_FIELD where "RTSP_HDR_AUTHENTICATION_INFO \<equiv> 44"
abbreviation (input) RTSP_HDR_HOST :: RTSP_HEADER_FIELD where "RTSP_HDR_HOST \<equiv> 45"
abbreviation (input) RTSP_HDR_PRAGMA :: RTSP_HEADER_FIELD where "RTSP_HDR_PRAGMA \<equiv> 46"
abbreviation (input) RTSP_HDR_X_SERVER_IP_ADDRESS :: RTSP_HEADER_FIELD where "RTSP_HDR_X_SERVER_IP_ADDRESS \<equiv> 47"
abbreviation (input) RTSP_HDR_X_SESSIONCOOKIE :: RTSP_HEADER_FIELD where "RTSP_HDR_X_SESSIONCOOKIE \<equiv> 48"
abbreviation (input) RTSP_HDR_LAST :: RTSP_HEADER_FIELD where "RTSP_HDR_LAST \<equiv> 49"

definition RTSP_METHODS :: "string list" where
  "RTSP_METHODS = [''DESCRIBE'', ''ANNOUNCE'', ''GET_PARAMETER'', ''OPTIONS'', ''PAUSE'', ''PLAY'',
    ''RECORD'', ''REDIRECT'', ''SETUP'', ''SET_PARAMETER'', ''TEARDOWN'', ''GET'', ''POST'']"

definition RTSP_HEADERS :: "(string \<times> bool) list" where
  "RTSP_HEADERS = [
    (''Accept'', True), (''Accept-Encoding'', True), (''Accept-Language'', True),
    (''Allow'', True), (''Authorization'', False), (''Bandwidth'', False),
    (''Blocksize'', False), (''Cache-Control'', True), (''Conference'', False),
    (''Connection'', True), (''Content-Base'', False), (''Content-Encoding'', True),
    (''Content-Language'', True), (''Content-Length'', False), (''Content-Location'', False),
    (''Content-Type'', False), (''CSeq'', False), (''Date'', False), (''Expires'', False),
    (''From'', False), (''If-Modified-Since'', False), (''Last-Modified'', False),
    (''Proxy-Authenticate'', True), (''Proxy-Require'', True), (''Public'', True),
    (''Range'', False), (''Referer'', False), (''Require'', True), (''Retry-After'', False),
    (''RTP-Info'', True), (''Scale'', False), (''Session'', False), (''Server'', False),
    (''Speed'', False), (''Transport'', True), (''Unsupported'', False),
    (''User-Agent'', False), (''Via'', True), (''WWW-Authenticate'', True),
    (''Location'', False), (''ETag'', False), (''If-Match'', True), (''Timestamp'', False),
    (''Authentication-Info'', False), (''Host'', False), (''Pragma'', True),
    (''X-Server-IP-Address'', False), (''X-Sessioncookie'', False)]"

definition RTSP_STATUS_TEXTS :: "(RTSP_STATUS_CODE \<times> string) list" where
  "RTSP_STATUS_TEXTS = [
    (100, ''Continue''), (200, ''OK''), (201, ''Created''), (250, ''Low on Storage Space''),
    (300, ''Multiple Choices''), (301, ''Moved Permanently''), (302, ''Move Temporarily''),
    (303, ''See Other''), (304, ''Not Modified''), (305, ''Use Proxy''),
    (400, ''Bad Request''), (401, ''Unauthorized''), (402, ''Payment Required''),
    (403, ''Forbidden''), (404, ''Not Found''), (405, ''Method Not Allowed''),
    (406, ''Not Acceptable''), (407, ''Proxy Authentication Required''),
    (408, ''Request Time-out''), (410, ''Gone''), (411, ''Length Required''),
    (412, ''Precondition Failed''), (413, ''Request Entity Too Large''),
    (414, ''Request-URI Too Large''), (415, ''Unsupported Media Type''),
    (451, ''Parameter Not Understood''), (452, ''Conference Not Found''),
    (453, ''Not Enough Bandwidth''), (454, ''Session Not Found''),
    (455, ''Method Not Valid in This State''),
    (456, ''Header Field Not Valid for Resource''), (457, ''Invalid Range''),
    (458, ''Parameter Is Read-Only''), (459, ''Aggregate operation not allowed''),
    (460, ''Only aggregate operation allowed''), (461, ''Unsupported transport''),
    (462, ''Destination unreachable''), (500, ''Internal Server Error''),
    (501, ''Not Implemented''), (502, ''Bad Gateway''), (503, ''Service Unavailable''),
    (504, ''Gateway Time-out''), (505, ''RTSP Version not supported''),
    (551, ''Option not supported'')]"

lemma length_RTSP_METHODS [simp]: "length RTSP_METHODS = 13"
  by (simp add: RTSP_METHODS_def)

lemma length_RTSP_HEADERS [simp]: "length RTSP_HEADERS = 48"
  by (simp add: RTSP_HEADERS_def)

section \<open>Lookups\<close>

text \<open>\<open>options_bits\<close> is the sequence of tests of \<open>RTSP_OPTIONS_AS_TEXT\<close>, in its order; each set
  bit appends its text.\<close>

definition options_bits :: "(RTSP_METHOD \<times> string) list" where
  "options_bits = [(RTSP_OPTIONS, ''OPTIONS''), (RTSP_DESCRIBE, ''DESCRIBE''),
     (RTSP_ANNOUNCE, ''ANNOUNCE''), (RTSP_PAUSE, ''PAUSE''), (RTSP_PLAY, ''PLAY''),
     (RTSP_RECORD, ''RECORD''), (RTSP_REDIRECT, ''REDIRECT''), (RTSP_SETUP, ''SETUP''),
     (RTSP_GET_PARAMETER, ''GET_PARAMETER''), (RTSP_SET_PARAMETER, ''SET_PARAMETER''),
     (RTSP_TEARDOWN, ''TEARDOWN'')]"

definition options_strcat :: "RTSP_METHOD \<Rightarrow> string" where
  "options_strcat options =
     concat (map (\<lambda>(b, t). if options AND b \<noteq> 0 then t @ '', '' else []) options_bits)"

text \<open>The loop that cuts the string back to before its last comma: \<open>chop_comma e s\<close> has its
  \<open>end\<close> pointer at index \<open>e\<close>.\<close>

fun chop_comma :: "nat \<Rightarrow> string \<Rightarrow> string" where
  "chop_comma 0 s = s"
| "chop_comma (Suc e) s =
     (if s ! Suc e = CHR '','' then take (Suc e) s else chop_comma e (take (Suc e) s))"

definition RTSP_OPTIONS_AS_TEXT :: "RTSP_METHOD \<Rightarrow> string" where
  "RTSP_OPTIONS_AS_TEXT options =
     (let str = options_strcat options in chop_comma (length str - 1) str)"

definition RTSP_HEADER_AS_TEXT :: "RTSP_HEADER_FIELD \<Rightarrow> string option outcome" where
  "RTSP_HEADER_AS_TEXT field =
     (if field = RTSP_HDR_INVALID then Inr None
      else let i = unat (field - 1) in
           if i < length RTSP_HEADERS then Inr (Some (fst (RTSP_HEADERS ! i)))
           else if i = length RTSP_HEADERS then Inr None
           else Inl OutOfBounds)"

function lowest_bit :: "nat \<Rightarrow> RTSP_METHOD \<Rightarrow> nat" where
  "lowest_bit i method =
     (if method \<noteq> 0 \<and> method AND 1 = 0 then lowest_bit (Suc i) (drop_bit 1 method) else i)"
  by pat_completeness auto

lemma unat_drop_bit_1: "unat (drop_bit 1 (m :: u32)) = unat m div 2"
  by (simp add: drop_bit_Suc unat_div_distrib)

lemma lowest_bit_decreases: "(m :: u32) \<noteq> 0 \<Longrightarrow> unat (drop_bit 1 m) < unat m"
  using unat_gt_0 [of m] by (simp only: unat_drop_bit_1) simp

termination lowest_bit
  by (relation "measure (\<lambda>(i, m). unat m)")
     (auto dest: lowest_bit_decreases)

declare lowest_bit.simps [simp del]

definition RTSP_METHOD_AS_TEXT :: "RTSP_METHOD \<Rightarrow> string option outcome" where
  "RTSP_METHOD_AS_TEXT method =
     (if method = RTSP_INVALID then Inr None
      else let i = lowest_bit 0 method in
           if i < length RTSP_METHODS then Inr (Some (RTSP_METHODS ! i))
           else if i = length RTSP_METHODS then Inr None
           else Inl OutOfBounds)"

fun find_method_from :: "nat \<Rightarrow> string list \<Rightarrow> string \<Rightarrow> RTSP_METHOD" where
  "find_method_from idx [] method = RTSP_INVALID"
| "find_method_from idx (n # ns) method =
     (if stricmp_eq n method then push_bit idx 1 else find_method_from (Suc idx) ns method)"

definition RtspFindMethod :: "string \<Rightarrow> RTSP_METHOD" where
  "RtspFindMethod method = find_method_from 0 RTSP_METHODS method"

fun find_header_from :: "nat \<Rightarrow> (string \<times> bool) list \<Rightarrow> string \<Rightarrow> RTSP_HEADER_FIELD" where
  "find_header_from idx [] h = RTSP_HDR_INVALID"
| "find_header_from idx ((n, mult) # ns) h =
     (if stricmp_eq n h then of_nat (idx + 1) else find_header_from (Suc idx) ns h)"

definition RtspFindHeaderField :: "string \<Rightarrow> RTSP_HEADER_FIELD" where
  "RtspFindHeaderField pHeader = find_header_from 0 RTSP_HEADERS pHeader"

definition RtspHeaderAllowMultiple :: "RTSP_HEADER_FIELD \<Rightarrow> bool outcome" where
  "RtspHeaderAllowMultiple field =
     (if field = RTSP_HDR_INVALID then Inr False
      else let i = unat (field - 1) in
           if i < length RTSP_HEADERS then Inr (snd (RTSP_HEADERS ! i))
           else if i = length RTSP_HEADERS then Inr False
           else Inl OutOfBounds)"

definition RTSP_STATUS_AS_TEXT :: "RTSP_STATUS_CODE \<Rightarrow> string" where
  "RTSP_STATUS_AS_TEXT code =
     (case map_of RTSP_STATUS_TEXTS code of Some t \<Rightarrow> t | None \<Rightarrow> ''Unknown Method'')"

text \<open>\<open>EINVAL\<close> is 22 and \<open>ENOMEM\<close> is 12 in \<open>errno.h\<close>.\<close>

definition RTSP_TRANS_STATUS_CODE :: "int \<Rightarrow> RTSP_STATUS_CODE" where
  "RTSP_TRANS_STATUS_CODE err =
     (if err = - 22 then 400 else if err = - 12 then 500 else 400)"

section \<open>Line utilities\<close>

text \<open>\<open>NormalizeLine\<close> walks the memory from its pointer on; where it meets white space it
  stores one blank and moves the rest of the string, terminator included, over the white
  space that follows. The memory is terminated wherever the program calls it; the first
  equation is reached on unterminated memory only.\<close>

function NormalizeLine :: "char list \<Rightarrow> char list \<times> nat" where
  "NormalizeLine [] = ([], 0)"
| "NormalizeLine (c # m) =
     (if c = NUL then (c # m, 0)
      else if is_space c then
        (let k = length (takeWhile is_space m);
             t = drop k m;
             m' = (if k = 0 then m else take (strlen t + 1) t @ drop (strlen t + 1) m);
             r = NormalizeLine m'
         in (CHR '' '' # fst r, k + snd r))
      else (let r = NormalizeLine m in (c # fst r, snd r)))"
  by pat_completeness auto

termination
  by (relation "measure length") (auto simp: min_def)

text \<open>\<open>trim_from i\<close> is the loop of \<open>TrimRightSpace\<close> about to test index \<open>i - 1\<close>.\<close>

fun trim_from :: "(char \<Rightarrow> bool) \<Rightarrow> nat \<Rightarrow> char list \<Rightarrow> char list" where
  "trim_from p 0 m = m"
| "trim_from p (Suc i) m = (if p (m ! i) then trim_from p i (m[i := NUL]) else m)"

definition TrimRightSpace :: "char list \<Rightarrow> char list" where
  "TrimRightSpace pLine = trim_from (\<lambda>c. c = CHR '' '') (strlen pLine) pLine"

definition strchomp :: "char list option \<Rightarrow> char list option" where
  "strchomp str = (case str of None \<Rightarrow> None | Some m \<Rightarrow> Some (trim_from is_space (strlen m) m))"

text \<open>\<open>ParseString\<close>: the second loop has \<open>idx\<close> characters of \<open>pDest\<close> written (the
  accumulator) and stands at the remaining string. Results: the code, the string in \<open>pDest\<close>,
  the string at the advanced \<open>*pSrc\<close>.\<close>

fun ParseString_loop :: "nat \<Rightarrow> string \<Rightarrow> string \<Rightarrow> result \<times> string \<times> string" where
  "ParseString_loop nSize dest [] = (EOK, dest, [])"
| "ParseString_loop nSize dest (c # cs) =
     (if is_space c then (EOK, dest, c # cs)
      else if length dest < nSize - 1 then ParseString_loop nSize (dest @ [c]) cs
      else (RTSP Z3_RTSP_EPARSE, dest, c # cs))"

definition ParseString :: "nat \<Rightarrow> string \<Rightarrow> result \<times> string \<times> string" where
  "ParseString nSize src = ParseString_loop nSize [] (dropWhile is_space src)"

text \<open>\<open>read_string\<close> and \<open>read_string_del\<close> drop what does not fit and return no code.\<close>

fun read_loop :: "(char \<Rightarrow> bool) \<Rightarrow> nat \<Rightarrow> string \<Rightarrow> string \<Rightarrow> string \<times> string" where
  "read_loop stop sz dest [] = (dest, [])"
| "read_loop stop sz dest (c # cs) =
     (if stop c then (dest, c # cs)
      else read_loop stop sz (if length dest < sz - 1 then dest @ [c] else dest) cs)"

definition read_string :: "nat \<Rightarrow> string \<Rightarrow> string \<times> string" where
  "read_string sz src = read_loop is_space sz [] (dropWhile is_space src)"

definition read_string_del :: "nat \<Rightarrow> char \<Rightarrow> string \<Rightarrow> string \<times> string" where
  "read_string_del sz del src = read_loop (\<lambda>c. c = del) sz [] (dropWhile is_space src)"

text \<open>\<open>Z3::ParseProtocolVersion\<close>. \<open>major\<close> and \<open>minor\<close> are what the two locals hold before
  \<open>sscanf_s\<close> stores into them, \<open>ver\<close> what \<open>*pVersion\<close> holds before the call: the source
  initialises none of them.\<close>

definition ParseProtocolVersion ::
    "u32 \<Rightarrow> u32 \<Rightarrow> RTSP_VERSION \<Rightarrow> string \<Rightarrow> result \<times> RTSP_VERSION" where
  "ParseProtocolVersion major0 minor0 ver pProtocol =
     (case index_of CHR ''/'' pProtocol of
        None \<Rightarrow> (RTSP Z3_RTSP_EPARSE, ver)
      | Some i \<Rightarrow>
          (let (n, major, minor) = sscanf_version major0 minor0 (drop (Suc i) pProtocol);
               res = (if n \<noteq> 2 then RTSP Z3_RTSP_EPARSE else EOK)
           in if stricmp_eq (take i pProtocol) ''RTSP''
              then (if major \<noteq> 1 \<or> minor \<noteq> 0 then (Z3 Z3_ERROR, RTSP_VERSION_INVALID)
                    else (res, ver))
              else (RTSP Z3_RTSP_EPARSE, ver)))"

text \<open>\<open>GenerateDateString\<close> of the broken-down time \<open>gmtime_s\<close> returns.\<close>

record tm =
  tm_sec :: nat
  tm_min :: nat
  tm_hour :: nat
  tm_mday :: nat
  tm_mon :: nat
  tm_year :: nat
  tm_wday :: nat

definition pad0 :: "nat \<Rightarrow> nat \<Rightarrow> string" where
  "pad0 w n = replicate (w - length (dec_nat n)) CHR ''0'' @ dec_nat n"

definition GenerateDateString :: "tm \<Rightarrow> string" where
  "GenerateDateString t =
     [''Sun'', ''Mon'', ''Tue'', ''Wed'', ''Thu'', ''Fri'', ''Sat''] ! tm_wday t @ '', ''
     @ pad0 2 (tm_mday t) @ '' ''
     @ [''Jan'', ''Feb'', ''Mar'', ''Apr'', ''May'', ''Jun'', ''Jul'', ''Aug'', ''Sep'',
        ''Oct'', ''Nov'', ''Dec''] ! tm_mon t @ '' ''
     @ pad0 4 (tm_year t + 1900) @ '' '' @ pad0 2 (tm_hour t) @ '':'' @ pad0 2 (tm_min t)
     @ '':'' @ pad0 2 (tm_sec t) @ '' GMT''"

section \<open>Table lookups and texts are inverse\<close>

lemma unat_push_bit_1: "k < 32 \<Longrightarrow> unat (push_bit k 1 :: u32) = 2 ^ k"
  by (simp add: push_bit_eq_mult unat_power2_u32)

lemma push_bit_1_nonzero: "k < 32 \<Longrightarrow> push_bit k 1 \<noteq> (0 :: u32)"
  using unat_push_bit_1 [of k] by auto

lemma push_bit_1_step:
  assumes "Suc k < 32"
  shows "push_bit (Suc k) 1 AND 1 = (0 :: u32)" "drop_bit 1 (push_bit (Suc k) 1) = (push_bit k 1 :: u32)"
proof -
  show "push_bit (Suc k) 1 AND 1 = (0 :: u32)"
    by (simp add: and_one_eq push_bit_eq_mult flip: even_iff_mod_2_eq_zero)
  have "unat (drop_bit 1 (push_bit (Suc k) 1) :: u32) = unat (push_bit k 1 :: u32)"
    using assms by (simp only: unat_drop_bit_1 unat_push_bit_1) (simp add: unat_push_bit_1)
  then show "drop_bit 1 (push_bit (Suc k) 1) = (push_bit k 1 :: u32)"
    by (simp only: word_unat_eq_iff)
qed

lemma lowest_bit_push_bit: "k < 32 \<Longrightarrow> lowest_bit i (push_bit k 1) = i + k"
proof (induction k arbitrary: i)
  case 0
  show ?case by (subst lowest_bit.simps) simp
next
  case (Suc k)
  then show ?case
    using push_bit_1_nonzero [of "Suc k"] push_bit_1_step [of k]
    by (subst lowest_bit.simps) (simp del: push_bit_of_1 push_bit_Suc)
qed

lemma header_code:
  assumes "i < 48"
  shows "unat (of_nat (i + 1) - 1 :: u32) = i" "of_nat (i + 1) \<noteq> (0 :: u32)"
proof -
  have small: "unat (of_nat n :: u32) = n" if "n < 100" for n
    using that by (intro unat_of_nat_u32) simp
  have "of_nat (i + 1) - 1 = (of_nat i :: u32)" by simp
  then show "unat (of_nat (i + 1) - 1 :: u32) = i" using small [of i] assms by simp
  have "unat (of_nat (i + 1) :: u32) = i + 1" using small [of "i + 1"] assms by simp
  then show "of_nat (i + 1) \<noteq> (0 :: u32)" by (metis add_is_0 one_neq_zero unat_0)
qed

lemma find_method_from_here:
  assumes "i < length ns" "stricmp_eq (ns ! i) m" "\<forall>j<i. \<not> stricmp_eq (ns ! j) m"
  shows "find_method_from idx ns m = push_bit (idx + i) 1"
  using assms
proof (induction ns arbitrary: idx i)
  case (Cons n ns)
  show ?case
  proof (cases i)
    case 0
    with Cons.prems show ?thesis by simp
  next
    case (Suc i')
    with Cons.prems have "\<forall>j<i'. \<not> stricmp_eq (ns ! j) m" "\<not> stricmp_eq n m"
      by (auto dest: spec [of _ "Suc _"])
    with Cons.IH [of i' "Suc idx"] Cons.prems Suc show ?thesis by simp
  qed
qed simp

lemma find_method_from_none:
  "\<forall>n \<in> set ns. \<not> stricmp_eq n m \<Longrightarrow> find_method_from idx ns m = RTSP_INVALID"
  by (induction ns arbitrary: idx) auto

lemma find_header_from_here:
  assumes "i < length ns" "stricmp_eq (fst (ns ! i)) h" "\<forall>j<i. \<not> stricmp_eq (fst (ns ! j)) h"
  shows "find_header_from idx ns h = of_nat (idx + i + 1)"
  using assms
proof (induction ns arbitrary: idx i)
  case (Cons n ns)
  show ?case
  proof (cases i)
    case 0
    with Cons.prems show ?thesis by (cases n) simp
  next
    case (Suc i')
    with Cons.prems have "\<forall>j<i'. \<not> stricmp_eq (fst (ns ! j)) h" "\<not> stricmp_eq (fst n) h"
      by (auto dest: spec [of _ "Suc _"])
    with Cons.IH [of i' "Suc idx"] Cons.prems Suc show ?thesis by (cases n) simp
  qed
qed simp

lemma find_header_from_none:
  "\<forall>n \<in> set ns. \<not> stricmp_eq (fst n) h \<Longrightarrow> find_header_from idx ns h = RTSP_HDR_INVALID"
  by (induction ns arbitrary: idx) auto

text \<open>No two entries of a table differ in case only, so the first match is the only one.\<close>

lemma RTSP_METHODS_distinct: "distinct (map (map to_lower) RTSP_METHODS)"
  by code_simp

lemma RTSP_HEADERS_distinct: "distinct (map (map to_lower \<circ> fst) RTSP_HEADERS)"
  by code_simp

lemma distinct_stricmp:
  assumes "distinct (map (map to_lower) ns)" "i < length ns" "stricmp_eq (ns ! i) m" "j < i"
  shows "\<not> stricmp_eq (ns ! j) m"
  using assms by (auto simp: distinct_conv_nth stricmp_eq_def) (metis less_trans nat_neq_iff)

lemma RtspFindMethod_nth:
  assumes "i < 13" "stricmp_eq (RTSP_METHODS ! i) m"
  shows "RtspFindMethod m = push_bit i 1"
  using assms find_method_from_here [of i RTSP_METHODS m 0]
    distinct_stricmp [OF RTSP_METHODS_distinct, of i m]
  by (auto simp: RtspFindMethod_def)

lemma RtspFindHeaderField_nth:
  assumes "i < 48" "stricmp_eq (fst (RTSP_HEADERS ! i)) h"
  shows "RtspFindHeaderField h = of_nat (i + 1)"
proof -
  have "\<not> stricmp_eq (fst (RTSP_HEADERS ! j)) h" if "j < i" for j
    using distinct_stricmp [of "map fst RTSP_HEADERS" i h j] RTSP_HEADERS_distinct assms that
    by simp
  with assms find_header_from_here [of i RTSP_HEADERS h 0] show ?thesis
    by (simp add: RtspFindHeaderField_def)
qed

lemma RTSP_METHOD_AS_TEXT_nth:
  "i < 13 \<Longrightarrow> RTSP_METHOD_AS_TEXT (push_bit i 1) = Inr (Some (RTSP_METHODS ! i))"
proof -
  assume i: "i < 13"
  with push_bit_1_nonzero [of i] lowest_bit_push_bit [of i 0] show ?thesis
    by (simp add: RTSP_METHOD_AS_TEXT_def Let_def del: push_bit_of_1)
qed

lemma RTSP_HEADER_AS_TEXT_nth:
  "i < 48 \<Longrightarrow> RTSP_HEADER_AS_TEXT (of_nat (i + 1)) = Inr (Some (fst (RTSP_HEADERS ! i)))"
  using header_code [of i]
  by (simp only: RTSP_HEADER_AS_TEXT_def Let_def length_RTSP_HEADERS if_True if_False)

text \<open>A lookup result is INVALID or the code of the matching table entry.\<close>

lemma RtspFindMethod_cases:
  obtains "RtspFindMethod m = RTSP_INVALID" "\<forall>n \<in> set RTSP_METHODS. \<not> stricmp_eq n m"
  | i where "i < 13" "stricmp_eq (RTSP_METHODS ! i) m" "RtspFindMethod m = push_bit i 1"
proof (cases "\<exists>i<13. stricmp_eq (RTSP_METHODS ! i) m")
  case True
  then show ?thesis using that(2) RtspFindMethod_nth by blast
next
  case False
  then have "\<forall>n \<in> set RTSP_METHODS. \<not> stricmp_eq n m"
    by (metis in_set_conv_nth length_RTSP_METHODS)
  then show ?thesis using that(1) find_method_from_none by (simp add: RtspFindMethod_def)
qed

lemma RtspFindHeaderField_cases:
  obtains "RtspFindHeaderField h = RTSP_HDR_INVALID"
      "\<forall>n \<in> set RTSP_HEADERS. \<not> stricmp_eq (fst n) h"
  | i where "i < 48" "stricmp_eq (fst (RTSP_HEADERS ! i)) h"
      "RtspFindHeaderField h = of_nat (i + 1)"
proof (cases "\<exists>i<48. stricmp_eq (fst (RTSP_HEADERS ! i)) h")
  case True
  then show ?thesis using that(2) RtspFindHeaderField_nth by blast
next
  case False
  then have "\<forall>n \<in> set RTSP_HEADERS. \<not> stricmp_eq (fst n) h"
    by (metis in_set_conv_nth length_RTSP_HEADERS)
  then show ?thesis
    using that(1) find_header_from_none by (simp add: RtspFindHeaderField_def)
qed

lemma RtspHeaderAllowMultiple_total:
  obtains b where "RtspHeaderAllowMultiple (RtspFindHeaderField h) = Inr b"
proof (cases rule: RtspFindHeaderField_cases [of h])
  case 1
  then have "RtspHeaderAllowMultiple (RtspFindHeaderField h) = Inr False"
    by (simp add: RtspHeaderAllowMultiple_def)
  then show ?thesis by (rule that)
next
  case (2 i)
  then have "RtspHeaderAllowMultiple (RtspFindHeaderField h) = Inr (snd (RTSP_HEADERS ! i))"
    using header_code [of i]
    by (simp only: RtspHeaderAllowMultiple_def Let_def length_RTSP_HEADERS if_True if_False)
  then show ?thesis by (rule that)
qed

section \<open>White space\<close>

text \<open>What \<open>NormalizeLine\<close> computes, on strings: every run of white space becomes one blank.\<close>

lemma length_dropWhile_less [termination_simp]: "length (dropWhile p s) < Suc (length s)"
  by (simp add: le_imp_less_Suc length_dropWhile_le)

fun squeeze :: "string \<Rightarrow> string" where
  "squeeze [] = []"
| "squeeze (c # s) =
     (if is_space c then CHR '' '' # squeeze (dropWhile is_space s) else c # squeeze s)"

lemma dropWhile_eq_drop_length: "drop (length (takeWhile p m)) m = dropWhile p m"
  by (induction m) auto

lemma cstr_dropWhile_space: "cstr (dropWhile is_space m) = dropWhile is_space (cstr m)"
  by (induction m) auto

lemma terminated_dropWhile_space: "terminated (dropWhile is_space m) \<longleftrightarrow> terminated m"
  by (induction m) auto

lemma cstr_take_strlen: "terminated m \<Longrightarrow> take (Suc (strlen m)) m = cstr m @ [NUL]"
  by (induction m) auto

lemma moved_string [cstring]:
  assumes "terminated t" "length t \<le> length m"
  shows "cstr (take (strlen t + 1) t @ drop (strlen t + 1) m) = cstr t"
    and "terminated (take (strlen t + 1) t @ drop (strlen t + 1) m)"
    and "length (take (strlen t + 1) t @ drop (strlen t + 1) m) = length m"
  using assms strlen_less [of t]
  by (simp_all add: cstr_take_strlen cstr_append_NUL terminated_def)

text \<open>One step of the loop on white space: the rest of the string starts at the first
  character that is not white space.\<close>

definition close_gap :: "char list \<Rightarrow> char list" where
  "close_gap m =
     (let k = length (takeWhile is_space m); t = drop k m
      in if k = 0 then m else take (strlen t + 1) t @ drop (strlen t + 1) m)"

lemma NormalizeLine_space:
  "is_space c \<Longrightarrow> c \<noteq> NUL \<Longrightarrow> NormalizeLine (c # m) =
     (CHR '' '' # fst (NormalizeLine (close_gap m)),
      length (takeWhile is_space m) + snd (NormalizeLine (close_gap m)))"
  by (simp add: close_gap_def Let_def)

lemma close_gap_props:
  assumes "terminated m"
  shows "cstr (close_gap m) = dropWhile is_space (cstr m)"
    and "terminated (close_gap m)" and "length (close_gap m) = length m"
proof -
  let ?t = "dropWhile is_space m"
  have t: "terminated ?t" "length ?t \<le> length m"
    using assms by (simp_all add: terminated_dropWhile_space length_dropWhile_le)
  have none: "?t = m" if "takeWhile is_space m = []"
    using that by (metis takeWhile_dropWhile_id append_Nil)
  show "cstr (close_gap m) = dropWhile is_space (cstr m)"
    using moved_string(1) [OF t] none
    by (auto simp: close_gap_def dropWhile_eq_drop_length cstr_dropWhile_space Let_def
        simp flip: cstr_dropWhile_space)
  show "terminated (close_gap m)" "length (close_gap m) = length m"
    using moved_string(2,3) [OF t] assms
    by (auto simp: close_gap_def dropWhile_eq_drop_length Let_def)
qed

declare NormalizeLine.simps(2) [simp del]

lemma NormalizeLine_other:
  "\<not> is_space c \<Longrightarrow> c \<noteq> NUL \<Longrightarrow>
     NormalizeLine (c # m) = (c # fst (NormalizeLine m), snd (NormalizeLine m))"
  by (simp add: NormalizeLine.simps Let_def)

lemma NormalizeLine_NUL: "NormalizeLine (NUL # m) = (NUL # m, 0)"
  by (simp add: NormalizeLine.simps)

lemma length_cstr_dropWhile:
  "length (takeWhile is_space m) + length (dropWhile is_space (cstr m)) = strlen m"
  by (induction m) auto

lemma NormalizeLine_spec:
  assumes "terminated m"
  shows "cstr (fst (NormalizeLine m)) = squeeze (cstr m)
       \<and> terminated (fst (NormalizeLine m))
       \<and> length (fst (NormalizeLine m)) = length m
       \<and> snd (NormalizeLine m) + length (squeeze (cstr m)) = strlen m"
  using assms
proof (induction "length m" arbitrary: m rule: less_induct)
  case (less m)
  then obtain c m' where m: "m = c # m'" by (cases m) auto
  consider "c = NUL" | "c \<noteq> NUL" "is_space c" | "c \<noteq> NUL" "\<not> is_space c" by blast
  then show ?case
  proof cases
    case 1
    then show ?thesis using m by (simp add: NormalizeLine_NUL)
  next
    case 2
    then have t: "terminated m'" using less.prems m by simp
    note gap = close_gap_props [OF t]
    have len: "length (close_gap m') < length m" using gap(3) m by simp
    from less.hyps [OF len gap(2)] show ?thesis
      using 2 m gap length_cstr_dropWhile [of m'] by (simp add: NormalizeLine_space)
  next
    case 3
    then have t: "terminated m'" "length m' < length m" using less.prems m by auto
    from less.hyps [OF t(2) t(1)] show ?thesis
      using 3 m by (simp add: NormalizeLine_other)
  qed
qed

text \<open>What the squeezed string looks like.\<close>

fun single_blanks :: "string \<Rightarrow> bool" where
  "single_blanks (a # b # s) \<longleftrightarrow>
     \<not> (is_space a \<and> is_space b) \<and> (is_space a \<longrightarrow> a = CHR '' '') \<and> single_blanks (b # s)"
| "single_blanks [a] \<longleftrightarrow> (is_space a \<longrightarrow> a = CHR '' '')"
| "single_blanks [] \<longleftrightarrow> True"

lemma single_blanks_Cons:
  "single_blanks (a # s) \<longleftrightarrow> (is_space a \<longrightarrow> a = CHR '' '' \<and> (s = [] \<or> \<not> is_space (hd s)))
     \<and> single_blanks s"
  by (cases s) auto

lemma hd_squeeze: "s \<noteq> [] \<Longrightarrow> squeeze s \<noteq> [] \<and> (is_space (hd (squeeze s)) \<longleftrightarrow> is_space (hd s))"
  by (cases s) auto

lemma squeeze_single_blanks: "single_blanks (squeeze s)"
proof (induction s rule: squeeze.induct)
  case (2 c s)
  show ?case
  proof (cases "is_space c")
    case True
    have "\<not> is_space (hd (squeeze (dropWhile is_space s)))" if "squeeze (dropWhile is_space s) \<noteq> []"
      using that hd_squeeze [of "dropWhile is_space s"] hd_dropWhile [of is_space s]
      by (cases "dropWhile is_space s") auto
    with True 2 show ?thesis by (auto simp: single_blanks_Cons)
  qed (use 2 in \<open>auto simp: single_blanks_Cons\<close>)
qed simp

lemma filter_squeeze: "filter (\<lambda>c. \<not> is_space c) (squeeze s) = filter (\<lambda>c. \<not> is_space c) s"
proof (induction s rule: squeeze.induct)
  case (2 c s)
  have "filter (\<lambda>c. \<not> is_space c) (dropWhile is_space s) = filter (\<lambda>c. \<not> is_space c) s"
    by (induction s) auto
  with 2 show ?case by simp
qed simp

lemma squeeze_idle: "single_blanks s \<Longrightarrow> squeeze s = s"
proof (induction s rule: squeeze.induct)
  case (2 c s)
  have "dropWhile is_space s = s" if "s = [] \<or> \<not> is_space (hd s)"
    using that by (cases s) auto
  with 2 show ?case by (auto simp: single_blanks_Cons)
qed simp

text \<open>The trimming loops remove the trailing characters that satisfy their test.\<close>

definition rstrip :: "(char \<Rightarrow> bool) \<Rightarrow> string \<Rightarrow> string" where
  "rstrip p s = rev (dropWhile p (rev s))"

lemma rstrip_snoc [simp]: "rstrip p (s @ [c]) = (if p c then rstrip p s else s @ [c])"
  by (simp add: rstrip_def)

lemma rstrip_Nil [simp]: "rstrip p [] = []"
  by (simp add: rstrip_def)

lemma trim_from_spec:
  assumes "NUL \<notin> set s" "\<not> p NUL"
  shows "cstr (trim_from p (length s) (s @ NUL # r)) = rstrip p s
       \<and> length (trim_from p (length s) (s @ NUL # r)) = length s + 1 + length r
       \<and> terminated (trim_from p (length s) (s @ NUL # r))"
  using assms
proof (induction s arbitrary: r rule: rev_induct)
  case Nil
  then show ?case by simp
next
  case (snoc c s)
  show ?case
  proof (cases "p c")
    case True
    have "(s @ c # NUL # r)[length s := NUL] = s @ NUL # NUL # r"
      by (simp add: list_update_append)
    with True snoc.IH [of "NUL # r"] snoc.prems show ?thesis
      by (simp add: nth_append)
  next
    case False
    with snoc.prems show ?thesis
      using cstr_append_NUL [of "s @ [c]" r] by (simp add: nth_append terminated_def)
  qed
qed

lemma trim_spec:
  assumes "terminated m" "\<not> p NUL"
  shows "cstr (trim_from p (strlen m) m) = rstrip p (cstr m)"
    and "length (trim_from p (strlen m) m) = length m"
    and "terminated (trim_from p (strlen m) m)"
proof -
  obtain r where m: "m = cstr m @ NUL # r" using terminated_split [OF assms(1)] by blast
  then have "length m = strlen m + 1 + length r" by (metis add.assoc length_Cons length_append plus_1_eq_Suc)
  then show "cstr (trim_from p (strlen m) m) = rstrip p (cstr m)"
    "length (trim_from p (strlen m) m) = length m" "terminated (trim_from p (strlen m) m)"
    using trim_from_spec [of "cstr m" p r] m assms(2) by auto
qed

lemma TrimRightSpace_props:
  assumes "terminated m"
  shows "cstr (TrimRightSpace m) = rstrip (\<lambda>c. c = CHR '' '') (cstr m)"
    and "length (TrimRightSpace m) = length m" and "terminated (TrimRightSpace m)"
  using trim_spec [OF assms, of "\<lambda>c. c = CHR '' ''"] by (simp_all add: TrimRightSpace_def)

section \<open>Token readers\<close>

lemma ParseString_loop_eq:
  "ParseString_loop n dest s =
     (let tok = takeWhile (\<lambda>c. \<not> is_space c) s; room = (n - 1) - length dest in
      if length tok \<le> room then (EOK, dest @ tok, drop (length tok) s)
      else (RTSP Z3_RTSP_EPARSE, dest @ take room tok, drop room s))"
proof (induction n dest s rule: ParseString_loop.induct)
  case (2 n dest c cs)
  show ?case
  proof (cases "\<not> is_space c \<and> length dest < n - 1")
    case True
    then obtain r where r: "n - Suc (length dest) = Suc r" "n - Suc (Suc (length dest)) = r"
      by (metis Suc_diff_Suc Suc_less_eq2 less_diff_conv plus_1_eq_Suc add.commute)
    with True 2 show ?thesis by (auto simp: Let_def)
  qed (auto simp: Let_def)
qed simp

lemma ParseString_eq:
  "ParseString n s =
     (let t = dropWhile is_space s; tok = takeWhile (\<lambda>c. \<not> is_space c) t in
      if length tok \<le> n - 1 then (EOK, tok, dropWhile (\<lambda>c. \<not> is_space c) t)
      else (RTSP Z3_RTSP_EPARSE, take (n - 1) tok, drop (n - 1) t))"
  by (simp add: ParseString_def ParseString_loop_eq Let_def dropWhile_eq_drop_length)

lemma read_loop_eq:
  "read_loop stop n dest s =
     (let tok = takeWhile (\<lambda>c. \<not> stop c) s in
      (dest @ take ((n - 1) - length dest) tok, dropWhile (\<lambda>c. \<not> stop c) s))"
proof (induction stop n dest s rule: read_loop.induct)
  case (2 stop n dest c cs)
  show ?case
  proof (cases "\<not> stop c \<and> length dest < n - 1")
    case True
    then obtain r where r: "n - Suc (length dest) = Suc r" "n - Suc (Suc (length dest)) = r"
      by (metis Suc_diff_Suc Suc_less_eq2 less_diff_conv plus_1_eq_Suc add.commute)
    with True 2 show ?thesis by (auto simp: Let_def)
  qed (use 2 in \<open>auto simp: Let_def\<close>)
qed simp

lemma read_string_eq:
  "read_string n s =
     (take (n - 1) (takeWhile (\<lambda>c. \<not> is_space c) (dropWhile is_space s)),
      dropWhile (\<lambda>c. \<not> is_space c) (dropWhile is_space s))"
  by (simp add: read_string_def read_loop_eq Let_def)

lemma read_string_del_eq:
  "read_string_del n d s =
     (take (n - 1) (takeWhile (\<lambda>c. c \<noteq> d) (dropWhile is_space s)),
      dropWhile (\<lambda>c. c \<noteq> d) (dropWhile is_space s))"
  by (simp add: read_string_del_def read_loop_eq Let_def)

section \<open>The text of a set of methods\<close>

fun comma_join :: "string list \<Rightarrow> string" where
  "comma_join [] = []"
| "comma_join [n] = n"
| "comma_join (n # ns) = n @ '', '' @ comma_join ns"

definition options_names :: "RTSP_METHOD \<Rightarrow> string list" where
  "options_names options = map snd (filter (\<lambda>(b, t). options AND b \<noteq> 0) options_bits)"

lemma strcat_names:
  "concat (map (\<lambda>(b, t). if options AND b \<noteq> 0 then t @ '', '' else []) tab) =
     (let ns = map snd (filter (\<lambda>(b, t). options AND b \<noteq> 0) tab)
      in if ns = [] then [] else comma_join ns @ '', '')"
proof (induction tab)
  case (Cons e tab)
  obtain b t where e: "e = (b, t)" by (cases e)
  let ?ns = "map snd (filter (\<lambda>(b, t). options AND b \<noteq> 0) tab)"
  have "comma_join (t # ?ns) = (if ?ns = [] then t else t @ '', '' @ comma_join ?ns)"
    by (cases ?ns) auto
  with Cons e show ?case by (auto simp: Let_def split: if_splits)
qed simp

lemma chop_comma_end: "s \<noteq> [] \<Longrightarrow> chop_comma (length s + 1) (s @ '', '') = s"
  by (cases s) (auto simp: nth_append)

lemma RTSP_OPTIONS_AS_TEXT_eq:
  assumes "\<forall>n \<in> set (options_names options). n \<noteq> []"
  shows "RTSP_OPTIONS_AS_TEXT options = comma_join (options_names options)"
proof (cases "options_names options")
  case Nil
  then have "options_strcat options = []"
    using strcat_names [of options options_bits]
    by (simp add: options_strcat_def options_names_def Let_def)
  with Nil show ?thesis by (simp add: RTSP_OPTIONS_AS_TEXT_def)
next
  case (Cons n ns)
  have ne: "comma_join (n # ns) \<noteq> []" using assms Cons by (cases ns) auto
  have "options_strcat options = comma_join (n # ns) @ '', ''"
    using Cons strcat_names [of options options_bits]
    by (simp add: options_strcat_def options_names_def Let_def)
  then show ?thesis
    using Cons chop_comma_end [OF ne] by (simp add: RTSP_OPTIONS_AS_TEXT_def Let_def)
qed

lemma length_strcat_le:
  "length (concat (map (\<lambda>(b, t). if options AND b \<noteq> 0 then t @ '', '' else []) tab))
   \<le> sum_list (map (\<lambda>(b, t). length t + 2) tab)"
  by (induction tab) (auto intro: trans_le_add2)

section \<open>Properties\<close>

text \<open>The method table and its two directions agree: looking up a string gives
  \<open>RTSP_INVALID\<close> exactly when no method name equals it up to case, and otherwise a method
  whose text is that name; looking up the text of the \<open>i\<close>-th method gives the bit \<open>1 << i\<close>.\<close>

theorem method_lookup_roundtrip:
  "(RtspFindMethod s = RTSP_INVALID \<longleftrightarrow> (\<forall>n \<in> set RTSP_METHODS. \<not> stricmp_eq n s)) \<and>
   (RtspFindMethod s \<noteq> RTSP_INVALID \<longrightarrow>
      (\<exists>t \<in> set RTSP_METHODS. stricmp_eq t s \<and> RTSP_METHOD_AS_TEXT (RtspFindMethod s) = Inr (Some t))) \<and>
   (\<forall>i < 13. RtspFindMethod (RTSP_METHODS ! i) = push_bit i 1)"
proof -
  have "RtspFindMethod (RTSP_METHODS ! i) = push_bit i 1" if "i < 13" for i
    using that by (simp add: RtspFindMethod_nth)
  moreover have "(RtspFindMethod s = RTSP_INVALID \<longleftrightarrow> (\<forall>n \<in> set RTSP_METHODS. \<not> stricmp_eq n s)) \<and>
     (RtspFindMethod s \<noteq> RTSP_INVALID \<longrightarrow>
      (\<exists>t \<in> set RTSP_METHODS. stricmp_eq t s \<and> RTSP_METHOD_AS_TEXT (RtspFindMethod s) = Inr (Some t)))"
  proof (cases rule: RtspFindMethod_cases [of s])
    case 1
    then show ?thesis by simp
  next
    case (2 i)
    then have "RTSP_METHODS ! i \<in> set RTSP_METHODS" by simp
    with 2 push_bit_1_nonzero [of i] RTSP_METHOD_AS_TEXT_nth [of i] show ?thesis
      by (auto simp del: push_bit_of_1)
  qed
  ultimately show ?thesis by blast
qed

theorem method_lookup_roundtrip_witness:
  "RTSP_METHOD_AS_TEXT (RtspFindMethod ''describe'') = Inr (Some ''DESCRIBE'')"
proof -
  have "stricmp_eq (RTSP_METHODS ! 0) ''describe''" by code_simp
  then have "\<not> (\<forall>n \<in> set RTSP_METHODS. \<not> stricmp_eq n ''describe'')"
    using nth_mem [of 0 RTSP_METHODS] by auto
  moreover have "t = ''DESCRIBE''" if "t \<in> set RTSP_METHODS" "stricmp_eq t ''describe''" for t
    using that by (auto simp: RTSP_METHODS_def stricmp_eq_def to_lower_def)
  ultimately show ?thesis using method_lookup_roundtrip [of "''describe''"] by blast
qed

text \<open>The header table agrees with the header enumeration in the same way: the text of
  field \<open>i + 1\<close> is entry \<open>i\<close>, looking that text up gives the field back whatever its case,
  and every header name found by the parser has an entry, so that neither
  \<open>RTSP_HEADER_AS_TEXT\<close> nor \<open>RtspHeaderAllowMultiple\<close> reads outside the table.\<close>

theorem header_lookup_roundtrip:
  "(\<forall>i < 48. RTSP_HEADER_AS_TEXT (of_nat (i + 1)) = Inr (Some (fst (RTSP_HEADERS ! i)))) \<and>
   (\<forall>i < 48. stricmp_eq (fst (RTSP_HEADERS ! i)) h \<longrightarrow> RtspFindHeaderField h = of_nat (i + 1)) \<and>
   (\<exists>b. RtspHeaderAllowMultiple (RtspFindHeaderField h) = Inr b) \<and>
   (RtspFindHeaderField h \<noteq> RTSP_HDR_INVALID \<longrightarrow>
      (\<exists>t. RTSP_HEADER_AS_TEXT (RtspFindHeaderField h) = Inr (Some t) \<and> stricmp_eq t h))"
proof -
  have "RtspFindHeaderField h \<noteq> RTSP_HDR_INVALID \<longrightarrow>
      (\<exists>t. RTSP_HEADER_AS_TEXT (RtspFindHeaderField h) = Inr (Some t) \<and> stricmp_eq t h)"
  proof (cases rule: RtspFindHeaderField_cases [of h])
    case (2 i)
    with RTSP_HEADER_AS_TEXT_nth [of i] show ?thesis by auto
  qed simp
  moreover obtain b where "RtspHeaderAllowMultiple (RtspFindHeaderField h) = Inr b"
    by (rule RtspHeaderAllowMultiple_total)
  ultimately show ?thesis
    using RTSP_HEADER_AS_TEXT_nth RtspFindHeaderField_nth by blast
qed

theorem header_lookup_roundtrip_witness:
  "RtspFindHeaderField ''CSEQ'' = RTSP_HDR_CSEQ"
proof -
  have "stricmp_eq (fst (RTSP_HEADERS ! 16)) ''CSEQ''" by code_simp
  then have "RtspFindHeaderField ''CSEQ'' = of_nat (16 + 1)"
    using conjunct1 [OF conjunct2 [OF header_lookup_roundtrip], rule_format, of 16] by simp
  then show ?thesis by simp
qed

text \<open>\<open>NormalizeLine\<close> on terminated memory replaces every run of white space of the string
  by one blank and changes nothing else: the result is \<open>squeeze\<close> of the string, has no two
  adjacent blanks and no other white space, keeps the other characters in order, stays within
  the same memory, and the returned count is the number of characters removed.\<close>

theorem NormalizeLine_correct:
  assumes "terminated m"
  shows "cstr (fst (NormalizeLine m)) = squeeze (cstr m)
    \<and> single_blanks (cstr (fst (NormalizeLine m)))
    \<and> filter (\<lambda>c. \<not> is_space c) (cstr (fst (NormalizeLine m))) = filter (\<lambda>c. \<not> is_space c) (cstr m)
    \<and> length (fst (NormalizeLine m)) = length m
    \<and> snd (NormalizeLine m) + length (cstr (fst (NormalizeLine m))) = strlen m"
  using NormalizeLine_spec [OF assms]
  by (simp_all add: squeeze_single_blanks filter_squeeze)

theorem NormalizeLine_correct_witness:
  "terminated (''a  b'' @ [NUL]) \<and> cstr (fst (NormalizeLine (''a  b'' @ [NUL]))) = ''a b''"
proof -
  have t: "terminated (''a  b'' @ [NUL])" by simp
  have "squeeze (cstr (''a  b'' @ [NUL])) = ''a b''" by (simp add: is_space_def)
  with t NormalizeLine_correct [OF t] show ?thesis by simp
qed

lemma take_takeWhile: "k \<le> length (takeWhile p s) \<Longrightarrow> take k (takeWhile p s) = take k s"
  by (metis min_absorb1 take_take takeWhile_eq_take)

text \<open>\<open>ParseString\<close> never writes more than its buffer holds, terminator included, and
  succeeds exactly when the next blank-delimited token fits; then it returns that token and
  leaves the source at the character after it.\<close>

theorem ParseString_bounded:
  assumes "0 < nSize" and "ParseString nSize src = (res, dest, rest)"
    and "tok = takeWhile (\<lambda>c. \<not> is_space c) (dropWhile is_space src)"
  shows "length dest + 1 \<le> nSize \<and> dropWhile is_space src = dest @ rest
    \<and> (if length tok < nSize then res = EOK \<and> dest = tok else res = RTSP Z3_RTSP_EPARSE)"
proof -
  let ?t = "dropWhile is_space src"
  have pre: "take k tok @ drop k ?t = ?t" if "k \<le> length tok" for k
    using that take_takeWhile [of k _ ?t] unfolding assms(3) by (metis append_take_drop_id)
  show ?thesis
    using assms(1,2) pre [of "nSize - 1"] unfolding assms(3)
    by (auto simp: ParseString_eq Let_def split: if_splits)
qed

theorem ParseString_bounded_witness:
  "ParseString 4 '' 200 OK'' = (EOK, ''200'', '' OK'') \<and> length ''200'' + 1 \<le> (4::nat)"
proof -
  have r: "ParseString 4 '' 200 OK'' = (EOK, ''200'', '' OK'')"
    by (simp add: ParseString_def is_space_def)
  from ParseString_bounded [OF _ r refl] r show ?thesis by simp
qed

text \<open>\<open>RTSP_OPTIONS_AS_TEXT\<close> gives the names of the set methods separated by a comma and a
  blank, with none after the last, and the string it builds on the way never outgrows its
  128 byte buffer, whatever the bits are.\<close>

theorem RTSP_OPTIONS_AS_TEXT_correct:
  "RTSP_OPTIONS_AS_TEXT options = comma_join (options_names options) \<and>
   length (options_strcat options) + 1 \<le> 128"
proof
  have "\<forall>n \<in> snd ` set options_bits. n \<noteq> []" by (simp add: options_bits_def)
  then have "\<forall>n \<in> set (options_names options). n \<noteq> []"
    by (auto simp: options_names_def)
  then show "RTSP_OPTIONS_AS_TEXT options = comma_join (options_names options)"
    by (rule RTSP_OPTIONS_AS_TEXT_eq)
  have "sum_list (map (\<lambda>(b, t). length t + 2) options_bits) \<le> 127"
    by (simp add: options_bits_def)
  with length_strcat_le [of options options_bits]
  show "length (options_strcat options) + 1 \<le> 128" by (simp add: options_strcat_def)
qed

end
