(* ===== verification/RtspMsg.thy ===== *)
theory RtspMsg
  imports RtspDef
begin

text \<open>
  RTSP messages, \<open>z3_rtsp_client/z3_rtsp_msg.cpp\<close>: a header entry with its inline buffer
  (\<open>RtspKeyValue\<close>), the two-size array of entries (\<open>RtspKeyValueArray\<close>), the three kinds of
  start line, and \<open>RtspMsg\<close> itself with its header, body and serialisation operations.

  \<open>mok n\<close> says whether \<open>z3_malloc\<close>/\<open>z3_calloc\<close> can serve a request of \<open>n\<close> bytes; objects made with
  \<open>new\<close> are taken to exist. A header value is passed as the memory its pointer points to
  (\<open>None\<close> is NULL).
\<close>

definition DEF_MAX_KEY_VALUE :: nat where "DEF_MAX_KEY_VALUE = 8"
definition TOP_MAX_KEY_VALUE :: nat where "TOP_MAX_KEY_VALUE = 16"
definition DEF_MAX_VALUE_LEN :: nat where "DEF_MAX_VALUE_LEN = 64"
definition RTSP_MSG_STRING_MAX_LENGTH :: nat where "RTSP_MSG_STRING_MAX_LENGTH = 1500"

lemmas msg_sizes = DEF_MAX_KEY_VALUE_def TOP_MAX_KEY_VALUE_def DEF_MAX_VALUE_LEN_def
  RTSP_MSG_STRING_MAX_LENGTH_def

section \<open>One header entry\<close>

datatype value_ptr =
    PNull
  | PInit                \<comment> \<open>points to \<open>m_szInit\<close>\<close>
  | PHeap "char list"    \<comment> \<open>an allocation with these contents\<close>

record RtspKeyValue =
  m_field :: RTSP_HEADER_FIELD
  m_nValueLen :: nat
  m_pValue :: value_ptr
  m_szInit :: "char list"

definition RtspKeyValue_new :: RtspKeyValue where
  "RtspKeyValue_new = \<lparr>m_field = RTSP_HDR_INVALID, m_nValueLen = 0, m_pValue = PNull,
     m_szInit = replicate DEF_MAX_VALUE_LEN NUL\<rparr>"

definition value_mem :: "RtspKeyValue \<Rightarrow> char list option" where
  "value_mem kv = (case m_pValue kv of PNull \<Rightarrow> None | PInit \<Rightarrow> Some (m_szInit kv) | PHeap m \<Rightarrow> Some m)"

text \<open>\<open>memcpy\<close> of \<open>n\<close> bytes out of the object \<open>src\<close> points to.\<close>

definition memread :: "char list option \<Rightarrow> nat \<Rightarrow> char list outcome" where
  "memread src n =
     (if n = 0 then Inr []
      else case src of
             None \<Rightarrow> Inl NullDeref
           | Some m \<Rightarrow> if n \<le> length m then Inr (take n m) else Inl OutOfBounds)"

definition FillKeyValue ::
    "alloc \<Rightarrow> RTSP_HEADER_FIELD \<Rightarrow> char list option \<Rightarrow> nat \<Rightarrow> RtspKeyValue \<Rightarrow> RtspKeyValue outcome" where
  "FillKeyValue mok fld pValue nValueLen kv =
     (if m_pValue kv \<noteq> PNull then Inl AssertFailed
      else if nValueLen \<le> DEF_MAX_VALUE_LEN then
        bindE (memread pValue nValueLen) (\<lambda>bytes.
          Inr (kv\<lparr>m_field := fld, m_nValueLen := nValueLen, m_pValue := PInit,
                  m_szInit := bytes @ drop nValueLen (m_szInit kv)\<rparr>))
      else if \<not> mok nValueLen then Inl NullDeref
      else bindE (memread pValue nValueLen) (\<lambda>bytes.
          Inr (kv\<lparr>m_field := fld, m_nValueLen := nValueLen, m_pValue := PHeap bytes\<rparr>)))"

definition UnsetKeyValue :: "RtspKeyValue \<Rightarrow> RtspKeyValue" where
  "UnsetKeyValue kv = kv\<lparr>m_field := RTSP_HDR_INVALID, m_nValueLen := 0, m_pValue := PNull,
     m_szInit := replicate DEF_MAX_VALUE_LEN NUL\<rparr>"

definition RtspKeyValue_assign ::
    "alloc \<Rightarrow> RtspKeyValue \<Rightarrow> RtspKeyValue \<Rightarrow> RtspKeyValue outcome" where
  "RtspKeyValue_assign mok this Key =
     (if m_pValue this \<noteq> PNull then Inl AssertFailed
      else if m_nValueLen Key > DEF_MAX_VALUE_LEN then
        (if \<not> mok (m_nValueLen Key) then Inl NullDeref
         else bindE (memread (value_mem Key) (m_nValueLen Key)) (\<lambda>bytes.
           Inr (this\<lparr>m_field := m_field Key, m_nValueLen := m_nValueLen Key,
                     m_pValue := PHeap bytes\<rparr>)))
      else bindE (memread (value_mem Key) (m_nValueLen Key)) (\<lambda>bytes.
           Inr (this\<lparr>m_field := m_field Key, m_nValueLen := m_nValueLen Key, m_pValue := PInit,
                     m_szInit := bytes @ drop (m_nValueLen Key) (m_szInit this)\<rparr>)))"

section \<open>The array of entries\<close>

record RtspKeyValueArray =
  m_nSize :: nat
  m_nKeyValueSum :: nat
  m_pRtspKeyValues :: "RtspKeyValue list"

definition RtspKeyValueArray_new :: RtspKeyValueArray where
  "RtspKeyValueArray_new = \<lparr>m_nSize = DEF_MAX_KEY_VALUE, m_nKeyValueSum = 0,
     m_pRtspKeyValues = replicate DEF_MAX_KEY_VALUE RtspKeyValue_new\<rparr>"

fun copy_key_values :: "alloc \<Rightarrow> RtspKeyValue list \<Rightarrow> RtspKeyValue list outcome" where
  "copy_key_values mok [] = Inr []"
| "copy_key_values mok (kv # kvs) =
     bindE (RtspKeyValue_assign mok RtspKeyValue_new kv) (\<lambda>kv'.
       bindE (copy_key_values mok kvs) (\<lambda>kvs'. Inr (kv' # kvs')))"

text \<open>The loop that fills a new array of \<open>n\<close> entries from the first \<open>m_nKeyValueSum\<close> old ones.\<close>

definition copy_into_new :: "alloc \<Rightarrow> nat \<Rightarrow> RtspKeyValueArray \<Rightarrow> RtspKeyValue list outcome" where
  "copy_into_new mok n a =
     (if m_nKeyValueSum a \<le> length (m_pRtspKeyValues a) \<and> m_nKeyValueSum a \<le> n then
        bindE (copy_key_values mok (take (m_nKeyValueSum a) (m_pRtspKeyValues a))) (\<lambda>kvs.
          Inr (kvs @ replicate (n - m_nKeyValueSum a) RtspKeyValue_new))
      else Inl OutOfBounds)"

definition TakeKeyValuesToLarger ::
    "alloc \<Rightarrow> nat \<Rightarrow> RtspKeyValueArray \<Rightarrow> (result \<times> RtspKeyValueArray) outcome" where
  "TakeKeyValuesToLarger mok nLargerSize a =
     (if nLargerSize \<le> m_nSize a then Inr (Z3 Z3_EINVAL, a)
      else bindE (copy_into_new mok nLargerSize a) (\<lambda>kvs.
             Inr (EOK, a\<lparr>m_pRtspKeyValues := kvs, m_nSize := nLargerSize\<rparr>)))"

definition AddKeyValue ::
    "alloc \<Rightarrow> RTSP_HEADER_FIELD \<Rightarrow> char list option \<Rightarrow> nat \<Rightarrow> RtspKeyValueArray
       \<Rightarrow> RtspKeyValueArray outcome" where
  "AddKeyValue mok fld pValue nValueLen a =
     (if m_nKeyValueSum a < length (m_pRtspKeyValues a) then
        bindE (FillKeyValue mok fld pValue nValueLen (m_pRtspKeyValues a ! m_nKeyValueSum a)) (\<lambda>kv.
          Inr (a\<lparr>m_pRtspKeyValues := (m_pRtspKeyValues a)[m_nKeyValueSum a := kv],
                 m_nKeyValueSum := m_nKeyValueSum a + 1\<rparr>))
      else Inl OutOfBounds)"

definition GetRtspKeyValue :: "nat \<Rightarrow> RtspKeyValueArray \<Rightarrow> RtspKeyValue option" where
  "GetRtspKeyValue nIndex a =
     (if nIndex < m_nKeyValueSum a then Some (m_pRtspKeyValues a ! nIndex) else None)"

definition RtspKeyValueArray_assign ::
    "alloc \<Rightarrow> RtspKeyValueArray \<Rightarrow> RtspKeyValueArray \<Rightarrow> RtspKeyValueArray outcome" where
  "RtspKeyValueArray_assign mok this Array =
     bindE (copy_into_new mok (m_nSize Array) Array) (\<lambda>kvs.
       Inr (this\<lparr>m_nSize := m_nSize Array, m_nKeyValueSum := m_nKeyValueSum Array,
                 m_pRtspKeyValues := kvs\<rparr>))"

section \<open>Start lines\<close>

record RtspRequest =
  rq_method :: RTSP_METHOD
  rq_pURI :: "string option"
  rq_nUriLen :: nat
  rq_version :: RTSP_VERSION

record RtspResponse =
  rs_code :: RTSP_STATUS_CODE
  rs_pReason :: "string option"
  rs_nReasonLen :: nat
  rs_version :: RTSP_VERSION

datatype RtspMsgObj = RTSP_MSG_REQUEST RtspRequest | RTSP_MSG_RESPONSE RtspResponse | RTSP_MSG_DATA char

definition RtspRequest_new :: RtspRequest where
  "RtspRequest_new = \<lparr>rq_method = RTSP_INVALID, rq_pURI = None, rq_nUriLen = 0,
     rq_version = RTSP_VERSION_INVALID\<rparr>"

definition RtspResponse_new :: RtspResponse where
  "RtspResponse_new = \<lparr>rs_code = 0, rs_pReason = None, rs_nReasonLen = 0,
     rs_version = RTSP_VERSION_INVALID\<rparr>"

definition RtspRequest_Init ::
    "alloc \<Rightarrow> RTSP_METHOD \<Rightarrow> string \<Rightarrow> nat \<Rightarrow> RTSP_VERSION \<Rightarrow> RtspRequest \<Rightarrow> result \<times> RtspRequest" where
  "RtspRequest_Init mok method pUri nUriLength ver r =
     (let r1 = r\<lparr>rq_method := method, rq_nUriLen := nUriLength + 1, rq_version := ver\<rparr>
      in if nUriLength + 1 > 1 then
           (if mok (nUriLength + 1) then (EOK, r1\<lparr>rq_pURI := Some (take nUriLength pUri)\<rparr>)
            else (Z3 Z3_ENOMEM, r1\<lparr>rq_pURI := None\<rparr>))
         else (Z3 Z3_ERROR, r1))"

definition RtspResponse_Init ::
    "alloc \<Rightarrow> RTSP_STATUS_CODE \<Rightarrow> string option \<Rightarrow> RtspResponse \<Rightarrow> result \<times> RtspResponse" where
  "RtspResponse_Init mok code pReason r =
     (let reason = (case pReason of None \<Rightarrow> RTSP_STATUS_AS_TEXT code | Some t \<Rightarrow> t);
          r1 = r\<lparr>rs_code := code, rs_version := RTSP_VERSION_1_0, rs_nReasonLen := length reason + 1\<rparr>
      in if length reason + 1 > 1 then
           (if mok (length reason + 1) then (EOK, r1\<lparr>rs_pReason := Some reason\<rparr>)
            else (Z3 Z3_ENOMEM, r1\<lparr>rs_pReason := None\<rparr>))
         else (Z3 Z3_ERROR, r1))"

section \<open>Messages\<close>

record RtspMsg =
  m_pMsgObj :: "RtspMsgObj option"
  m_pHdrFields :: "RtspKeyValueArray option"
  m_pBody :: "char list option"
  m_nBodySize :: u32

definition RtspMsg_new :: RtspMsg where
  "RtspMsg_new = \<lparr>m_pMsgObj = None, m_pHdrFields = None, m_pBody = None, m_nBodySize = 0\<rparr>"

definition Unset :: "RtspMsg \<Rightarrow> RtspMsg" where
  "Unset m = m\<lparr>m_pMsgObj := None, m_pHdrFields := None, m_pBody := None, m_nBodySize := 0\<rparr>"

definition InitRequest ::
    "alloc \<Rightarrow> RTSP_METHOD \<Rightarrow> string \<Rightarrow> nat \<Rightarrow> RtspMsg \<Rightarrow> result \<times> RtspMsg" where
  "InitRequest mok method pUri nUriLength m =
     (let (res, r) = RtspRequest_Init mok method pUri nUriLength RTSP_VERSION_1_0 RtspRequest_new
      in if res = EOK then (res, (Unset m)\<lparr>m_pMsgObj := Some (RTSP_MSG_REQUEST r)\<rparr>)
         else (res, Unset m))"

definition GetVersion :: "RtspMsg \<Rightarrow> RTSP_VERSION" where
  "GetVersion m = (case m_pMsgObj m of
      Some (RTSP_MSG_REQUEST r) \<Rightarrow> rq_version r | _ \<Rightarrow> RTSP_VERSION_INVALID)"

definition SetVersion :: "RTSP_VERSION \<Rightarrow> RtspMsg \<Rightarrow> result \<times> RtspMsg" where
  "SetVersion version m = (case m_pMsgObj m of
      Some (RTSP_MSG_REQUEST r) \<Rightarrow>
        (EOK, m\<lparr>m_pMsgObj := Some (RTSP_MSG_REQUEST (r\<lparr>rq_version := version\<rparr>))\<rparr>)
    | _ \<Rightarrow> (Z3 Z3_ERROR, m))"

definition GetMethod :: "RtspMsg \<Rightarrow> RTSP_METHOD" where
  "GetMethod m = (case m_pMsgObj m of
      Some (RTSP_MSG_REQUEST r) \<Rightarrow> rq_method r | _ \<Rightarrow> RTSP_INVALID)"

definition SetMethod :: "RTSP_METHOD \<Rightarrow> RtspMsg \<Rightarrow> result \<times> RtspMsg" where
  "SetMethod method m = (case m_pMsgObj m of
      Some (RTSP_MSG_REQUEST r) \<Rightarrow>
        (EOK, m\<lparr>m_pMsgObj := Some (RTSP_MSG_REQUEST (r\<lparr>rq_method := method\<rparr>))\<rparr>)
    | _ \<Rightarrow> (Z3 Z3_ERROR, m))"

definition AddHeader ::
    "alloc \<Rightarrow> RTSP_HEADER_FIELD \<Rightarrow> char list option \<Rightarrow> nat \<Rightarrow> RtspMsg \<Rightarrow> (result \<times> RtspMsg) outcome" where
  "AddHeader mok field pValue nLength m =
     (let kvs = (case m_pHdrFields m of None \<Rightarrow> RtspKeyValueArray_new | Some a \<Rightarrow> a);
          store = (\<lambda>a. m\<lparr>m_pHdrFields := Some a\<rparr>);
          add = (\<lambda>a. bindE (AddKeyValue mok field pValue nLength a) (\<lambda>a'. Inr (EOK, store a')))
      in if m_nSize kvs = DEF_MAX_KEY_VALUE then
           (if m_nKeyValueSum kvs = m_nSize kvs then
              bindE (TakeKeyValuesToLarger mok TOP_MAX_KEY_VALUE kvs) (\<lambda>(res, a).
                if res \<noteq> EOK then Inr (Z3 Z3_ERROR, store a) else add a)
            else add kvs)
         else if m_nSize kvs = TOP_MAX_KEY_VALUE then
           (if m_nKeyValueSum kvs = m_nSize kvs then Inr (Z3 Z3_ERROR, store kvs) else add kvs)
         else Inr (Z3 Z3_ERROR, store kvs))"

text \<open>\<open>GetHeader\<close>: \<open>None\<close> is the result \<open>Z3_RTSP_ENOTIMPL\<close>, \<open>Some p\<close> is \<open>Z3_EOK\<close> with the pointer
  \<open>p\<close> stored. The loop looks at the entries in order and counts those of the field.\<close>

fun GetHeader_loop ::
    "RTSP_HEADER_FIELD \<Rightarrow> nat \<Rightarrow> nat \<Rightarrow> RtspKeyValue list \<Rightarrow> char list option option" where
  "GetHeader_loop field nIndex nCnt [] = None"
| "GetHeader_loop field nIndex nCnt (kv # kvs) =
     (if m_field kv = field then
        (if nCnt = nIndex then Some (value_mem kv) else GetHeader_loop field nIndex (nCnt + 1) kvs)
      else GetHeader_loop field nIndex nCnt kvs)"

definition GetHeader :: "RTSP_HEADER_FIELD \<Rightarrow> nat \<Rightarrow> RtspMsg \<Rightarrow> char list option option" where
  "GetHeader field nIndex m =
     (case m_pHdrFields m of
        None \<Rightarrow> None
      | Some a \<Rightarrow> GetHeader_loop field nIndex 0 (take (m_nKeyValueSum a) (m_pRtspKeyValues a)))"

text \<open>\<open>RemoveHeader\<close>: the index of the entry to remove, then its replacement. The source reads
  the entry it moves into the hole at index \<open>i\<close>, the hole itself; so does the model.\<close>

fun RemoveHeader_find ::
    "RTSP_HEADER_FIELD \<Rightarrow> int \<Rightarrow> int \<Rightarrow> nat \<Rightarrow> RtspKeyValue list \<Rightarrow> nat option" where
  "RemoveHeader_find field nIndex cnt i [] = None"
| "RemoveHeader_find field nIndex cnt i (kv # kvs) =
     (if m_field kv = field then
        (if nIndex = -1 \<or> cnt = nIndex then Some i
         else RemoveHeader_find field nIndex (cnt + 1) (i + 1) kvs)
      else RemoveHeader_find field nIndex cnt (i + 1) kvs)"

definition RemoveHeader_at :: "alloc \<Rightarrow> nat \<Rightarrow> RtspKeyValueArray \<Rightarrow> RtspKeyValueArray outcome" where
  "RemoveHeader_at mok i a =
     (let a1 = a\<lparr>m_pRtspKeyValues := (m_pRtspKeyValues a)[i := UnsetKeyValue (m_pRtspKeyValues a ! i)]\<rparr>;
          dec = (\<lambda>b. b\<lparr>m_nKeyValueSum := m_nKeyValueSum b - 1\<rparr>)
      in if i < m_nKeyValueSum a - 1 then
           (let last = m_pRtspKeyValues a1 ! i in
            bindE (FillKeyValue mok (m_field last) (value_mem last) (m_nValueLen last) last) (\<lambda>kv.
              Inr (dec (a1\<lparr>m_pRtspKeyValues := (m_pRtspKeyValues a1)[i := UnsetKeyValue kv]\<rparr>))))
         else Inr (dec a1))"

definition RemoveHeader ::
    "alloc \<Rightarrow> RTSP_HEADER_FIELD \<Rightarrow> int \<Rightarrow> RtspMsg \<Rightarrow> (result \<times> RtspMsg) outcome" where
  "RemoveHeader mok field nIndex m =
     (case m_pHdrFields m of
        None \<Rightarrow> Inr (EOK, m)
      | Some a \<Rightarrow>
          (case RemoveHeader_find field nIndex 0 0 (take (m_nKeyValueSum a) (m_pRtspKeyValues a)) of
             None \<Rightarrow> Inr (RTSP Z3_RTSP_ENOTIMPL, m)
           | Some i \<Rightarrow> bindE (RemoveHeader_at mok i a) (\<lambda>a'.
                 Inr (EOK, m\<lparr>m_pHdrFields := Some a'\<rparr>))))"

section \<open>Responses, data, bodies\<close>

definition InitResponse ::
    "bool \<Rightarrow> alloc \<Rightarrow> RtspMsg option \<Rightarrow> RTSP_STATUS_CODE \<Rightarrow> string option \<Rightarrow> RtspMsg
       \<Rightarrow> (result \<times> RtspMsg) outcome" where
  "InitResponse debug mok pRequest code pReason m =
     (let (res, r) = RtspResponse_Init mok code pReason RtspResponse_new
      in if res \<noteq> EOK then Inr (res, Unset m)
         else
           (let m1 = (Unset m)\<lparr>m_pMsgObj := Some (RTSP_MSG_RESPONSE r)\<rparr> in
            case pRequest of
              None \<Rightarrow> Inr (EOK, m1)
            | Some q \<Rightarrow>
                bindE (case GetHeader RTSP_HDR_CSEQ 0 q of
                         None \<Rightarrow> Inr m1
                       | Some p \<Rightarrow> bindE (cstrE p) (\<lambda>s.
                           bindE (AddHeader mok RTSP_HDR_CSEQ p (length s) m1) (\<lambda>(_, m2). Inr m2)))
                (\<lambda>m2.
                   case GetHeader RTSP_HDR_SESSION 0 q of
                     None \<Rightarrow> Inr (EOK, m2)
                   | Some p \<Rightarrow> bindE (cstrE p) (\<lambda>s.
                       case z3_strdup debug mok s of
                         None \<Rightarrow> Inl NullDeref
                       | Some h \<Rightarrow>
                           (let h1 = (case index_of CHR '':'' h of None \<Rightarrow> h | Some i \<Rightarrow> take i h);
                                chomped = strchomp (Some (h1 @ [NUL]))
                            in bindE (cstrE chomped) (\<lambda>h2.
                                 AddHeader mok RTSP_HDR_SESSION chomped (length h2 + 1) m2))))))"

text \<open>\<open>InitData\<close> makes a \<open>RtspData\<close> object but does not store it in \<open>m_pMsgObj\<close>.\<close>

definition InitData :: "alloc \<Rightarrow> char \<Rightarrow> u32 \<Rightarrow> RtspMsg \<Rightarrow> result \<times> RtspMsg" where
  "InitData mok channel nBodySize m =
     (if mok (unat nBodySize) then
        (EOK, (Unset m)\<lparr>m_pBody := Some (replicate (unat nBodySize) NUL), m_nBodySize := nBodySize\<rparr>)
      else (Z3 Z3_ERROR, Unset m))"

definition SetBody :: "char list \<Rightarrow> u32 \<Rightarrow> RtspMsg \<Rightarrow> (result \<times> RtspMsg) outcome" where
  "SetBody pBuf nSize m =
     (case m_pBody m of
        None \<Rightarrow> Inl AssertFailed
      | Some b \<Rightarrow>
          if \<not> nSize < m_nBodySize m then Inl AssertFailed
          else bindE (memread (Some pBuf) (unat nSize)) (\<lambda>bytes.
            if unat nSize \<le> length b
            then Inr (EOK, m\<lparr>m_pBody := Some (bytes @ drop (unat nSize) b)\<rparr>)
            else Inl OutOfBounds))"

definition SetBodySize :: "alloc \<Rightarrow> u32 \<Rightarrow> RtspMsg \<Rightarrow> (result \<times> RtspMsg) outcome" where
  "SetBodySize mok nSize m =
     (if nSize > 0 then
        (if m_pBody m \<noteq> None \<or> m_nBodySize m \<noteq> 0 then Inl AssertFailed
         else if mok (unat nSize)
         then Inr (EOK, m\<lparr>m_pBody := Some (replicate (unat nSize) NUL), m_nBodySize := nSize\<rparr>)
         else Inr (Z3 Z3_ENOMEM, m))
      else Inr (Z3 Z3_ENOMEM, m))"

definition GetResponse ::
    "RtspMsg \<Rightarrow> (RTSP_STATUS_CODE \<times> string option \<times> RTSP_VERSION) option outcome" where
  "GetResponse m =
     (case m_pMsgObj m of
        None \<Rightarrow> Inl NullDeref
      | Some (RTSP_MSG_RESPONSE r) \<Rightarrow> Inr (Some (rs_code r, rs_pReason r, rs_version r))
      | Some _ \<Rightarrow> Inr None)"

section \<open>Serialisation\<close>

text \<open>\<open>_snprintf_s (buf, n, n, ...)\<close>: the length of the text. Where it and its terminator do not fit, and the count is not
  \<open>_TRUNCATE\<close>, the handler of invalid parameters ends the program. A NULL string argument prints as \<open>(null)\<close>.\<close>

definition snprintf_s :: "nat \<Rightarrow> string \<Rightarrow> nat outcome" where
  "snprintf_s n t = (if length t < n then Inr (length t) else Inl AssertFailed)"

definition str_arg :: "string option \<Rightarrow> string" where
  "str_arg p = (case p of None \<Rightarrow> ''(null)'' | Some s \<Rightarrow> s)"

definition CRLF :: string where "CRLF = [CR, LF]"

definition header_line :: "RtspKeyValue \<Rightarrow> string outcome" where
  "header_line kv =
     bindE (RTSP_HEADER_AS_TEXT (m_field kv)) (\<lambda>name.
       bindE (case value_mem kv of None \<Rightarrow> Inr ''(null)'' | Some v \<Rightarrow> cstrE (Some v)) (\<lambda>value.
         Inr (str_arg name @ '': '' @ value @ CRLF)))"

text \<open>\<open>AppendHeaders\<close>: \<open>None\<close> is the error return 0, otherwise the text written (whose length the
  source returns, so that an empty header list also returns 0).\<close>

fun AppendHeaders_loop :: "nat \<Rightarrow> RtspKeyValue list \<Rightarrow> string option outcome" where
  "AppendHeaders_loop nBufSize [] = Inr (Some [])"
| "AppendHeaders_loop nBufSize (kv # kvs) =
     bindE (header_line kv) (\<lambda>t.
     bindE (snprintf_s nBufSize t) (\<lambda>nSize.
       if nSize \<le> 0 then Inr None
       else if nBufSize > nSize
       then bindE (AppendHeaders_loop (nBufSize - nSize) kvs) (\<lambda>r.
         Inr (case r of None \<Rightarrow> None | Some ts \<Rightarrow> Some (t @ ts)))
       else Inr None))"

definition AppendHeaders :: "nat \<Rightarrow> RtspMsg \<Rightarrow> string option outcome" where
  "AppendHeaders nBufSize m =
     (case m_pHdrFields m of
        None \<Rightarrow> Inl NullDeref
      | Some a \<Rightarrow> AppendHeaders_loop nBufSize (take (m_nKeyValueSum a) (m_pRtspKeyValues a)))"

text \<open>The part of \<open>ToString\<close> after the start line, for requests and responses.\<close>

definition ToString_headers ::
    "alloc \<Rightarrow> string \<Rightarrow> RtspMsg \<Rightarrow> (string option \<times> RtspMsg) outcome" where
  "ToString_headers mok start m =
     bindE (RemoveHeader mok RTSP_HDR_CONTENT_LENGTH (-1) m) (\<lambda>(_, m1).
       if m_pBody m1 \<noteq> None \<and> m_nBodySize m1 > 0 then Inl AssertFailed
       else bindE (AppendHeaders (RTSP_MSG_STRING_MAX_LENGTH - length start) m1) (\<lambda>hdrs.
         case hdrs of
           None \<Rightarrow> Inr (None, m1)
         | Some h \<Rightarrow>
             if h = [] then Inr (None, m1)
             else bindE (snprintf_s (RTSP_MSG_STRING_MAX_LENGTH - length (start @ h)) CRLF) (\<lambda>nCount.
               if \<not> nCount > 0 then Inl AssertFailed
               else Inr (Some (start @ h @ CRLF), m1))))"

text \<open>\<open>ToString\<close>: \<open>None\<close> is the result \<open>false\<close>; \<open>now\<close> is the time \<open>GenerateDateString\<close> reads.\<close>

definition ToString ::
    "alloc \<Rightarrow> tm \<Rightarrow> RtspMsg \<Rightarrow> (string option \<times> RtspMsg) outcome" where
  "ToString mok now m =
     (if \<not> mok RTSP_MSG_STRING_MAX_LENGTH then Inr (None, m)
      else case m_pMsgObj m of
        None \<Rightarrow> Inl NullDeref
      | Some (RTSP_MSG_REQUEST r) \<Rightarrow>
          bindE (RTSP_METHOD_AS_TEXT (rq_method r)) (\<lambda>method.
            let start = str_arg method @ '' '' @ str_arg (rq_pURI r) @ '' RTSP/1.0'' @ CRLF in
            bindE (snprintf_s RTSP_MSG_STRING_MAX_LENGTH start) (\<lambda>nCount.
              if \<not> nCount > 0 then Inr (None, m)
              else ToString_headers mok start m))
      | Some (RTSP_MSG_RESPONSE r) \<Rightarrow>
          (let start = ''RTSP/1.0 '' @ dec_int (sint (rs_code r)) @ '' '' @ str_arg (rs_pReason r) @ CRLF;
               date = GenerateDateString now
           in bindE (snprintf_s RTSP_MSG_STRING_MAX_LENGTH start) (\<lambda>nCount.
              if \<not> nCount > 0 then Inr (None, m)
              else bindE (RemoveHeader mok RTSP_HDR_DATE (-1) m) (\<lambda>(_, m1).
                bindE (AddHeader mok RTSP_HDR_DATE (Some (date @ [NUL])) (length date + 1) m1)
                  (\<lambda>(_, m2). ToString_headers mok start m2))))
      | Some (RTSP_MSG_DATA channel) \<Rightarrow>
          if 1500 \<le> m_nBodySize m + 4 then Inr (None, m)
          else bindE (memread (m_pBody m) (unat (m_nBodySize m))) (\<lambda>body.
            Inr (Some ([CHR ''$'', channel,
                        char_of (unat (drop_bit 8 (m_nBodySize m) AND 0xff)),
                        char_of (unat (m_nBodySize m AND 0xff))] @ body), m)))"

section \<open>Header lists and their representation\<close>

text \<open>The abstract contents of a message's headers is a list of fields with the bytes copied for
  each. \<open>kv_of\<close> is the entry the code builds for one element, \<open>array_of\<close> the array for a list, and
  \<open>hdrs_repr m hs\<close> says that the message \<open>m\<close> holds the list \<open>hs\<close>.\<close>

type_synonym header = "RTSP_HEADER_FIELD \<times> char list"

definition kv_of :: "header \<Rightarrow> RtspKeyValue" where
  "kv_of h =
     (if length (snd h) \<le> DEF_MAX_VALUE_LEN
      then \<lparr>m_field = fst h, m_nValueLen = length (snd h), m_pValue = PInit,
            m_szInit = snd h @ replicate (DEF_MAX_VALUE_LEN - length (snd h)) NUL\<rparr>
      else \<lparr>m_field = fst h, m_nValueLen = length (snd h), m_pValue = PHeap (snd h),
            m_szInit = replicate DEF_MAX_VALUE_LEN NUL\<rparr>)"

definition value_of :: "char list \<Rightarrow> char list" where
  "value_of b = (if length b \<le> DEF_MAX_VALUE_LEN
                 then b @ replicate (DEF_MAX_VALUE_LEN - length b) NUL else b)"

definition array_of :: "nat \<Rightarrow> header list \<Rightarrow> RtspKeyValueArray" where
  "array_of n hs = \<lparr>m_nSize = n, m_nKeyValueSum = length hs,
     m_pRtspKeyValues = map kv_of hs @ replicate (n - length hs) RtspKeyValue_new\<rparr>"

definition hdrs_repr :: "RtspMsg \<Rightarrow> header list \<Rightarrow> bool" where
  "hdrs_repr m hs \<longleftrightarrow>
     (case m_pHdrFields m of
        None \<Rightarrow> hs = []
      | Some a \<Rightarrow> \<exists>n \<in> {DEF_MAX_KEY_VALUE, TOP_MAX_KEY_VALUE}. length hs \<le> n \<and> a = array_of n hs)"

definition nth_header :: "RTSP_HEADER_FIELD \<Rightarrow> nat \<Rightarrow> header list \<Rightarrow> char list option" where
  "nth_header f i hs =
     (let vs = map snd (filter (\<lambda>h. fst h = f) hs) in if i < length vs then Some (vs ! i) else None)"

lemma kv_of_simps [simp]:
  "m_field (kv_of h) = fst h" "m_nValueLen (kv_of h) = length (snd h)"
  "value_mem (kv_of h) = Some (value_of (snd h))" "m_pValue (kv_of h) \<noteq> PNull"
  by (simp_all add: kv_of_def value_mem_def value_of_def)

lemma array_of_simps [simp]:
  "m_nSize (array_of n hs) = n" "m_nKeyValueSum (array_of n hs) = length hs"
  "take (length hs) (m_pRtspKeyValues (array_of n hs)) = map kv_of hs"
  by (simp_all add: array_of_def)

lemma length_array_of: "length hs \<le> n \<Longrightarrow> length (m_pRtspKeyValues (array_of n hs)) = n"
  by (simp add: array_of_def)

lemma cstr_value_of [simp]: "cstr (value_of b) = cstr b"
proof -
  have "cstr (b @ replicate k NUL) = cstr b" for k
    by (induction b) (auto, cases k, auto)
  then show ?thesis by (simp add: value_of_def)
qed

lemma terminated_value_of: "terminated b \<Longrightarrow> terminated (value_of b)"
  by (simp add: value_of_def terminated_def)

lemma cstrE_value_of: "terminated b \<Longrightarrow> cstrE (Some (value_of b)) = Inr (cstr b)"
  by (simp add: cstrE_def terminated_value_of)

lemma array_new: "RtspKeyValueArray_new = array_of DEF_MAX_KEY_VALUE []"
  by (simp add: RtspKeyValueArray_new_def array_of_def)

lemma FillKeyValue_new:
  assumes "n \<le> length v" "mok n"
  shows "FillKeyValue mok f (Some v) n RtspKeyValue_new = Inr (kv_of (f, take n v))"
  using assms
  by (auto simp: FillKeyValue_def RtspKeyValue_new_def memread_def kv_of_def)

lemma assign_kv_of:
  assumes "mok (length (snd h))"
  shows "RtspKeyValue_assign mok RtspKeyValue_new (kv_of h) = Inr (kv_of h)"
  using assms
  by (auto simp: RtspKeyValue_assign_def RtspKeyValue_new_def memread_def kv_of_def value_mem_def)

lemma copy_key_values_kv_of:
  "\<forall>h \<in> set hs. mok (length (snd h)) \<Longrightarrow> copy_key_values mok (map kv_of hs) = Inr (map kv_of hs)"
  by (induction hs) (auto simp: assign_kv_of)

lemma copy_into_new_array_of:
  assumes "\<forall>h \<in> set hs. mok (length (snd h))" "length hs \<le> k" "length hs \<le> n"
  shows "copy_into_new mok n (array_of k hs) = Inr (m_pRtspKeyValues (array_of n hs))"
  using assms copy_key_values_kv_of [of hs mok]
  by (simp add: copy_into_new_def length_array_of) (simp add: array_of_def)

lemma TakeKeyValuesToLarger_array_of:
  assumes "\<forall>h \<in> set hs. mok (length (snd h))" "length hs \<le> k" "k < n"
  shows "TakeKeyValuesToLarger mok n (array_of k hs) = Inr (EOK, array_of n hs)"
  using assms copy_into_new_array_of [of hs mok k n]
  by (simp add: TakeKeyValuesToLarger_def array_of_def)

lemma AddKeyValue_array_of:
  assumes "length hs < n" "k \<le> length v" "mok k"
  shows "AddKeyValue mok f (Some v) k (array_of n hs) = Inr (array_of n (hs @ [(f, take k v)]))"
proof -
  obtain j where j: "n - length hs = Suc j" using assms(1) by (metis Suc_diff_Suc)
  then have "m_pRtspKeyValues (array_of n hs) ! length hs = RtspKeyValue_new"
    by (simp add: array_of_def nth_append)
  moreover have "n - Suc (length hs) = j" using j by simp
  ultimately show ?thesis
    using assms j
    by (simp add: AddKeyValue_def length_array_of FillKeyValue_new)
       (simp add: array_of_def list_update_append)
qed

lemma nth_header_Cons:
  "nth_header f i (h # hs) =
     (if fst h = f then (case i of 0 \<Rightarrow> Some (snd h) | Suc k \<Rightarrow> nth_header f k hs)
      else nth_header f i hs)"
  by (simp add: nth_header_def Let_def split: nat.splits)

lemma GetHeader_loop_kv_of:
  "c \<le> i \<Longrightarrow> GetHeader_loop f i c (map kv_of hs) =
     map_option (\<lambda>b. Some (value_of b)) (nth_header f (i - c) hs)"
proof (induction hs arbitrary: c)
  case (Cons h hs)
  show ?case
  proof (cases "c < i")
    case True
    then obtain k where "i - c = Suc k" "i - Suc c = k" by (metis Suc_diff_Suc)
    with True Cons.IH [of c] Cons.IH [of "Suc c"] show ?thesis by (simp add: nth_header_Cons)
  next
    case False
    with Cons.prems Cons.IH [of c] show ?thesis by (simp add: nth_header_Cons)
  qed
qed (simp add: nth_header_def)

lemma hdrs_repr_cases:
  assumes "hdrs_repr m hs"
  obtains "m_pHdrFields m = None" "hs = []"
  | n where "m_pHdrFields m = Some (array_of n hs)" "length hs \<le> n"
      "n = DEF_MAX_KEY_VALUE \<or> n = TOP_MAX_KEY_VALUE"
  using assms by (auto simp: hdrs_repr_def split: option.splits)

lemma hdrs_reprI:
  "length hs \<le> n \<Longrightarrow> n = DEF_MAX_KEY_VALUE \<or> n = TOP_MAX_KEY_VALUE \<Longrightarrow>
     hdrs_repr (m\<lparr>m_pHdrFields := Some (array_of n hs)\<rparr>) hs"
  by (auto simp: hdrs_repr_def)

lemma hdrs_repr_fresh [simp]: "m_pHdrFields m = None \<Longrightarrow> hdrs_repr m hs \<longleftrightarrow> hs = []"
  by (simp add: hdrs_repr_def)

lemma GetHeader_repr:
  assumes "hdrs_repr m hs"
  shows "GetHeader f i m = map_option (\<lambda>b. Some (value_of b)) (nth_header f i hs)"
  using assms
proof (cases rule: hdrs_repr_cases)
  case 1
  then show ?thesis by (simp add: GetHeader_def nth_header_def)
next
  case (2 n)
  then show ?thesis
    using GetHeader_loop_kv_of [of 0 i f hs] by (simp add: GetHeader_def)
qed

lemma AddHeader_repr:
  assumes repr: "hdrs_repr m hs" and "length hs < TOP_MAX_KEY_VALUE"
    and "k \<le> length v" and "mok k" and "\<forall>h \<in> set hs. mok (length (snd h))"
  obtains n where "n = DEF_MAX_KEY_VALUE \<or> n = TOP_MAX_KEY_VALUE" "length hs < n"
    "AddHeader mok f (Some v) k m = Inr (EOK, m\<lparr>m_pHdrFields := Some (array_of n (hs @ [(f, take k v)]))\<rparr>)"
  using repr
proof (cases rule: hdrs_repr_cases)
  case 1
  then show ?thesis
    using assms AddKeyValue_array_of [of hs 8 k v mok f] that [of 8]
    by (auto simp: AddHeader_def array_new msg_sizes)
next
  case (2 n)
  show ?thesis
  proof (cases "length hs < n")
    case True
    then have "AddHeader mok f (Some v) k m = Inr (EOK, m\<lparr>m_pHdrFields := Some (array_of n (hs @ [(f, take k v)]))\<rparr>)"
      using 2 assms AddKeyValue_array_of [of hs n k v mok f]
      by (auto simp: AddHeader_def msg_sizes)
    with True 2 show ?thesis using that [of n] by blast
  next
    case False
    with 2 assms have n: "n = 8" "length hs = 8" by (auto simp: msg_sizes)
    then have "AddHeader mok f (Some v) k m = Inr (EOK, m\<lparr>m_pHdrFields := Some (array_of 16 (hs @ [(f, take k v)]))\<rparr>)"
      using 2 assms AddKeyValue_array_of [of hs 16 k v mok f] TakeKeyValuesToLarger_array_of [of hs mok 8 16]
      by (auto simp: AddHeader_def msg_sizes)
    with n show ?thesis using that [of 16] by (simp add: msg_sizes)
  qed
qed

lemma AddHeader_full:
  assumes repr: "hdrs_repr m hs" and "length hs = TOP_MAX_KEY_VALUE"
  shows "AddHeader mok f p k m = Inr (Z3 Z3_ERROR, m)"
  using repr
proof (cases rule: hdrs_repr_cases)
  case 1
  then show ?thesis using assms by (simp add: msg_sizes)
next
  case (2 n)
  then have "n = 16" using assms by (auto simp: msg_sizes)
  with 2 assms show ?thesis by (simp add: AddHeader_def msg_sizes)
qed

lemma hdrs_repr_le: "hdrs_repr m hs \<Longrightarrow> length hs \<le> TOP_MAX_KEY_VALUE"
  by (erule hdrs_repr_cases) (auto simp: msg_sizes)

lemma nth_header_append:
  "nth_header f i (hs @ [(g, b)]) =
     (if g = f \<and> i = length (filter (\<lambda>h. fst h = f) hs) then Some b else nth_header f i hs)"
  by (auto simp: nth_header_def Let_def nth_append)

section \<open>Removal\<close>

definition first_of :: "RTSP_HEADER_FIELD \<Rightarrow> header list \<Rightarrow> nat option" where
  "first_of f hs =
     (if \<exists>h \<in> set hs. fst h = f then Some (length (takeWhile (\<lambda>h. fst h \<noteq> f) hs)) else None)"

lemma RemoveHeader_find_first:
  "RemoveHeader_find f (-1) c i (map kv_of hs) = map_option (\<lambda>j. i + j) (first_of f hs)"
  by (induction hs arbitrary: c i) (auto simp: first_of_def)

lemma first_of_less: "first_of f hs = Some i \<Longrightarrow> i < length hs"
  by (induction hs arbitrary: i) (auto simp: first_of_def split: if_splits)

lemma UnsetKeyValue_new: "UnsetKeyValue kv = RtspKeyValue_new"
  by (simp add: UnsetKeyValue_def RtspKeyValue_new_def)

lemma RemoveHeader_absent:
  assumes "hdrs_repr m hs" "first_of f hs = None" "m_pHdrFields m \<noteq> None"
  shows "RemoveHeader mok f (-1) m = Inr (RTSP Z3_RTSP_ENOTIMPL, m)"
  using assms(1)
proof (cases rule: hdrs_repr_cases)
  case (2 n)
  with assms show ?thesis by (simp add: RemoveHeader_def RemoveHeader_find_first)
qed (use assms in simp)

lemma RemoveHeader_at_last:
  assumes "length hs < n"
  shows "RemoveHeader_at mok (length hs) (array_of n (hs @ [h])) = Inr (array_of n hs)"
proof -
  obtain j where "n - length hs = Suc j" "n - Suc (length hs) = j"
    using assms by (metis Suc_diff_Suc)
  then show ?thesis
    by (simp add: RemoveHeader_at_def UnsetKeyValue_new Let_def)
       (simp add: array_of_def list_update_append)
qed

lemma RemoveHeader_at_middle:
  assumes "i < length hs"
  shows "RemoveHeader_at mok i (array_of n (hs @ [h])) =
     Inr \<lparr>m_nSize = n, m_nKeyValueSum = length hs,
          m_pRtspKeyValues = (map kv_of hs)[i := RtspKeyValue_new] @ kv_of h #
             replicate (n - Suc (length hs)) RtspKeyValue_new\<rparr>"
proof -
  let ?a = "array_of n (hs @ [h])"
  have nth: "(m_pRtspKeyValues ?a)[i := x] ! i = x" for x
    using assms by (simp add: array_of_def)
  have fill: "FillKeyValue mok (m_field RtspKeyValue_new) (value_mem RtspKeyValue_new)
      (m_nValueLen RtspKeyValue_new) RtspKeyValue_new =
      Inr (RtspKeyValue_new\<lparr>m_pValue := PInit\<rparr>)"
    by (simp add: FillKeyValue_def RtspKeyValue_new_def memread_def msg_sizes)
  show ?thesis
    using assms
    by (simp add: RemoveHeader_at_def UnsetKeyValue_new Let_def nth fill)
       (simp add: array_of_def list_update_append)
qed

lemma GetHeader_loop_append:
  "GetHeader_loop g 0 0 (xs @ ys) =
     (case GetHeader_loop g 0 0 xs of None \<Rightarrow> GetHeader_loop g 0 0 ys | Some p \<Rightarrow> Some p)"
  by (induction xs) auto

lemma GetHeader_hole:
  assumes "i < length hs" "g \<noteq> RTSP_HDR_INVALID"
  shows "GetHeader_loop g 0 0 ((map kv_of hs)[i := RtspKeyValue_new]) =
    map_option (\<lambda>b. Some (value_of b)) (nth_header g 0 (take i hs @ drop (Suc i) hs))"
proof -
  have new: "m_field RtspKeyValue_new \<noteq> g" using assms(2) by (simp add: RtspKeyValue_new_def)
  have "(map kv_of hs)[i := RtspKeyValue_new] =
      map kv_of (take i hs) @ RtspKeyValue_new # map kv_of (drop (Suc i) hs)"
    using assms(1) by (simp add: upd_conv_take_nth_drop take_map drop_map)
  then have "GetHeader_loop g 0 0 ((map kv_of hs)[i := RtspKeyValue_new]) =
      GetHeader_loop g 0 0 (map kv_of (take i hs @ drop (Suc i) hs))"
    using new by (simp add: GetHeader_loop_append split: option.split)
  then show ?thesis by (simp only: GetHeader_loop_kv_of le_refl diff_zero)
qed

section \<open>The text of a header list\<close>

definition field_name :: "RTSP_HEADER_FIELD \<Rightarrow> string" where
  "field_name f = fst (RTSP_HEADERS ! unat (f - 1))"

definition header_ok :: "header \<Rightarrow> bool" where
  "header_ok h \<longleftrightarrow> fst h \<noteq> RTSP_HDR_INVALID \<and> unat (fst h - 1) < 48 \<and> terminated (snd h)"

definition header_text :: "header \<Rightarrow> string" where
  "header_text h = field_name (fst h) @ '': '' @ cstr (snd h) @ CRLF"

abbreviation headers_text :: "header list \<Rightarrow> string" where
  "headers_text hs \<equiv> concat (map header_text hs)"

lemma header_line_ok: "header_ok h \<Longrightarrow> header_line (kv_of h) = Inr (header_text h)"
  by (simp add: header_ok_def header_line_def header_text_def RTSP_HEADER_AS_TEXT_def Let_def
      field_name_def str_arg_def cstrE_value_of)

lemma header_text_ne [simp]: "header_text h \<noteq> []"
  by (simp add: header_text_def)

lemma AppendHeaders_loop_ok:
  assumes "\<forall>h \<in> set hs. header_ok h" "0 < n"
  shows "AppendHeaders_loop n (map kv_of hs) =
     (if length (headers_text hs) < n then Inr (Some (headers_text hs)) else Inl AssertFailed)"
  using assms
proof (induction hs arbitrary: n)
  case (Cons h hs)
  show ?case
  proof (cases "length (header_text h) < n")
    case True
    with Cons show ?thesis
      by (auto simp: header_line_ok snprintf_s_def)
  next
    case False
    with Cons.prems show ?thesis by (simp add: header_line_ok snprintf_s_def)
  qed
qed simp

lemma AppendHeaders_ok:
  assumes "hdrs_repr m hs" "hs \<noteq> []" "\<forall>h \<in> set hs. header_ok h" "0 < n"
  shows "AppendHeaders n m =
     (if length (headers_text hs) < n then Inr (Some (headers_text hs)) else Inl AssertFailed)"
  using assms(1)
proof (cases rule: hdrs_repr_cases)
  case (2 k)
  with assms show ?thesis by (simp add: AppendHeaders_def AppendHeaders_loop_ok)
qed (use assms in simp)

lemma ToString_headers_ok:
  assumes "hdrs_repr m hs" "hs \<noteq> []" "\<forall>h \<in> set hs. header_ok h"
    and "RTSP_HDR_CONTENT_LENGTH \<notin> fst ` set hs" and "m_pBody m = None"
    and "length start < RTSP_MSG_STRING_MAX_LENGTH"
  shows "ToString_headers mok start m =
     (if length (start @ headers_text hs) < 1498 then Inr (Some (start @ headers_text hs @ CRLF), m)
      else Inl AssertFailed)"
proof -
  have "first_of RTSP_HDR_CONTENT_LENGTH hs = None"
    using assms(4) by (force simp: first_of_def)
  moreover have "m_pHdrFields m \<noteq> None"
    using assms(1,2) by (auto simp: hdrs_repr_def split: option.splits)
  ultimately have rem: "RemoveHeader mok RTSP_HDR_CONTENT_LENGTH (-1) m = Inr (RTSP Z3_RTSP_ENOTIMPL, m)"
    using RemoveHeader_absent [OF assms(1)] by blast
  have "\<not> (\<forall>h \<in> set hs. header_text h = [])"
    using assms(2) header_text_ne by (cases hs) auto
  then show ?thesis
    using assms AppendHeaders_ok [OF assms(1-3), of "1500 - length start"]
    by (auto simp: ToString_headers_def rem snprintf_s_def CRLF_def msg_sizes Let_def less_diff_conv)
qed

section \<open>The interface the parser and the session use\<close>

text \<open>A store of header values that grows up to a capacity. \<open>add_all\<close> is a run of additions whose
  result codes are ignored, as the parser ignores them.\<close>

fun add_all :: "('f \<Rightarrow> 'v \<Rightarrow> 'm \<Rightarrow> (result \<times> 'm) outcome) \<Rightarrow> ('f \<times> 'v) list \<Rightarrow> 'm \<Rightarrow> 'm outcome" where
  "add_all add [] m = Inr m"
| "add_all add ((f, v) # hs) m = bindE (add f v m) (\<lambda>(_, m'). add_all add hs m')"

locale header_store =
  fixes hdrs :: "'m \<Rightarrow> (RTSP_HEADER_FIELD \<times> string) list"
    and wf :: "'m \<Rightarrow> bool"
    and cap :: nat
    and add :: "RTSP_HEADER_FIELD \<Rightarrow> string \<Rightarrow> 'm \<Rightarrow> (result \<times> 'm) outcome"
    and get :: "RTSP_HEADER_FIELD \<Rightarrow> nat \<Rightarrow> 'm \<Rightarrow> string option"
  assumes add_room: "wf m \<Longrightarrow> length (hdrs m) < cap \<Longrightarrow> NUL \<notin> set v \<Longrightarrow>
      \<exists>m'. add f v m = Inr (EOK, m') \<and> wf m' \<and> hdrs m' = hdrs m @ [(f, v)]"
    and add_full: "wf m \<Longrightarrow> cap \<le> length (hdrs m) \<Longrightarrow> add f v m = Inr (Z3 Z3_ERROR, m)"
    and get_nth: "wf m \<Longrightarrow> get f i m =
      (let vs = map snd (filter (\<lambda>h. fst h = f) (hdrs m)) in if i < length vs then Some (vs ! i) else None)"
    and bounded: "wf m \<Longrightarrow> length (hdrs m) \<le> cap"
begin

lemma add_all_take:
  "wf m \<Longrightarrow> \<forall>h \<in> set hs. NUL \<notin> set (snd h) \<Longrightarrow>
     \<exists>m'. add_all add hs m = Inr m' \<and> wf m' \<and> hdrs m' = take cap (hdrs m @ hs)"
proof (induction hs arbitrary: m)
  case Nil
  then show ?case using bounded by auto
next
  case (Cons h hs)
  obtain f v where h: "h = (f, v)" by (cases h)
  show ?case
  proof (cases "length (hdrs m) < cap")
    case True
    with Cons.prems h obtain m1 where m1: "add f v m = Inr (EOK, m1)" "wf m1" "hdrs m1 = hdrs m @ [(f, v)]"
      using add_room by fastforce
    with Cons.IH [of m1] Cons.prems h show ?thesis by auto
  next
    case False
    then have full: "add f v m = Inr (Z3 Z3_ERROR, m)" "take cap (hdrs m @ h # hs) = take cap (hdrs m @ hs)"
      using add_full [OF Cons.prems(1)] bounded [OF Cons.prems(1)] by auto
    with Cons.IH [of m] Cons.prems h show ?thesis by auto
  qed
qed

lemma get_added:
  assumes "wf m" "length (hdrs m) < cap" "NUL \<notin> set v" "f \<notin> fst ` set (hdrs m)"
  shows "\<exists>m'. add f v m = Inr (EOK, m') \<and> get f 0 m' = Some v"
proof -
  obtain m' where m': "add f v m = Inr (EOK, m')" "wf m'" "hdrs m' = hdrs m @ [(f, v)]"
    using add_room [OF assms(1-3)] by blast
  have "filter (\<lambda>h. fst h = f) (hdrs m) = []"
    using assms(4) by (force simp: filter_empty_conv)
  with m' show ?thesis using get_nth [OF m'(2), of f 0] by (simp add: Let_def)
qed

end

text \<open>Its provider: \<open>RtspMsg\<close>, with string values passed the way \<open>ParseLine\<close> passes them.\<close>

definition msg_hdrs :: "RtspMsg \<Rightarrow> (RTSP_HEADER_FIELD \<times> string) list" where
  "msg_hdrs m = (case m_pHdrFields m of None \<Rightarrow> []
     | Some a \<Rightarrow> map (\<lambda>kv. (m_field kv, case value_mem kv of None \<Rightarrow> [] | Some v \<Rightarrow> cstr v))
                     (take (m_nKeyValueSum a) (m_pRtspKeyValues a)))"

definition msg_wf :: "RtspMsg \<Rightarrow> bool" where
  "msg_wf m \<longleftrightarrow> (\<exists>hs. hdrs_repr m hs \<and> (\<forall>h \<in> set hs. terminated (snd h)))"

definition msg_add :: "RTSP_HEADER_FIELD \<Rightarrow> string \<Rightarrow> RtspMsg \<Rightarrow> (result \<times> RtspMsg) outcome" where
  "msg_add f v m = AddHeader alloc_ok f (Some (v @ [NUL])) (length v + 1) m"

definition msg_get :: "RTSP_HEADER_FIELD \<Rightarrow> nat \<Rightarrow> RtspMsg \<Rightarrow> string option" where
  "msg_get f i m = (case GetHeader f i m of Some (Some p) \<Rightarrow> Some (cstr p) | _ \<Rightarrow> None)"

lemma msg_hdrs_repr: "hdrs_repr m hs \<Longrightarrow> msg_hdrs m = map (\<lambda>h. (fst h, cstr (snd h))) hs"
  by (erule hdrs_repr_cases) (simp_all add: msg_hdrs_def)

lemma msg_add_room:
  assumes "msg_wf m" "length (msg_hdrs m) < TOP_MAX_KEY_VALUE" "NUL \<notin> set v"
  shows "\<exists>m'. msg_add f v m = Inr (EOK, m') \<and> msg_wf m' \<and> msg_hdrs m' = msg_hdrs m @ [(f, v)]
     \<and> m' = m\<lparr>m_pHdrFields := m_pHdrFields m'\<rparr>"
proof -
  obtain hs where hs: "hdrs_repr m hs" and t: "\<forall>h \<in> set hs. terminated (snd h)"
    using assms(1) by (auto simp: msg_wf_def)
  then have "length hs < TOP_MAX_KEY_VALUE" using assms(2) by (simp add: msg_hdrs_repr)
  then obtain n where n: "n = DEF_MAX_KEY_VALUE \<or> n = TOP_MAX_KEY_VALUE" "length hs < n"
    "msg_add f v m = Inr (EOK, m\<lparr>m_pHdrFields := Some (array_of n (hs @ [(f, v @ [NUL])]))\<rparr>)"
    using AddHeader_repr [OF hs, of "length v + 1" "v @ [NUL]" alloc_ok f] by (auto simp: msg_add_def alloc_ok)
  let ?m = "m\<lparr>m_pHdrFields := Some (array_of n (hs @ [(f, v @ [NUL])]))\<rparr>"
  have r: "hdrs_repr ?m (hs @ [(f, v @ [NUL])])" using n by (intro hdrs_reprI) auto
  then have "msg_wf ?m" "msg_hdrs ?m = msg_hdrs m @ [(f, v)]"
    using hs t assms(3)
    by (auto simp: msg_wf_def msg_hdrs_repr cstr_append_NUL terminated_def intro!: exI [of _ "hs @ [(f, v @ [NUL])]"])
  with n show ?thesis by auto
qed

text \<open>Looking up the first value of a field, as a C string.\<close>

lemma GetHeader_wf:
  assumes "msg_wf m"
  shows "case filter (\<lambda>h. fst h = f) (msg_hdrs m) of
      [] \<Rightarrow> GetHeader f 0 m = None
    | h # _ \<Rightarrow> \<exists>p. GetHeader f 0 m = Some p \<and> cstrE p = Inr (snd h)"
proof -
  obtain hs where hs: "hdrs_repr m hs" and t: "\<forall>h \<in> set hs. terminated (snd h)"
    using assms by (auto simp: msg_wf_def)
  have eq: "filter (\<lambda>h. fst h = f) (msg_hdrs m) = map (\<lambda>h. (fst h, cstr (snd h))) (filter (\<lambda>h. fst h = f) hs)"
    using hs by (simp add: msg_hdrs_repr filter_map o_def)
  show ?thesis
  proof (cases "filter (\<lambda>h. fst h = f) hs")
    case Nil
    then show ?thesis using hs eq by (simp add: GetHeader_repr nth_header_def)
  next
    case (Cons h gs)
    then have "terminated (snd h)" using t by (metis filter_eq_ConsD in_set_conv_decomp)
    with Cons hs eq show ?thesis by (simp add: GetHeader_repr nth_header_def cstrE_value_of)
  qed
qed

interpretation hs: header_store msg_hdrs msg_wf TOP_MAX_KEY_VALUE msg_add msg_get
proof (unfold_locales, goal_cases)
  case (1 m v f)
  then show ?case using msg_add_room by blast
next
  case (2 m f v)
  then obtain hs where "hdrs_repr m hs" by (auto simp: msg_wf_def)
  with 2 show ?case
    using AddHeader_full [of m hs] hdrs_repr_le [of m hs] by (simp add: msg_hdrs_repr msg_add_def)
next
  case (3 m f i)
  then obtain hs where "hdrs_repr m hs" by (auto simp: msg_wf_def)
  then show ?case
    by (auto simp: msg_get_def GetHeader_repr msg_hdrs_repr nth_header_def Let_def filter_map o_def)
next
  case (4 m)
  then show ?case using hdrs_repr_le by (auto simp: msg_wf_def msg_hdrs_repr)
qed

section \<open>Properties\<close>

text \<open>C6. A message whose headers are the list \<open>hs\<close> (at most 16) behaves as that list: adding
  the first \<open>k\<close> bytes of a value appends one element while there are fewer than 16 and is refused
  with \<open>Z3_ERROR\<close>, changing nothing, when there are 16 (the array grows from 8 to 16 entries on
  the way, and values of up to 64 bytes and longer ones are kept differently); looking up the
  \<open>i\<close>-th header of a field finds the \<open>i\<close>-th element of the list with that field.\<close>

theorem headers_refine_list:
  assumes "hdrs_repr m hs" and "k \<le> length v" and "mok k" and "\<forall>h \<in> set hs. mok (length (snd h))"
  shows "(if length hs < TOP_MAX_KEY_VALUE
          then \<exists>m'. AddHeader mok f (Some v) k m = Inr (EOK, m') \<and> hdrs_repr m' (hs @ [(f, take k v)])
                   \<and> m' = m\<lparr>m_pHdrFields := m_pHdrFields m'\<rparr>
          else AddHeader mok f (Some v) k m = Inr (Z3 Z3_ERROR, m))
    \<and> GetHeader g i m = map_option (\<lambda>b. Some (value_of b)) (nth_header g i hs)"
proof (cases "length hs < TOP_MAX_KEY_VALUE")
  case True
  obtain n where n: "n = DEF_MAX_KEY_VALUE \<or> n = TOP_MAX_KEY_VALUE" "length hs < n"
    "AddHeader mok f (Some v) k m = Inr (EOK, m\<lparr>m_pHdrFields := Some (array_of n (hs @ [(f, take k v)]))\<rparr>)"
    by (rule AddHeader_repr [OF assms(1) True assms(2-4)])
  let ?m = "m\<lparr>m_pHdrFields := Some (array_of n (hs @ [(f, take k v)]))\<rparr>"
  have "hdrs_repr ?m (hs @ [(f, take k v)])" using n by (intro hdrs_reprI) auto
  with n True assms(1) show ?thesis by (auto simp: GetHeader_repr)
next
  case False
  then show ?thesis using assms(1) hdrs_repr_le [OF assms(1)] by (simp add: AddHeader_full GetHeader_repr)
qed

theorem headers_refine_list_witness:
  "AddHeader alloc_ok RTSP_HDR_CSEQ (Some [CHR ''7'', NUL]) 2 RtspMsg_new \<noteq> Inr (Z3 Z3_ERROR, RtspMsg_new)
   \<and> GetHeader RTSP_HDR_CSEQ 0 RtspMsg_new = None"
  using headers_refine_list [of RtspMsg_new "[]" 2 "[CHR ''7'', NUL]" alloc_ok RTSP_HDR_CSEQ RTSP_HDR_CSEQ 0]
  by (auto simp: RtspMsg_new_def msg_sizes nth_header_def alloc_ok)

text \<open>\<open>RemoveHeader (field, -1)\<close> on every branch, for a message with the headers \<open>hs\<close>. A field
  that is absent changes nothing. The last header is removed and the message holds the list without
  it. A field whose first entry is at an index \<open>i\<close> before the last is removed too, but the last entry
  is not moved into the hole (the source copies the hole onto itself): the count drops by one, an
  entry with the field \<open>RTSP_HDR_INVALID\<close> stays at \<open>i\<close>, the last header can no longer be found and
  the slot it occupies is not empty, so that the next \<open>AddHeader\<close> fails its assertion.\<close>

theorem RemoveHeader_branches:
  assumes "m_pHdrFields m = Some (array_of n hs)" and "length hs \<le> n"
    and "n = DEF_MAX_KEY_VALUE \<or> n = TOP_MAX_KEY_VALUE"
  shows "case first_of f hs of
       None \<Rightarrow> RemoveHeader mok f (-1) m = Inr (RTSP Z3_RTSP_ENOTIMPL, m)
     | Some i \<Rightarrow> \<exists>m'. RemoveHeader mok f (-1) m = Inr (EOK, m') \<and>
         (if i = length hs - 1 then hdrs_repr m' (butlast hs)
          else (\<exists>a. m_pHdrFields m' = Some a \<and> m_nKeyValueSum a = length hs - 1
                  \<and> m_field (m_pRtspKeyValues a ! i) = RTSP_HDR_INVALID)
             \<and> (\<forall>g. g \<noteq> RTSP_HDR_INVALID \<longrightarrow> GetHeader g 0 m' = map_option (\<lambda>b. Some (value_of b))
                       (nth_header g 0 (butlast (take i hs @ drop (i + 1) hs))))
             \<and> (\<forall>g v k. AddHeader mok g v k m' = Inl AssertFailed))"
proof (cases "first_of f hs")
  case None
  then show ?thesis using assms by (simp add: RemoveHeader_def RemoveHeader_find_first)
next
  case (Some i)
  then have i: "i < length hs" by (rule first_of_less)
  then obtain hs0 h where hs: "hs = hs0 @ [h]" by (cases hs rule: rev_cases) auto
  have rm: "RemoveHeader mok f (-1) m =
      bindE (RemoveHeader_at mok i (array_of n hs)) (\<lambda>a'. Inr (EOK, m\<lparr>m_pHdrFields := Some a'\<rparr>))"
    using assms Some by (simp add: RemoveHeader_def RemoveHeader_find_first)
  show ?thesis
  proof (cases "i = length hs0")
    case True
    then have "RemoveHeader_at mok i (array_of n hs) = Inr (array_of n hs0)"
      using RemoveHeader_at_last [of hs0 n mok h] assms(2) hs by simp
    then have "RemoveHeader mok f (-1) m = Inr (EOK, m\<lparr>m_pHdrFields := Some (array_of n hs0)\<rparr>)"
      using rm by simp
    moreover have "hdrs_repr (m\<lparr>m_pHdrFields := Some (array_of n hs0)\<rparr>) hs0"
      using assms(2,3) hs by (intro hdrs_reprI) auto
    ultimately show ?thesis using Some True hs by simp
  next
    case False
    then have less: "i < length hs0" using i hs by simp
    let ?a = "\<lparr>m_nSize = n, m_nKeyValueSum = length hs0,
          m_pRtspKeyValues = (map kv_of hs0)[i := RtspKeyValue_new] @ kv_of h #
             replicate (n - Suc (length hs0)) RtspKeyValue_new\<rparr>"
    have "RemoveHeader mok f (-1) m = Inr (EOK, m\<lparr>m_pHdrFields := Some ?a\<rparr>)"
      using rm RemoveHeader_at_middle [OF less, of mok n h] hs by simp
    moreover have "GetHeader g 0 (m\<lparr>m_pHdrFields := Some ?a\<rparr>) = map_option (\<lambda>b. Some (value_of b))
                       (nth_header g 0 (butlast (take i hs @ drop (i + 1) hs)))"
      if "g \<noteq> RTSP_HDR_INVALID" for g
      using that less hs GetHeader_hole [OF less that] by (simp add: GetHeader_def butlast_append)
    moreover have "AddHeader mok g v k (m\<lparr>m_pHdrFields := Some ?a\<rparr>) = Inl AssertFailed" for g v k
      using assms(2,3) hs
      by (auto simp: AddHeader_def AddKeyValue_def FillKeyValue_def nth_append msg_sizes Let_def)
    ultimately show ?thesis using Some False hs less
      by (simp add: nth_append) (simp add: RtspKeyValue_new_def)
  qed
qed

theorem RemoveHeader_branches_witness:
  "\<exists>m'. RemoveHeader alloc_ok RTSP_HDR_DATE (-1)
      (RtspMsg_new\<lparr>m_pHdrFields := Some (array_of 8 [(RTSP_HDR_DATE, [NUL]), (RTSP_HDR_CSEQ, ''7'')])\<rparr>)
    = Inr (EOK, m') \<and> GetHeader RTSP_HDR_CSEQ 0 m' = None
      \<and> AddHeader alloc_ok RTSP_HDR_DATE (Some [NUL]) 1 m' = Inl AssertFailed"
  using RemoveHeader_branches [of "RtspMsg_new\<lparr>m_pHdrFields := Some (array_of 8 [(RTSP_HDR_DATE, [NUL]),
      (RTSP_HDR_CSEQ, ''7'')])\<rparr>" 8 "[(RTSP_HDR_DATE, [NUL]), (RTSP_HDR_CSEQ, ''7'')]" alloc_ok RTSP_HDR_DATE]
  by (auto simp: msg_sizes first_of_def nth_header_def Let_def)

lemma ToString_request_eq:
  assumes "m_pMsgObj m = Some (RTSP_MSG_REQUEST r)" and "rq_pURI r = Some uri"
    and "RTSP_METHOD_AS_TEXT (rq_method r) = Inr (Some meth)"
    and "hdrs_repr m hs" and "hs \<noteq> []" and "\<forall>h \<in> set hs. header_ok h"
    and "RTSP_HDR_CONTENT_LENGTH \<notin> fst ` set hs" and "m_pBody m = None"
    and "mok RTSP_MSG_STRING_MAX_LENGTH"
    and "start = meth @ '' '' @ uri @ '' RTSP/1.0'' @ CRLF"
  shows "ToString mok now m =
     (if length (start @ headers_text hs) < 1498
      then Inr (Some (start @ headers_text hs @ CRLF), m)
      else Inl AssertFailed)"
proof (cases "1500 \<le> length start")
  case True
  with assms(1-3,9,10) show ?thesis
    by (simp add: ToString_def Let_def str_arg_def snprintf_s_def msg_sizes)
next
  case False
  then have "ToString mok now m = ToString_headers mok start m"
    using assms(1-3,9,10) by (simp add: ToString_def Let_def str_arg_def snprintf_s_def msg_sizes)
  then show ?thesis
    using ToString_headers_ok [OF assms(4-8), of start mok] False by (simp add: msg_sizes Let_def)
qed

text \<open>\<open>ToString\<close> of a request with a known method, at least one header, no \<open>Content-Length\<close>
  and no body is the request line, the header lines in order and an empty line, exactly when that
  text and its terminator fit into the buffer of 1500 bytes; the message is not changed. A longer one is not refused with
  \<open>false\<close>, as the code means to: \<open>_snprintf_s\<close> ends the program.\<close>

theorem ToString_request:
  assumes "m_pMsgObj m = Some (RTSP_MSG_REQUEST r)" and "rq_pURI r = Some uri"
    and "RTSP_METHOD_AS_TEXT (rq_method r) = Inr (Some method)"
    and "hdrs_repr m hs" and "hs \<noteq> []" and "\<forall>h \<in> set hs. header_ok h"
    and "RTSP_HDR_CONTENT_LENGTH \<notin> fst ` set hs" and "m_pBody m = None"
    and "mok RTSP_MSG_STRING_MAX_LENGTH"
    and "start = method @ '' '' @ uri @ '' RTSP/1.0'' @ CRLF"
  shows "ToString mok now m =
     (if length (start @ headers_text hs) < 1498
      then Inr (Some (start @ headers_text hs @ CRLF), m)
      else Inl AssertFailed)"
  using assms by (rule ToString_request_eq)

definition sample_time :: tm where
  "sample_time = \<lparr>tm_sec = 0, tm_min = 0, tm_hour = 0, tm_mday = 1, tm_mon = 0, tm_year = 115, tm_wday = 4\<rparr>"

definition sample_request :: RtspMsg where
  "sample_request = \<lparr>m_pMsgObj = Some (RTSP_MSG_REQUEST \<lparr>rq_method = RTSP_OPTIONS, rq_pURI = Some ''*'',
      rq_nUriLen = 2, rq_version = RTSP_VERSION_1_0\<rparr>),
    m_pHdrFields = Some (array_of 8 [(RTSP_HDR_CSEQ, ''1'' @ [NUL])]), m_pBody = None, m_nBodySize = 0\<rparr>"

theorem ToString_request_witness:
  "ToString alloc_ok sample_time sample_request =
     Inr (Some (''OPTIONS * RTSP/1.0'' @ CRLF @ ''CSeq: 1'' @ CRLF @ CRLF), sample_request)"
proof -
  have "RTSP_METHOD_AS_TEXT RTSP_OPTIONS = Inr (Some ''OPTIONS'')"
    "field_name RTSP_HDR_CSEQ = ''CSeq''" by code_simp+
  then show ?thesis
    using ToString_request [of sample_request
      "\<lparr>rq_method = RTSP_OPTIONS, rq_pURI = Some ''*'', rq_nUriLen = 2, rq_version = RTSP_VERSION_1_0\<rparr>"
      "''*''" "''OPTIONS''" "[(RTSP_HDR_CSEQ, ''1'' @ [NUL])]" alloc_ok "''OPTIONS * RTSP/1.0'' @ CRLF" sample_time]
    by (simp add: sample_request_def hdrs_repr_def msg_sizes CRLF_def header_ok_def header_text_def
        alloc_ok)
qed

end
