(* ===== verification/RtspParser.thy ===== *)
theory RtspParser
  imports RtspMsg
begin

text \<open>
  The incremental RTSP parser, \<open>z3_rtsp_client/z3_rtsp_proto_parser.cpp\<close>. The receive buffer
  \<open>m_pBuf\<close> is the list of its 4096 bytes, stale bytes behind \<open>m_nBufBytes\<close> included, since the
  string functions the parser calls read them. \<open>parse_step\<close> is one iteration of the loop of
  \<open>RtspProtoParser::Parse\<close>.

  Locals the source leaves uninitialised are a parameter, \<open>indet\<close>.
\<close>

definition RTSP_RECVBUF_SIZE :: nat where "RTSP_RECVBUF_SIZE = 4096"

record indet =
  ind_major :: u32
  ind_minor :: u32
  ind_version :: RTSP_VERSION

definition zero_indet :: indet where
  "zero_indet = \<lparr>ind_major = 0, ind_minor = 0, ind_version = 0\<rparr>"

section \<open>Start lines\<close>

text \<open>The member \<open>ParseProtocolVersion\<close>: the result of \<open>sscanf_s\<close> is overwritten by each later
  branch, and \<open>*pVersion\<close> is stored on one branch only.\<close>

definition RtspProtoParser_ParseProtocolVersion ::
    "indet \<Rightarrow> string \<Rightarrow> result \<times> RTSP_VERSION" where
  "RtspProtoParser_ParseProtocolVersion ind pszProtocol =
     (case index_of CHR ''/'' pszProtocol of
        None \<Rightarrow> (RTSP Z3_RTSP_EPARSE, ind_version ind)
      | Some i \<Rightarrow>
          (let (n, nMajorVer, nMinorVer) =
                 sscanf_version (ind_major ind) (ind_minor ind) (drop (Suc i) pszProtocol)
           in if stricmp_eq (take i pszProtocol) ''rtsp''
              then (if nMajorVer \<noteq> 1 \<or> nMinorVer \<noteq> 0 then (Z3 Z3_ERROR, RTSP_VERSION_INVALID)
                    else (EOK, ind_version ind))
              else (RTSP Z3_RTSP_EPARSE, ind_version ind)))"

definition ParseRequestLine :: "alloc \<Rightarrow> indet \<Rightarrow> string \<Rightarrow> RtspMsg \<Rightarrow> result \<times> RtspMsg" where
  "ParseRequestLine mok ind pBuf pMsg =
     (let (r1, methodStr, bptr1) = ParseString 20 pBuf;
          method = RtspFindMethod methodStr;
          (r2, urlStr, bptr2) = ParseString 4096 bptr1;
          (r3, versionStr, bptr3) = ParseString 20 bptr2;
          (ri, msg1) = InitRequest mok method urlStr (length urlStr) pMsg;
          res = (if r1 \<noteq> EOK \<or> r2 \<noteq> EOK \<or> urlStr = [] \<or> r3 \<noteq> EOK \<or> bptr3 \<noteq> [] \<or> ri \<noteq> EOK
                 then RTSP Z3_RTSP_EPARSE else EOK);
          (res2, version) = RtspProtoParser_ParseProtocolVersion ind versionStr;
          (res', msg2) = (if res = EOK then (res2, snd (SetVersion version msg1)) else (res, msg1))
      in if GetMethod msg2 = RTSP_GET \<or> GetMethod msg2 = RTSP_POST
         then (if res' = EOK then Z3 Z3_ERROR else res', snd (SetMethod RTSP_INVALID msg2))
         else (res', msg2))"

definition ParseResponseStatus ::
    "bool \<Rightarrow> alloc \<Rightarrow> indet \<Rightarrow> string \<Rightarrow> RtspMsg \<Rightarrow> (result \<times> RtspMsg) outcome" where
  "ParseResponseStatus debug mok ind pBuf pMsg =
     (let (r1, szVersion, pBegin1) = ParseString 20 pBuf in
      if r1 \<noteq> EOK then Inr (RTSP Z3_RTSP_EPARSE, pMsg)
      else let (r2, szCode, pBegin2) = ParseString 4 pBegin1 in
      if r2 \<noteq> EOK then Inr (RTSP Z3_RTSP_EPARSE, pMsg)
      else let nCode = atoi szCode in
      if nCode < 0 \<or> nCode > 600 then Inr (RTSP Z3_RTSP_EPARSE, pMsg)
      else bindE (InitResponse debug mok None (word_of_int nCode)
                    (Some (dropWhile is_space pBegin2)) pMsg) (\<lambda>(ri, msg1).
        if ri \<noteq> EOK then Inr (RTSP Z3_RTSP_EPARSE, msg1)
        else let (res, version) = RtspProtoParser_ParseProtocolVersion ind szVersion in
             Inr (res, if res = EOK then snd (SetVersion version msg1) else msg1)))"

section \<open>Header lines\<close>

text \<open>The inner loop of \<open>ParseLine\<close>: \<open>scan_value auth quoted nComment pComma i s\<close> has
  \<open>pNextValue\<close> at offset \<open>i\<close> of the value, with the string \<open>s\<close> behind it, and returns the offset
  at which it stops. \<open>auth\<close> says that the field is one of the two authenticate headers.\<close>

fun scan_value :: "bool \<Rightarrow> bool \<Rightarrow> nat \<Rightarrow> nat option \<Rightarrow> nat \<Rightarrow> string \<Rightarrow> nat" where
  "scan_value auth quoted nComment pComma i [] = i"
| "scan_value auth quoted nComment pComma i (c # cs) =
     (if (quoted \<or> nComment \<noteq> 0) \<and> c = CHR 0x5C \<and> cs \<noteq> [] then
        scan_value auth quoted nComment pComma (i + 2) (tl cs)
      else if nComment = 0 \<and> c = CHR 0x22 then
        scan_value auth (\<not> quoted) nComment pComma (i + 1) cs
      else if \<not> quoted \<and> c = CHR ''('' then
        scan_value auth quoted (nComment + 1) pComma (i + 1) cs
      else if nComment \<noteq> 0 \<and> c = CHR '')'' then
        scan_value auth quoted (nComment - 1) pComma (i + 1) cs
      else if \<not> quoted \<and> nComment = 0 then
        (if auth then
           (if c = CHR '','' then
              (if cs \<noteq> [] \<and> hd cs = CHR '' ''
               then scan_value auth quoted nComment (Some (i + 1)) (i + 2) (tl cs)
               else scan_value auth quoted nComment (Some i) (i + 1) cs)
            else (case pComma of
                Some k \<Rightarrow>
                  if c = CHR '' '' \<and> (cs = [] \<or> hd cs \<noteq> CHR '','' \<and> hd cs \<noteq> CHR ''='')
                  then k else scan_value auth quoted nComment pComma (i + 1) cs
              | None \<Rightarrow> scan_value auth quoted nComment pComma (i + 1) cs))
         else if c = CHR '','' then i
         else scan_value auth quoted nComment pComma (i + 1) cs)
      else scan_value auth quoted nComment pComma (i + 1) cs)"

text \<open>One round of the outer loop on the string \<open>s\<close> at \<open>pValue\<close>: the value, the offsets at which a
  terminator is written, and the distance to the new \<open>pValue\<close>.\<close>

definition value_cut :: "bool \<Rightarrow> bool \<Rightarrow> string \<Rightarrow> string \<times> nat list \<times> nat" where
  "value_cut multiple auth s =
     (let d = (if take 1 s = '' '' then 1 else 0);
          v = drop d s;
          k = (if multiple then scan_value auth False 0 None 0 v else length v);
          trim = (0 < k \<and> v ! (k - 1) = CHR '' '');
          more = (k < length v)
      in (take (if trim then k - 1 else k) v,
          (if trim then [d + k - 1] else []) @ (if more then [d + k] else []),
          d + k + (if more then 1 else 0)))"

lemma value_cut_progress: "s \<noteq> [] \<Longrightarrow> 0 < snd (snd (value_cut multiple auth s))"
  by (cases s) (auto simp: value_cut_def Let_def)

text \<open>The outer loop on the string at \<open>pValue\<close>, which is at offset \<open>b\<close> of the line.\<close>

function ParseLine_values :: "bool \<Rightarrow> bool \<Rightarrow> nat \<Rightarrow> string \<Rightarrow> (string \<times> nat list) list" where
  "ParseLine_values multiple auth b s =
     (if s = [] then []
      else let r = value_cut multiple auth s
           in (fst r, map ((+) b) (fst (snd r)))
              # ParseLine_values multiple auth (b + snd (snd r)) (drop (snd (snd r)) s))"
  by pat_completeness auto

termination
  by (relation "measure (\<lambda>(m, a, b, s). length s)") (simp_all add: value_cut_progress)

declare ParseLine_values.simps [simp del]

definition write_nuls :: "nat list \<Rightarrow> char list \<Rightarrow> char list" where
  "write_nuls is m = fold (\<lambda>i m. m[i := NUL]) is m"

definition add_header :: "alloc \<Rightarrow> RTSP_HEADER_FIELD \<Rightarrow> string \<Rightarrow> RtspMsg \<Rightarrow> (result \<times> RtspMsg) outcome" where
  "add_header mok f v m = AddHeader mok f (Some (v @ [NUL])) (length v + 1) m"

text \<open>\<open>ParseLine\<close> on the memory at \<open>pBuffer\<close>; the results of its calls of \<open>AddHeader\<close> are ignored.\<close>

definition ParseLine ::
    "alloc \<Rightarrow> char list \<Rightarrow> RtspMsg \<Rightarrow> (result \<times> char list \<times> RtspMsg) outcome" where
  "ParseLine mok pBuffer pMsg =
     bindE (cstrE (Some pBuffer)) (\<lambda>line.
       case index_of CHR '':'' line of
         None \<Rightarrow> Inr (RTSP Z3_RTSP_EPARSE, pBuffer, pMsg)
       | Some 0 \<Rightarrow> Inr (RTSP Z3_RTSP_EPARSE, pBuffer, pMsg)
       | Some (Suc j) \<Rightarrow>
           (let trim = (line ! j = CHR '' '');
                mem1 = write_nuls ((if trim then [j] else []) @ [Suc j]) pBuffer;
                field = RtspFindHeaderField (take (if trim then j else Suc j) line)
            in if field = RTSP_HDR_INVALID then Inr (EOK, mem1, pMsg)
               else bindE (RtspHeaderAllowMultiple field) (\<lambda>multiple.
                 let auth = (field = RTSP_HDR_PROXY_AUTHENTICATE \<or> field = RTSP_HDR_WWW_AUTHENTICATE);
                     values = ParseLine_values multiple auth (j + 2) (drop (j + 2) line)
                 in bindE (add_all (add_header mok)
                             (map (Pair field) (filter (\<lambda>v. v \<noteq> []) (map fst values))) pMsg) (\<lambda>msg'.
                      Inr (EOK, write_nuls (concat (map snd values)) mem1, msg')))))"

section \<open>The parser\<close>

datatype BUILDER_STATE =
    STATE_START | STATE_DATA_HEADER | STATE_DATA_BODY | STATE_READ_LINES | STATE_END | STATE_LAST

record RtspProtoParser =
  m_pRtspMsg :: RtspMsg
  m_bMsgCompleted :: bool
  m_state :: BUILDER_STATE
  m_nLine :: nat
  m_pBuf :: "char list"
  m_nBufBytes :: nat
  m_nOffset :: nat

definition RtspProtoParser_new :: RtspProtoParser where
  "RtspProtoParser_new = \<lparr>m_pRtspMsg = RtspMsg_new, m_bMsgCompleted = False, m_state = STATE_START,
     m_nLine = 0, m_pBuf = replicate RTSP_RECVBUF_SIZE NUL, m_nBufBytes = 0, m_nOffset = 0\<rparr>"

text \<open>What an iteration carries: the parser, \<open>result\<close> and \<open>bBreak\<close>.\<close>

type_synonym loop_state = "RtspProtoParser \<times> result \<times> bool"

definition char_word :: "char \<Rightarrow> u8" where "char_word c = of_nat (of_char c)"

text \<open>\<open>(m_pBuf[i] << 8) | m_pBuf[i + 1]\<close> on \<open>char\<close>, which is signed, stored in an \<open>unsigned short\<close>.\<close>

definition data_size :: "char \<Rightarrow> char \<Rightarrow> u16" where
  "data_size hi lo = push_bit 8 (scast (char_word hi)) OR scast (char_word lo)"

definition step_start :: "RtspProtoParser \<Rightarrow> result \<Rightarrow> loop_state outcome" where
  "step_start p result =
     (if m_nOffset p < length (m_pBuf p) then
        (if m_pBuf p ! m_nOffset p = CHR ''$'' then Inr (p\<lparr>m_state := STATE_DATA_HEADER\<rparr>, result, False)
         else Inr (p\<lparr>m_nLine := 0, m_state := STATE_READ_LINES\<rparr>, result, False))
      else Inl OutOfBounds)"

definition step_data_header :: "alloc \<Rightarrow> RtspProtoParser \<Rightarrow> result \<Rightarrow> loop_state outcome" where
  "step_data_header mok p result =
     (if m_nBufBytes p - m_nOffset p \<ge> 4 then
        (let b = drop (m_nOffset p) (m_pBuf p);
             nDataSize = data_size (b ! 2) (b ! 3);
             (res, msg) = InitData mok (b ! 1) (ucast nDataSize) (m_pRtspMsg p);
             p1 = p\<lparr>m_pRtspMsg := msg\<rparr>
         in if res = EOK
            then Inr (p1\<lparr>m_state := STATE_DATA_BODY, m_nOffset := m_nOffset p + 4\<rparr>, res, False)
            else Inr (p1, res, False))
      else Inr (p, RTSP Z3_RTSP_EINTR, True))"

definition step_data_body :: "RtspProtoParser \<Rightarrow> loop_state outcome" where
  "step_data_body p =
     (let size1 = m_nBodySize (m_pRtspMsg p) - 1 in
      if of_nat (m_nBufBytes p - m_nOffset p) \<ge> size1 then
        bindE (SetBody (drop (m_nOffset p) (m_pBuf p)) size1 (m_pRtspMsg p)) (\<lambda>(res, msg).
          Inr (p\<lparr>m_pRtspMsg := msg, m_nOffset := m_nOffset p + unat size1, m_state := STATE_END\<rparr>, res, True))
      else Inr (p, RTSP Z3_RTSP_EINTR, True))"

text \<open>The end of the header lines.\<close>

definition step_blank_line :: "alloc \<Rightarrow> RtspProtoParser \<Rightarrow> result \<Rightarrow> loop_state outcome" where
  "step_blank_line mok p result =
     (let msg = m_pRtspMsg p;
          finish = (\<lambda>p'. Inr (p'\<lparr>m_nOffset := m_nOffset p + 2\<rparr>, result, False))
      in case GetHeader RTSP_HDR_CONTENT_LENGTH 0 msg of
           None \<Rightarrow> finish (p\<lparr>m_state := STATE_END\<rparr>)
         | Some hdrval \<Rightarrow>
             (case m_pMsgObj msg of
                None \<Rightarrow> Inl NullDeref
              | Some (RTSP_MSG_RESPONSE r) \<Rightarrow>
                  bindE (cstrE hdrval) (\<lambda>s.
                    let lHdrLength = atoi s in
                    if lHdrLength > 0 then
                      bindE (SetBodySize mok (word_of_int (lHdrLength + 1)) msg) (\<lambda>(_, msg').
                        finish (p\<lparr>m_pRtspMsg := msg', m_state := STATE_DATA_BODY\<rparr>))
                    else finish (p\<lparr>m_state := STATE_END\<rparr>))
              | Some _ \<Rightarrow> finish (p\<lparr>m_state := STATE_END\<rparr>)))"

text \<open>A line that ends \<open>i\<close> bytes behind \<open>m_nOffset\<close>: \<open>line_done\<close> is what the parser does with the
  outcome of the function it calls on the line, whose memory from \<open>m_nOffset\<close> on is \<open>mem\<close> by then.\<close>

definition line_done ::
    "nat \<Rightarrow> RtspProtoParser \<Rightarrow> result \<Rightarrow> char list \<Rightarrow> RtspMsg \<Rightarrow> loop_state" where
  "line_done i p result mem msg =
     (let p1 = p\<lparr>m_pBuf := take (m_nOffset p) (m_pBuf p) @ mem, m_pRtspMsg := msg\<rparr>
      in if result = EOK
         then (p1\<lparr>m_nLine := m_nLine p + 1, m_nOffset := m_nOffset p + i + 2\<rparr>, result, False)
         else (p1\<lparr>m_state := STATE_END\<rparr>, result, False))"

definition step_line ::
    "bool \<Rightarrow> alloc \<Rightarrow> indet \<Rightarrow> nat \<Rightarrow> RtspProtoParser \<Rightarrow> loop_state outcome" where
  "step_line debug mok ind i p =
     (let line = TrimRightSpace (fst (NormalizeLine ((drop (m_nOffset p) (m_pBuf p))[i := NUL, i + 1 := NUL])))
      in if m_nLine p = 0 then
           (if length line < 4 then Inl OutOfBounds
            else if take 4 line \<noteq> ''RTSP'' then
              (let (result, msg) = ParseRequestLine mok ind (cstr line) (m_pRtspMsg p)
               in Inr (line_done i p result line msg))
            else bindE (ParseResponseStatus debug mok ind (cstr line) (m_pRtspMsg p)) (\<lambda>(result, msg).
               Inr (line_done i p result line msg)))
         else bindE (ParseLine mok line (m_pRtspMsg p)) (\<lambda>(result, mem, msg).
               Inr (line_done i p result mem msg)))"

text \<open>\<open>strchr\<close> on memory, which need not be terminated behind the character that is found.\<close>

fun strchr_mem :: "char \<Rightarrow> char list \<Rightarrow> nat option outcome" where
  "strchr_mem c [] = Inl Unterminated"
| "strchr_mem c (x # xs) =
     (if x = c then Inr (Some 0) else if x = NUL then Inr None
      else bindE (strchr_mem c xs) (\<lambda>r. Inr (map_option Suc r)))"

definition step_read_lines ::
    "bool \<Rightarrow> alloc \<Rightarrow> indet \<Rightarrow> RtspProtoParser \<Rightarrow> result \<Rightarrow> loop_state outcome" where
  "step_read_lines debug mok ind p result =
     bindE (strchr_mem CR (drop (m_nOffset p) (m_pBuf p))) (\<lambda>pos.
       case pos of
         None \<Rightarrow> Inr (p, RTSP Z3_RTSP_EINTR, True)
       | Some i \<Rightarrow>
           if \<not> m_nOffset p + i + 1 < length (m_pBuf p) then Inl OutOfBounds
           else if m_pBuf p ! (m_nOffset p + i + 1) \<noteq> LF
           then Inr (p\<lparr>m_state := STATE_END\<rparr>, Z3 Z3_ERROR, False)
           else if i = 0 then step_blank_line mok p result
           else step_line debug mok ind i p)"

definition parse_step :: "bool \<Rightarrow> alloc \<Rightarrow> indet \<Rightarrow> RtspProtoParser \<Rightarrow> result \<Rightarrow> loop_state outcome" where
  "parse_step debug mok ind p result =
     (case m_state p of
        STATE_START \<Rightarrow> step_start p result
      | STATE_DATA_HEADER \<Rightarrow> step_data_header mok p result
      | STATE_DATA_BODY \<Rightarrow> step_data_body p
      | STATE_READ_LINES \<Rightarrow> step_read_lines debug mok ind p result
      | STATE_END \<Rightarrow> Inr (p, result, True)
      | STATE_LAST \<Rightarrow> Inr (p, result, False))"

text \<open>The loop, with at most \<open>n\<close> iterations.\<close>

fun parse_loop ::
    "bool \<Rightarrow> alloc \<Rightarrow> indet \<Rightarrow> nat \<Rightarrow> RtspProtoParser \<Rightarrow> result \<Rightarrow> (RtspProtoParser \<times> result) outcome" where
  "parse_loop debug mok ind 0 p result = Inl OutOfFuel"
| "parse_loop debug mok ind (Suc n) p result =
     bindE (parse_step debug mok ind p result) (\<lambda>(p', result', bBreak).
       if \<not> bBreak \<and> m_nOffset p' < m_nBufBytes p' then parse_loop debug mok ind n p' result'
       else Inr (p', result'))"

definition parse_fuel :: nat where "parse_fuel = RTSP_RECVBUF_SIZE + 5"

text \<open>\<open>Parse\<close> on a packet: the result code, the message stored in \<open>*pMsg\<close> if one is, the parser.\<close>

definition parse_begin :: "RtspProtoParser \<Rightarrow> RtspProtoParser" where
  "parse_begin p =
     (if m_bMsgCompleted p
      then p\<lparr>m_state := STATE_START, m_nLine := 0, m_nOffset := 0, m_nBufBytes := 0,
             m_pRtspMsg := Unset (m_pRtspMsg p), m_bMsgCompleted := False\<rparr>
      else p)"

definition parse_fill :: "string \<Rightarrow> RtspProtoParser \<Rightarrow> RtspProtoParser" where
  "parse_fill packet p =
     (let n = min (RTSP_RECVBUF_SIZE - m_nBufBytes p) (length packet)
      in p\<lparr>m_pBuf := take (m_nBufBytes p) (m_pBuf p) @ take n packet @ drop (m_nBufBytes p + n) (m_pBuf p),
           m_nBufBytes := m_nBufBytes p + n\<rparr>)"

definition parse_end :: "RtspProtoParser \<Rightarrow> RtspProtoParser" where
  "parse_end p =
     (if m_nOffset p < m_nBufBytes p
      then (let n = m_nBufBytes p - m_nOffset p
            in p\<lparr>m_pBuf := take n (drop (m_nOffset p) (m_pBuf p)) @ drop n (m_pBuf p),
                 m_nBufBytes := n, m_nOffset := 0\<rparr>)
      else p)"

definition Parse ::
    "bool \<Rightarrow> alloc \<Rightarrow> indet \<Rightarrow> string \<Rightarrow> RtspProtoParser
       \<Rightarrow> (result \<times> RtspMsg option \<times> RtspProtoParser) outcome" where
  "Parse debug mok ind packet p0 =
     (let p = parse_begin p0 in
      if packet = [] then Inr (Z3 Z3_ERROR, None, p)
      else let p1 = parse_fill packet p in
      if m_nOffset p1 \<noteq> 0 then Inl AssertFailed
      else bindE (parse_loop debug mok ind parse_fuel p1 (Z3 Z3_ERROR)) (\<lambda>(p2, result).
        let p3 = parse_end p2 in
        if result = EOK then Inr (result, Some (m_pRtspMsg p3), p3\<lparr>m_bMsgCompleted := True\<rparr>)
        else Inr (result, None, p3)))"

section \<open>Reading start lines\<close>

definition token :: "string \<Rightarrow> bool" where
  "token t \<longleftrightarrow> t \<noteq> [] \<and> (\<forall>c \<in> set t. \<not> is_space c)"

lemma ParseString_token:
  assumes "token t" "length t < n" "r = [] \<or> is_space (hd r)"
  shows "ParseString n (t @ r) = (EOK, t, r)" "ParseString n (CHR '' '' # t @ r) = (EOK, t, r)"
proof -
  have "takeWhile (\<lambda>c. \<not> is_space c) r = []" "dropWhile (\<lambda>c. \<not> is_space c) r = r"
    using assms(3) by (cases r; simp)+
  moreover have "dropWhile is_space (t @ r) = t @ r"
    using assms(1) by (cases t) (auto simp: token_def)
  ultimately show "ParseString n (t @ r) = (EOK, t, r)" "ParseString n (CHR '' '' # t @ r) = (EOK, t, r)"
    using assms(1,2) by (auto simp: ParseString_eq Let_def token_def)
qed

lemma protocol_version_1_0:
  "RtspProtoParser_ParseProtocolVersion ind ''RTSP/1.0'' = (EOK, ind_version ind)"
  by (simp add: RtspProtoParser_ParseProtocolVersion_def sscanf_version_def scan_u_def is_space_def
      is_digit_def digit_val_def stricmp_eq_def to_lower_def)

lemma token_RTSP_1_0: "token ''RTSP/1.0''"
  by (simp add: token_def is_space_def)

lemma InitRequest_ok:
  "uri \<noteq> [] \<Longrightarrow> mok (length uri + 1) \<Longrightarrow> InitRequest mok method uri (length uri) m =
     (EOK, (Unset m)\<lparr>m_pMsgObj := Some (RTSP_MSG_REQUEST \<lparr>rq_method = method, rq_pURI = Some uri,
        rq_nUriLen = length uri + 1, rq_version = RTSP_VERSION_1_0\<rparr>)\<rparr>)"
  by (simp add: InitRequest_def RtspRequest_Init_def RtspRequest_new_def Let_def)

lemma ParseRequestLine_eq:
  assumes "token t" "length t < 20" "token uri" "length uri < 4096" "mok (length uri + 1)"
  shows "ParseRequestLine mok ind (t @ '' '' @ uri @ '' RTSP/1.0'') m =
    (let meth = RtspFindMethod t; bad = (meth = RTSP_GET \<or> meth = RTSP_POST) in
     (if bad then Z3 Z3_ERROR else EOK,
      (Unset m)\<lparr>m_pMsgObj := Some (RTSP_MSG_REQUEST \<lparr>rq_method = (if bad then RTSP_INVALID else meth),
         rq_pURI = Some uri, rq_nUriLen = length uri + 1, rq_version = ind_version ind\<rparr>)\<rparr>))"
proof -
  have 1: "ParseString 20 (t @ CHR '' '' # uri @ '' RTSP/1.0'') = (EOK, t, CHR '' '' # uri @ '' RTSP/1.0'')"
    using assms(1,2) by (intro ParseString_token) auto
  have 2: "ParseString 4096 (CHR '' '' # uri @ '' RTSP/1.0'') = (EOK, uri, '' RTSP/1.0'')"
    using assms(3,4) by (intro ParseString_token) auto
  have 3: "ParseString 20 '' RTSP/1.0'' = (EOK, ''RTSP/1.0'', [])"
    using ParseString_token(2) [OF token_RTSP_1_0, of 20 "[]"] by simp
  have "uri \<noteq> []" using assms(3) by (simp add: token_def)
  with assms(5) show ?thesis
    by (simp add: ParseRequestLine_def 1 2 3 protocol_version_1_0 InitRequest_ok SetVersion_def
        GetMethod_def SetMethod_def Let_def)
qed

lemma InitResponse_ok:
  assumes "reason \<noteq> []" "mok (length reason + 1)"
  shows "InitResponse debug mok None code (Some reason) m =
    Inr (EOK, (Unset m)\<lparr>m_pMsgObj := Some (RTSP_MSG_RESPONSE \<lparr>rs_code = code, rs_pReason = Some reason,
       rs_nReasonLen = length reason + 1, rs_version = RTSP_VERSION_1_0\<rparr>)\<rparr>)"
  using assms by (simp add: InitResponse_def RtspResponse_Init_def RtspResponse_new_def Let_def)

lemma dec_nat_token: "token (dec_nat n)"
  using dec_nat_digits [of n] by (auto simp: token_def dest: is_digit_not)

lemma length_dec_nat_3: "n < 1000 \<Longrightarrow> length (dec_nat n) \<le> 3"
  by (rule length_dec_nat) simp_all

lemma ParseResponseStatus_eq:
  assumes "n \<le> 600" "reason \<noteq> []" "\<not> is_space (hd reason)" "mok (length reason + 1)"
  shows "ParseResponseStatus debug mok ind (''RTSP/1.0 '' @ dec_nat n @ '' '' @ reason) m =
    Inr (EOK, (Unset m)\<lparr>m_pMsgObj := Some (RTSP_MSG_RESPONSE \<lparr>rs_code = of_nat n, rs_pReason = Some reason,
       rs_nReasonLen = length reason + 1, rs_version = RTSP_VERSION_1_0\<rparr>)\<rparr>)"
proof -
  have 1: "ParseString 20 (''RTSP/1.0'' @ CHR '' '' # dec_nat n @ CHR '' '' # reason) =
      (EOK, ''RTSP/1.0'', CHR '' '' # dec_nat n @ CHR '' '' # reason)"
    using token_RTSP_1_0 by (intro ParseString_token) auto
  have 2: "ParseString 4 (CHR '' '' # dec_nat n @ CHR '' '' # reason) = (EOK, dec_nat n, CHR '' '' # reason)"
    using dec_nat_token length_dec_nat_3 [of n] assms(1) by (intro ParseString_token) auto
  have 3: "dropWhile is_space reason = reason"
    using assms(2,3) by (cases reason) auto
  have 4: "atoi (dec_nat n) = int n" "(word_of_int (int n) :: u32) = of_nat n"
    using assms(1) by (simp_all add: atoi_dec_nat)
  show ?thesis
    using 1 assms
    by (simp add: ParseResponseStatus_def 2 3 4 InitResponse_ok protocol_version_1_0 SetVersion_def)
qed

section \<open>Reading header lines\<close>

lemma AddHeader_frame:
  "AddHeader mok f p k m = Inr (r, m') \<Longrightarrow> m' = m\<lparr>m_pHdrFields := m_pHdrFields m'\<rparr>"
  by (auto simp: AddHeader_def Let_def bindE_Inr_iff split: if_splits option.splits prod.splits)

lemma add_all_frame:
  "add_all (add_header mok) hs m = Inr m' \<Longrightarrow> m' = m\<lparr>m_pHdrFields := m_pHdrFields m'\<rparr>"
proof (induction hs arbitrary: m)
  case (Cons h hs)
  obtain f v where h: "h = (f, v)" by (cases h)
  with Cons.prems obtain r m1 where "add_header mok f v m = Inr (r, m1)" "add_all (add_header mok) hs m1 = Inr m'"
    by (auto simp: bindE_Inr_iff)
  with Cons.IH [of m1] AddHeader_frame show ?case
    unfolding add_header_def by (metis RtspMsg.surjective RtspMsg.update_convs(2) RtspMsg.select_convs(2))
qed simp

text \<open>The parser's additions are those of the header store.\<close>

lemma add_header_msg_add: "add_header alloc_ok = msg_add"
  by (intro ext) (simp add: add_header_def msg_add_def)

lemma add_all_headers:
  assumes "msg_wf m" "\<forall>h \<in> set hs. NUL \<notin> set (snd h)"
  obtains m' where "add_all (add_header alloc_ok) hs m = Inr m'" "msg_wf m'"
    "msg_hdrs m' = take TOP_MAX_KEY_VALUE (msg_hdrs m @ hs)" "m' = m\<lparr>m_pHdrFields := m_pHdrFields m'\<rparr>"
  using hs.add_all_take [OF assms] add_all_frame [of alloc_ok hs m] by (auto simp: add_header_msg_add)

definition trim1 :: "string \<Rightarrow> string" where
  "trim1 s = (let v = (if take 1 s = '' '' then tl s else s)
              in if v \<noteq> [] \<and> last v = CHR '' '' then butlast v else v)"

lemma value_cut_single:
  "s \<noteq> [] \<Longrightarrow> fst (value_cut False auth s) = trim1 s \<and> length s \<le> snd (snd (value_cut False auth s))"
  by (cases s) (auto simp: value_cut_def Let_def trim1_def last_conv_nth butlast_conv_take)

lemma values_single:
  "map fst (ParseLine_values False auth b s) = (if s = [] then [] else [trim1 s])"
  using value_cut_single [of s auth]
  by (subst ParseLine_values.simps, simp add: Let_def) (subst ParseLine_values.simps, simp)

text \<open>Values without quotes, comments or commas, as they stand between two commas.\<close>

definition plain_value :: "string \<Rightarrow> bool" where
  "plain_value v \<longleftrightarrow> v \<noteq> [] \<and> hd v \<noteq> CHR '' '' \<and> last v \<noteq> CHR '' ''
     \<and> set v \<inter> {CHR '','', CHR 0x22, CHR ''('', NUL} = {}"

lemma scan_value_plain:
  "set p \<inter> {CHR '','', CHR 0x22, CHR ''('', NUL} = {} \<Longrightarrow> r = [] \<or> hd r = CHR '','' \<Longrightarrow>
     scan_value False False 0 None i (p @ r) = i + length p"
  by (induction p arbitrary: i) (cases r; auto)+

lemma value_cut_plain:
  assumes "plain_value v" "r = [] \<or> hd r = CHR '','' " "sp = [] \<or> sp = '' ''"
  shows "fst (value_cut True False (sp @ v @ r)) = v \<and>
         drop (snd (snd (value_cut True False (sp @ v @ r)))) (sp @ v @ r) = tl r"
proof -
  let ?s = "sp @ v @ r" and ?d = "if take 1 (sp @ v @ r) = '' '' then 1 else 0 :: nat"
  obtain c w where v: "v = c # w" "c \<noteq> CHR '' ''" using assms(1) by (cases v) (auto simp: plain_value_def)
  have d: "?d = length sp" "drop ?d ?s = v @ r" using assms(3) v by auto
  have k: "scan_value False False 0 None 0 (v @ r) = length v"
    using scan_value_plain [of v r 0] assms(1,2) by (simp add: plain_value_def)
  have "(v @ r) ! (length v - 1) \<noteq> CHR '' ''"
  proof -
    have "v ! (length v - 1) = last v" using v(1) by (simp add: last_conv_nth)
    moreover have "(v @ r) ! (length v - 1) = v ! (length v - 1)" using v(1) by (simp add: nth_append del: append_Cons)
    ultimately show ?thesis using assms(1) by (simp add: plain_value_def)
  qed
  then show ?thesis
    unfolding value_cut_def Let_def d using v k by (cases r) auto
qed

lemma values_list:
  assumes "\<forall>v \<in> set vs. plain_value v" "sp = [] \<or> sp = '' ''" "vs \<noteq> []"
  shows "map fst (ParseLine_values True False b (sp @ comma_join vs)) = vs"
  using assms
proof (induction vs arbitrary: b sp rule: comma_join.induct)
  case (2 v)
  then have "sp @ v @ [] \<noteq> []" by (simp add: plain_value_def)
  with 2 value_cut_plain [of v "[]" sp] show ?case
    by (subst ParseLine_values.simps, simp add: Let_def) (subst ParseLine_values.simps, simp)
next
  case (3 v w ws)
  let ?r = "'', '' @ comma_join (w # ws)"
  have "sp @ v @ ?r \<noteq> []" by simp
  moreover have "fst (value_cut True False (sp @ v @ ?r)) = v"
    "drop (snd (snd (value_cut True False (sp @ v @ ?r)))) (sp @ v @ ?r) = '' '' @ comma_join (w # ws)"
    using value_cut_plain [of v ?r sp] 3 by simp_all
  ultimately show ?case
    using "3.IH" [of "'' ''"] "3.prems" by (subst ParseLine_values.simps) (simp add: Let_def)
qed simp

lemma length_write_nuls [simp]: "length (write_nuls is m) = length m"
  unfolding write_nuls_def by (induction "is" arbitrary: m) auto

lemma ParseLine_step:
  assumes "cstrE (Some mem) = Inr line" "index_of CHR '':'' line = Some (Suc j)"
    and "take (if line ! j = CHR '' '' then j else Suc j) line = name"
    and "RtspFindHeaderField name = f" "f \<noteq> 0" "RtspHeaderAllowMultiple f = Inr mult"
    and "drop (j + 2) line = rest"
    and "vs = map fst (ParseLine_values mult (f = RTSP_HDR_PROXY_AUTHENTICATE \<or> f = RTSP_HDR_WWW_AUTHENTICATE)
            (j + 2) rest)"
    and "add_all (add_header mok) (map (Pair f) (filter (\<lambda>v. v \<noteq> []) vs)) m = Inr m'"
  shows "\<exists>mem'. ParseLine mok mem m = Inr (EOK, mem', m') \<and> length mem' = length mem"
proof -
  have "RtspFindHeaderField (take (if line ! j = CHR '' '' then j else Suc j) line) = f"
    using assms(3,4) by simp
  with assms(1,2,5-9) show ?thesis
    by (simp only: ParseLine_def Let_def bindE.simps option.case nat.case if_False)
       (simp del: take_append drop_append)
qed

text \<open>\<open>ParseLine\<close> on a line \<open>name: rest\<close> whose name is the \<open>i\<close>-th of the table.\<close>

lemma ParseLine_known:
  assumes "i < 48" "stricmp_eq (fst (RTSP_HEADERS ! i)) name" "NUL \<notin> set (name @ rest)"
    and "CHR '':'' \<notin> set name" "name \<noteq> []" "last name \<noteq> CHR '' ''"
    and "sp = [] \<or> sp = '' ''" and "msg_wf m"
    and f: "f = of_nat (i + 1)" and mult: "mult = snd (RTSP_HEADERS ! i)"
    and vs: "vs = map fst (ParseLine_values mult
       (f = RTSP_HDR_PROXY_AUTHENTICATE \<or> f = RTSP_HDR_WWW_AUTHENTICATE) (length (name @ sp) + 1) rest)"
    and nn: "\<forall>v \<in> set vs. NUL \<notin> set v"
  obtains mem' m' where "ParseLine alloc_ok (name @ sp @ '':'' @ rest @ NUL # r) m = Inr (EOK, mem', m')"
    "length mem' = length (name @ sp @ '':'' @ rest @ NUL # r)" "msg_wf m'"
    "msg_hdrs m' = take TOP_MAX_KEY_VALUE (msg_hdrs m @ map (Pair f) (filter (\<lambda>v. v \<noteq> []) vs))"
    "m' = m\<lparr>m_pHdrFields := m_pHdrFields m'\<rparr>"
proof -
  let ?line = "(name @ sp) @ CHR '':'' # rest" and ?mem = "name @ sp @ '':'' @ rest @ NUL # r"
  have cstr: "cstrE (Some ?mem) = Inr ?line"
    using assms(3,7) cstrE_Some_NUL [of ?line r] by auto
  obtain j where j: "length (name @ sp) = Suc j" using assms(5) by (cases name) auto
  have idx: "index_of CHR '':'' ?line = Some (Suc j)"
    using index_of_append_here [of "CHR '':''" "name @ sp" rest] assms(4,7) j by auto
  have name: "take (if ?line ! j = CHR '' '' then j else Suc j) ?line = name"
  proof (cases "sp = []")
    case True
    then have "?line ! j = last name" using j assms(5) by (simp add: last_conv_nth nth_append)
    with True j assms(6) show ?thesis by simp
  next
    case False
    then have "?line ! j = CHR '' ''" using j assms(7) by (auto simp: nth_append)
    with False j assms(7) show ?thesis by auto
  qed
  have field: "RtspFindHeaderField name = f" "f \<noteq> 0" "RtspHeaderAllowMultiple f = Inr mult"
  proof -
    show "RtspFindHeaderField name = f" using RtspFindHeaderField_nth [OF assms(1,2)] f by (simp only:)
    show "f \<noteq> 0" using header_code(2) [OF assms(1)] f by (simp only:) blast
    then show "RtspHeaderAllowMultiple f = Inr mult" using header_code [OF assms(1)] f mult assms(1)
      by (simp only: RtspHeaderAllowMultiple_def Let_def length_RTSP_HEADERS if_True if_False)
  qed
  let ?vs = "ParseLine_values mult (f = RTSP_HDR_PROXY_AUTHENTICATE \<or> f = RTSP_HDR_WWW_AUTHENTICATE) (j + 2) rest"
  have vs': "vs = map fst ?vs" using vs j by simp
  obtain m' where m': "add_all (add_header alloc_ok) (map (Pair f) (filter (\<lambda>v. v \<noteq> []) vs)) m = Inr m'"
    "msg_wf m'" "msg_hdrs m' = take TOP_MAX_KEY_VALUE (msg_hdrs m @ map (Pair f) (filter (\<lambda>v. v \<noteq> []) vs))"
    "m' = m\<lparr>m_pHdrFields := m_pHdrFields m'\<rparr>"
    using add_all_headers [OF assms(8), of "map (Pair f) (filter (\<lambda>v. v \<noteq> []) vs)"] nn by auto
  have rest: "drop (j + 2) ?line = rest" using j by simp
  obtain mem' where "ParseLine alloc_ok ?mem m = Inr (EOK, mem', m')" "length mem' = length ?mem"
    using ParseLine_step [OF cstr idx name field rest vs' m'(1)] by blast
  with m' show ?thesis using that by blast
qed

section \<open>The loop ends\<close>

definition fuel_free :: "'a outcome \<Rightarrow> bool" where "fuel_free x \<longleftrightarrow> x \<noteq> Inl OutOfFuel"

lemma fuel_free_simps [simp]: "fuel_free (Inr a)" "fuel_free (Inl e) \<longleftrightarrow> e \<noteq> OutOfFuel"
  by (simp_all add: fuel_free_def)

lemma fuel_free_bindE [intro!]:
  "fuel_free m \<Longrightarrow> (\<And>a. fuel_free (k a)) \<Longrightarrow> fuel_free (bindE m k)"
  by (cases m) auto

lemma fuel_free_cstrE [intro, simp]: "fuel_free (cstrE p)"
  by (simp add: cstrE_def split: option.splits)

lemma fuel_free_strchr_mem [intro, simp]: "fuel_free (strchr_mem c m)"
  by (induction c m rule: strchr_mem.induct) auto

lemma fuel_free_memread [intro, simp]: "fuel_free (memread p n)"
  by (simp add: memread_def split: option.splits)

lemma fuel_free_assign [simp]: "fuel_free (RtspKeyValue_assign mok this kv)"
  by (auto simp: RtspKeyValue_assign_def)

lemma fuel_free_copy [simp]: "fuel_free (copy_key_values mok kvs)"
  by (induction kvs) auto

lemma fuel_free_TakeKeyValuesToLarger [simp]: "fuel_free (TakeKeyValuesToLarger mok n a)"
  by (auto simp: TakeKeyValuesToLarger_def copy_into_new_def)

lemma fuel_free_AddKeyValue [simp]: "fuel_free (AddKeyValue mok f p k a)"
  by (auto simp: AddKeyValue_def FillKeyValue_def)

lemma fuel_free_AddHeader [intro, simp]: "fuel_free (AddHeader mok f p k m)"
  by (auto simp: AddHeader_def Let_def split: prod.splits option.splits)

lemma fuel_free_add_all [intro, simp]: "fuel_free (add_all (add_header mok) hs m)"
  by (induction hs arbitrary: m) (auto simp: add_header_def split: prod.splits)

lemma fuel_free_ParseLine [intro, simp]: "fuel_free (ParseLine mok mem m)"
proof -
  have "fuel_free (RtspHeaderAllowMultiple f)" for f
    by (simp add: RtspHeaderAllowMultiple_def Let_def)
  then show ?thesis
    unfolding ParseLine_def Let_def by (auto split: option.splits nat.splits)
qed

lemma fuel_free_ParseResponseStatus [intro, simp]: "fuel_free (ParseResponseStatus debug mok ind s m)"
  by (auto simp: ParseResponseStatus_def InitResponse_def Let_def split: prod.splits)

lemma fuel_free_step_line [simp]: "fuel_free (step_line debug mok ind i p)"
  by (auto simp: step_line_def Let_def split: prod.splits)

lemma fuel_free_step_blank_line [simp]: "fuel_free (step_blank_line mok p r)"
  by (auto simp: step_blank_line_def Let_def SetBodySize_def split: prod.splits option.splits RtspMsgObj.splits)

lemma fuel_free_parse_step [simp]: "fuel_free (parse_step debug mok ind p r)"
  by (cases "m_state p")
     (auto simp: parse_step_def step_start_def step_data_header_def step_data_body_def step_read_lines_def
       SetBody_def Let_def split: prod.splits option.splits)

definition parser_wf :: "RtspProtoParser \<Rightarrow> bool" where
  "parser_wf p \<longleftrightarrow> length (m_pBuf p) = RTSP_RECVBUF_SIZE \<and> m_nBufBytes p \<le> RTSP_RECVBUF_SIZE
     \<and> m_state p \<noteq> STATE_LAST"

fun state_rank :: "BUILDER_STATE \<Rightarrow> nat" where
  "state_rank STATE_START = 3"
| "state_rank STATE_DATA_HEADER = 2"
| "state_rank STATE_READ_LINES = 2"
| "state_rank STATE_DATA_BODY = 1"
| "state_rank STATE_END = 0"
| "state_rank STATE_LAST = 0"

definition work_left :: "RtspProtoParser \<Rightarrow> nat" where
  "work_left p = (m_nBufBytes p - m_nOffset p) + state_rank (m_state p)"

definition alloc_total :: "alloc \<Rightarrow> bool" where "alloc_total mok \<longleftrightarrow> (\<forall>n. mok n)"

lemma ParseLine_length: "ParseLine mok mem m = Inr (r, mem', m') \<Longrightarrow> length mem' = length mem"
  unfolding ParseLine_def Let_def bindE_Inr_iff
  by (elim exE conjE) (auto simp: bindE_Inr_iff split: option.split_asm nat.split_asm if_split_asm)

text \<open>The line after normalisation stays terminated and keeps its length.\<close>

lemma line_memory:
  assumes "i < length m"
  shows "terminated (TrimRightSpace (fst (NormalizeLine (m[i := NUL, i + 1 := NUL]))))"
    and "length (TrimRightSpace (fst (NormalizeLine (m[i := NUL, i + 1 := NUL])))) = length m"
proof -
  let ?m = "m[i := NUL, i + 1 := NUL]"
  have "?m ! i = NUL" "i < length ?m" using assms by (auto simp: nth_list_update)
  then have t: "terminated ?m" unfolding terminated_def by (metis nth_mem)
  then show "terminated (TrimRightSpace (fst (NormalizeLine ?m)))"
    "length (TrimRightSpace (fst (NormalizeLine ?m))) = length m"
    using NormalizeLine_spec [OF t] TrimRightSpace_props by simp_all
qed

lemma step_line_done:
  assumes "step_line debug mok ind i p = Inr st" "m_nOffset p + i < length (m_pBuf p)"
  obtains res mem msg where "st = line_done i p res mem msg" "length mem = length (m_pBuf p) - m_nOffset p"
proof -
  obtain line where l: "line = TrimRightSpace (fst (NormalizeLine ((drop (m_nOffset p) (m_pBuf p))[i := NUL, i + 1 := NUL])))"
    by blast
  have len: "length line = length (m_pBuf p) - m_nOffset p"
    using line_memory(2) [of i "drop (m_nOffset p) (m_pBuf p)"] assms(2) l by auto
  note def = assms(1) [unfolded step_line_def Let_def, folded l]
  then show ?thesis
    using that len
    by (auto simp: bindE_Inr_iff dest!: ParseLine_length split: if_split_asm prod.split_asm)
qed

lemma step_line_props:
  assumes "step_line debug mok ind i p = Inr (p', r', b)" "parser_wf p"
    and "m_nOffset p + i + 1 < length (m_pBuf p)" "m_state p = STATE_READ_LINES"
  shows "parser_wf p' \<and> \<not> b \<and> m_nBufBytes p' = m_nBufBytes p \<and>
     (m_nOffset p' = m_nOffset p \<and> m_state p' = STATE_END \<or>
      m_nOffset p' = m_nOffset p + i + 2 \<and> m_state p' = STATE_READ_LINES)"
proof -
  have "m_nOffset p + i < length (m_pBuf p)" using assms(3) by simp
  with assms(1) obtain res mem msg where "(p', r', b) = line_done i p res mem msg"
    "length mem = length (m_pBuf p) - m_nOffset p" by (rule step_line_done)
  with assms(2-4) show ?thesis
    by (auto simp: line_done_def Let_def parser_wf_def split: if_split_asm)
qed

lemma step_blank_line_props:
  assumes "step_blank_line mok p r = Inr (p', r', b)" "parser_wf p"
  shows "parser_wf p' \<and> \<not> b \<and> m_nBufBytes p' = m_nBufBytes p \<and> r' = r \<and>
     m_nOffset p' = m_nOffset p + 2 \<and> (m_state p' = STATE_END \<or> m_state p' = STATE_DATA_BODY)"
  using assms
  by (auto simp: step_blank_line_def Let_def bindE_Inr_iff parser_wf_def
      split: if_splits prod.splits option.splits RtspMsgObj.splits)

lemma step_read_lines_props:
  assumes "step_read_lines debug mok ind p r = Inr (p', r', b)" "parser_wf p" "m_state p = STATE_READ_LINES"
  shows "parser_wf p' \<and> m_nBufBytes p' = m_nBufBytes p \<and> (b \<or>
     m_nOffset p' = m_nOffset p \<and> m_state p' = STATE_END \<or>
     m_nOffset p' \<ge> m_nOffset p + 2 \<and> m_state p' \<in> {STATE_READ_LINES, STATE_END, STATE_DATA_BODY})"
proof -
  consider "p' = p" "b" | "p' = p\<lparr>m_state := STATE_END\<rparr>"
    | "step_blank_line mok p r = Inr (p', r', b)"
    | i where "step_line debug mok ind i p = Inr (p', r', b)" "m_nOffset p + i + 1 < length (m_pBuf p)"
    using assms(1) by (auto simp: step_read_lines_def bindE_Inr_iff split: option.splits if_splits)
  then show ?thesis
  proof cases
    case 3
    then show ?thesis using step_blank_line_props [OF _ assms(2)] by auto
  next
    case (4 i)
    then show ?thesis using step_line_props [OF _ assms(2), of debug mok ind i p' r' b] assms(3) by auto
  qed (use assms in \<open>auto simp: parser_wf_def\<close>)
qed

lemma parse_step_progress:
  assumes "parse_step debug mok ind p r = Inr (p', r', b)" "parser_wf p" "alloc_total mok"
  shows "parser_wf p' \<and> m_nBufBytes p' = m_nBufBytes p
     \<and> (\<not> b \<longrightarrow> m_nOffset p' < m_nBufBytes p' \<longrightarrow> work_left p' < work_left p)"
proof (cases "m_state p = STATE_READ_LINES")
  case True
  then show ?thesis using assms step_read_lines_props [of debug mok ind p r p' r' b]
    by (auto simp: parse_step_def work_left_def)
next
  case False
  with assms show ?thesis
    by (cases "m_state p")
       (auto simp: parse_step_def step_start_def step_data_header_def step_data_body_def InitData_def
         Let_def work_left_def parser_wf_def alloc_total_def bindE_Inr_iff split: if_splits prod.splits)
qed

lemma parse_loop_ends:
  assumes "parser_wf p" "work_left p < n" "alloc_total mok"
  shows "fuel_free (parse_loop debug mok ind n p r) \<and>
    (\<forall>p' r'. parse_loop debug mok ind n p r = Inr (p', r') \<longrightarrow>
       parser_wf p' \<and> m_nBufBytes p' = m_nBufBytes p)"
  using assms
proof (induction n arbitrary: p r)
  case (Suc n)
  show ?case
  proof (cases "parse_step debug mok ind p r")
    case (Inl e)
    then show ?thesis using fuel_free_parse_step [of debug mok ind p r] by simp
  next
    case (Inr st)
    obtain p1 r1 b where st: "st = (p1, r1, b)" by (cases st)
    note prog = parse_step_progress [OF Inr [unfolded st] Suc.prems(1,3)]
    show ?thesis
    proof (cases "\<not> b \<and> m_nOffset p1 < m_nBufBytes p1")
      case True
      with prog Suc.prems(2) have "work_left p1 < n" by auto
      with True prog Suc.IH [of p1 r1] Inr st Suc.prems(3) show ?thesis by auto
    qed (use prog Inr st in auto)
  qed
qed simp

section \<open>What a line leaves in memory\<close>

lemma drop_write_nuls: "\<forall>i \<in> set is. i < n \<Longrightarrow> drop n (write_nuls is m) = drop n m"
  unfolding write_nuls_def by (induction "is" arbitrary: m) auto

lemma scan_value_bound:
  "(\<forall>k. pComma = Some k \<longrightarrow> k \<le> i) \<Longrightarrow> scan_value auth q n pComma i s \<le> i + length s"
proof (induction "length s" arbitrary: s auth q n pComma i rule: less_induct)
  case less
  show ?case
  proof (cases s)
    case (Cons c cs)
    have rec: "scan_value auth' q' n' pc i' s' \<le> Suc (i + length cs)"
      if "length s' < Suc (length cs)" "i' + length s' = Suc (i + length cs)" "\<forall>k. pc = Some k \<longrightarrow> k \<le> i'"
      for auth' q' n' pc i' s'
      using less.hyps [of s' pc i' auth' q' n'] that Cons by simp
    have tl: "cs \<noteq> [] \<Longrightarrow> Suc (Suc (i + length (tl cs))) = Suc (i + length cs)" by (cases cs) auto
    have pc: "pComma = Some k \<Longrightarrow> k \<le> i" for k using less.prems by simp
    have "scan_value auth q n pComma i (c # cs) \<le> Suc (i + length cs)"
      using pc by (cases pComma) (simp_all add: rec tl le_SucI)
    with Cons show ?thesis by simp
  qed simp
qed

lemma value_cut_offsets:
  "s \<noteq> [] \<Longrightarrow> \<forall>x \<in> set (fst (snd (value_cut m a s))). x < length s"
proof -
  assume s: "s \<noteq> []"
  let ?d = "if take 1 s = '' '' then 1 else 0"
  have "scan_value a False 0 None 0 (drop ?d s) \<le> length (drop ?d s)"
    using scan_value_bound [of None 0 a False 0 "drop ?d s"] by simp
  with s show ?thesis by (auto simp: value_cut_def Let_def)
qed

lemma ParseLine_values_offsets:
  "\<forall>x \<in> set (concat (map snd (ParseLine_values m a b s))). x < b + length s"
proof (induction m a b s rule: ParseLine_values.induct)
  case (1 m a b s)
  show ?case
  proof (cases "s = []")
    case False
    let ?n = "snd (snd (value_cut m a s))"
    have "x < b + length s" if "x < b + ?n + length (drop ?n s)" "drop ?n s \<noteq> []" for x
      using that by auto
    moreover have "ParseLine_values m a b' [] = []" for b' by (subst ParseLine_values.simps) simp
    ultimately show ?thesis
      using 1 [OF False refl] value_cut_offsets [OF False, of m a] False
      by (subst ParseLine_values.simps, cases "drop ?n s = []") (auto simp: Let_def)
  qed (subst ParseLine_values.simps, simp)
qed

lemma ParseLine_frame:
  assumes "ParseLine mok mem m = Inr (r, mem', m')"
  shows "drop (length (cstr mem)) mem' = drop (length (cstr mem)) mem"
proof (cases "index_of CHR '':'' (cstr mem)")
  case None
  with assms show ?thesis by (auto simp: ParseLine_def cstrE_def split: if_splits)
next
  case (Some i)
  let ?n = "length (cstr mem)"
  have i: "i < ?n" using index_of_SomeD [OF Some] by simp
  have t: "terminated mem" using assms by (simp add: ParseLine_def cstrE_def split: if_splits)
  show ?thesis
  proof (cases i)
    case 0
    with assms Some t show ?thesis by (simp add: ParseLine_def cstrE_def)
  next
    case (Suc j)
    have w: "drop ?n (write_nuls [j, Suc j] x) = drop ?n x" "drop ?n (write_nuls [Suc j] x) = drop ?n x" for x
      using i Suc by (auto intro!: drop_write_nuls)
    have v: "drop ?n (write_nuls (concat (map snd (ParseLine_values mu a (j + 2) (drop (j + 2) (cstr mem))))) x)
        = drop ?n x" for mu a x
    proof (intro drop_write_nuls ballI)
      fix y assume "y \<in> set (concat (map snd (ParseLine_values mu a (j + 2) (drop (j + 2) (cstr mem)))))"
      then have "y < j + 2 + length (drop (j + 2) (cstr mem))" using ParseLine_values_offsets by blast
      then show "y < ?n" using i Suc by simp
    qed
    show ?thesis
      using assms Some Suc t unfolding ParseLine_def Let_def
      by (simp only: cstrE_def option.case nat.case if_True bindE.simps)
         (auto simp: bindE_Inr_iff v [simplified] w split: if_split_asm)
  qed
qed

lemma NormalizeLine_idle: "single_blanks s \<Longrightarrow> NUL \<notin> set s \<Longrightarrow> NormalizeLine (s @ NUL # r) = (s @ NUL # r, 0)"
proof (induction s)
  case (Cons c s)
  have "takeWhile is_space (s @ NUL # r) = []" if "is_space c"
    using that Cons.prems by (cases s) (auto simp: single_blanks_Cons)
  with Cons show ?case
    by (auto simp: single_blanks_Cons NormalizeLine_other NormalizeLine.simps(2) [of "CHR '' ''"] Let_def)
qed (simp add: NormalizeLine_NUL)

lemma TrimRightSpace_idle:
  "NUL \<notin> set s \<Longrightarrow> s \<noteq> [] \<Longrightarrow> last s \<noteq> CHR '' '' \<Longrightarrow> TrimRightSpace (s @ NUL # r) = s @ NUL # r"
proof -
  assume a: "NUL \<notin> set s" "s \<noteq> []" "last s \<noteq> CHR '' ''"
  then obtain k where k: "length s = Suc k" by (cases s) auto
  with a have "(s @ NUL # r) ! k = last s" by (simp add: nth_append last_conv_nth)
  with a k show ?thesis by (simp add: TrimRightSpace_def cstr_append_NUL)
qed

text \<open>A line that normalisation leaves alone.\<close>

definition clean_line :: "string \<Rightarrow> bool" where
  "clean_line l \<longleftrightarrow> l \<noteq> [] \<and> NUL \<notin> set l \<and> CR \<notin> set l \<and> single_blanks l \<and> last l \<noteq> CHR '' ''"

lemma clean_line_memory:
  assumes "clean_line l"
  shows "TrimRightSpace (fst (NormalizeLine ((l @ CR # LF # rest)[length l := NUL, length l + 1 := NUL])))
     = l @ NUL # NUL # rest"
  using assms by (simp add: clean_line_def list_update_append NormalizeLine_idle TrimRightSpace_idle)

section \<open>Properties\<close>

lemma Parse_ends:
  assumes "parser_wf p" and "alloc_total mok"
  shows "case Parse debug mok ind packet p of Inl e \<Rightarrow> e \<noteq> OutOfFuel | Inr (r, pMsg, p') \<Rightarrow> parser_wf p'"
proof -
  let ?p = "parse_fill packet (parse_begin p)"
  have b: "parser_wf (parse_begin p)" using assms(1) by (auto simp: parse_begin_def parser_wf_def)
  then have f: "parser_wf ?p" by (auto simp: parse_fill_def Let_def parser_wf_def min_def)
  have "state_rank (m_state ?p) \<le> 3" by (cases "m_state ?p") auto
  moreover have "m_nBufBytes ?p \<le> RTSP_RECVBUF_SIZE" using f by (simp add: parser_wf_def)
  ultimately have "work_left ?p < parse_fuel" by (simp add: work_left_def parse_fuel_def)
  then have loop: "fuel_free (parse_loop debug mok ind parse_fuel ?p (Z3 Z3_ERROR))"
    "\<And>p' r'. parse_loop debug mok ind parse_fuel ?p (Z3 Z3_ERROR) = Inr (p', r') \<Longrightarrow> parser_wf p'"
    using parse_loop_ends [OF f _ assms(2), of parse_fuel debug ind "Z3 Z3_ERROR"] by auto
  have e: "parser_wf q \<Longrightarrow> parser_wf (parse_end q)" for q
    by (auto simp: parse_end_def Let_def parser_wf_def)
  have "Parse debug mok ind packet p \<noteq> Inl OutOfFuel"
    using loop(1) by (cases "parse_loop debug mok ind parse_fuel ?p (Z3 Z3_ERROR)") (auto simp: Parse_def Let_def fuel_free_def split: if_splits)
  moreover have "Parse debug mok ind packet p = Inr (r, pMsg, p') \<Longrightarrow> parser_wf p'" for r pMsg p'
    using b e loop(2) by (auto simp: Parse_def Let_def bindE_Inr_iff split: if_splits) (auto simp: parser_wf_def)
  ultimately show ?thesis by (auto split: sum.split)
qed

text \<open>C5. From any well-formed parser (a 4096-byte buffer, at most that many bytes in it) and for any
  packet, \<open>Parse\<close> ends: the loop takes at most \<open>parse_fuel\<close> iterations, since each one that does not
  leave it consumes input or moves to a later state. The parser it leaves is well-formed again, so
  this holds for every sequence of packets. It rests on allocations being served: see \<open>data_header_livelock\<close>.\<close>

theorem Parse_terminates:
  assumes "parser_wf p" and "alloc_total mok"
  shows "case Parse debug mok ind packet p of Inl e \<Rightarrow> e \<noteq> OutOfFuel | Inr (r, pMsg, p') \<Rightarrow> parser_wf p'"
  using assms by (rule Parse_ends)

theorem Parse_terminates_witness:
  "Parse False alloc_ok zero_indet ''OPT'' RtspProtoParser_new \<noteq> Inl OutOfFuel"
proof -
  have "parser_wf RtspProtoParser_new" by (simp add: parser_wf_def RtspProtoParser_new_def)
  moreover have "alloc_total alloc_ok" by (simp add: alloc_total_def alloc_ok)
  ultimately show ?thesis
    using Parse_terminates [of RtspProtoParser_new alloc_ok False zero_indet "''OPT''"] by (auto split: sum.splits)
qed

text \<open>When the allocator cannot serve the body of an interleaved packet, the loop never ends:
  \<open>STATE_DATA_HEADER\<close> leaves the state, the offset and \<open>bBreak\<close> as they are.\<close>

theorem data_header_livelock:
  assumes "m_state p = STATE_DATA_HEADER" and "4 \<le> m_nBufBytes p - m_nOffset p" and "\<forall>n. \<not> mok n"
  shows "parse_loop debug mok ind fuel p result = Inl OutOfFuel"
  using assms(1,2)
proof (induction fuel arbitrary: p result)
  case (Suc fuel)
  then show ?case
    using assms(3) Suc.IH
    by (simp add: parse_step_def step_data_header_def InitData_def Let_def)
qed simp

theorem data_header_livelock_witness:
  "parse_loop False (\<lambda>n. False) zero_indet 5000
     (RtspProtoParser_new\<lparr>m_state := STATE_DATA_HEADER, m_nBufBytes := 4\<rparr>) EOK = Inl OutOfFuel"
  by (rule data_header_livelock) (simp_all add: RtspProtoParser_new_def)

text \<open>A parser left in \<open>STATE_END\<close> without a complete message (an error in a line, or a body the
  code rejected) never recovers: every later packet is refused with \<open>Z3_ERROR\<close> and only fills the
  buffer, and the parser is in the same situation again.\<close>

theorem error_state_is_final:
  assumes "m_state p = STATE_END" and "\<not> m_bMsgCompleted p" and "m_nOffset p = 0" and "packet \<noteq> []"
    and "m_nBufBytes p \<le> RTSP_RECVBUF_SIZE"
  shows "\<exists>p'. Parse debug mok ind packet p = Inr (Z3 Z3_ERROR, None, p')
     \<and> m_state p' = STATE_END \<and> \<not> m_bMsgCompleted p' \<and> m_nOffset p' = 0
     \<and> m_pRtspMsg p' = m_pRtspMsg p
     \<and> m_nBufBytes p' = min RTSP_RECVBUF_SIZE (m_nBufBytes p + length packet)"
proof -
  let ?p = "parse_fill packet p"
  have p: "m_state ?p = STATE_END" "\<not> m_bMsgCompleted ?p" "m_nOffset ?p = 0" "m_pRtspMsg ?p = m_pRtspMsg p"
    "m_nBufBytes ?p = min RTSP_RECVBUF_SIZE (m_nBufBytes p + length packet)"
    using assms(1-3,5) by (auto simp: parse_fill_def Let_def)
  obtain n where n: "parse_fuel = Suc n" by (simp add: parse_fuel_def)
  have "parse_loop debug mok ind parse_fuel ?p (Z3 Z3_ERROR) = Inr (?p, Z3 Z3_ERROR)"
    unfolding n parse_loop.simps using p by (simp add: parse_step_def)
  then have "Parse debug mok ind packet p = Inr (Z3 Z3_ERROR, None, parse_end ?p)"
    using assms(2,4) p(3) by (simp add: Parse_def parse_begin_def Let_def)
  then show ?thesis using p by (auto simp: parse_end_def Let_def)
qed

theorem error_state_is_final_witness:
  "\<exists>p'. Parse False alloc_ok zero_indet ''a'' (RtspProtoParser_new\<lparr>m_state := STATE_END\<rparr>) = Inr (Z3 Z3_ERROR, None, p')"
  using error_state_is_final [of "RtspProtoParser_new\<lparr>m_state := STATE_END\<rparr>" "''a''" False alloc_ok zero_indet]
  by (auto simp: RtspProtoParser_new_def)

end
