(* ===== verification/RtspParserMessages.thy ===== *)
theory RtspParserMessages
  imports RtspParser
begin

text \<open>
  What \<open>RtspProtoParser::Parse\<close> makes of whole messages: requests and responses in the form
  \<open>RtspMsg::ToString\<close> prints them, cut off at a line boundary, followed by an empty line, or
  followed by a body.
\<close>

section \<open>Whole messages\<close>

text \<open>A parser that reads lines and has \<open>rest\<close> in front of it.\<close>

definition reading :: "RtspProtoParser \<Rightarrow> string \<Rightarrow> bool" where
  "reading p rest \<longleftrightarrow> m_state p = STATE_READ_LINES \<and> m_nOffset p \<le> length (m_pBuf p)
     \<and> drop (m_nOffset p) (m_pBuf p) = rest"

lemma reading_line:
  assumes "reading p (l @ CR # LF # rest)" "clean_line l"
  shows "parse_step debug mok ind p r = step_line debug mok ind (length l) p"
    and "TrimRightSpace (fst (NormalizeLine ((drop (m_nOffset p) (m_pBuf p))[length l := NUL, length l + 1 := NUL])))
      = l @ NUL # NUL # rest"
proof -
  let ?m = "l @ CR # LF # rest"
  have d: "drop (m_nOffset p) (m_pBuf p) = ?m" using assms(1) by (simp add: reading_def)
  have idx: "strchr_mem CR (l' @ CR # y) = Inr (Some (length l'))" if "NUL \<notin> set l'" "CR \<notin> set l'" for l' y
    using that by (induction l') auto
  have len: "length (m_pBuf p) = m_nOffset p + length ?m"
    using assms(1) d by (metis add_diff_inverse_nat length_drop not_less reading_def)
  have "m_pBuf p ! (m_nOffset p + (length l + 1)) = ?m ! (length l + 1)"
    using d len by (metis le_add1 nth_drop)
  also have "\<dots> = LF" by (simp add: nth_append)
  finally have nth: "m_pBuf p ! (m_nOffset p + length l + 1) = LF" by (simp add: add.assoc)
  have l: "length l \<noteq> 0" using assms(2) by (simp add: clean_line_def)
  show "parse_step debug mok ind p r = step_line debug mok ind (length l) p"
    using assms idx [of l "LF # rest"] d nth len l
    by (simp add: parse_step_def reading_def step_read_lines_def clean_line_def)
  show "TrimRightSpace (fst (NormalizeLine ((drop (m_nOffset p) (m_pBuf p))[length l := NUL, length l + 1 := NUL])))
      = l @ NUL # NUL # rest"
    using d clean_line_memory [OF assms(2)] by simp
qed

text \<open>Headers that are printed on one line and read back from it.\<close>

definition sendable :: "RTSP_HEADER_FIELD \<times> string \<Rightarrow> bool" where
  "sendable h \<longleftrightarrow> (\<exists>i<48. fst h = of_nat (i + 1)
      \<and> (snd (RTSP_HEADERS ! i) \<longrightarrow> plain_value (snd h)
           \<and> fst h \<noteq> RTSP_HDR_PROXY_AUTHENTICATE \<and> fst h \<noteq> RTSP_HDR_WWW_AUTHENTICATE))
   \<and> clean_line (snd h) \<and> hd (snd h) \<noteq> CHR '' ''"

definition header_line_text :: "RTSP_HEADER_FIELD \<times> string \<Rightarrow> string" where
  "header_line_text h = field_name (fst h) @ '': '' @ snd h"

lemma field_names_ok:
  "\<forall>n \<in> fst ` set RTSP_HEADERS. n \<noteq> [] \<and> last n \<noteq> CHR '' '' \<and>
     (\<forall>c \<in> set n. c \<noteq> CHR '':'' \<and> c \<noteq> NUL \<and> \<not> is_space c)"
  by code_simp

definition header_name :: "string \<Rightarrow> bool" where
  "header_name n \<longleftrightarrow> n \<noteq> [] \<and> last n \<noteq> CHR '' '' \<and> (\<forall>c \<in> set n. c \<noteq> CHR '':'' \<and> c \<noteq> NUL \<and> \<not> is_space c)"

lemma header_name_nth: "i < 48 \<Longrightarrow> header_name (fst (RTSP_HEADERS ! i))"
  using field_names_ok unfolding header_name_def by (metis image_eqI length_RTSP_HEADERS nth_mem)

lemma field_name_nth: "i < 48 \<Longrightarrow> field_name (of_nat (i + 1)) = fst (RTSP_HEADERS ! i)"
  using header_code [of i] by (simp only: field_name_def)

lemma single_blanks_append:
  "single_blanks t \<Longrightarrow> (\<forall>c \<in> set s. \<not> is_space c) \<Longrightarrow> single_blanks (s @ t)"
  by (induction s) (auto simp: single_blanks_Cons)

lemma sendable_line:
  assumes "sendable h"
  obtains i where "i < 48" "fst h = of_nat (i + 1)" "field_name (fst h) = fst (RTSP_HEADERS ! i)"
    "clean_line (header_line_text h)" "NUL \<notin> set (snd h)"
    "map fst (ParseLine_values (snd (RTSP_HEADERS ! i)) (fst h = RTSP_HDR_PROXY_AUTHENTICATE \<or>
        fst h = RTSP_HDR_WWW_AUTHENTICATE) b ('' '' @ snd h)) = [snd h]" "snd h \<noteq> []"
proof -
  obtain i where i: "i < 48" "fst h = of_nat (i + 1)" and v: "clean_line (snd h)" "hd (snd h) \<noteq> CHR '' ''"
    and m: "snd (RTSP_HEADERS ! i) \<Longrightarrow> plain_value (snd h)
           \<and> fst h \<noteq> RTSP_HDR_PROXY_AUTHENTICATE \<and> fst h \<noteq> RTSP_HDR_WWW_AUTHENTICATE"
    using assms unfolding sendable_def by blast
  have name: "field_name (fst h) = fst (RTSP_HEADERS ! i)"
    using field_name_nth [OF i(1)] i(2) by (simp only:)
  then have n: "field_name (fst h) \<noteq> []" "\<forall>c \<in> set (field_name (fst h)). c \<noteq> NUL \<and> \<not> is_space c"
    using header_name_nth [OF i(1)] by (auto simp: header_name_def)
  have cr: "is_space CR" by (simp add: is_space_def)
  have "single_blanks (snd h)" "\<not> is_space (hd (snd h))"
    using v by (cases "snd h"; auto simp: clean_line_def single_blanks_Cons)+
  then have "single_blanks (CHR '':'' # CHR '' '' # snd h)"
    by (simp add: single_blanks_Cons is_space_def)
  then have "single_blanks (header_line_text h)"
    using single_blanks_append [of "CHR '':'' # CHR '' '' # snd h" "field_name (fst h)"] n(2)
    by (simp add: header_line_text_def)
  then have "clean_line (header_line_text h)"
    using n v cr by (auto simp: clean_line_def header_line_text_def)
  moreover have "map fst (ParseLine_values (snd (RTSP_HEADERS ! i)) (fst h = RTSP_HDR_PROXY_AUTHENTICATE \<or>
        fst h = RTSP_HDR_WWW_AUTHENTICATE) b ('' '' @ snd h)) = [snd h]"
  proof (cases "snd (RTSP_HEADERS ! i)")
    case True
    then show ?thesis using m values_list [of "[snd h]" "'' ''" b] by simp
  next
    case False
    have "trim1 ('' '' @ snd h) = snd h" using v by (simp add: trim1_def clean_line_def)
    with False show ?thesis by (simp add: values_single)
  qed
  ultimately show ?thesis using that i name v by (auto simp: clean_line_def)
qed

text \<open>\<open>advanced p p' n hs\<close>: \<open>n\<close> bytes further on, the headers \<open>hs\<close> were added and nothing else of
  the message changed.\<close>

definition advanced :: "RtspProtoParser \<Rightarrow> RtspProtoParser \<Rightarrow> nat \<Rightarrow> (RTSP_HEADER_FIELD \<times> string) list \<Rightarrow> bool" where
  "advanced p p' n hs \<longleftrightarrow> m_nOffset p' = m_nOffset p + n \<and> m_nBufBytes p' = m_nBufBytes p
     \<and> length (m_pBuf p') = length (m_pBuf p) \<and> 0 < m_nLine p' \<and> msg_wf (m_pRtspMsg p')
     \<and> msg_hdrs (m_pRtspMsg p') = take TOP_MAX_KEY_VALUE (msg_hdrs (m_pRtspMsg p) @ hs)
     \<and> m_pRtspMsg p' = (m_pRtspMsg p)\<lparr>m_pHdrFields := m_pHdrFields (m_pRtspMsg p')\<rparr>
     \<and> m_bMsgCompleted p' = m_bMsgCompleted p"

lemma reading_length: "reading p s \<Longrightarrow> length (m_pBuf p) = m_nOffset p + length s"
  unfolding reading_def by (metis add_diff_inverse_nat length_drop not_less)

lemma header_step:
  assumes "reading p (header_line_text h @ CRLF @ rest)" "0 < m_nLine p" "sendable h" "msg_wf (m_pRtspMsg p)"
  obtains p' where "parse_step debug alloc_ok ind p r = Inr (p', EOK, False)" "reading p' rest"
    "advanced p p' (length (header_line_text h) + 2) [h]"
proof -
  let ?l = "header_line_text h"
  obtain i where i: "i < 48" "fst h = of_nat (i + 1)" "field_name (fst h) = fst (RTSP_HEADERS ! i)"
    "clean_line ?l" "NUL \<notin> set (snd h)" "snd h \<noteq> []" and
    vs: "map fst (ParseLine_values (snd (RTSP_HEADERS ! i)) (fst h = RTSP_HDR_PROXY_AUTHENTICATE \<or>
        fst h = RTSP_HDR_WWW_AUTHENTICATE) (length (field_name (fst h) @ []) + 1) ('' '' @ snd h)) = [snd h]"
    by (rule sendable_line [OF assms(3)])
  have name: "field_name (fst h) \<noteq> []" "last (field_name (fst h)) \<noteq> CHR '' ''"
    "\<forall>c \<in> set (field_name (fst h)). c \<noteq> CHR '':'' \<and> c \<noteq> NUL"
    using header_name_nth [OF i(1)] i(3) by (auto simp: header_name_def)
  obtain mem' m' where pl: "ParseLine alloc_ok (field_name (fst h) @ [] @ '':'' @ ('' '' @ snd h) @ NUL # NUL # rest)
        (m_pRtspMsg p) = Inr (EOK, mem', m')"
    "length mem' = length (field_name (fst h) @ [] @ '':'' @ ('' '' @ snd h) @ NUL # NUL # rest)" "msg_wf m'"
    "msg_hdrs m' = take TOP_MAX_KEY_VALUE (msg_hdrs (m_pRtspMsg p) @ map (Pair (fst h)) (filter (\<lambda>v. v \<noteq> []) [snd h]))"
    "m' = (m_pRtspMsg p)\<lparr>m_pHdrFields := m_pHdrFields m'\<rparr>"
  proof (rule ParseLine_known [OF i(1) _ _ _ name(1,2) _ assms(4) i(2) refl vs [symmetric], of "NUL # rest" thesis])
    show "stricmp_eq (fst (RTSP_HEADERS ! i)) (field_name (fst h))" using i(3) by simp
  qed (use name i(5) that in auto)
  have mem: "field_name (fst h) @ [] @ '':'' @ ('' '' @ snd h) @ NUL # NUL # rest = ?l @ NUL # NUL # rest"
    by (simp add: header_line_text_def)
  have line: "cstr (?l @ NUL # NUL # rest) = ?l" using i(4) by (simp add: clean_line_def cstr_append_NUL)
  note pl' = pl(1,2) [unfolded mem]
  have frame: "drop (length ?l) mem' = NUL # NUL # rest"
    using ParseLine_frame [OF pl'(1)] line by simp
  note rd = reading_line [OF assms(1) [unfolded CRLF_def append.simps] i(4)]
  have "parse_step debug alloc_ok ind p r = Inr (line_done (length ?l) p EOK mem' m')"
    using rd assms(2) pl'(1) unfolding step_line_def Let_def by simp
  moreover have "reading (fst (line_done (length ?l) p EOK mem' m')) rest"
  proof -
    have "drop (2 + length ?l) mem' = rest" using frame by (metis drop_drop drop_Suc_Cons drop0 numeral_2_eq_2 drop_Suc add.commute tl_drop list.sel(3))
    then show ?thesis
      using assms(1) reading_length [OF assms(1)] pl'(2)
      by (auto simp: reading_def line_done_def Let_def CRLF_def)
  qed
  moreover have "advanced p (fst (line_done (length ?l) p EOK mem' m')) (length ?l + 2) [h]"
    using pl(3-5) pl'(2) i(6) reading_length [OF assms(1)]
    by (auto simp: advanced_def line_done_def Let_def CRLF_def)
  moreover have "line_done (length ?l) p EOK mem' m' = (fst (line_done (length ?l) p EOK mem' m'), EOK, False)"
    by (simp add: line_done_def Let_def)
  ultimately show ?thesis using that by metis
qed

abbreviation lines_text :: "(RTSP_HEADER_FIELD \<times> string) list \<Rightarrow> string" where
  "lines_text hs \<equiv> concat (map (\<lambda>h. header_line_text h @ CRLF) hs)"

lemma advanced_trans:
  "advanced p p1 n hs \<Longrightarrow> advanced p1 p2 k gs \<Longrightarrow> advanced p p2 (n + k) (hs @ gs)"
  unfolding advanced_def
  by (auto simp: min_def split: if_splits) (metis RtspMsg.update_convs(2) RtspMsg.surjective)+

text \<open>The header lines, up to a point that is not the end of what was received, or is.\<close>

lemma header_loop:
  assumes "reading p (lines_text hs @ rest)" "0 < m_nLine p" "\<forall>h \<in> set hs. sendable h" "msg_wf (m_pRtspMsg p)"
    and "m_nOffset p + length (lines_text hs) \<le> m_nBufBytes p" "hs \<noteq> []"
  obtains p' where "reading p' rest" "advanced p p' (length (lines_text hs)) hs"
    "parse_loop debug alloc_ok ind (length hs + k) p r =
       (if m_nOffset p' < m_nBufBytes p' then parse_loop debug alloc_ok ind k p' EOK else Inr (p', EOK))"
  using assms
proof (induction hs arbitrary: p r thesis)
  case (Cons h hs)
  obtain p1 where p1: "parse_step debug alloc_ok ind p r = Inr (p1, EOK, False)"
    "reading p1 (lines_text hs @ rest)" "advanced p p1 (length (header_line_text h) + 2) [h]"
    using header_step [of p h "lines_text hs @ rest" debug ind r] Cons.prems by auto
  have len: "length (lines_text (h # hs)) = length (header_line_text h) + 2 + length (lines_text hs)"
    by (simp add: CRLF_def)
  show ?case
  proof (cases "hs = []")
    case True
    with p1 len show ?thesis using Cons.prems(1) [of p1] by simp
  next
    case False
    have "m_nOffset p1 < m_nBufBytes p1"
      using p1(3) False Cons.prems(6) len by (cases hs) (auto simp: advanced_def CRLF_def)
    moreover obtain p2 where p2: "reading p2 rest" "advanced p1 p2 (length (lines_text hs)) hs"
      "parse_loop debug alloc_ok ind (length hs + k) p1 EOK =
       (if m_nOffset p2 < m_nBufBytes p2 then parse_loop debug alloc_ok ind k p2 EOK else Inr (p2, EOK))"
      using Cons.IH [of p1 EOK thesis] p1(2,3) Cons.prems(4,6) len False by (auto simp: advanced_def)
    ultimately show ?thesis
      using Cons.prems(1) [of p2] advanced_trans [OF p1(3) p2(2)] p1(1) len by simp
  qed
qed simp

definition fresh_parser :: "RtspProtoParser \<Rightarrow> bool" where
  "fresh_parser p \<longleftrightarrow> parser_wf p \<and>
     (m_bMsgCompleted p \<or> m_state p = STATE_START \<and> m_nOffset p = 0 \<and> m_nBufBytes p = 0)"

text \<open>A start line \<open>l\<close> that the parser reads as the message \<open>m0\<close>, whatever message it has.\<close>

definition start_line :: "bool \<Rightarrow> indet \<Rightarrow> string \<Rightarrow> RtspMsg \<Rightarrow> bool" where
  "start_line debug ind l m0 \<longleftrightarrow> clean_line l \<and> hd l \<noteq> CHR ''$'' \<and> 4 \<le> length l \<and> m_pHdrFields m0 = None \<and>
     (\<forall>m. if take 4 l \<noteq> ''RTSP'' then ParseRequestLine alloc_ok ind l m = (EOK, m0)
          else ParseResponseStatus debug alloc_ok ind l m = Inr (EOK, m0))"

lemma start_step:
  assumes "reading p (l @ CRLF @ rest)" "m_nLine p = 0" "start_line debug ind l m0"
  obtains p' where "parse_step debug alloc_ok ind p r = Inr (p', EOK, False)" "reading p' rest"
    "m_nOffset p' = m_nOffset p + length l + 2" "m_nBufBytes p' = m_nBufBytes p"
    "length (m_pBuf p') = length (m_pBuf p)" "m_nLine p' = 1" "m_pRtspMsg p' = m0"
    "m_bMsgCompleted p' = m_bMsgCompleted p"
proof -
  have clean: "clean_line l" and four: "4 \<le> length l" using assms(3) by (auto simp: start_line_def)
  note rd = reading_line [OF assms(1) [unfolded CRLF_def append.simps] clean]
  have line: "cstr (l @ NUL # NUL # rest) = l" using clean by (simp add: clean_line_def cstr_append_NUL)
  let ?d = "line_done (length l) p EOK (l @ NUL # NUL # rest) m0"
  have "parse_step debug alloc_ok ind p r = Inr ?d"
    using rd assms(2,3) four by (simp add: step_line_def Let_def line start_line_def)
  moreover have "?d = (fst ?d, EOK, False)" by (simp add: line_done_def Let_def)
  moreover have "reading (fst ?d) rest"
    using assms(1) reading_length [OF assms(1)]
    by (auto simp: reading_def line_done_def Let_def CRLF_def)
  moreover have "length (m_pBuf (fst ?d)) = length (m_pBuf p)"
    using reading_length [OF assms(1)] by (simp add: line_done_def Let_def CRLF_def)
  ultimately show ?thesis
    using that [of "fst ?d"] assms(2) by (simp add: line_done_def Let_def)
qed

lemma parse_fill_fresh:
  assumes "fresh_parser p0" "packet \<noteq> []" "length packet \<le> RTSP_RECVBUF_SIZE"
  obtains p stale where "p = parse_fill packet (parse_begin p0)" "m_pBuf p = packet @ stale"
    "m_state p = STATE_START" "m_nOffset p = 0" "m_nBufBytes p = length packet" "\<not> m_bMsgCompleted p"
    "parser_wf p"
proof -
  let ?b = "parse_begin p0"
  have b: "m_state ?b = STATE_START" "m_nOffset ?b = 0" "m_nBufBytes ?b = 0" "m_pBuf ?b = m_pBuf p0"
    "\<not> m_bMsgCompleted ?b"
    using assms(1) by (auto simp: fresh_parser_def parse_begin_def)
  then show ?thesis
    using that [of "parse_fill packet ?b" "drop (length packet) (m_pBuf p0)"] assms
    by (auto simp: parse_fill_def Let_def fresh_parser_def parser_wf_def min_def)
qed

lemma length_lines_text: "2 * length hs \<le> length (lines_text hs)"
  by (induction hs) (auto simp: CRLF_def)

lemma parse_head:
  assumes "fresh_parser p0" "start_line debug ind l m0" "\<forall>h \<in> set hs. sendable h"
    and "packet = l @ CRLF @ lines_text hs @ tail" "length packet \<le> RTSP_RECVBUF_SIZE"
  obtains p3 stale k where "reading p3 (tail @ stale)" "m_nOffset p3 + length tail = m_nBufBytes p3"
    "length (m_pBuf p3) = RTSP_RECVBUF_SIZE"
    "msg_wf (m_pRtspMsg p3)" "msg_hdrs (m_pRtspMsg p3) = take TOP_MAX_KEY_VALUE hs"
    "m_pRtspMsg p3 = m0\<lparr>m_pHdrFields := m_pHdrFields (m_pRtspMsg p3)\<rparr>" "\<not> m_bMsgCompleted p3"
    "Parse debug alloc_ok ind packet p0 =
      bindE (if m_nOffset p3 < m_nBufBytes p3 then parse_loop debug alloc_ok ind (k + 5) p3 EOK
             else Inr (p3, EOK)) (\<lambda>(p2, result).
        let p3 = parse_end p2 in
        if result = EOK then Inr (result, Some (m_pRtspMsg p3), p3\<lparr>m_bMsgCompleted := True\<rparr>)
        else Inr (result, None, p3))"
proof -
  have ne: "packet \<noteq> []" "hd l \<noteq> CHR ''$''" "l \<noteq> []"
    using assms(2,4) by (auto simp: start_line_def CRLF_def)
  obtain p stale where p: "p = parse_fill packet (parse_begin p0)" "m_pBuf p = packet @ stale"
    "m_state p = STATE_START" "m_nOffset p = 0" "m_nBufBytes p = length packet" "\<not> m_bMsgCompleted p"
    "parser_wf p"
    by (rule parse_fill_fresh [OF assms(1) ne(1) assms(5)])
  let ?p1 = "p\<lparr>m_nLine := 0, m_state := STATE_READ_LINES\<rparr>"
  have nth: "m_pBuf p ! 0 \<noteq> CHR ''$''" using p(2) assms(4) ne by (cases l) auto
  then have s1: "parse_step debug alloc_ok ind p (Z3 Z3_ERROR) = Inr (?p1, Z3 Z3_ERROR, False)"
    using p ne by (simp add: parse_step_def step_start_def)
  have r1: "reading ?p1 (l @ CRLF @ lines_text hs @ tail @ stale)"
    using p assms(4) by (simp add: reading_def)
  obtain p2 where p2: "parse_step debug alloc_ok ind ?p1 (Z3 Z3_ERROR) = Inr (p2, EOK, False)"
    "reading p2 (lines_text hs @ tail @ stale)" "m_nOffset p2 = length l + 2" "m_nBufBytes p2 = length packet"
    "length (m_pBuf p2) = length (m_pBuf p)" "m_nLine p2 = 1" "m_pRtspMsg p2 = m0" "\<not> m_bMsgCompleted p2"
    using start_step [OF r1 _ assms(2), of "Z3 Z3_ERROR"] p(4,5) p(6) by auto
  have buf: "length (m_pBuf p) = RTSP_RECVBUF_SIZE" using p(7) by (simp add: parser_wf_def)
  have wf: "msg_wf m0" "msg_hdrs m0 = []"
    using assms(2) by (auto simp: start_line_def msg_wf_def msg_hdrs_def)
  have len: "length packet = length l + 2 + length (lines_text hs) + length tail"
    using assms(4) by (simp add: CRLF_def)
  obtain k where k: "parse_fuel = Suc (Suc (length hs + (k + 5)))"
  proof -
    have "length hs + 7 \<le> parse_fuel"
      using length_lines_text [of hs] len assms(5) by (simp add: parse_fuel_def RTSP_RECVBUF_SIZE_def)
    then show ?thesis using that [of "parse_fuel - (length hs + 7)"] by simp
  qed
  have loop: "parse_loop debug alloc_ok ind parse_fuel p (Z3 Z3_ERROR) =
     (if m_nOffset p2 < m_nBufBytes p2 then parse_loop debug alloc_ok ind (length hs + (k + 5)) p2 EOK else Inr (p2, EOK))"
    unfolding k parse_loop.simps using s1 p2(1,4) p(4,5) ne by simp
  have Parse: "Parse debug alloc_ok ind packet p0 =
      bindE (parse_loop debug alloc_ok ind parse_fuel p (Z3 Z3_ERROR)) (\<lambda>(p2, result).
        let p3 = parse_end p2 in
        if result = EOK then Inr (result, Some (m_pRtspMsg p3), p3\<lparr>m_bMsgCompleted := True\<rparr>)
        else Inr (result, None, p3))"
    using ne(1) p(1,4) by (simp add: Parse_def Let_def)
  show ?thesis
  proof (cases "hs = []")
    case True
    then show ?thesis
      using that [of p2 stale k] p2 loop Parse wf len buf by (simp add: msg_sizes)
  next
    case False
    then have less: "m_nOffset p2 < m_nBufBytes p2"
      using p2(3,4) len by (cases hs) (auto simp: CRLF_def)
    obtain p3 where p3: "reading p3 (tail @ stale)" "advanced p2 p3 (length (lines_text hs)) hs"
      "parse_loop debug alloc_ok ind (length hs + (k + 5)) p2 EOK =
       (if m_nOffset p3 < m_nBufBytes p3 then parse_loop debug alloc_ok ind (k + 5) p3 EOK else Inr (p3, EOK))"
      using header_loop [OF p2(2) _ assms(3), where debug = debug and ind = ind and k = "k + 5" and r = EOK] p2(3,4,6,7) wf(1) len False by auto
    then show ?thesis
      using that [of p3 stale k] loop less Parse wf p2(3-5,7,8) buf len by (auto simp: advanced_def)
  qed
qed

lemma blank_line_step:
  assumes "reading p (CRLF @ rest)"
  shows "parse_step debug mok ind p r = step_blank_line mok p r"
proof -
  have d: "drop (m_nOffset p) (m_pBuf p) = CR # LF # rest" using assms(1) by (simp add: reading_def CRLF_def)
  have len: "length (m_pBuf p) = m_nOffset p + Suc (Suc (length rest))"
    using reading_length [OF assms(1)] by (simp add: CRLF_def)
  then have "m_pBuf p ! (m_nOffset p + 1) = (CR # LF # rest) ! 1"
    using d by (metis le_add1 nth_drop)
  then show ?thesis
    using assms(1) d len by (simp add: parse_step_def reading_def step_read_lines_def)
qed

text \<open>A request, in this order: its line, its headers, and either nothing more or an empty line and
  any bytes behind it.\<close>

lemma msg_get_none: "msg_wf m \<Longrightarrow> f \<notin> fst ` set (msg_hdrs m) \<Longrightarrow> GetHeader f 0 m = None"
  unfolding msg_wf_def
  by (auto simp: msg_hdrs_repr GetHeader_repr nth_header_def Let_def filter_empty_conv image_iff)

lemma parse_no_body:
  assumes "fresh_parser p0" "start_line debug ind l m0" "\<forall>h \<in> set hs. sendable h"
    and "tail = [] \<or> tail = CRLF @ extra"
    and "RTSP_HDR_CONTENT_LENGTH \<notin> fst ` set hs"
    and "packet = l @ CRLF @ lines_text hs @ tail" "length packet \<le> RTSP_RECVBUF_SIZE"
  obtains m p' where "Parse debug alloc_ok ind packet p0 = Inr (EOK, Some m, p')"
    "m_bMsgCompleted p'" "msg_wf m" "msg_hdrs m = take TOP_MAX_KEY_VALUE hs"
    "m_pMsgObj m = m_pMsgObj m0" "m_pBody m = m_pBody m0"
proof -
  obtain p3 stale k where p3: "reading p3 (tail @ stale)" "m_nOffset p3 + length tail = m_nBufBytes p3"
    "length (m_pBuf p3) = RTSP_RECVBUF_SIZE"
    "msg_wf (m_pRtspMsg p3)" "msg_hdrs (m_pRtspMsg p3) = take TOP_MAX_KEY_VALUE hs"
    "m_pRtspMsg p3 = m0\<lparr>m_pHdrFields := m_pHdrFields (m_pRtspMsg p3)\<rparr>" "\<not> m_bMsgCompleted p3"
    "Parse debug alloc_ok ind packet p0 =
      bindE (if m_nOffset p3 < m_nBufBytes p3 then parse_loop debug alloc_ok ind (k + 5) p3 EOK
             else Inr (p3, EOK)) (\<lambda>(p2, result).
        let p3 = parse_end p2 in
        if result = EOK then Inr (result, Some (m_pRtspMsg p3), p3\<lparr>m_bMsgCompleted := True\<rparr>)
        else Inr (result, None, p3))"
    by (rule parse_head [OF assms(1-3,6,7)])
  have msg: "m_pRtspMsg (parse_end q) = m_pRtspMsg q" for q by (simp add: parse_end_def Let_def)
  have obj: "m_pMsgObj (m_pRtspMsg p3) = m_pMsgObj m0" "m_pBody (m_pRtspMsg p3) = m_pBody m0"
    by (subst p3(6), simp)+
  show ?thesis
  proof (cases "tail = []")
    case True
    with p3(2,8) show ?thesis using that [OF _ _ p3(4,5) obj] by (simp add: Let_def msg)
  next
    case False
    then have tail: "tail = CRLF @ extra" using assms(4) by simp
    let ?q = "p3\<lparr>m_state := STATE_END, m_nOffset := m_nOffset p3 + 2\<rparr>"
    have "GetHeader RTSP_HDR_CONTENT_LENGTH 0 (m_pRtspMsg p3) = None"
      using p3(4,5) assms(5) by (intro msg_get_none) (auto dest: in_set_takeD)
    then have step: "parse_step debug alloc_ok ind p3 EOK = Inr (?q, EOK, False)"
      using blank_line_step [of p3 "extra @ stale"] p3(1) tail by (simp add: step_blank_line_def Let_def)
    have "parse_loop debug alloc_ok ind (Suc (Suc n)) p3 EOK = Inr (?q, EOK)" for n
      unfolding parse_loop.simps using step by (simp add: parse_step_def)
    then have "parse_loop debug alloc_ok ind (k + 5) p3 EOK = Inr (?q, EOK)"
      by (metis add_Suc_right numeral_eq_Suc pred_numeral_simps(3))
    with p3(2,8) tail show ?thesis
      using that [of "m_pRtspMsg p3", OF _ _ p3(4,5) obj] by (simp add: Let_def msg CRLF_def)
  qed
qed

text \<open>Start lines of requests and responses.\<close>

lemma start_line_request:
  assumes "i < 11" "token uri" "NUL \<notin> set uri" "length uri < 4000"
  shows "start_line debug ind (RTSP_METHODS ! i @ '' '' @ uri @ '' RTSP/1.0'')
     \<lparr>m_pMsgObj = Some (RTSP_MSG_REQUEST \<lparr>rq_method = push_bit i 1, rq_pURI = Some uri,
          rq_nUriLen = length uri + 1, rq_version = ind_version ind\<rparr>),
      m_pHdrFields = None, m_pBody = None, m_nBodySize = 0\<rparr>"
proof -
  have names: "\<forall>n \<in> set RTSP_METHODS. n \<noteq> [] \<and> length n < 20 \<and> 3 \<le> length n \<and> hd n \<noteq> CHR ''$''
      \<and> take 2 n \<noteq> ''RT'' \<and> (\<forall>c \<in> set n. c \<noteq> NUL \<and> \<not> is_space c)"
    by code_simp
  let ?n = "RTSP_METHODS ! i"
  have n: "?n \<noteq> []" "length ?n < 20" "3 \<le> length ?n" "hd ?n \<noteq> CHR ''$''" "take 2 ?n \<noteq> ''RT''"
    "\<forall>c \<in> set ?n. c \<noteq> NUL \<and> \<not> is_space c"
    using bspec [OF names nth_mem, of i] assms(1) by simp_all
  then have tok: "token ?n" by (simp add: token_def)
  have meth: "RtspFindMethod ?n = push_bit i 1" using RtspFindMethod_nth [of i ?n] assms(1) by simp
  have "\<forall>i \<in> set [0..<11]. push_bit i 1 \<noteq> RTSP_GET \<and> push_bit i 1 \<noteq> RTSP_POST" by code_simp
  then have good: "push_bit i 1 \<noteq> RTSP_GET" "push_bit i 1 \<noteq> RTSP_POST"
    using assms(1) by auto
  have u: "uri \<noteq> []" "\<forall>c \<in> set uri. \<not> is_space c" using assms(2) by (auto simp: token_def)
  have "single_blanks (uri @ '' RTSP/1.0'')"
    using u(2) by (intro single_blanks_append) (simp_all add: is_space_def)
  then have "single_blanks (CHR '' '' # uri @ '' RTSP/1.0'')"
    using u by (auto simp: single_blanks_Cons hd_append)
  then have sb: "single_blanks (?n @ CHR '' '' # uri @ '' RTSP/1.0'')"
    using n(6) by (intro single_blanks_append) auto
  have "CR \<notin> set uri" "CR \<notin> set ?n" using u(2) n(6) by (auto simp: is_space_def)
  then have clean: "clean_line (?n @ '' '' @ uri @ '' RTSP/1.0'')"
    using sb assms(3) n(6) by (auto simp: clean_line_def)
  have "take 4 (?n @ '' '' @ uri @ '' RTSP/1.0'') \<noteq> ''RTSP''"
  proof
    assume "take 4 (?n @ '' '' @ uri @ '' RTSP/1.0'') = ''RTSP''"
    then have "take 2 (take 4 (?n @ '' '' @ uri @ '' RTSP/1.0'')) = take 2 ''RTSP''" by simp
    with n(3,5) show False by (simp add: min_def)
  qed
  moreover have "ParseRequestLine alloc_ok ind (?n @ '' '' @ uri @ '' RTSP/1.0'') m =
     (EOK, \<lparr>m_pMsgObj = Some (RTSP_MSG_REQUEST \<lparr>rq_method = push_bit i 1, rq_pURI = Some uri,
          rq_nUriLen = length uri + 1, rq_version = ind_version ind\<rparr>),
      m_pHdrFields = None, m_pBody = None, m_nBodySize = 0\<rparr>)" for m
    using ParseRequestLine_eq [OF tok n(2) assms(2) _ alloc_ok, where ind = ind and m = m] assms(4) meth good
    by (cases m) (simp add: Unset_def Let_def)
  ultimately show ?thesis
    using clean n(1,4) by (simp add: start_line_def)
qed

lemma start_line_response:
  assumes "n \<le> 600" "clean_line reason" "hd reason \<noteq> CHR '' ''"
  shows "start_line debug ind (''RTSP/1.0 '' @ dec_nat n @ '' '' @ reason)
     \<lparr>m_pMsgObj = Some (RTSP_MSG_RESPONSE \<lparr>rs_code = of_nat n, rs_pReason = Some reason,
          rs_nReasonLen = length reason + 1, rs_version = RTSP_VERSION_1_0\<rparr>),
      m_pHdrFields = None, m_pBody = None, m_nBodySize = 0\<rparr>"
proof -
  have r: "reason \<noteq> []" "single_blanks reason" "\<not> is_space (hd reason)"
    using assms(2,3) by (cases reason; auto simp: clean_line_def single_blanks_Cons)+
  have d: "\<forall>c \<in> set (dec_nat n). c \<noteq> NUL \<and> \<not> is_space c"
    using dec_nat_digits [of n] is_digit_not by blast
  then have h: "\<not> is_space (hd (dec_nat n))" using dec_nat_ne by simp
  have "single_blanks (CHR '' '' # reason)" using r by (simp add: single_blanks_Cons)
  then have "single_blanks (dec_nat n @ CHR '' '' # reason)" using d by (intro single_blanks_append) auto
  then have "single_blanks (CHR '' '' # dec_nat n @ CHR '' '' # reason)"
    using h by (simp add: single_blanks_Cons hd_append)
  then have "single_blanks (''RTSP/1.0'' @ CHR '' '' # dec_nat n @ CHR '' '' # reason)"
    by (intro single_blanks_append) (auto simp: is_space_def)
  moreover have "CR \<notin> set (dec_nat n)" using d by (auto simp: is_space_def)
  ultimately have clean: "clean_line (''RTSP/1.0 '' @ dec_nat n @ '' '' @ reason)"
    using assms(2) d by (auto simp: clean_line_def)
  moreover have "ParseResponseStatus debug alloc_ok ind (''RTSP/1.0 '' @ dec_nat n @ '' '' @ reason) m =
     Inr (EOK, \<lparr>m_pMsgObj = Some (RTSP_MSG_RESPONSE \<lparr>rs_code = of_nat n, rs_pReason = Some reason,
          rs_nReasonLen = length reason + 1, rs_version = RTSP_VERSION_1_0\<rparr>),
      m_pHdrFields = None, m_pBody = None, m_nBodySize = 0\<rparr>)" for m
    using ParseResponseStatus_eq [OF assms(1) r(1,3) alloc_ok, where debug = debug and ind = ind and m = m]
    by (cases m) (simp add: Unset_def)
  ultimately show ?thesis by (simp add: start_line_def)
qed

text \<open>The bytes after the empty line of a response with a \<open>Content-Length\<close> header.\<close>

lemma content_length_step:
  assumes "reading p (CRLF @ rest)" "msg_wf (m_pRtspMsg p)" "m_pMsgObj (m_pRtspMsg p) = Some (RTSP_MSG_RESPONSE r0)"
    and "filter (\<lambda>h. fst h = RTSP_HDR_CONTENT_LENGTH) (msg_hdrs (m_pRtspMsg p)) = [(RTSP_HDR_CONTENT_LENGTH, dec_nat n)]"
    and "0 < n" "n < 4096" "m_pBody (m_pRtspMsg p) = None" "m_nBodySize (m_pRtspMsg p) = 0"
  shows "parse_step debug alloc_ok ind p r =
    Inr (p\<lparr>m_pRtspMsg := (m_pRtspMsg p)\<lparr>m_pBody := Some (replicate (n + 1) NUL), m_nBodySize := of_nat (n + 1)\<rparr>,
           m_state := STATE_DATA_BODY, m_nOffset := m_nOffset p + 2\<rparr>, r, False)"
proof -
  obtain h where h: "GetHeader RTSP_HDR_CONTENT_LENGTH 0 (m_pRtspMsg p) = Some h" "cstrE h = Inr (dec_nat n)"
    using GetHeader_wf [OF assms(2), of RTSP_HDR_CONTENT_LENGTH] assms(4) by auto
  have size: "(word_of_int (int n + 1) :: u32) = of_nat (n + 1)" by simp
  have u: "unat (of_nat (n + 1) :: u32) = n + 1" using assms(6) by (intro unat_of_nat_u32) simp
  then have "of_nat (n + 1) > (0 :: u32)" by (metis add_gr_0 unat_gt_0 word_greater_zero_iff zero_less_one)
  then have "SetBodySize alloc_ok (of_nat (n + 1)) (m_pRtspMsg p) =
      Inr (EOK, (m_pRtspMsg p)\<lparr>m_pBody := Some (replicate (n + 1) NUL), m_nBodySize := of_nat (n + 1)\<rparr>)"
    unfolding SetBodySize_def u using assms(7,8) by (simp add: alloc_ok)
  then show ?thesis
    using blank_line_step [OF assms(1)] assms(3,5,6) h size
    by (simp add: step_blank_line_def Let_def atoi_dec_nat add.commute)
qed

lemma data_body_step:
  assumes "m_state p = STATE_DATA_BODY" "m_pBody (m_pRtspMsg p) = Some (replicate (n + 1) NUL)"
    and "m_nBodySize (m_pRtspMsg p) = of_nat (n + 1)" "n < 4096"
    and "drop (m_nOffset p) (m_pBuf p) = rest" "m_nBufBytes p - m_nOffset p \<le> length rest" "length rest \<le> 4096"
  shows "parse_step debug mok ind p r =
    (if n \<le> m_nBufBytes p - m_nOffset p
     then Inr (p\<lparr>m_pRtspMsg := (m_pRtspMsg p)\<lparr>m_pBody := Some (take n rest @ [NUL])\<rparr>,
                 m_nOffset := m_nOffset p + n, m_state := STATE_END\<rparr>, EOK, True)
     else Inr (p, RTSP Z3_RTSP_EINTR, True))"
proof -
  have small: "unat (of_nat k :: u32) = k" if "k \<le> 4097" for k using that by (intro unat_of_nat_u32) simp
  have n: "(of_nat (n + 1) :: u32) - 1 = of_nat n" by simp
  let ?a = "m_nBufBytes p - m_nOffset p"
  have "?a \<le> 4096" using assms(6,7) by simp
  then have le: "(of_nat n :: u32) \<le> of_nat ?a \<longleftrightarrow> n \<le> ?a"
    using small [of n] small [of ?a] assms(4) by (simp only: word_le_nat_alt, simp?)
  have lt: "(of_nat n :: u32) < of_nat (n + 1)"
    using small [of n] small [of "n + 1"] assms(4) by (simp only: word_less_nat_alt, simp?)
  show ?thesis
  proof (cases "n \<le> ?a")
    case True
    then have "SetBody rest (of_nat n) (m_pRtspMsg p) =
        Inr (EOK, (m_pRtspMsg p)\<lparr>m_pBody := Some (take n rest @ [NUL])\<rparr>)"
      using assms(2,3,4,6) lt small [of n] drop_replicate [of n "n + 1" NUL] by (simp add: SetBody_def memread_def)
    then show ?thesis
      using True assms(1,3,5) n le small [of n] assms(4)
      by (simp add: parse_step_def step_data_body_def Let_def)
  next
    case False
    then show ?thesis using assms(1,3) n le by (simp add: parse_step_def step_data_body_def Let_def)
  qed
qed

section \<open>Properties\<close>

text \<open>C3. A parser that is fresh (new, or about to start the message after a completed one) and gets
  a request in one packet (one of the 11 RTSP methods, a URI, headers whose values are single-line,
  normalised and, for list headers, plain) delivers a message with that method and URI and the
  first 16 of the headers in order. It does so if the packet ends with the empty line, whatever bytes
  follow, and just as well if the packet stops after the request line or after any header line: the
  message is then delivered incomplete. The version of the delivered request is indeterminate.\<close>

theorem Parse_request:
  assumes "fresh_parser p0" and "i < 11" and "token uri" and "NUL \<notin> set uri" and "length uri < 4000"
    and "\<forall>h \<in> set hs. sendable h" and "RTSP_HDR_CONTENT_LENGTH \<notin> fst ` set hs"
    and "tail = [] \<or> tail = CRLF @ extra"
    and "packet = (RTSP_METHODS ! i @ '' '' @ uri @ '' RTSP/1.0'') @ CRLF @ lines_text hs @ tail"
    and "length packet \<le> RTSP_RECVBUF_SIZE"
  shows "\<exists>m p'. Parse debug alloc_ok ind packet p0 = Inr (EOK, Some m, p') \<and> m_bMsgCompleted p'
     \<and> msg_hdrs m = take TOP_MAX_KEY_VALUE hs
     \<and> m_pMsgObj m = Some (RTSP_MSG_REQUEST \<lparr>rq_method = push_bit i 1, rq_pURI = Some uri,
          rq_nUriLen = length uri + 1, rq_version = ind_version ind\<rparr>)"
proof -
  obtain m p' where "Parse debug alloc_ok ind packet p0 = Inr (EOK, Some m, p')" "m_bMsgCompleted p'"
    "msg_hdrs m = take TOP_MAX_KEY_VALUE hs" "m_pMsgObj m = Some (RTSP_MSG_REQUEST \<lparr>rq_method = push_bit i 1,
          rq_pURI = Some uri, rq_nUriLen = length uri + 1, rq_version = ind_version ind\<rparr>)"
    by (rule parse_no_body [OF assms(1) start_line_request [OF assms(2-5)] assms(6,8,7,9,10)])
       (rule that; simp only: RtspMsg.select_convs)
  then show ?thesis by blast
qed

definition sample_headers :: "(RTSP_HEADER_FIELD \<times> string) list" where
  "sample_headers = [(RTSP_HDR_CSEQ, ''2''), (RTSP_HDR_ACCEPT, ''application/sdp'')]"

lemma sendable_sample: "\<forall>h \<in> set sample_headers. sendable h"
proof -
  have "sendable (RTSP_HDR_CSEQ, ''2'')"
    unfolding sendable_def by (rule conjI, rule exI [of _ 16]) (simp_all add: RTSP_HEADERS_def clean_line_def is_space_def)
  moreover have "sendable (RTSP_HDR_ACCEPT, ''application/sdp'')"
    unfolding sendable_def by (rule conjI, rule exI [of _ 0])
      (simp_all add: RTSP_HEADERS_def clean_line_def plain_value_def is_space_def)
  ultimately show ?thesis by (simp add: sample_headers_def)
qed

lemma fresh_new: "fresh_parser RtspProtoParser_new"
  by (simp add: fresh_parser_def RtspProtoParser_new_def parser_wf_def)

theorem Parse_request_witness:
  "\<exists>m p'. Parse False alloc_ok zero_indet ((RTSP_METHODS ! 3 @ '' '' @ ''*'' @ '' RTSP/1.0'') @ CRLF @
       lines_text sample_headers) RtspProtoParser_new = Inr (EOK, Some m, p')
     \<and> msg_hdrs m = sample_headers"
proof -
  have "length ((RTSP_METHODS ! 3 @ '' '' @ ''*'' @ '' RTSP/1.0'') @ CRLF @ lines_text sample_headers @ [])
      \<le> RTSP_RECVBUF_SIZE"
    by code_simp
  then show ?thesis
    using Parse_request [OF fresh_new _ _ _ _ sendable_sample _ disjI1 [OF refl] refl, of 3 "''*''" False zero_indet]
    by (auto simp: token_def is_space_def sample_headers_def msg_sizes)
qed

lemma sendable_field: "sendable h \<Longrightarrow> \<exists>j<48. fst h = of_nat (j + 1)"
  unfolding sendable_def by blast

lemma header_text_line: "header_text = (\<lambda>h. header_line_text (fst h, cstr (snd h)) @ CRLF)"
  by (rule ext) (simp add: header_text_def header_line_text_def)

text \<open>C4. Printing and parsing are inverse. If \<open>ToString\<close> prints a request (one of the 11 RTSP
  methods, a URI without blanks, headers that \<open>sendable\<close> allows, no \<open>Content-Length\<close>, no body, at most
  1497 bytes), then a fresh parser that gets the text as one packet delivers a request with the same
  method, the same URI and the same headers in the same order.\<close>

theorem ToString_Parse_roundtrip:
  assumes "m_pMsgObj m = Some (RTSP_MSG_REQUEST \<lparr>rq_method = push_bit i 1, rq_pURI = Some uri,
        rq_nUriLen = length uri + 1, rq_version = v\<rparr>)"
    and "i < 11" and "token uri" and "NUL \<notin> set uri" and "m_pBody m = None"
    and "hdrs_repr m hs" and "hs \<noteq> []" and "\<forall>h \<in> set hs. terminated (snd h) \<and> sendable (fst h, cstr (snd h))"
    and "RTSP_HDR_CONTENT_LENGTH \<notin> fst ` set hs" and "fresh_parser p0"
    and "length (RTSP_METHODS ! i @ '' '' @ uri @ '' RTSP/1.0'' @ CRLF @ headers_text hs) < 1498"
  shows "\<exists>text m' p'. ToString alloc_ok now m = Inr (Some text, m)
    \<and> Parse debug alloc_ok ind text p0 = Inr (EOK, Some m', p')
    \<and> GetMethod m' = GetMethod m \<and> msg_hdrs m' = msg_hdrs m
    \<and> (\<exists>r. m_pMsgObj m' = Some (RTSP_MSG_REQUEST r) \<and> rq_pURI r = Some uri)"
proof -
  let ?start = "RTSP_METHODS ! i @ '' '' @ uri @ '' RTSP/1.0''"
  let ?ls = "map (\<lambda>h. (fst h, cstr (snd h))) hs"
  have "header_ok h" if "h \<in> set hs" for h
  proof -
    have t: "terminated (snd h)" "sendable (fst h, cstr (snd h))" using assms(8) that by blast+
    obtain j where j: "j < 48" "fst h = of_nat (j + 1)"
      using sendable_field [OF t(2)] unfolding fst_conv by blast
    have "unat (fst h - 1) < 48" "fst h \<noteq> 0"
      using header_code [OF j(1)] j by (simp_all only: j(2) not_False_eq_True)
    with t(1) show ?thesis by (simp add: header_ok_def)
  qed
  then have "ToString alloc_ok now m = Inr (Some ((?start @ CRLF) @ headers_text hs @ CRLF), m)"
    using ToString_request_eq [OF assms(1) _ _ assms(6,7) _ assms(9,5) alloc_ok,
        where uri = uri and meth = "RTSP_METHODS ! i"]
      RTSP_METHOD_AS_TEXT_nth [of i] assms(2,11) by simp
  moreover have printed: "(?start @ CRLF) @ headers_text hs @ CRLF = ?start @ CRLF @ lines_text ?ls @ CRLF @ []"
    by (simp add: header_text_line o_def)
  moreover have "length hs \<le> TOP_MAX_KEY_VALUE" by (rule hdrs_repr_le [OF assms(6)])
  moreover obtain m' p' where "Parse debug alloc_ok ind (?start @ CRLF @ lines_text ?ls @ CRLF @ []) p0 = Inr (EOK, Some m', p')"
    "msg_hdrs m' = take TOP_MAX_KEY_VALUE ?ls" "m_pMsgObj m' = Some (RTSP_MSG_REQUEST \<lparr>rq_method = push_bit i 1,
          rq_pURI = Some uri, rq_nUriLen = length uri + 1, rq_version = ind_version ind\<rparr>)"
  proof (rule parse_no_body [OF assms(10) start_line_request [OF assms(2-4)] _ disjI2 [OF refl] _ refl])
    show "length uri < 4000" using assms(11) by simp
    show "\<forall>h \<in> set ?ls. sendable h" using assms(8) by auto
    show "RTSP_HDR_CONTENT_LENGTH \<notin> fst ` set ?ls" using assms(9) by (force simp: image_iff)
    show "length (?start @ CRLF @ lines_text ?ls @ CRLF @ []) \<le> RTSP_RECVBUF_SIZE"
      using assms(11) arg_cong [OF printed, of length] by (simp add: RTSP_RECVBUF_SIZE_def CRLF_def)
  qed (rule that; simp only: RtspMsg.select_convs)
  ultimately show ?thesis
    using assms(1) by (auto simp: GetMethod_def msg_hdrs_repr [OF assms(6)])
qed

theorem ToString_Parse_roundtrip_witness:
  "\<exists>text m' p'. ToString alloc_ok sample_time sample_request = Inr (Some text, sample_request)
     \<and> Parse False alloc_ok zero_indet text RtspProtoParser_new = Inr (EOK, Some m', p')
     \<and> GetMethod m' = RTSP_OPTIONS \<and> msg_hdrs m' = [(RTSP_HDR_CSEQ, ''1'')]"
proof -
  have s: "sendable (RTSP_HDR_CSEQ, ''1'')"
    unfolding sendable_def by (rule conjI, rule exI [of _ 16]) (simp_all add: RTSP_HEADERS_def clean_line_def is_space_def)
  have l: "length (RTSP_METHODS ! 3 @ '' '' @ ''*'' @ '' RTSP/1.0'' @ CRLF @ headers_text [(RTSP_HDR_CSEQ, ''1'' @ [NUL])]) < 1498"
    by code_simp
  have repr: "hdrs_repr sample_request [(RTSP_HDR_CSEQ, ''1'' @ [NUL])]"
    by (simp add: sample_request_def hdrs_repr_def msg_sizes)
  have obj: "m_pMsgObj sample_request = Some (RTSP_MSG_REQUEST \<lparr>rq_method = push_bit 3 1, rq_pURI = Some ''*'',
        rq_nUriLen = length ''*'' + 1, rq_version = RTSP_VERSION_1_0\<rparr>)" "m_pBody sample_request = None"
    by (simp_all add: sample_request_def)
  show ?thesis
    using ToString_Parse_roundtrip [OF obj(1) _ _ _ obj(2) repr _ _ _ fresh_new l, where ind = zero_indet and now = sample_time and debug = False] s
    by (auto simp: token_def is_space_def msg_hdrs_repr [OF repr] GetMethod_def obj)
qed

lemma response_body_cases:
  assumes "fresh_parser p0" and "n \<le> 600" and "clean_line reason" and "hd reason \<noteq> CHR '' ''"
    and "\<forall>h \<in> set hs. sendable h"
    and "filter (\<lambda>h. fst h = RTSP_HDR_CONTENT_LENGTH) (take TOP_MAX_KEY_VALUE hs) = [(RTSP_HDR_CONTENT_LENGTH, dec_nat k)]"
    and "0 < k" and "k < 4096"
    and "packet = (''RTSP/1.0 '' @ dec_nat n @ '' '' @ reason) @ CRLF @ lines_text hs @ CRLF @ body"
    and "length packet \<le> RTSP_RECVBUF_SIZE"
  shows "\<exists>m p'. Parse debug alloc_ok ind packet p0 =
       (if body = [] \<or> k \<le> length body then Inr (EOK, Some m, p') else Inr (RTSP Z3_RTSP_EINTR, None, p'))
     \<and> m_bMsgCompleted p' = (body = [] \<or> k \<le> length body)
     \<and> msg_hdrs m = take TOP_MAX_KEY_VALUE hs
     \<and> m_pMsgObj m = Some (RTSP_MSG_RESPONSE \<lparr>rs_code = of_nat n, rs_pReason = Some reason,
          rs_nReasonLen = length reason + 1, rs_version = RTSP_VERSION_1_0\<rparr>)
     \<and> m_pBody m = Some ((if k \<le> length body then take k body else replicate k NUL) @ [NUL])
     \<and> msg_wf m \<and> m_nBodySize m = of_nat (k + 1)"
proof -
  have packet: "packet = (''RTSP/1.0 '' @ dec_nat n @ '' '' @ reason) @ CRLF @ lines_text hs @ (CRLF @ body)"
    using assms(9) by simp
  let ?r = "RTSP_MSG_RESPONSE \<lparr>rs_code = of_nat n, rs_pReason = Some reason,
          rs_nReasonLen = length reason + 1, rs_version = RTSP_VERSION_1_0\<rparr>"
  let ?m0 = "\<lparr>m_pMsgObj = Some ?r, m_pHdrFields = None, m_pBody = None, m_nBodySize = 0\<rparr>"
  obtain p3 stale j where p3: "reading p3 ((CRLF @ body) @ stale)" "m_nOffset p3 + length (CRLF @ body) = m_nBufBytes p3"
    "length (m_pBuf p3) = RTSP_RECVBUF_SIZE"
    "msg_wf (m_pRtspMsg p3)" "msg_hdrs (m_pRtspMsg p3) = take TOP_MAX_KEY_VALUE hs"
    "m_pRtspMsg p3 = ?m0\<lparr>m_pHdrFields := m_pHdrFields (m_pRtspMsg p3)\<rparr>" "\<not> m_bMsgCompleted p3"
    and Parse: "Parse debug alloc_ok ind packet p0 =
      bindE (if m_nOffset p3 < m_nBufBytes p3 then parse_loop debug alloc_ok ind (j + 5) p3 EOK
             else Inr (p3, EOK)) (\<lambda>(p2, result).
        let p3 = parse_end p2 in
        if result = EOK then Inr (result, Some (m_pRtspMsg p3), p3\<lparr>m_bMsgCompleted := True\<rparr>)
        else Inr (result, None, p3))"
    by (rule parse_head [OF assms(1) start_line_response [OF assms(2-4)] assms(5) packet assms(10)])
  have obj: "m_pMsgObj (m_pRtspMsg p3) = Some ?r" "m_pBody (m_pRtspMsg p3) = None" "m_nBodySize (m_pRtspMsg p3) = 0"
    by (subst p3(6), simp)+
  let ?m = "(m_pRtspMsg p3)\<lparr>m_pBody := Some (replicate (k + 1) NUL), m_nBodySize := of_nat (k + 1)\<rparr>"
  let ?q = "p3\<lparr>m_pRtspMsg := ?m, m_state := STATE_DATA_BODY, m_nOffset := m_nOffset p3 + 2\<rparr>"
  have step: "parse_step debug alloc_ok ind p3 EOK = Inr (?q, EOK, False)"
    using content_length_step [OF p3(1) [unfolded append_assoc] p3(4) obj(1) _ assms(7,8) obj(2,3)] p3(5) assms(6) by simp
  have bytes: "m_nBufBytes p3 = m_nOffset p3 + 2 + length body" using p3(2) by (simp add: CRLF_def)
  have hdrs: "msg_hdrs (m\<lparr>m_pBody := b, m_nBodySize := z\<rparr>) = msg_hdrs m" for m b z by (simp add: msg_hdrs_def)
  have wf: "msg_wf ((m_pRtspMsg p3)\<lparr>m_pBody := b, m_nBodySize := z\<rparr>)"
    "msg_wf ((m_pRtspMsg p3)\<lparr>m_nBodySize := z, m_pBody := b\<rparr>)" for b z
    using p3(4) by (simp_all add: msg_wf_def hdrs_repr_def)
  have e: "m_pRtspMsg (parse_end x) = m_pRtspMsg x" "m_bMsgCompleted (parse_end x) = m_bMsgCompleted x" for x
    by (simp_all add: parse_end_def Let_def)
  have j: "j + 5 = Suc (Suc (j + 3))" by simp
  show ?thesis
  proof (cases "body = []")
    case True
    then have "parse_loop debug alloc_ok ind (j + 5) p3 EOK = Inr (?q, EOK)"
      unfolding j parse_loop.simps using step bytes by simp
    then show ?thesis
      using True Parse bytes assms(7) obj(1) p3(5) hdrs wf by (simp add: Let_def e replicate_append_same msg_hdrs_def)
  next
    case False
    have rest: "drop (m_nOffset p3 + 2) (m_pBuf p3) = body @ stale"
      using p3(1) drop_drop [of 2 "m_nOffset p3" "m_pBuf p3", symmetric]
      by (simp add: reading_def CRLF_def add.commute)
    have "length (body @ stale) \<le> 4096"
      using arg_cong [OF rest, of length] p3(3) by (simp add: RTSP_RECVBUF_SIZE_def)
    then have "parse_step debug alloc_ok ind ?q EOK =
      (if k \<le> length body
       then Inr (?q\<lparr>m_pRtspMsg := ?m\<lparr>m_pBody := Some (take k (body @ stale) @ [NUL])\<rparr>,
                    m_nOffset := m_nOffset p3 + 2 + k, m_state := STATE_END\<rparr>, EOK, True)
       else Inr (?q, RTSP Z3_RTSP_EINTR, True))"
      using data_body_step [of ?q k "body @ stale" debug alloc_ok ind EOK] rest bytes assms(8) by simp
    then have "parse_loop debug alloc_ok ind (j + 5) p3 EOK =
      (if k \<le> length body
       then Inr (?q\<lparr>m_pRtspMsg := ?m\<lparr>m_pBody := Some (take k body @ [NUL])\<rparr>,
                    m_nOffset := m_nOffset p3 + 2 + k, m_state := STATE_END\<rparr>, EOK)
       else Inr (?q, RTSP Z3_RTSP_EINTR))"
      unfolding j parse_loop.simps using step bytes False by simp
    note loop = this
    show ?thesis
    proof (cases "k \<le> length body")
      case True
      then show ?thesis using False Parse loop bytes assms(7) obj(1) p3(5,7) wf by (simp add: Let_def e msg_hdrs_def)
    next
      case less: False
      then show ?thesis
        using False Parse loop bytes assms(7) obj(1) p3(5,7) wf
        by (intro exI [of _ ?m]) (simp add: Let_def e msg_hdrs_def replicate_append_same)
    qed
  qed
qed

text \<open>A response with a \<open>Content-Length\<close> of \<open>k\<close> in one packet, on every branch: with at least
  \<open>k\<close> body bytes in the packet the message is delivered with exactly these \<open>k\<close> bytes (and a
  terminator); with some but not enough bytes the parser waits; with none at all, because the body
  comes in the next packet, the message is delivered at once with a body of zeros.\<close>

theorem Parse_response_body:
  assumes "fresh_parser p0" and "n \<le> 600" and "clean_line reason" and "hd reason \<noteq> CHR '' ''"
    and "\<forall>h \<in> set hs. sendable h"
    and "filter (\<lambda>h. fst h = RTSP_HDR_CONTENT_LENGTH) (take TOP_MAX_KEY_VALUE hs) = [(RTSP_HDR_CONTENT_LENGTH, dec_nat k)]"
    and "0 < k" and "k < 4096"
    and "packet = (''RTSP/1.0 '' @ dec_nat n @ '' '' @ reason) @ CRLF @ lines_text hs @ CRLF @ body"
    and "length packet \<le> RTSP_RECVBUF_SIZE"
  shows "\<exists>m p'. Parse debug alloc_ok ind packet p0 =
       (if body = [] \<or> k \<le> length body then Inr (EOK, Some m, p') else Inr (RTSP Z3_RTSP_EINTR, None, p'))
     \<and> m_bMsgCompleted p' = (body = [] \<or> k \<le> length body)
     \<and> msg_hdrs m = take TOP_MAX_KEY_VALUE hs
     \<and> m_pMsgObj m = Some (RTSP_MSG_RESPONSE \<lparr>rs_code = of_nat n, rs_pReason = Some reason,
          rs_nReasonLen = length reason + 1, rs_version = RTSP_VERSION_1_0\<rparr>)
     \<and> m_pBody m = Some ((if k \<le> length body then take k body else replicate k NUL) @ [NUL])"
  using response_body_cases [OF assms] by blast

theorem Parse_response_body_witness:
  "\<exists>m p'. Parse False alloc_ok zero_indet ((''RTSP/1.0 '' @ dec_nat 200 @ '' '' @ ''OK'') @ CRLF @
       lines_text [(RTSP_HDR_CONTENT_LENGTH, dec_nat 3)] @ CRLF @ ''v=0'') RtspProtoParser_new = Inr (EOK, Some m, p')
     \<and> m_pBody m = Some (''v=0'' @ [NUL])"
proof -
  have d: "dec_nat 3 = ''3''" by (simp add: dec_nat.simps digit_char_def)
  have s: "\<forall>h \<in> set [(RTSP_HDR_CONTENT_LENGTH, dec_nat 3)]. sendable h"
    unfolding sendable_def d
    by (simp add: clean_line_def is_space_def) (rule exI [of _ 13], simp add: RTSP_HEADERS_def)
  have l: "length ((''RTSP/1.0 '' @ dec_nat 200 @ '' '' @ ''OK'') @ CRLF @
       lines_text [(RTSP_HDR_CONTENT_LENGTH, dec_nat 3)] @ CRLF @ ''v=0'') \<le> RTSP_RECVBUF_SIZE"
    by code_simp
  show ?thesis
    using Parse_response_body [OF fresh_new _ _ _ s _ _ _ refl l, where debug = False and ind = zero_indet and k = 3]
    by (auto simp: clean_line_def is_space_def msg_sizes)
qed

lemma set_trim1: "set (trim1 s) \<subseteq> set s"
  by (cases s) (auto simp: trim1_def Let_def dest: in_set_butlastD)

text \<open>\<open>ParseLine\<close> on a header line, the name in any case and with or without a blank before the
  colon. A field that may not repeat gets one value, the rest of the line without one leading
  and one trailing blank, commas included (none if nothing is left); a list field other than the two
  authenticate ones gets one value for each element of the comma-separated list, in order. They are
  appended to the headers up to the 16 a message holds, what is beyond is dropped silently,
  and nothing else of the message changes.\<close>

theorem ParseLine_header:
  assumes "i < 48" and "stricmp_eq (fst (RTSP_HEADERS ! i)) name" and "NUL \<notin> set (name @ rest)"
    and "CHR '':'' \<notin> set name" and "name \<noteq> []" and "last name \<noteq> CHR '' ''"
    and "sp = [] \<or> sp = '' ''" and "msg_wf m" and "f = of_nat (i + 1)"
    and "if snd (RTSP_HEADERS ! i)
         then f \<noteq> RTSP_HDR_PROXY_AUTHENTICATE \<and> f \<noteq> RTSP_HDR_WWW_AUTHENTICATE
              \<and> (\<forall>v \<in> set vs. plain_value v) \<and> vs \<noteq> [] \<and> rest = '' '' @ comma_join vs
         else vs = filter (\<lambda>v. v \<noteq> []) (if rest = [] then [] else [trim1 rest])"
  shows "\<exists>mem' m'. ParseLine alloc_ok (name @ sp @ '':'' @ rest @ NUL # r) m = Inr (EOK, mem', m')
    \<and> msg_hdrs m' = take TOP_MAX_KEY_VALUE (msg_hdrs m @ map (Pair f) vs) \<and> msg_wf m'
    \<and> m' = m\<lparr>m_pHdrFields := m_pHdrFields m'\<rparr>"
proof -
  let ?vs = "map fst (ParseLine_values (snd (RTSP_HEADERS ! i))
       (f = RTSP_HDR_PROXY_AUTHENTICATE \<or> f = RTSP_HDR_WWW_AUTHENTICATE) (length (name @ sp) + 1) rest)"
  have vs: "filter (\<lambda>v. v \<noteq> []) ?vs = vs \<and> (\<forall>v \<in> set ?vs. NUL \<notin> set v)"
  proof (cases "snd (RTSP_HEADERS ! i)")
    case True
    then have "?vs = vs" using assms(10) values_list [of vs "'' ''" "length (name @ sp) + 1"] by simp
    then show ?thesis using True assms(10) by (auto simp: plain_value_def filter_id_conv)
  next
    case False
    then show ?thesis using assms(3,10) set_trim1 [of rest] by (auto simp: values_single)
  qed
  obtain mem' m' where "ParseLine alloc_ok (name @ sp @ '':'' @ rest @ NUL # r) m = Inr (EOK, mem', m')"
    "msg_wf m'" "msg_hdrs m' = take TOP_MAX_KEY_VALUE (msg_hdrs m @ map (Pair f) (filter (\<lambda>v. v \<noteq> []) ?vs))"
    "m' = m\<lparr>m_pHdrFields := m_pHdrFields m'\<rparr>"
    by (rule ParseLine_known [OF assms(1-9) refl refl conjunct2 [OF vs]])
  then show ?thesis using vs by auto
qed

theorem ParseLine_header_witness:
  "\<exists>mem' m'. ParseLine alloc_ok (''PUBLIC: OPTIONS, PLAY'' @ [NUL]) RtspMsg_new = Inr (EOK, mem', m')
     \<and> msg_hdrs m' = [(RTSP_HDR_PUBLIC, ''OPTIONS''), (RTSP_HDR_PUBLIC, ''PLAY'')]"
proof -
  have s: "stricmp_eq (fst (RTSP_HEADERS ! 24)) ''PUBLIC''" "snd (RTSP_HEADERS ! 24)" by code_simp+
  have wf: "msg_wf RtspMsg_new" "msg_hdrs RtspMsg_new = []"
    by (auto simp: msg_wf_def msg_hdrs_def RtspMsg_new_def)
  have "\<exists>mem' m'. ParseLine alloc_ok (''PUBLIC'' @ [] @ '':'' @ '' OPTIONS, PLAY'' @ NUL # []) RtspMsg_new = Inr (EOK, mem', m')
    \<and> msg_hdrs m' = take TOP_MAX_KEY_VALUE (msg_hdrs RtspMsg_new @ map (Pair RTSP_HDR_PUBLIC) [''OPTIONS'', ''PLAY''])
    \<and> msg_wf m' \<and> m' = RtspMsg_new\<lparr>m_pHdrFields := m_pHdrFields m'\<rparr>"
    by (rule ParseLine_header [OF _ s(1) _ _ _ _ disjI1 [OF refl] wf(1)])
       (simp_all only: s(2) if_True, simp_all add: plain_value_def)
  then show ?thesis using wf(2) by (auto simp: msg_sizes)
qed

lemma RtspFindMethod_iff:
  assumes "i < 13"
  shows "RtspFindMethod t = push_bit i 1 \<longleftrightarrow> stricmp_eq (RTSP_METHODS ! i) t"
proof (cases rule: RtspFindMethod_cases [of t])
  case 1
  then show ?thesis using assms push_bit_1_nonzero [of i] by (simp del: push_bit_of_1)
next
  case (2 j)
  have "i = j" if "push_bit j 1 = (push_bit i 1 :: u32)"
    using lowest_bit_push_bit [of i 0] lowest_bit_push_bit [of j 0] that 2(1) assms by simp
  then show ?thesis using 2 RtspFindMethod_nth [OF assms, of t] by (auto simp del: push_bit_of_1)
qed

text \<open>\<open>ParseRequestLine\<close> on \<open>method uri RTSP/1.0\<close>: any method token of fewer than 20
  characters is accepted, in any case of letters; one that is not in the table gives \<open>RTSP_INVALID\<close>,
  and \<open>GET\<close> and \<open>POST\<close>, which are in the table for tunnelling, give \<open>Z3_ERROR\<close> and a request whose
  method is \<open>RTSP_INVALID\<close>. The message is a request with that URI and no headers, whatever it held.\<close>

theorem ParseRequestLine_branches:
  assumes "token t" and "length t < 20" and "token uri" and "length uri < 4096" and "mok (length uri + 1)"
  shows "\<exists>meth res. ParseRequestLine mok ind (t @ '' '' @ uri @ '' RTSP/1.0'') m =
      (res, (Unset m)\<lparr>m_pMsgObj := Some (RTSP_MSG_REQUEST \<lparr>rq_method = meth, rq_pURI = Some uri,
         rq_nUriLen = length uri + 1, rq_version = ind_version ind\<rparr>)\<rparr>)
    \<and> (if stricmp_eq ''GET'' t \<or> stricmp_eq ''POST'' t then res = Z3 Z3_ERROR \<and> meth = RTSP_INVALID
       else res = EOK \<and> (if \<exists>i<11. stricmp_eq (RTSP_METHODS ! i) t
            then \<exists>i<11. stricmp_eq (RTSP_METHODS ! i) t \<and> meth = push_bit i 1 else meth = RTSP_INVALID))"
proof -
  have tab: "RTSP_METHODS ! 11 = ''GET''" "RTSP_METHODS ! 12 = ''POST''" "push_bit 11 1 = RTSP_GET" "push_bit 12 1 = RTSP_POST"
    by code_simp+
  have bad: "RtspFindMethod t = RTSP_GET \<longleftrightarrow> stricmp_eq ''GET'' t"
    "RtspFindMethod t = RTSP_POST \<longleftrightarrow> stricmp_eq ''POST'' t"
    using RtspFindMethod_iff [of 11 t] RtspFindMethod_iff [of 12 t] unfolding tab by simp_all
  let ?P = "if \<exists>i<11. stricmp_eq (RTSP_METHODS ! i) t
      then \<exists>i<11. stricmp_eq (RTSP_METHODS ! i) t \<and> RtspFindMethod t = push_bit i 1 else RtspFindMethod t = RTSP_INVALID"
  have good: ?P if n: "\<not> stricmp_eq ''GET'' t" "\<not> stricmp_eq ''POST'' t"
  proof (cases rule: RtspFindMethod_cases [of t])
    case 1
    then have "\<not> stricmp_eq (RTSP_METHODS ! i) t" if "i < 11" for i using that by simp
    with 1(1) show ?thesis by auto
  next
    case (2 i)
    then have "i \<noteq> 11" "i \<noteq> 12" using n tab by auto
    with 2(1) have "i < 11" by simp
    with 2 show ?thesis by auto
  qed
  define meth where "meth = RtspFindMethod t"
  note eq = ParseRequestLine_eq [of t uri mok ind m, OF assms, folded meth_def]
  show ?thesis
  proof (cases "meth = RTSP_GET \<or> meth = RTSP_POST")
    case True
    then show ?thesis using eq bad [folded meth_def]
      by (intro exI [of _ RTSP_INVALID] exI [of _ "Z3 Z3_ERROR"]) (auto simp: Let_def)
  next
    case False
    then show ?thesis using eq bad [folded meth_def] good [folded meth_def]
      by (intro exI [of _ meth] exI [of _ EOK]) (simp add: Let_def)
  qed
qed

theorem ParseRequestLine_branches_witness:
  "fst (ParseRequestLine alloc_ok zero_indet ''get * RTSP/1.0'' RtspMsg_new) = Z3 Z3_ERROR"
proof -
  have "stricmp_eq ''GET'' ''get''" by code_simp
  then show ?thesis
    using ParseRequestLine_branches [of "''get''" "''*''" alloc_ok zero_indet RtspMsg_new]
    by (auto simp: token_def is_space_def alloc_ok)
qed

end
