(* ===== verification/MediaPorts.thy ===== *)
theory MediaPorts
  imports Z3Prelude
begin

unbundle bit_operations_syntax

text \<open>
  The allocator of media ports, \<open>z3_rtsp_client/z3_media_ports.cpp\<close>. \<open>sizeof (char)\<close> is 1, so the
  macros \<open>ALIGN\<close> and \<open>BIT_BYTES\<close> are the identity and the bitmap keeps one byte for each bit, whose
  bit 0 it uses. 16-bit ports and counters are naturals with the wrap-around written out;
  \<open>m_Lock\<close> is the number of times the calling thread owns the mutex; releasing a mutex that is not
  owned fails and changes nothing.
\<close>

definition DEFAULT_RANGE_LOWER :: nat where "DEFAULT_RANGE_LOWER = 20000"
definition DEFAULT_RANGE_UPPER :: nat where "DEFAULT_RANGE_UPPER = 30000"

section \<open>The bitmap\<close>

record Bitmap =
  m_nBits :: nat
  m_pMap :: "u8 list option"

definition Bitmap_new :: Bitmap where "Bitmap_new = \<lparr>m_nBits = 0, m_pMap = None\<rparr>"

definition BIT_BYTES :: "nat \<Rightarrow> nat" where "BIT_BYTES n = n"

text \<open>\<open>junk\<close> is what fresh memory contains; the result is 0 or \<open>ENOMEM\<close>.\<close>

definition Bitmap_Alloc :: "alloc \<Rightarrow> (nat \<Rightarrow> u8) \<Rightarrow> nat \<Rightarrow> Bitmap \<Rightarrow> (result \<times> Bitmap) outcome" where
  "Bitmap_Alloc mok junk nSize b =
     (if m_pMap b \<noteq> None then Inl AssertFailed
      else if mok (BIT_BYTES nSize)
      then Inr (EOK, b\<lparr>m_pMap := Some (map junk [0..<BIT_BYTES nSize]), m_nBits := nSize\<rparr>)
      else Inr (ENOMEM, b))"

definition Bitmap_Free :: "Bitmap \<Rightarrow> Bitmap" where
  "Bitmap_Free b = b\<lparr>m_pMap := None, m_nBits := 0\<rparr>"

definition Bitmap_SetZero :: "Bitmap \<Rightarrow> Bitmap outcome" where
  "Bitmap_SetZero b =
     (case m_pMap b of
        None \<Rightarrow> Inr b
      | Some m \<Rightarrow>
          if BIT_BYTES (m_nBits b) \<le> length m
          then Inr (b\<lparr>m_pMap := Some (replicate (BIT_BYTES (m_nBits b)) 0 @ drop (BIT_BYTES (m_nBits b)) m)\<rparr>)
          else Inl OutOfBounds)"

definition Bitmap_TestAndSet :: "nat \<Rightarrow> Bitmap \<Rightarrow> (bool \<times> Bitmap) outcome" where
  "Bitmap_TestAndSet nBit b =
     (if \<not> nBit \<le> m_nBits b then Inl AssertFailed
      else case m_pMap b of
        None \<Rightarrow> Inl NullDeref
      | Some m \<Rightarrow>
          if nBit < length m
          then Inr (m ! nBit AND 1 \<noteq> 0, b\<lparr>m_pMap := Some (m[nBit := m ! nBit OR 1])\<rparr>)
          else Inl OutOfBounds)"

definition Bitmap_Reset :: "nat \<Rightarrow> Bitmap \<Rightarrow> Bitmap outcome" where
  "Bitmap_Reset nBit b =
     (if \<not> nBit \<le> m_nBits b then Inl AssertFailed
      else case m_pMap b of
        None \<Rightarrow> Inl NullDeref
      | Some m \<Rightarrow>
          if \<not> nBit < length m then Inl OutOfBounds
          else if m ! nBit AND 1 = 0 then Inl AssertFailed
          else Inr (b\<lparr>m_pMap := Some (m[nBit := m ! nBit AND NOT 1])\<rparr>))"

definition Bitmap_SetBits :: "nat \<Rightarrow> Bitmap \<Rightarrow> Bitmap outcome" where
  "Bitmap_SetBits nBit b =
     (if nBit < m_nBits b then Inr (b\<lparr>m_nBits := nBit\<rparr>) else Inl AssertFailed)"

section \<open>The port range\<close>

record PortsCtl =
  m_Lock :: nat
  m_nMinPort :: nat
  m_nMaxPort :: nat
  m_nUsed :: nat
  m_nNext :: nat
  m_nReserved :: nat
  m_pBitmap :: "Bitmap option"

text \<open>The constructor leaves \<open>m_nReserved\<close> indeterminate (\<open>res0\<close>).\<close>

definition PortsCtl_new :: "nat \<Rightarrow> PortsCtl" where
  "PortsCtl_new res0 = \<lparr>m_Lock = 0, m_nMinPort = 0, m_nMaxPort = 0, m_nUsed = 0, m_nNext = 1,
     m_nReserved = res0, m_pBitmap = None\<rparr>"

definition On :: "PortsCtl \<Rightarrow> PortsCtl" where "On p = p\<lparr>m_Lock := m_Lock p + 1\<rparr>"
definition Off :: "PortsCtl \<Rightarrow> PortsCtl" where "Off p = p\<lparr>m_Lock := m_Lock p - 1\<rparr>"

definition SetRange ::
    "alloc \<Rightarrow> (nat \<Rightarrow> u8) \<Rightarrow> nat \<Rightarrow> nat \<Rightarrow> PortsCtl \<Rightarrow> (result \<times> PortsCtl) outcome" where
  "SetRange mok junk nLow nHigh p =
     (if \<not> (nLow > 0 \<and> nHigh > 0) \<or> \<not> nHigh > nLow then Inl AssertFailed
      else
        (let nSize = nHigh - nLow; p1 = On p in
         bindE
           (if nSize > m_nMaxPort p1 - m_nMinPort p1
            then bindE (Bitmap_Alloc mok junk nSize Bitmap_new) (\<lambda>(_, b). Inr b)
            else (case m_pBitmap p1 of None \<Rightarrow> Inl NullDeref | Some b \<Rightarrow> Bitmap_SetBits nSize b))
           (\<lambda>b. bindE (Bitmap_SetZero b) (\<lambda>b'.
              Inr (EOK, Off (p1\<lparr>m_pBitmap := Some b', m_nMinPort := nLow, m_nMaxPort := nHigh,
                               m_nUsed := 0, m_nNext := nLow, m_nReserved := 0\<rparr>))))))"

text \<open>\<open>nPort - m_nMinPort\<close> is an \<open>int\<close> passed as \<open>unsigned int\<close>.\<close>

definition bit_index :: "nat \<Rightarrow> nat \<Rightarrow> nat" where
  "bit_index nPort nMin = (if nMin \<le> nPort then nPort - nMin else 2 ^ 32 - (nMin - nPort))"

definition ports_TestAndSet :: "nat \<Rightarrow> PortsCtl \<Rightarrow> (bool \<times> PortsCtl) outcome" where
  "ports_TestAndSet nPort p =
     (case m_pBitmap p of
        None \<Rightarrow> Inl NullDeref
      | Some b \<Rightarrow> bindE (Bitmap_TestAndSet (bit_index nPort (m_nMinPort p)) b) (\<lambda>(old, b').
          Inr (old, p\<lparr>m_pBitmap := Some b'\<rparr>)))"

definition SetReserved :: "nat \<Rightarrow> PortsCtl \<Rightarrow> PortsCtl outcome" where
  "SetReserved nPort p =
     (if nPort > m_nMaxPort p \<or> nPort < m_nMinPort p then Inr (Off (On p))
      else bindE (ports_TestAndSet nPort (On p)) (\<lambda>(old, p1).
        Inr (Off (if old then p1 else p1\<lparr>m_nReserved := (m_nReserved p1 + 1) mod 65536\<rparr>))))"

text \<open>The loop of \<open>GetOne\<close>. \<open>--nTotal < 0\<close> compares an \<open>unsigned short\<close>, which is never negative.
  The port is the value stored in \<open>*pnPort\<close>.\<close>

definition next_port :: "PortsCtl \<Rightarrow> PortsCtl" where
  "next_port p =
     (let n = (m_nNext p + 1) mod 65536
      in p\<lparr>m_nNext := (if n > m_nMaxPort p then m_nMinPort p else n)\<rparr>)"

fun GetOne_loop :: "nat \<Rightarrow> nat \<Rightarrow> PortsCtl \<Rightarrow> (result \<times> nat option \<times> PortsCtl) outcome" where
  "GetOne_loop 0 nTotal p = Inl OutOfFuel"
| "GetOne_loop (Suc n) nTotal p =
     (let nTotal' = (nTotal + 65535) mod 65536 in
      if int nTotal' < 0 then Inr (RTSP Z3_RTSP_EOUTOFPORTS, None, p)
      else bindE (ports_TestAndSet (m_nNext p) p) (\<lambda>(old, p1).
        if \<not> old
        then Inr (EOK, Some (m_nNext p1), next_port (p1\<lparr>m_nUsed := (m_nUsed p1 + 1) mod 65536\<rparr>))
        else GetOne_loop n nTotal' (next_port p1)))"

text \<open>After 65536 iterations the position has been everywhere it can be, see the lemmas below.\<close>

definition scan_fuel :: nat where "scan_fuel = 65536"

definition GetOne :: "PortsCtl \<Rightarrow> (result \<times> nat option \<times> PortsCtl) outcome" where
  "GetOne p =
     (let nTotal = (m_nMaxPort p - m_nMinPort p + 1) mod 65536 in
      if m_nUsed p + m_nReserved p \<ge> nTotal then Inr (RTSP Z3_RTSP_EOUTOFPORTS, None, p)
      else GetOne_loop scan_fuel nTotal p)"

definition PutOne :: "nat \<Rightarrow> PortsCtl \<Rightarrow> PortsCtl outcome" where
  "PutOne nPort p =
     (if nPort > m_nMaxPort p \<or> nPort < m_nMinPort p then Inr (Off p)
      else case m_pBitmap p of
        None \<Rightarrow> Inl NullDeref
      | Some b \<Rightarrow> bindE (Bitmap_Reset (bit_index nPort (m_nMinPort p)) b) (\<lambda>b'.
          Inr (p\<lparr>m_pBitmap := Some b', m_nUsed := (m_nUsed p + 65535) mod 65536\<rparr>)))"

text \<open>The loops of \<open>GetTwo\<close>, with at most \<open>n\<close> iterations in all: \<open>None\<close> is the loop that looks for an
  even port, \<open>Some low\<close> the one that holds \<open>*pnLow = low\<close> and looks for its neighbour.\<close>

fun GetTwo_loop :: "nat \<Rightarrow> nat option \<Rightarrow> PortsCtl \<Rightarrow> (result \<times> (nat \<times> nat) option \<times> PortsCtl) outcome" where
  "GetTwo_loop 0 low p = Inl OutOfFuel"
| "GetTwo_loop (Suc n) None p =
     bindE (GetOne p) (\<lambda>(nError, port, p1).
       case port of
         None \<Rightarrow> Inr (nError, None, p1)
       | Some low \<Rightarrow>
           if low mod 2 = 1 then bindE (PutOne low p1) (\<lambda>p2. GetTwo_loop n None p2)
           else GetTwo_loop n (Some low) p1)"
| "GetTwo_loop (Suc n) (Some low) p =
     bindE (GetOne p) (\<lambda>(nError, port, p1).
       case port of
         None \<Rightarrow> bindE (PutOne low p1) (\<lambda>p2. Inr (nError, None, p2))
       | Some high \<Rightarrow>
           if high = low + 1 then Inr (EOK, Some (low, high), p1)
           else bindE (PutOne low p1) (\<lambda>p2.
             if high mod 2 = 1 then bindE (PutOne high p2) (\<lambda>p3. GetTwo_loop n None p3)
             else GetTwo_loop n (Some high) p2))"

definition GetTwo :: "nat \<Rightarrow> PortsCtl \<Rightarrow> (result \<times> (nat \<times> nat) option \<times> PortsCtl) outcome" where
  "GetTwo n p =
     (if m_nUsed p + m_nReserved p + 2 > m_nMaxPort p - m_nMinPort p
      then Inr (RTSP Z3_RTSP_EOUTOFPORTS, None, p)
      else GetTwo_loop n None p)"

definition PutTwo :: "nat \<Rightarrow> nat \<Rightarrow> PortsCtl \<Rightarrow> PortsCtl outcome" where
  "PutTwo nLow nHigh p = bindE (PutOne nLow p) (PutOne nHigh)"

section \<open>The interface of \<open>MediaPorts\<close>\<close>

definition SetDefaultrRange :: "alloc \<Rightarrow> (nat \<Rightarrow> u8) \<Rightarrow> PortsCtl \<Rightarrow> (result \<times> PortsCtl) outcome" where
  "SetDefaultrRange mok junk p = SetRange mok junk DEFAULT_RANGE_LOWER DEFAULT_RANGE_UPPER p"

definition GetInstance ::
    "alloc \<Rightarrow> (nat \<Rightarrow> u8) \<Rightarrow> nat \<Rightarrow> PortsCtl option \<Rightarrow> PortsCtl outcome" where
  "GetInstance mok junk res0 inst =
     (case inst of
        Some p \<Rightarrow> Inr p
      | None \<Rightarrow> bindE (SetDefaultrRange mok junk (PortsCtl_new res0)) (\<lambda>(_, p). Inr p))"

definition GetOnePort :: "PortsCtl \<Rightarrow> (nat \<times> PortsCtl) outcome" where
  "GetOnePort p =
     bindE (GetOne (On p)) (\<lambda>(nError, port, p1).
       Inr (case port of Some nPort \<Rightarrow> if nError = EOK then nPort else 0 | None \<Rightarrow> 0, Off p1))"

definition PutOnePort :: "nat \<Rightarrow> PortsCtl \<Rightarrow> PortsCtl outcome" where
  "PutOnePort nPort p = bindE (PutOne nPort (On p)) (\<lambda>p1. Inr (Off p1))"

definition GetPairPorts :: "nat \<Rightarrow> PortsCtl \<Rightarrow> (result \<times> (nat \<times> nat) option \<times> PortsCtl) outcome" where
  "GetPairPorts n p = bindE (GetTwo n (On p)) (\<lambda>(r, ports, p1). Inr (r, ports, Off p1))"

definition PutPairPorts :: "nat \<Rightarrow> nat \<Rightarrow> PortsCtl \<Rightarrow> PortsCtl outcome" where
  "PutPairPorts nLow nHigh p = bindE (PutTwo nLow nHigh (On p)) (\<lambda>p1. Inr (Off p1))"

section \<open>The ports in use\<close>

text \<open>\<open>ports_inv\<close>: the state \<open>SetRange\<close> establishes when it allocates the bitmap, and every operation keeps.
  The bitmap has a byte for each port below \<open>m_nMaxPort\<close>; \<open>used_ports\<close> are those whose bit is set.\<close>

definition port_bit :: "PortsCtl \<Rightarrow> nat \<Rightarrow> bool" where
  "port_bit p x \<longleftrightarrow> (case m_pBitmap p of None \<Rightarrow> False
     | Some b \<Rightarrow> (case m_pMap b of None \<Rightarrow> False
        | Some m \<Rightarrow> m_nMinPort p \<le> x \<and> x - m_nMinPort p < length m \<and> m ! (x - m_nMinPort p) = 1))"

definition used_ports :: "PortsCtl \<Rightarrow> nat set" where
  "used_ports p = {x. port_bit p x}"

definition ports_inv :: "PortsCtl \<Rightarrow> bool" where
  "ports_inv p \<longleftrightarrow>
     (\<exists>m. m_pBitmap p = Some \<lparr>m_nBits = m_nMaxPort p - m_nMinPort p, m_pMap = Some m\<rparr>
        \<and> length m = m_nMaxPort p - m_nMinPort p \<and> set m \<subseteq> {0, 1})
   \<and> 0 < m_nMinPort p \<and> m_nMinPort p < m_nMaxPort p \<and> m_nMaxPort p < 65536
   \<and> m_nMinPort p \<le> m_nNext p \<and> m_nNext p \<le> m_nMaxPort p
   \<and> m_nUsed p + m_nReserved p = card (used_ports p)"

definition set_port :: "u8 \<Rightarrow> nat \<Rightarrow> PortsCtl \<Rightarrow> PortsCtl" where
  "set_port v x p = p\<lparr>m_pBitmap := map_option (\<lambda>b. b\<lparr>m_pMap :=
      map_option (\<lambda>m. m[x - m_nMinPort p := v]) (m_pMap b)\<rparr>) (m_pBitmap p)\<rparr>"

lemma set_port_simps [simp]:
  "m_Lock (set_port v x p) = m_Lock p" "m_nMinPort (set_port v x p) = m_nMinPort p"
  "m_nMaxPort (set_port v x p) = m_nMaxPort p" "m_nUsed (set_port v x p) = m_nUsed p"
  "m_nNext (set_port v x p) = m_nNext p" "m_nReserved (set_port v x p) = m_nReserved p"
  by (simp_all add: set_port_def)

lemma port_bit_updates [simp]:
  "port_bit (p\<lparr>m_nUsed := u\<rparr>) = port_bit p" "port_bit (p\<lparr>m_nNext := n\<rparr>) = port_bit p"
  "port_bit (p\<lparr>m_nReserved := r\<rparr>) = port_bit p" "port_bit (p\<lparr>m_Lock := l\<rparr>) = port_bit p"
  by (auto simp: port_bit_def fun_eq_iff split: option.split)

lemma used_ports_updates [simp]:
  "used_ports (p\<lparr>m_nUsed := u\<rparr>) = used_ports p" "used_ports (p\<lparr>m_nNext := n\<rparr>) = used_ports p"
  "used_ports (p\<lparr>m_nReserved := r\<rparr>) = used_ports p" "used_ports (p\<lparr>m_Lock := l\<rparr>) = used_ports p"
  by (auto simp: used_ports_def)

lemma used_ports_range: "ports_inv p \<Longrightarrow> used_ports p \<subseteq> {m_nMinPort p..<m_nMaxPort p}"
  by (auto simp: ports_inv_def used_ports_def port_bit_def)

lemma finite_used_ports: "ports_inv p \<Longrightarrow> finite (used_ports p)"
  using used_ports_range finite_subset by blast

lemma used_ports_set_port:
  assumes "ports_inv p" "m_nMinPort p \<le> x" "x < m_nMaxPort p"
  shows "used_ports (set_port 1 x p) = insert x (used_ports p)"
    and "used_ports (set_port 0 x p) = used_ports p - {x}"
  using assms
  by (auto simp: ports_inv_def used_ports_def port_bit_def set_port_def nth_list_update eq_diff_iff
      split: if_splits)

lemma counters_small:
  assumes "ports_inv p"
  shows "m_nUsed p + m_nReserved p \<le> m_nMaxPort p - m_nMinPort p"
  using assms card_mono [OF _ used_ports_range [OF assms]] by (simp add: ports_inv_def)

lemma ports_TestAndSet_inv:
  assumes "ports_inv p" "m_nMinPort p \<le> x" "x < m_nMaxPort p"
  shows "ports_TestAndSet x p = Inr (x \<in> used_ports p, set_port 1 x p)"
proof -
  obtain m where m: "m_pBitmap p = Some \<lparr>m_nBits = m_nMaxPort p - m_nMinPort p, m_pMap = Some m\<rparr>"
    "length m = m_nMaxPort p - m_nMinPort p" "set m \<subseteq> {0, 1}"
    using assms(1) by (auto simp: ports_inv_def)
  let ?i = "x - m_nMinPort p"
  have i: "?i < length m" using m(2) assms(2,3) by simp
  then have "m ! ?i = 0 \<or> m ! ?i = 1" using m(3) nth_mem by blast
  then have "m ! ?i OR 1 = 1" "(m ! ?i AND 1 \<noteq> 0) = (m ! ?i = 1)" by auto
  with m i assms(2) show ?thesis
    by (simp add: ports_TestAndSet_def Bitmap_TestAndSet_def bit_index_def used_ports_def port_bit_def set_port_def)
qed

text \<open>The byte for \<open>m_nMaxPort\<close> is behind the end of the allocation.\<close>

lemma ports_TestAndSet_max:
  "ports_inv p \<Longrightarrow> ports_TestAndSet (m_nMaxPort p) p = Inl OutOfBounds"
  by (auto simp: ports_inv_def ports_TestAndSet_def Bitmap_TestAndSet_def bit_index_def)

lemma set_port_idle:
  assumes "ports_inv p" "x \<in> used_ports p"
  shows "set_port 1 x p = p"
  using assms by (auto simp: ports_inv_def used_ports_def port_bit_def set_port_def list_update_same_conv)

lemma next_port_below: "ports_inv p \<Longrightarrow> m_nNext p < m_nMaxPort p \<Longrightarrow> next_port p = p\<lparr>m_nNext := m_nNext p + 1\<rparr>"
  by (auto simp: next_port_def Let_def ports_inv_def)

lemma ports_inv_next: "ports_inv p \<Longrightarrow> m_nMinPort p \<le> n \<Longrightarrow> n \<le> m_nMaxPort p \<Longrightarrow> ports_inv (p\<lparr>m_nNext := n\<rparr>)"
  by (auto simp: ports_inv_def)

text \<open>\<open>first_free p n x\<close>: \<open>x\<close> is the first free port from \<open>n\<close> on.\<close>

definition first_free :: "PortsCtl \<Rightarrow> nat \<Rightarrow> nat \<Rightarrow> bool" where
  "first_free p n x \<longleftrightarrow> n \<le> x \<and> x < m_nMaxPort p \<and> x \<notin> used_ports p \<and> (\<forall>y. n \<le> y \<and> y < x \<longrightarrow> y \<in> used_ports p)"

definition taken :: "nat \<Rightarrow> PortsCtl \<Rightarrow> PortsCtl" where
  "taken x p = (set_port 1 x p)\<lparr>m_nUsed := m_nUsed p + 1, m_nNext := x + 1\<rparr>"

lemma GetOne_loop_first:
  assumes "ports_inv p" "first_free p (m_nNext p) x" "x - m_nNext p < n"
  shows "GetOne_loop n t p = Inr (EOK, Some x, taken x p)"
  using assms
proof (induction n arbitrary: p t)
  case (Suc n)
  note inv = Suc.prems(1) and ff = Suc.prems(2)
  have rng: "m_nMinPort p \<le> m_nNext p" "m_nNext p < m_nMaxPort p"
    using inv ff by (auto simp: ports_inv_def first_free_def)
  note tas = ports_TestAndSet_inv [OF inv rng]
  show ?case
  proof (cases "m_nNext p \<in> used_ports p")
    case True
    let ?p = "p\<lparr>m_nNext := m_nNext p + 1\<rparr>"
    have ne: "x \<noteq> m_nNext p" using True ff by (auto simp: first_free_def)
    then have "ports_inv ?p" using inv rng by (intro ports_inv_next) auto
    moreover have "first_free ?p (m_nNext ?p) x" using ff ne by (auto simp: first_free_def)
    moreover have "x - m_nNext ?p < n" using Suc.prems(3) ff ne by (auto simp: first_free_def)
    ultimately have "GetOne_loop n t' ?p = Inr (EOK, Some x, taken x p)" for t'
      using Suc.IH [of ?p] by (simp add: taken_def set_port_def)
    then show ?thesis
      using tas True set_port_idle [OF inv True] next_port_below [OF inv rng(2)] by (simp add: Let_def)
  next
    case False
    then have x: "x = m_nNext p" using ff by (auto simp: first_free_def)
    have "m_nUsed p + 1 < 65536" using counters_small [OF inv] inv by (auto simp: ports_inv_def)
    moreover have "(m_nNext p + 1) mod 65536 = m_nNext p + 1" "m_nNext p + 1 \<le> m_nMaxPort p"
      using rng inv by (auto simp: ports_inv_def)
    ultimately show ?thesis
      using tas False x by (simp add: Let_def next_port_def taken_def)
  qed
qed simp

lemma GetOne_loop_none:
  assumes "ports_inv p" "\<forall>y. m_nNext p \<le> y \<and> y < m_nMaxPort p \<longrightarrow> y \<in> used_ports p" "m_nMaxPort p - m_nNext p < n"
  shows "GetOne_loop n t p = Inl OutOfBounds"
  using assms
proof (induction n arbitrary: p t)
  case (Suc n)
  note inv = Suc.prems(1)
  show ?case
  proof (cases "m_nNext p = m_nMaxPort p")
    case True
    then show ?thesis using ports_TestAndSet_max [OF inv] by (simp add: Let_def)
  next
    case False
    then have rng: "m_nMinPort p \<le> m_nNext p" "m_nNext p < m_nMaxPort p"
      using inv by (auto simp: ports_inv_def)
    then have used: "m_nNext p \<in> used_ports p" using Suc.prems(2) by auto
    let ?p = "p\<lparr>m_nNext := m_nNext p + 1\<rparr>"
    have "ports_inv ?p" using inv rng by (intro ports_inv_next) auto
    then have "GetOne_loop n t' ?p = Inl OutOfBounds" for t'
      using Suc.IH [of ?p] Suc.prems(2,3) rng by simp
    then show ?thesis
      using ports_TestAndSet_inv [OF inv rng] used set_port_idle [OF inv used] next_port_below [OF inv rng(2)]
      by (simp add: Let_def)
  qed
qed simp

lemma ports_inv_taken:
  assumes "ports_inv p" "m_nMinPort p \<le> x" "x < m_nMaxPort p" "x \<notin> used_ports p"
  shows "ports_inv (taken x p)" "used_ports (taken x p) = insert x (used_ports p)"
proof -
  show u: "used_ports (taken x p) = insert x (used_ports p)"
    using used_ports_set_port [OF assms(1-3)] by (simp add: taken_def)
  have "set (m[i := 1]) \<subseteq> {0, 1}" if "set m \<subseteq> {0, 1}" for m :: "u8 list" and i
    using that set_update_subset_insert [of m i 1] by blast
  with assms u finite_used_ports [OF assms(1)] show "ports_inv (taken x p)"
    unfolding ports_inv_def by (auto simp: taken_def set_port_def)
qed

section \<open>Giving ports back\<close>

definition given_back :: "nat \<Rightarrow> PortsCtl \<Rightarrow> PortsCtl" where
  "given_back x p = (set_port 0 x p)\<lparr>m_nUsed := m_nUsed p - 1\<rparr>"

lemma m_nUsed_given_back [simp]: "m_nUsed (given_back x p) = m_nUsed p - 1"
  by (simp add: given_back_def)

lemma PutOne_inv:
  assumes "ports_inv p" "x \<in> used_ports p" "0 < m_nUsed p"
  shows "PutOne x p = Inr (given_back x p)" "ports_inv (given_back x p)"
    "used_ports (given_back x p) = used_ports p - {x}"
proof -
  have rng: "m_nMinPort p \<le> x" "x < m_nMaxPort p" using used_ports_range [OF assms(1)] assms(2) by auto
  obtain m where m: "m_pBitmap p = Some \<lparr>m_nBits = m_nMaxPort p - m_nMinPort p, m_pMap = Some m\<rparr>"
    "length m = m_nMaxPort p - m_nMinPort p" "set m \<subseteq> {0, 1}" "m ! (x - m_nMinPort p) = 1"
    using assms(1,2) by (auto simp: ports_inv_def used_ports_def port_bit_def)
  have "m_nUsed p < 65536" using counters_small [OF assms(1)] assms(1) by (auto simp: ports_inv_def)
  then have "(m_nUsed p + 65535) mod 65536 = m_nUsed p - 1" using assms(3) by (cases "m_nUsed p") auto
  moreover have "x - m_nMinPort p < m_nMaxPort p - m_nMinPort p" using rng by simp
  ultimately show "PutOne x p = Inr (given_back x p)" using m rng
    by (simp add: PutOne_def Bitmap_Reset_def bit_index_def given_back_def set_port_def)
  show u: "used_ports (given_back x p) = used_ports p - {x}"
    using used_ports_set_port [OF assms(1) rng] by (simp add: given_back_def)
  have "set (m[x - m_nMinPort p := 0]) \<subseteq> {0, 1}"
    using m(3) set_update_subset_insert [of m "x - m_nMinPort p" 0] by blast
  moreover have "m_nUsed p - 1 + m_nReserved p = card (used_ports p - {x})"
    using assms finite_used_ports [OF assms(1)] by (simp add: ports_inv_def)
  ultimately show "ports_inv (given_back x p)"
    using assms(1) m u unfolding ports_inv_def by (simp add: given_back_def set_port_def)
qed

lemma PutOne_taken:
  assumes "ports_inv p" "m_nMinPort p \<le> x" "x < m_nMaxPort p" "x \<notin> used_ports p"
  shows "PutOne x (taken x p) = Inr (p\<lparr>m_nNext := x + 1\<rparr>)"
proof -
  have "given_back x (taken x p) = p\<lparr>m_nNext := x + 1\<rparr>"
  proof -
    obtain m where m: "m_pBitmap p = Some \<lparr>m_nBits = m_nMaxPort p - m_nMinPort p, m_pMap = Some m\<rparr>"
      "length m = m_nMaxPort p - m_nMinPort p" "set m \<subseteq> {0, 1}"
      using assms(1) by (auto simp: ports_inv_def)
    have i: "x - m_nMinPort p < length m" using m(2) assms(2,3) by simp
    then have "m ! (x - m_nMinPort p) \<in> {0, 1}" using m(3) nth_mem by blast
    then have "m ! (x - m_nMinPort p) = 0"
      using m assms(2,4) i by (auto simp: used_ports_def port_bit_def)
    then have "m[x - m_nMinPort p := 0] = m" by (metis list_update_id)
    then show ?thesis using m(1) by (simp add: given_back_def taken_def set_port_def)
  qed
  then show ?thesis
    using PutOne_inv(1) [OF ports_inv_taken(1) [OF assms]] ports_inv_taken(2) [OF assms] by (simp add: taken_def)
qed

section \<open>The allocations\<close>

lemma GetOne_first:
  assumes "ports_inv p" "first_free p (m_nNext p) x"
  shows "GetOne p = Inr (EOK, Some x, taken x p)"
proof -
  have "m_nUsed p + m_nReserved p < (m_nMaxPort p - m_nMinPort p + 1) mod 65536" "x - m_nNext p < scan_fuel"
    using counters_small [OF assms(1)] assms by (auto simp: ports_inv_def first_free_def scan_fuel_def)
  then show ?thesis using GetOne_loop_first [OF assms] by (simp add: GetOne_def Let_def)
qed

lemma GetOne_none:
  assumes "ports_inv p" "\<forall>y. m_nNext p \<le> y \<and> y < m_nMaxPort p \<longrightarrow> y \<in> used_ports p"
  shows "GetOne p = Inl OutOfBounds"
proof -
  have "m_nUsed p + m_nReserved p < (m_nMaxPort p - m_nMinPort p + 1) mod 65536" "m_nMaxPort p - m_nNext p < scan_fuel"
    using counters_small [OF assms(1)] assms(1) by (auto simp: ports_inv_def scan_fuel_def)
  then show ?thesis using GetOne_loop_none [OF assms] by (simp add: GetOne_def Let_def)
qed

lemma first_free_cases:
  obtains x where "first_free p n x" | "\<forall>y. n \<le> y \<and> y < m_nMaxPort p \<longrightarrow> y \<in> used_ports p"
proof (cases "\<exists>y. n \<le> y \<and> y < m_nMaxPort p \<and> y \<notin> used_ports p")
  case True
  let ?P = "\<lambda>y. n \<le> y \<and> y < m_nMaxPort p \<and> y \<notin> used_ports p"
  obtain y where "?P y" using True by blast
  then have "?P (LEAST y. ?P y)" by (rule LeastI)
  moreover have "z \<in> used_ports p" if "n \<le> z" "z < (LEAST y. ?P y)" for z
    using not_less_Least [OF that(2)] that calculation by auto
  ultimately show ?thesis using that(1) [of "LEAST y. ?P y"] by (auto simp: first_free_def)
qed (use that(2) in blast)

text \<open>\<open>first_pair p n x\<close>: \<open>x\<close> and \<open>x + 1\<close> are the first even port and its neighbour that are both free,
  from \<open>n\<close> on.\<close>

definition pair_free :: "PortsCtl \<Rightarrow> nat \<Rightarrow> bool" where
  "pair_free p x \<longleftrightarrow> even x \<and> x \<notin> used_ports p \<and> x + 1 \<notin> used_ports p \<and> x + 1 < m_nMaxPort p"

definition pair_taken :: "nat \<Rightarrow> PortsCtl \<Rightarrow> PortsCtl" where
  "pair_taken x p = taken (x + 1) (taken x p)"

text \<open>What the loops of \<open>GetTwo\<close> compute from a position \<open>n\<close>: the first pair, or they run off the end.\<close>

definition two_result :: "PortsCtl \<Rightarrow> nat \<Rightarrow> (result \<times> (nat \<times> nat) option \<times> PortsCtl) outcome \<Rightarrow> bool" where
  "two_result p n r \<longleftrightarrow>
     (\<exists>x. n \<le> x \<and> pair_free p x \<and> (\<forall>y. n \<le> y \<and> y < x \<longrightarrow> \<not> pair_free p y)
          \<and> r = Inr (EOK, Some (x, x + 1), pair_taken x p))
   \<or> (\<forall>y. n \<le> y \<longrightarrow> \<not> pair_free p y) \<and> r = Inl OutOfBounds"

lemma two_result_skip:
  assumes "two_result p k r" "n \<le> k" "\<forall>y. n \<le> y \<and> y < k \<longrightarrow> \<not> pair_free p y"
  shows "two_result p n r"
proof -
  have skip: "\<not> pair_free p y" if "n \<le> y" "y < k" for y using assms(3) that by blast
  from assms(1) consider
      x where "k \<le> x" "pair_free p x" "\<And>y. k \<le> y \<Longrightarrow> y < x \<Longrightarrow> \<not> pair_free p y"
        "r = Inr (EOK, Some (x, x + 1), pair_taken x p)"
    | "\<And>y. k \<le> y \<Longrightarrow> \<not> pair_free p y" "r = Inl OutOfBounds"
    unfolding two_result_def by blast
  then show ?thesis
  proof cases
    case (1 x)
    then have "\<not> pair_free p y" if "n \<le> y" "y < x" for y using skip that by (cases "y < k") auto
    with 1 assms(2) show ?thesis unfolding two_result_def by (intro disjI1 exI [of _ x]) auto
  next
    case 2
    then have "\<not> pair_free p y" if "n \<le> y" for y using skip that by (cases "y < k") auto
    with 2 show ?thesis unfolding two_result_def by blast
  qed
qed

lemma taken_next: "taken x (p\<lparr>m_nNext := n\<rparr>) = taken x p" "used_ports (p\<lparr>m_nNext := n\<rparr>) = used_ports p"
  "pair_free (p\<lparr>m_nNext := n\<rparr>) = pair_free p" "two_result (p\<lparr>m_nNext := n\<rparr>) = two_result p"
  by (auto simp: taken_def set_port_def pair_free_def two_result_def pair_taken_def fun_eq_iff)

lemma pair_exchange:
  assumes "ports_inv p" "m_nMinPort p \<le> low" "low < m_nMaxPort p" "low \<notin> used_ports p"
    and "low < high" "high < m_nMaxPort p" "high \<notin> used_ports p"
  shows "PutOne low (taken high (taken low p)) = Inr (taken high p)"
proof -
  let ?q = "taken high (taken low p)"
  have q1: "ports_inv (taken low p)" "used_ports (taken low p) = insert low (used_ports p)"
    using ports_inv_taken [OF assms(1-4)] by auto
  have q2: "ports_inv ?q" "used_ports ?q = insert high (insert low (used_ports p))"
    using ports_inv_taken [OF q1(1), of high] q1(2) assms by (auto simp: taken_def)
  obtain m where m: "m_pBitmap p = Some \<lparr>m_nBits = m_nMaxPort p - m_nMinPort p, m_pMap = Some m\<rparr>"
    "length m = m_nMaxPort p - m_nMinPort p" "set m \<subseteq> {0, 1}"
    using assms(1) by (auto simp: ports_inv_def)
  let ?i = "low - m_nMinPort p" and ?j = "high - m_nMinPort p"
  have i: "?i < length m" "?i \<noteq> ?j" using m(2) assms(2,3,5) by auto
  then have "m ! ?i \<in> {0, 1}" using m(3) nth_mem by blast
  then have "m ! ?i = 0" using m assms(2,4) i by (auto simp: used_ports_def port_bit_def)
  then have "m[?i := 1, ?j := 1, ?i := 0] = m[?j := 1]"
    using i(2) by (metis list_update_id list_update_overwrite list_update_swap)
  then have "given_back low ?q = taken high p"
    using m(1) by (simp add: given_back_def taken_def set_port_def)
  then show ?thesis
    using PutOne_inv(1) [OF q2(1), of low] q2(2) by (simp add: taken_def)
qed

text \<open>Both loops, by the distance they have left.\<close>

lemma GetTwo_loops:
  "(ports_inv p \<longrightarrow> 2 * (m_nMaxPort p - m_nNext p) + 1 < f \<longrightarrow>
      two_result p (m_nNext p) (GetTwo_loop f None p)) \<and>
   (ports_inv p \<longrightarrow> even low \<longrightarrow> m_nMinPort p \<le> low \<longrightarrow> low < m_nMaxPort p \<longrightarrow> low \<notin> used_ports p \<longrightarrow>
      2 * (m_nMaxPort p - low) < f \<longrightarrow> two_result p low (GetTwo_loop f (Some low) (taken low p)))"
proof (induction f arbitrary: p low)
  case (Suc f)
  have even_loop: "two_result p (m_nNext p) (GetTwo_loop (Suc f) None p)"
    if inv: "ports_inv p" and fuel: "2 * (m_nMaxPort p - m_nNext p) + 1 < Suc f" for p
  proof (cases rule: first_free_cases [of p "m_nNext p"])
    case (1 x)
    have rng: "m_nMinPort p \<le> x" "x < m_nMaxPort p" "x \<notin> used_ports p" "m_nNext p \<le> x"
      and before: "\<forall>y. m_nNext p \<le> y \<and> y < x \<longrightarrow> \<not> pair_free p y"
      using inv 1 by (auto simp: ports_inv_def first_free_def pair_free_def)
    note get = GetOne_first [OF inv 1]
    show ?thesis
    proof (cases "odd x")
      case True
      let ?p = "p\<lparr>m_nNext := x + 1\<rparr>"
      have "ports_inv ?p" using inv rng by (intro ports_inv_next) auto
      moreover have "2 * (m_nMaxPort ?p - m_nNext ?p) + 1 < f" using fuel rng by simp
      ultimately have "two_result p (x + 1) (GetTwo_loop f None ?p)"
        using Suc.IH [of ?p] by (simp add: taken_next)
      moreover have "\<not> pair_free p x" using True by (simp add: pair_free_def)
      ultimately have "two_result p (m_nNext p) (GetTwo_loop f None ?p)"
        using two_result_skip [of p "x + 1" _ "m_nNext p"] before rng(4) by (auto simp: less_Suc_eq)
      then show ?thesis
        using True get PutOne_taken [OF inv rng(1-3)] by (simp add: odd_iff_mod_2_eq_one)
    next
      case False
      have "2 * (m_nMaxPort p - x) < f" using fuel rng by simp
      then have "two_result p x (GetTwo_loop f (Some x) (taken x p))"
        using Suc.IH [of p x] False rng inv by simp
      then have "two_result p (m_nNext p) (GetTwo_loop f (Some x) (taken x p))"
        using two_result_skip [of p x] before rng(4) by auto
      then show ?thesis using False get by (simp add: even_iff_mod_2_eq_zero)
    qed
  next
    case 2
    then show ?thesis using GetOne_none [OF inv] by (auto simp: two_result_def pair_free_def)
  qed
  have odd_loop: "two_result p low (GetTwo_loop (Suc f) (Some low) (taken low p))"
    if inv: "ports_inv p" and low: "even low" "m_nMinPort p \<le> low" "low < m_nMaxPort p" "low \<notin> used_ports p"
      and fuel: "2 * (m_nMaxPort p - low) < Suc f" for p low
  proof -
    let ?q = "taken low p"
    have q: "ports_inv ?q" "used_ports ?q = insert low (used_ports p)" "m_nNext ?q = low + 1"
      "m_nMaxPort ?q = m_nMaxPort p"
      using ports_inv_taken [OF inv low(2-4)] by (auto simp: taken_def)
    show ?thesis
    proof (cases rule: first_free_cases [of ?q "low + 1"])
      case 2
      then have "GetOne ?q = Inl OutOfBounds" using GetOne_none [OF q(1)] q(3) by simp
      moreover have "\<not> pair_free p y" if "low \<le> y" for y
        using 2 that q(2,4) by (cases "y = low") (auto simp: pair_free_def)
      ultimately show ?thesis by (auto simp: two_result_def)
    next
      case (1 high)
      then have get: "GetOne ?q = Inr (EOK, Some high, taken high ?q)"
        using GetOne_first [OF q(1)] q(3) by simp
      have hi: "low < high" "high < m_nMaxPort p" "high \<notin> used_ports p"
        and between: "\<forall>y. low < y \<and> y < high \<longrightarrow> y \<in> used_ports p"
        using 1 q(2,4) by (auto simp: first_free_def)
      show ?thesis
      proof (cases "high = low + 1")
        case True
        then have "pair_free p low" using low hi by (auto simp: pair_free_def)
        then show ?thesis using get True by (auto simp: two_result_def pair_taken_def)
      next
        case False
        have before: "\<not> pair_free p y" if "low \<le> y" "y < high" for y
          using that between hi False by (cases "y = low") (auto simp: pair_free_def)
        note put = pair_exchange [OF inv low(2-4) hi]
        show ?thesis
        proof (cases "odd high")
          case True
          let ?p = "p\<lparr>m_nNext := high + 1\<rparr>"
          have "ports_inv ?p" using inv low hi by (intro ports_inv_next) auto
          moreover have "2 * (m_nMaxPort ?p - m_nNext ?p) + 1 < f" using fuel low hi by simp
          ultimately have "two_result p (high + 1) (GetTwo_loop f None ?p)"
            using Suc.IH [of ?p] by (simp add: taken_next)
          moreover have "\<not> pair_free p high" using True by (simp add: pair_free_def)
          ultimately have "two_result p low (GetTwo_loop f None ?p)"
            using two_result_skip [of p "high + 1" _ low] before hi(1) by (auto simp: less_Suc_eq)
          then show ?thesis
            using True False get put PutOne_taken [OF inv _ hi(2,3)] low(2) hi(1) by (simp add: odd_iff_mod_2_eq_one)
        next
          case even: False
          have "2 * (m_nMaxPort p - high) < f" using fuel hi by simp
          then have "two_result p high (GetTwo_loop f (Some high) (taken high p))"
            using Suc.IH [of p high] even low hi inv by simp
          then have "two_result p low (GetTwo_loop f (Some high) (taken high p))"
            using two_result_skip [of p high _ low] before hi(1) by auto
          then show ?thesis using even False get put by (simp add: even_iff_mod_2_eq_zero)
        qed
      qed
    qed
  qed
  show ?case using even_loop odd_loop by blast
qed simp

section \<open>The interface of an allocator of port pairs\<close>

text \<open>What the media streams of a session rely on. \<open>out\<close> counts the ports handed out.\<close>

fun ports_of :: "(nat \<times> nat) list \<Rightarrow> nat list" where
  "ports_of [] = []"
| "ports_of ((lo, hi) # held) = lo # hi # ports_of held"

lemma ports_of_append: "ports_of (xs @ ys) = ports_of xs @ ports_of ys"
  by (induction xs rule: ports_of.induct) auto

locale port_pairs =
  fixes inv :: "'s \<Rightarrow> bool"
    and used :: "'s \<Rightarrow> nat set"
    and out :: "'s \<Rightarrow> nat"
    and get :: "'s \<Rightarrow> (result \<times> (nat \<times> nat) option \<times> 's) outcome"
    and put :: "nat \<Rightarrow> nat \<Rightarrow> 's \<Rightarrow> 's outcome"
  assumes get_pair: "inv s \<Longrightarrow> get s = Inr (r, Some (lo, hi), s') \<Longrightarrow>
      r = EOK \<and> even lo \<and> hi = lo + 1 \<and> lo \<notin> used s \<and> hi \<notin> used s \<and> inv s'
      \<and> used s' = used s \<union> {lo, hi} \<and> out s' = out s + 2"
    and get_none: "inv s \<Longrightarrow> get s = Inr (r, None, s') \<Longrightarrow> r \<noteq> EOK \<and> s' = s"
    and put_pair: "inv s \<Longrightarrow> lo \<in> used s \<Longrightarrow> hi \<in> used s \<Longrightarrow> lo \<noteq> hi \<Longrightarrow> 2 \<le> out s \<Longrightarrow>
      \<exists>s'. put lo hi s = Inr s' \<and> inv s' \<and> used s' = used s - {lo, hi} \<and> out s' = out s - 2"
begin

text \<open>A client that asks for a pair (\<open>None\<close>) or gives back one it holds: what it holds (\<open>held\<close>, in
  front the newest) is always pairwise disjoint and marked as used.\<close>

definition holds :: "(nat \<times> nat) list \<Rightarrow> 's \<Rightarrow> bool" where
  "holds held s \<longleftrightarrow> inv s \<and> distinct (ports_of held) \<and> set (ports_of held) \<subseteq> used s
     \<and> (\<forall>(lo, hi) \<in> set held. even lo \<and> hi = lo + 1) \<and> 2 * length held \<le> out s"

lemma holds_get:
  assumes "holds held s" "get s = Inr (r, Some (lo, hi), s')"
  shows "holds ((lo, hi) # held) s'"
  using get_pair [OF _ assms(2)] assms(1) unfolding holds_def by auto

lemma holds_put:
  assumes "holds ((lo, hi) # held) s"
  shows "\<exists>s'. put lo hi s = Inr s' \<and> holds held s'"
proof -
  have h: "inv s" "lo \<in> used s" "hi \<in> used s" "lo \<noteq> hi" "2 \<le> out s"
    using assms by (auto simp: holds_def)
  obtain s' where "put lo hi s = Inr s'" "inv s'" "used s' = used s - {lo, hi}" "out s' = out s - 2"
    using put_pair [OF h] by blast
  with assms show ?thesis by (auto simp: holds_def)
qed

lemma holds_front:
  assumes "holds (xs @ q # ys) s"
  shows "holds (q # xs @ ys) s"
  using assms by (cases q) (auto simp: holds_def ports_of_append)

end

text \<open>Twice the number of ports bounds the loops.\<close>

definition pair_fuel :: nat where "pair_fuel = 2 * 65536 + 2"

lemma On_Off: "Off (On p) = p" "m_Lock (On p) = m_Lock p + 1"
  by (simp_all add: On_def Off_def)

lemma ports_inv_lock: "ports_inv (p\<lparr>m_Lock := l\<rparr>) = ports_inv p"
  by (auto simp: ports_inv_def)

lemma Off_pair_taken: "Off (pair_taken x (On p)) = pair_taken x p"
  by (simp add: Off_def On_def pair_taken_def taken_def set_port_def)

lemma pair_free_lock: "pair_free (p\<lparr>m_Lock := l\<rparr>) = pair_free p"
  by (auto simp: pair_free_def fun_eq_iff)

lemma GetPairPorts_eq:
  assumes "ports_inv p"
  shows "GetPairPorts pair_fuel p =
     (if m_nUsed p + m_nReserved p + 2 > m_nMaxPort p - m_nMinPort p then Inr (RTSP Z3_RTSP_EOUTOFPORTS, None, p)
      else if \<exists>x\<ge>m_nNext p. pair_free p x
      then (let x = LEAST x. m_nNext p \<le> x \<and> pair_free p x in Inr (EOK, Some (x, x + 1), pair_taken x p))
      else Inl OutOfBounds)"
proof -
  have inv: "ports_inv (On p)" using assms ports_inv_lock by (simp add: On_def)
  have f: "2 * (m_nMaxPort (On p) - m_nNext (On p)) + 1 < pair_fuel"
    using assms by (auto simp: On_def ports_inv_def pair_fuel_def)
  have two: "two_result (On p) (m_nNext p) (GetTwo_loop pair_fuel None (On p))"
    using GetTwo_loops [of "On p" pair_fuel 0] inv f by (simp add: On_def)
  have free: "pair_free (On p) = pair_free p" by (simp add: On_def pair_free_lock)
  from two consider
      x where "m_nNext p \<le> x" "pair_free p x" "\<And>y. m_nNext p \<le> y \<Longrightarrow> y < x \<Longrightarrow> \<not> pair_free p y"
        "GetTwo_loop pair_fuel None (On p) = Inr (EOK, Some (x, x + 1), pair_taken x (On p))"
    | "\<And>y. m_nNext p \<le> y \<Longrightarrow> \<not> pair_free p y" "GetTwo_loop pair_fuel None (On p) = Inl OutOfBounds"
    unfolding two_result_def free by blast
  then show ?thesis
  proof cases
    case (1 x)
    then have "(LEAST x. m_nNext p \<le> x \<and> pair_free p x) = x"
      by (intro Least_equality) (auto simp: not_less [symmetric])
    with 1 show ?thesis
      by (auto simp: GetPairPorts_def GetTwo_def On_Off Off_pair_taken Let_def) (auto simp: On_def)
  next
    case 2
    then show ?thesis by (auto simp: GetPairPorts_def GetTwo_def On_Off Let_def) (auto simp: On_def)
  qed
qed

lemma pair_taken_inv:
  assumes "ports_inv p" "m_nNext p \<le> x" "pair_free p x"
  shows "ports_inv (pair_taken x p)" "used_ports (pair_taken x p) = used_ports p \<union> {x, x + 1}"
    "m_nUsed (pair_taken x p) = m_nUsed p + 2"
proof -
  have x: "m_nMinPort p \<le> x" "x < m_nMaxPort p" "x \<notin> used_ports p" "x + 1 < m_nMaxPort p" "x + 1 \<notin> used_ports p"
    using assms by (auto simp: ports_inv_def pair_free_def)
  note t = ports_inv_taken [OF assms(1) x(1-3)]
  have "x + 1 \<notin> used_ports (taken x p)" using t(2) x(5) by simp
  then have "ports_inv (taken (x + 1) (taken x p))" "used_ports (taken (x + 1) (taken x p)) = insert (x + 1) (used_ports (taken x p))"
    using ports_inv_taken [OF t(1), of "x + 1"] x(1,4) by (auto simp: taken_def)
  with t(2) show "ports_inv (pair_taken x p)" "used_ports (pair_taken x p) = used_ports p \<union> {x, x + 1}"
    by (auto simp: pair_taken_def)
  show "m_nUsed (pair_taken x p) = m_nUsed p + 2" by (simp add: pair_taken_def taken_def)
qed

interpretation ports: port_pairs ports_inv used_ports m_nUsed "GetPairPorts pair_fuel" PutPairPorts
proof (unfold_locales, goal_cases)
  case (1 s r lo hi s')
  then obtain "\<exists>x\<ge>m_nNext s. pair_free s x" "lo = (LEAST x. m_nNext s \<le> x \<and> pair_free s x)"
    "hi = lo + 1" "s' = pair_taken lo s" "r = EOK"
    by (auto simp: GetPairPorts_eq Let_def split: if_splits)
  moreover then have "m_nNext s \<le> lo \<and> pair_free s lo" by (metis (mono_tags, lifting) LeastI_ex)
  ultimately show ?case using pair_taken_inv [OF 1(1), of lo] by (auto simp: pair_free_def)
next
  case (2 s r s')
  then show ?case by (auto simp: GetPairPorts_eq Let_def split: if_splits)
next
  case (3 s lo hi)
  have inv: "ports_inv (On s)" and u: "used_ports (On s) = used_ports s" "m_nUsed (On s) = m_nUsed s"
    using 3(1) ports_inv_lock by (simp_all add: On_def)
  have a: "PutOne lo (On s) = Inr (given_back lo (On s))" "ports_inv (given_back lo (On s))"
    "used_ports (given_back lo (On s)) = used_ports s - {lo}" "m_nUsed (given_back lo (On s)) = m_nUsed s - 1"
    using PutOne_inv [OF inv, of lo] u 3 by simp_all
  have b: "PutOne hi (given_back lo (On s)) = Inr (given_back hi (given_back lo (On s)))"
    "ports_inv (given_back hi (given_back lo (On s)))"
    "used_ports (given_back hi (given_back lo (On s))) = used_ports s - {lo, hi}"
    "m_nUsed (given_back hi (given_back lo (On s))) = m_nUsed s - 2"
    using PutOne_inv [OF a(2), of hi] a(3,4) 3 by auto
  then show ?case
    using a(1) by (intro exI [of _ "Off (given_back hi (given_back lo (On s)))"])
      (simp add: PutPairPorts_def PutTwo_def Off_def ports_inv_lock)
qed

text \<open>A client's requests: for a new pair, or to give back the \<open>i\<close>-th one it holds.\<close>

datatype port_op = GetPair | PutPair nat

fun pair_step :: "port_op \<Rightarrow> (nat \<times> nat) list \<times> PortsCtl \<Rightarrow> ((nat \<times> nat) list \<times> PortsCtl) outcome" where
  "pair_step GetPair (held, p) =
     bindE (GetPairPorts pair_fuel p) (\<lambda>(r, ports, p').
       Inr (case ports of None \<Rightarrow> held | Some q \<Rightarrow> q # held, p'))"
| "pair_step (PutPair i) (held, p) =
     (if i < length held
      then bindE (PutPairPorts (fst (held ! i)) (snd (held ! i)) p) (\<lambda>p'. Inr (take i held @ drop (Suc i) held, p'))
      else Inr (held, p))"

fun pair_steps :: "port_op list \<Rightarrow> (nat \<times> nat) list \<times> PortsCtl \<Rightarrow> ((nat \<times> nat) list \<times> PortsCtl) outcome" where
  "pair_steps [] st = Inr st"
| "pair_steps (a # as) st = bindE (pair_step a st) (pair_steps as)"

lemma pair_step_holds:
  assumes "ports.holds held p"
  shows "case pair_step a (held, p) of Inl e \<Rightarrow> e = OutOfBounds | Inr (held', p') \<Rightarrow> ports.holds held' p'"
proof (cases a)
  case GetPair
  have inv: "ports_inv p" using assms by (simp add: ports.holds_def)
  show ?thesis
  proof (cases "GetPairPorts pair_fuel p")
    case (Inl e)
    then show ?thesis using GetPair GetPairPorts_eq [OF inv] by (auto simp: Let_def split: if_splits)
  next
    case (Inr x)
    obtain r ports p' where x: "x = (r, ports, p')" by (cases x)
    show ?thesis
    proof (cases ports)
      case None
      then show ?thesis using GetPair Inr x assms ports.get_none [OF inv] by auto
    next
      case (Some q)
      then show ?thesis using GetPair Inr x ports.holds_get [OF assms, of r "fst q" "snd q" p'] by simp
    qed
  qed
next
  case (PutPair i)
  show ?thesis
  proof (cases "i < length held")
    case True
    then have "ports.holds ((fst (held ! i), snd (held ! i)) # take i held @ drop (Suc i) held) p"
      using ports.holds_front [of "take i held" "held ! i" "drop (Suc i) held" p] assms
      by (simp add: id_take_nth_drop [symmetric])
    then show ?thesis using ports.holds_put PutPair True by fastforce
  qed (use PutPair assms in simp)
qed

lemma pair_steps_holds:
  "ports.holds held p \<Longrightarrow>
     case pair_steps as (held, p) of Inl e \<Rightarrow> e = OutOfBounds | Inr (held', p') \<Rightarrow> ports.holds held' p'"
proof (induction as arbitrary: held p)
  case (Cons a as)
  show ?case
  proof (cases "pair_step a (held, p)")
    case (Inl e)
    then show ?thesis using pair_step_holds [OF Cons.prems, of a] by simp
  next
    case (Inr st)
    then have "ports.holds (fst st) (snd st)" using pair_step_holds [OF Cons.prems, of a] by (cases st) simp
    then show ?thesis using Cons.IH [of "fst st" "snd st"] Inr by simp
  qed
qed simp

section \<open>Properties\<close>

text \<open>\<open>GetPairPorts\<close> on every branch, from any state \<open>SetRange\<close> and the other operations reach. If
  fewer than two ports of the range would remain it is refused with \<open>Z3_RTSP_EOUTOFPORTS\<close>
  and nothing changes; otherwise, if a pair of an even port and its successor is free at or
  behind \<open>m_nNext\<close> (and below \<open>m_nMaxPort\<close>), the first such pair is marked as used and handed out and no
  other port changes; otherwise the search reaches \<open>m_nMaxPort\<close>, whose byte is behind the end of the
  bitmap, whatever is free in front of \<open>m_nNext\<close>. The bound \<open>pair_fuel\<close> is always enough.\<close>

theorem GetPairPorts_branches:
  assumes "ports_inv p"
  shows "if m_nUsed p + m_nReserved p + 2 > m_nMaxPort p - m_nMinPort p
         then GetPairPorts pair_fuel p = Inr (RTSP Z3_RTSP_EOUTOFPORTS, None, p)
         else if \<exists>x\<ge>m_nNext p. pair_free p x
         then \<exists>x p'. GetPairPorts pair_fuel p = Inr (EOK, Some (x, x + 1), p') \<and> m_nNext p \<le> x \<and> pair_free p x
                \<and> (\<forall>y. m_nNext p \<le> y \<and> y < x \<longrightarrow> \<not> pair_free p y)
                \<and> used_ports p' = used_ports p \<union> {x, x + 1} \<and> ports_inv p' \<and> m_Lock p' = m_Lock p
         else GetPairPorts pair_fuel p = Inl OutOfBounds"
proof -
  have "\<exists>x p'. GetPairPorts pair_fuel p = Inr (EOK, Some (x, x + 1), p') \<and> m_nNext p \<le> x \<and> pair_free p x
                \<and> (\<forall>y. m_nNext p \<le> y \<and> y < x \<longrightarrow> \<not> pair_free p y)
                \<and> used_ports p' = used_ports p \<union> {x, x + 1} \<and> ports_inv p' \<and> m_Lock p' = m_Lock p"
    if c: "\<not> m_nUsed p + m_nReserved p + 2 > m_nMaxPort p - m_nMinPort p" "\<exists>x\<ge>m_nNext p. pair_free p x"
  proof -
    let ?x = "LEAST x. m_nNext p \<le> x \<and> pair_free p x"
    have x: "m_nNext p \<le> ?x \<and> pair_free p ?x" using c(2) by (metis (mono_tags, lifting) LeastI_ex)
    moreover have "\<not> pair_free p y" if "m_nNext p \<le> y" "y < ?x" for y using not_less_Least [OF that(2)] that(1) by blast
    moreover have "m_Lock (pair_taken ?x p) = m_Lock p" by (simp add: pair_taken_def taken_def)
    ultimately show ?thesis
      using GetPairPorts_eq [OF assms] c pair_taken_inv [OF assms, of ?x]
      by (intro exI [of _ ?x] exI [of _ "pair_taken ?x p"]) (auto simp: Let_def)
  qed
  then show ?thesis
    using GetPairPorts_eq [OF assms] by (metis (no_types, lifting))
qed

definition sample_ports :: PortsCtl where
  "sample_ports = \<lparr>m_Lock = 0, m_nMinPort = 20000, m_nMaxPort = 20004, m_nUsed = 0, m_nNext = 20000, m_nReserved = 0,
     m_pBitmap = Some \<lparr>m_nBits = 4, m_pMap = Some [0, 0, 0, 0]\<rparr>\<rparr>"

lemma sample_ports_inv: "ports_inv sample_ports" "used_ports sample_ports = {}"
proof -
  have "[0, 0, 0, 0 :: u8] ! i = 0" if "i < 4" for i using that by (auto simp: less_Suc_eq numeral_eq_Suc)
  then show u: "used_ports sample_ports = {}" by (auto simp: sample_ports_def used_ports_def port_bit_def)
  show "ports_inv sample_ports" using u by (simp add: ports_inv_def) (simp add: sample_ports_def)
qed

theorem GetPairPorts_branches_witness:
  "\<exists>x p'. GetPairPorts pair_fuel sample_ports = Inr (EOK, Some (x, x + 1), p') \<and> 20000 \<le> x"
proof -
  have "pair_free sample_ports 20000"
    using sample_ports_inv(2) by (simp add: pair_free_def) (simp add: sample_ports_def)
  then have "\<exists>x\<ge>m_nNext sample_ports. pair_free sample_ports x" by (auto simp: sample_ports_def)
  moreover have "\<not> m_nUsed sample_ports + m_nReserved sample_ports + 2 > m_nMaxPort sample_ports - m_nMinPort sample_ports"
    "m_nNext sample_ports = 20000"
    by (simp_all add: sample_ports_def)
  ultimately show ?thesis using GetPairPorts_branches [OF sample_ports_inv(1)] by auto
qed

text \<open>C7. Whatever sequence of requests a client makes of an allocator that starts with no port used,
  the pairs it holds at any time are disjoint, each is an even port and its successor, and all are within the
  range; giving back never fails; the only fault that can occur is the access behind the bitmap.\<close>

theorem pairs_disjoint:
  assumes "ports_inv p"
  shows "case pair_steps ops ([], p) of
      Inl e \<Rightarrow> e = OutOfBounds
    | Inr (held, p') \<Rightarrow> distinct (ports_of held) \<and> (\<forall>(lo, hi) \<in> set held. even lo \<and> hi = lo + 1)
        \<and> set (ports_of held) \<subseteq> used_ports p' \<and> used_ports p' \<subseteq> {m_nMinPort p'..<m_nMaxPort p'} \<and> ports_inv p'"
proof -
  have "ports.holds [] p" using assms by (simp add: ports.holds_def)
  then have h: "case pair_steps ops ([], p) of Inl e \<Rightarrow> e = OutOfBounds | Inr (held', p') \<Rightarrow> ports.holds held' p'"
    by (rule pair_steps_holds)
  show ?thesis
  proof (cases "pair_steps ops ([], p)")
    case (Inr st)
    obtain held p' where st: "st = (held, p')" by (cases st)
    then have "ports.holds held p'" using h Inr by simp
    then show ?thesis
      using Inr st used_ports_range [of p'] unfolding ports.holds_def by simp
  qed (use h in simp)
qed

theorem pairs_disjoint_witness:
  "case pair_steps [GetPair, GetPair, PutPair 1, GetPair] ([], sample_ports) of
     Inl e \<Rightarrow> e = OutOfBounds | Inr (held, p') \<Rightarrow> distinct (ports_of held)"
  using pairs_disjoint [OF sample_ports_inv(1), of "[GetPair, GetPair, PutPair 1, GetPair]"]
  by (auto split: sum.splits)

text \<open>\<open>SetRange\<close>: with memory for the bitmap, a range larger than the one before is set up with no
  port used and the search at its lower end; a range of the same size as the one before fails the assertion of
  \<open>SetBits\<close>.\<close>

theorem SetRange_branches:
  assumes "0 < lo" and "lo < hi" and "hi < 65536" and "mok (hi - lo)"
  shows "(m_nMaxPort p - m_nMinPort p < hi - lo \<longrightarrow>
      (\<exists>p'. SetRange mok junk lo hi p = Inr (EOK, p') \<and> ports_inv p' \<and> used_ports p' = {}
         \<and> m_nMinPort p' = lo \<and> m_nMaxPort p' = hi \<and> m_nNext p' = lo \<and> m_Lock p' = m_Lock p))
    \<and> (ports_inv p \<and> m_nMaxPort p - m_nMinPort p = hi - lo \<longrightarrow> SetRange mok junk lo hi p = Inl AssertFailed)"
proof (intro conjI impI)
  assume less: "m_nMaxPort p - m_nMinPort p < hi - lo"
  let ?p = "p\<lparr>m_pBitmap := Some \<lparr>m_nBits = hi - lo, m_pMap = Some (replicate (hi - lo) 0)\<rparr>,
     m_nMinPort := lo, m_nMaxPort := hi, m_nUsed := 0, m_nNext := lo, m_nReserved := 0\<rparr>"
  have "SetRange mok junk lo hi p = Inr (EOK, ?p)"
    using assms less
    by (simp add: SetRange_def On_def Off_def Let_def Bitmap_Alloc_def Bitmap_new_def BIT_BYTES_def Bitmap_SetZero_def)
  moreover have u: "used_ports ?p = {}" by (auto simp: used_ports_def port_bit_def)
  moreover have "ports_inv ?p" using assms(1-3) u by (auto simp: ports_inv_def)
  ultimately show "\<exists>p'. SetRange mok junk lo hi p = Inr (EOK, p') \<and> ports_inv p' \<and> used_ports p' = {}
         \<and> m_nMinPort p' = lo \<and> m_nMaxPort p' = hi \<and> m_nNext p' = lo \<and> m_Lock p' = m_Lock p"
    by auto
next
  assume "ports_inv p \<and> m_nMaxPort p - m_nMinPort p = hi - lo"
  then show "SetRange mok junk lo hi p = Inl AssertFailed"
    using assms by (auto simp: SetRange_def On_def Let_def Bitmap_SetBits_def ports_inv_def)
qed

theorem SetRange_branches_witness:
  "(\<exists>p'. SetRange alloc_ok (\<lambda>_. 0) 20000 30000 (PortsCtl_new 0) = Inr (EOK, p') \<and> ports_inv p')
   \<and> SetRange alloc_ok (\<lambda>_. 0) 20000 20004 sample_ports = Inl AssertFailed"
  using SetRange_branches [of 20000 30000 alloc_ok "PortsCtl_new 0" "\<lambda>_. 0"]
    SetRange_branches [of 20000 20004 alloc_ok sample_ports "\<lambda>_. 0"] sample_ports_inv(1)
  by (auto simp: alloc_ok PortsCtl_new_def) (auto simp: sample_ports_def)

text \<open>A range with one even port left, and what the allocator does there.\<close>

definition one_even_left :: "nat \<Rightarrow> PortsCtl" where
  "one_even_left n = \<lparr>m_Lock = 1, m_nMinPort = 20001, m_nMaxPort = 20004, m_nUsed = 0, m_nNext = n, m_nReserved = 1,
     m_pBitmap = Some \<lparr>m_nBits = 3, m_pMap = Some [0, 1, 0, 0, 0]\<rparr>\<rparr>"

lemma GetOne_loop_Suc:
  "GetOne_loop (Suc n) nTotal p =
     bindE (ports_TestAndSet (m_nNext p) p) (\<lambda>(old, p1).
        if \<not> old
        then Inr (EOK, Some (m_nNext p1), next_port (p1\<lparr>m_nUsed := (m_nUsed p1 + 1) mod 65536\<rparr>))
        else GetOne_loop n ((nTotal + 65535) mod 65536) (next_port p1))"
  by (simp add: Let_def)

lemma GetOne_loop_numeral:
  "GetOne_loop (numeral k) nTotal p =
     bindE (ports_TestAndSet (m_nNext p) p) (\<lambda>(old, p1).
        if \<not> old
        then Inr (EOK, Some (m_nNext p1), next_port (p1\<lparr>m_nUsed := (m_nUsed p1 + 1) mod 65536\<rparr>))
        else GetOne_loop (pred_numeral k) ((nTotal + 65535) mod 65536) (next_port p1))"
  by (subst numeral_eq_Suc) (rule GetOne_loop_Suc)

lemmas ports_eval = GetOne_def scan_fuel_def GetOne_loop_numeral ports_TestAndSet_def Bitmap_TestAndSet_def
  bit_index_def next_port_def PutOne_def Bitmap_Reset_def one_even_left_def Let_def

lemma one_even_left_cycle:
  "GetTwo_loop (Suc (Suc (Suc n))) None (one_even_left 20002) = GetTwo_loop n None (one_even_left 20002)"
proof -
  define q1 q2 q3 where "q1 = (one_even_left 20004)\<lparr>m_nUsed := 1, m_pBitmap := Some \<lparr>m_nBits = 3, m_pMap = Some [0, 1, 1, 0, 0]\<rparr>\<rparr>"
    and "q2 = (one_even_left 20001)\<lparr>m_nUsed := 1, m_pBitmap := Some \<lparr>m_nBits = 3, m_pMap = Some [0, 1, 0, 1, 0]\<rparr>\<rparr>"
    and "q3 = (one_even_left 20002)\<lparr>m_nUsed := 2, m_pBitmap := Some \<lparr>m_nBits = 3, m_pMap = Some [1, 1, 0, 1, 0]\<rparr>\<rparr>"
  have "GetOne (one_even_left 20002) = Inr (EOK, Some 20003, q1)" "PutOne 20003 q1 = Inr (one_even_left 20004)"
    "GetOne (one_even_left 20004) = Inr (EOK, Some 20004, q2)"
    "GetOne q2 = Inr (EOK, Some 20001, q3)" "bindE (PutOne 20004 q3) (PutOne 20001) = Inr (one_even_left 20002)"
    unfolding q1_def q2_def q3_def by (simp_all add: ports_eval)
  then show ?thesis by (auto simp: bindE_Inr_iff)
qed

text \<open>\<open>GetTwo\<close> may never return. A range of 5 ports, then one of 3 inside it with its port 20002
  reserved (which \<open>SetRange\<close> and \<open>SetReserved\<close> set up, the bitmap keeping its first size), leaves only the
  even port 20004 free, whose neighbour is outside: the guard lets the call pass, and the search takes and gives
  back the same ports for ever, however many iterations it is given.\<close>

theorem GetTwo_livelock:
  "\<exists>p1 p2 p3. SetRange alloc_ok junk 20000 20005 (PortsCtl_new res0) = Inr (EOK, p1)
     \<and> SetRange alloc_ok junk 20001 20004 p1 = Inr (EOK, p2)
     \<and> SetReserved 20002 p2 = Inr p3 \<and> (\<forall>n. GetPairPorts n p3 = Inl OutOfFuel)"
proof -
  define p1 where "p1 = (PortsCtl_new res0)\<lparr>m_pBitmap := Some \<lparr>m_nBits = 5, m_pMap = Some [0, 0, 0, 0, 0]\<rparr>,
     m_nMinPort := 20000, m_nMaxPort := 20005, m_nUsed := 0, m_nNext := 20000, m_nReserved := 0\<rparr>"
  define p2 where "p2 = p1\<lparr>m_pBitmap := Some \<lparr>m_nBits = 3, m_pMap = Some [0, 0, 0, 0, 0]\<rparr>,
     m_nMinPort := 20001, m_nMaxPort := 20004, m_nNext := 20001\<rparr>"
  have rep: "replicate 5 (0::u8) = [0, 0, 0, 0, 0]" "replicate 3 (0::u8) = [0, 0, 0]" by (simp_all add: eval_nat_numeral)
  have "SetRange alloc_ok junk 20000 20005 (PortsCtl_new res0) = Inr (EOK, p1)"
    by (simp add: SetRange_def On_def Off_def Let_def Bitmap_Alloc_def Bitmap_new_def BIT_BYTES_def Bitmap_SetZero_def
        PortsCtl_new_def alloc_ok p1_def rep)
  moreover have "SetRange alloc_ok junk 20001 20004 p1 = Inr (EOK, p2)"
    by (simp add: SetRange_def On_def Off_def Let_def Bitmap_SetBits_def BIT_BYTES_def Bitmap_SetZero_def
        PortsCtl_new_def p1_def p2_def rep)
  moreover have "SetReserved 20002 p2 = Inr (Off (one_even_left 20001))"
    by (simp add: SetReserved_def On_def Off_def ports_TestAndSet_def bit_index_def Bitmap_TestAndSet_def
        p1_def p2_def PortsCtl_new_def one_even_left_def)
  moreover have loop: "GetTwo_loop n None (one_even_left 20002) = Inl OutOfFuel" for n
  proof (induction n rule: less_induct)
    case (less n)
    consider k where "n = Suc (Suc (Suc k))" | "n = 0" | "n = Suc 0" | "n = Suc (Suc 0)"
      by (metis not0_implies_Suc)
    then show ?case
    proof cases
      case (1 k)
      then show ?thesis using less [of k] one_even_left_cycle [of k] by simp
    qed (simp_all add: ports_eval)
  qed
  moreover have "GetPairPorts n (Off (one_even_left 20001)) = Inl OutOfFuel" for n
  proof -
    define q where "q = (one_even_left 20002)\<lparr>m_nUsed := 1, m_pBitmap := Some \<lparr>m_nBits = 3, m_pMap = Some [1, 1, 0, 0, 0]\<rparr>\<rparr>"
    have "GetOne (one_even_left 20001) = Inr (EOK, Some 20001, q)" "PutOne 20001 q = Inr (one_even_left 20002)"
      "On (Off (one_even_left 20001)) = one_even_left 20001"
      "m_nUsed (one_even_left 20001) + m_nReserved (one_even_left 20001) + 2 =
         m_nMaxPort (one_even_left 20001) - m_nMinPort (one_even_left 20001)"
      unfolding q_def by (simp_all add: ports_eval On_def Off_def)
    then show ?thesis by (cases n) (simp_all add: GetPairPorts_def GetTwo_def loop)
  qed
  ultimately show ?thesis by blast
qed

end
