(* ===== verification/SdpMsg.thy ===== *)
theory SdpMsg
  imports RtspDef
begin

text \<open>
  SDP descriptions: \<open>z3_rtsp_client/z3_sdp.cpp\<close> and \<open>z3_sdp.hpp\<close>. The strings of an object are
  \<^typ>\<open>string option\<close> (\<open>None\<close> is NULL); a vector is \<^typ>\<open>'a list option\<close>. \<open>mok\<close> serves the allocations of
  strings and \<open>debug\<close> says which \<open>z3_strdup\<close> is compiled in; \<open>new\<close> of the small objects is taken to succeed.
  \<open>SDPTime\<close>, \<open>SDPZone\<close> and \<open>SDPKey\<close> have no operation but their constructors and destructors and the code never
  makes one of the first two, so that they do not occur here. \<open>pCtx->media\<close>, which points to an element of
  the message's vector, is its index.
\<close>

section \<open>Objects\<close>

text \<open>\<open>p = z3_strdup (s); return strlen (p);\<close>, which most setters are.\<close>

definition dup_len :: "bool \<Rightarrow> alloc \<Rightarrow> string \<Rightarrow> (int \<times> string option) outcome" where
  "dup_len debug mok s = (case z3_strdup debug mok s of None \<Rightarrow> Inl NullDeref | Some t \<Rightarrow> Inr (int (length t), Some t))"

record SDPBandwidth =
  m_pszBWType :: "string option"
  m_nBandwidth :: u32

definition SDPBandwidth_new :: SDPBandwidth where
  "SDPBandwidth_new = \<lparr>m_pszBWType = None, m_nBandwidth = 0\<rparr>"

definition SetBandwidth :: "bool \<Rightarrow> alloc \<Rightarrow> string \<Rightarrow> u32 \<Rightarrow> SDPBandwidth \<Rightarrow> bool \<times> SDPBandwidth" where
  "SetBandwidth debug mok pszType nBandwidth b =
     (case z3_strdup debug mok pszType of
        Some t \<Rightarrow> (True, b\<lparr>m_pszBWType := Some t, m_nBandwidth := nBandwidth\<rparr>)
      | None \<Rightarrow> (False, b\<lparr>m_pszBWType := None\<rparr>))"

record SDPOrigin =
  m_pszUsername :: "string option"
  m_pszSessId :: "string option"
  m_pszSessVersion :: "string option"
  o_pszNetType :: "string option"
  o_pszAddrType :: "string option"
  m_pszAddr :: "string option"

definition SDPOrigin_new :: SDPOrigin where
  "SDPOrigin_new = \<lparr>m_pszUsername = None, m_pszSessId = None, m_pszSessVersion = None,
     o_pszNetType = None, o_pszAddrType = None, m_pszAddr = None\<rparr>"

text \<open>\<open>SetField\<close>, which the setters of \<open>SDPOrigin\<close> call on their field.\<close>

definition SetField :: "bool \<Rightarrow> alloc \<Rightarrow> string \<Rightarrow> (int \<times> string option) outcome" where
  "SetField debug mok pSrc = dup_len debug mok pSrc"

definition SetUsername :: "bool \<Rightarrow> alloc \<Rightarrow> string \<Rightarrow> SDPOrigin \<Rightarrow> (int \<times> SDPOrigin) outcome" where
  "SetUsername debug mok s o1 = bindE (SetField debug mok s) (\<lambda>(n, f). Inr (n, o1\<lparr>m_pszUsername := f\<rparr>))"

definition SetSessId :: "bool \<Rightarrow> alloc \<Rightarrow> string \<Rightarrow> SDPOrigin \<Rightarrow> (int \<times> SDPOrigin) outcome" where
  "SetSessId debug mok s o1 = bindE (SetField debug mok s) (\<lambda>(n, f). Inr (n, o1\<lparr>m_pszSessId := f\<rparr>))"

definition SetSessVersion :: "bool \<Rightarrow> alloc \<Rightarrow> string \<Rightarrow> SDPOrigin \<Rightarrow> (int \<times> SDPOrigin) outcome" where
  "SetSessVersion debug mok s o1 = bindE (SetField debug mok s) (\<lambda>(n, f). Inr (n, o1\<lparr>m_pszSessVersion := f\<rparr>))"

definition origin_SetNetType :: "bool \<Rightarrow> alloc \<Rightarrow> string \<Rightarrow> SDPOrigin \<Rightarrow> (int \<times> SDPOrigin) outcome" where
  "origin_SetNetType debug mok s o1 = bindE (SetField debug mok s) (\<lambda>(n, f). Inr (n, o1\<lparr>o_pszNetType := f\<rparr>))"

definition origin_SetAddrType :: "bool \<Rightarrow> alloc \<Rightarrow> string \<Rightarrow> SDPOrigin \<Rightarrow> (int \<times> SDPOrigin) outcome" where
  "origin_SetAddrType debug mok s o1 = bindE (SetField debug mok s) (\<lambda>(n, f). Inr (n, o1\<lparr>o_pszAddrType := f\<rparr>))"

definition SetAddr :: "bool \<Rightarrow> alloc \<Rightarrow> string \<Rightarrow> SDPOrigin \<Rightarrow> (int \<times> SDPOrigin) outcome" where
  "SetAddr debug mok s o1 = bindE (SetField debug mok s) (\<lambda>(n, f). Inr (n, o1\<lparr>m_pszAddr := f\<rparr>))"

record SDPConnection =
  m_pszNetType :: "string option"
  m_pszAddrType :: "string option"
  m_pszAddress :: "string option"
  m_nTTL :: u32
  m_nAddrNum :: u32

definition SDPConnection_new :: SDPConnection where
  "SDPConnection_new = \<lparr>m_pszNetType = None, m_pszAddrType = None, m_pszAddress = None, m_nTTL = 0, m_nAddrNum = 0\<rparr>"

definition SetNetType :: "bool \<Rightarrow> alloc \<Rightarrow> string \<Rightarrow> SDPConnection \<Rightarrow> (int \<times> SDPConnection) outcome" where
  "SetNetType debug mok s c = bindE (dup_len debug mok s) (\<lambda>(n, f). Inr (n, c\<lparr>m_pszNetType := f\<rparr>))"

definition SetAddrType :: "bool \<Rightarrow> alloc \<Rightarrow> string \<Rightarrow> SDPConnection \<Rightarrow> (int \<times> SDPConnection) outcome" where
  "SetAddrType debug mok s c = bindE (dup_len debug mok s) (\<lambda>(n, f). Inr (n, c\<lparr>m_pszAddrType := f\<rparr>))"

definition SetAddress :: "bool \<Rightarrow> alloc \<Rightarrow> string \<Rightarrow> SDPConnection \<Rightarrow> (int \<times> SDPConnection) outcome" where
  "SetAddress debug mok s c = bindE (dup_len debug mok s) (\<lambda>(n, f). Inr (n, c\<lparr>m_pszAddress := f\<rparr>))"

definition SetTTL :: "u32 \<Rightarrow> SDPConnection \<Rightarrow> SDPConnection" where
  "SetTTL nTtl c = c\<lparr>m_nTTL := nTtl\<rparr>"

definition SetAddrNum :: "u32 \<Rightarrow> SDPConnection \<Rightarrow> SDPConnection" where
  "SetAddrNum num c = c\<lparr>m_nAddrNum := num\<rparr>"

text \<open>\<open>operator =\<close> duplicates the strings of the other connection; \<open>strdup (NULL)\<close> is a NULL dereference.\<close>

definition dup_field :: "bool \<Rightarrow> alloc \<Rightarrow> string option \<Rightarrow> string option outcome" where
  "dup_field debug mok f = (case f of None \<Rightarrow> Inl NullDeref | Some s \<Rightarrow> Inr (z3_strdup debug mok s))"

definition SDPConnection_assign :: "bool \<Rightarrow> alloc \<Rightarrow> SDPConnection \<Rightarrow> SDPConnection \<Rightarrow> SDPConnection outcome" where
  "SDPConnection_assign debug mok conn c =
     bindE (dup_field debug mok (m_pszNetType conn)) (\<lambda>n.
     bindE (dup_field debug mok (m_pszAddrType conn)) (\<lambda>t.
     bindE (dup_field debug mok (m_pszAddress conn)) (\<lambda>a.
       Inr \<lparr>m_pszNetType = n, m_pszAddrType = t, m_pszAddress = a, m_nTTL = m_nTTL conn, m_nAddrNum = m_nAddrNum conn\<rparr>)))"

record SDPAttribute =
  m_pszKey :: "string option"
  m_pszValue :: "string option"

definition SetAttribute :: "bool \<Rightarrow> alloc \<Rightarrow> string \<Rightarrow> string \<Rightarrow> bool \<times> SDPAttribute" where
  "SetAttribute debug mok pszKey pszValue =
     (let k = z3_strdup debug mok pszKey; v = z3_strdup debug mok pszValue
      in (k \<noteq> None \<and> v \<noteq> None, \<lparr>m_pszKey = k, m_pszValue = v\<rparr>))"

section \<open>Media\<close>

record SDPMedia =
  m_pszMedia :: "string option"
  m_nPort :: u32
  m_nPortNum :: u32
  m_pszProto :: "string option"
  m_pVectorFmts :: "string list option"
  m_pszMediaInfo :: "string option"
  m_pVectorConnections :: "SDPConnection list option"
  m_pVectorMediaBandwidths :: "SDPBandwidth list option"
  m_pVectorMediaAttributes :: "SDPAttribute list option"

definition SDPMedia_new :: SDPMedia where
  "SDPMedia_new = \<lparr>m_pszMedia = None, m_nPort = 0, m_nPortNum = 0xFFFFFFFF, m_pszProto = None, m_pVectorFmts = None,
     m_pszMediaInfo = None, m_pVectorConnections = None, m_pVectorMediaBandwidths = None, m_pVectorMediaAttributes = None\<rparr>"

definition vec :: "'a list option \<Rightarrow> 'a list" where
  "vec v = (case v of None \<Rightarrow> [] | Some xs \<Rightarrow> xs)"

definition push_back :: "'a \<Rightarrow> 'a list option \<Rightarrow> 'a list option" where
  "push_back x v = Some (vec v @ [x])"

definition SetMedia :: "bool \<Rightarrow> alloc \<Rightarrow> string \<Rightarrow> SDPMedia \<Rightarrow> bool \<times> SDPMedia" where
  "SetMedia debug mok s m = (z3_strdup debug mok s \<noteq> None, m\<lparr>m_pszMedia := z3_strdup debug mok s\<rparr>)"

definition SetSDPort :: "u32 \<Rightarrow> SDPMedia \<Rightarrow> SDPMedia" where "SetSDPort n m = m\<lparr>m_nPort := n\<rparr>"
definition SetPortNum :: "u32 \<Rightarrow> SDPMedia \<Rightarrow> SDPMedia" where "SetPortNum n m = m\<lparr>m_nPortNum := n\<rparr>"

definition SetProtocol :: "bool \<Rightarrow> alloc \<Rightarrow> string \<Rightarrow> SDPMedia \<Rightarrow> bool \<times> SDPMedia" where
  "SetProtocol debug mok s m = (z3_strdup debug mok s \<noteq> None, m\<lparr>m_pszProto := z3_strdup debug mok s\<rparr>)"

definition AddFormat :: "string \<Rightarrow> SDPMedia \<Rightarrow> SDPMedia" where
  "AddFormat s m = m\<lparr>m_pVectorFmts := push_back s (m_pVectorFmts m)\<rparr>"

definition AddConnection :: "SDPConnection \<Rightarrow> SDPMedia \<Rightarrow> SDPMedia" where
  "AddConnection c m = m\<lparr>m_pVectorConnections := push_back c (m_pVectorConnections m)\<rparr>"

definition media_AddBandwidth :: "bool \<Rightarrow> alloc \<Rightarrow> string \<Rightarrow> string \<Rightarrow> SDPMedia \<Rightarrow> bool \<times> SDPMedia" where
  "media_AddBandwidth debug mok pszType pszBandwidth m =
     (let (r, b) = SetBandwidth debug mok pszType (word_of_int (atoi pszBandwidth)) SDPBandwidth_new
      in (r, m\<lparr>m_pVectorMediaBandwidths := push_back b (m_pVectorMediaBandwidths m)\<rparr>))"

definition media_AddAttribute :: "bool \<Rightarrow> alloc \<Rightarrow> string \<Rightarrow> string \<Rightarrow> SDPMedia \<Rightarrow> bool \<times> SDPMedia" where
  "media_AddAttribute debug mok pszKey pszValue m =
     (let (r, a) = SetAttribute debug mok pszKey pszValue
      in (r, m\<lparr>m_pVectorMediaAttributes := push_back a (m_pVectorMediaAttributes m)\<rparr>))"

text \<open>\<open>GetAttributeValue\<close>: \<open>Inr None\<close> is NULL, which is returned for a value that is NULL too.\<close>

fun GetAttributeValue_loop :: "string \<Rightarrow> nat \<Rightarrow> SDPAttribute list \<Rightarrow> string option outcome" where
  "GetAttributeValue_loop pszKey k [] = Inr None"
| "GetAttributeValue_loop pszKey k (a # as) =
     (case m_pszKey a of
        None \<Rightarrow> Inl NullDeref
      | Some key \<Rightarrow>
          if stricmp_eq key pszKey
          then (case k of 0 \<Rightarrow> Inr (m_pszValue a) | Suc n \<Rightarrow> GetAttributeValue_loop pszKey n as)
          else GetAttributeValue_loop pszKey k as)"

definition GetAttributeValue :: "string \<Rightarrow> nat \<Rightarrow> SDPMedia \<Rightarrow> string option outcome" where
  "GetAttributeValue pszKey k m = GetAttributeValue_loop pszKey k (vec (m_pVectorMediaAttributes m))"

definition media_SetInfo :: "bool \<Rightarrow> alloc \<Rightarrow> string \<Rightarrow> SDPMedia \<Rightarrow> (int \<times> SDPMedia) outcome" where
  "media_SetInfo debug mok s m = bindE (dup_len debug mok s) (\<lambda>(n, f). Inr (n, m\<lparr>m_pszMediaInfo := f\<rparr>))"

section \<open>Messages\<close>

record SDPMessage =
  m_pszVersion :: "string option"
  m_origin :: SDPOrigin
  m_pszSessionName :: "string option"
  m_pszInfo :: "string option"
  m_pszUrl :: "string option"
  m_pVectorEmails :: "string list option"
  m_pVectorPhones :: "string list option"
  m_pConnection :: "SDPConnection option"
  m_pVectorBandwidths :: "SDPBandwidth list option"
  m_pVectorAttributes :: "SDPAttribute list option"
  m_pVectorMedias :: "SDPMedia list option"

definition SDPMessage_new :: SDPMessage where
  "SDPMessage_new = \<lparr>m_pszVersion = None, m_origin = SDPOrigin_new, m_pszSessionName = None, m_pszInfo = None,
     m_pszUrl = None, m_pVectorEmails = None, m_pVectorPhones = None, m_pConnection = None,
     m_pVectorBandwidths = None, m_pVectorAttributes = None, m_pVectorMedias = None\<rparr>"

definition sdp_SetVersion :: "bool \<Rightarrow> alloc \<Rightarrow> string \<Rightarrow> SDPMessage \<Rightarrow> (int \<times> SDPMessage) outcome" where
  "sdp_SetVersion debug mok s m = bindE (dup_len debug mok s) (\<lambda>(n, f). Inr (n, m\<lparr>m_pszVersion := f\<rparr>))"

definition SetSessionName :: "bool \<Rightarrow> alloc \<Rightarrow> string \<Rightarrow> SDPMessage \<Rightarrow> (int \<times> SDPMessage) outcome" where
  "SetSessionName debug mok s m = bindE (dup_len debug mok s) (\<lambda>(n, f). Inr (n, m\<lparr>m_pszSessionName := f\<rparr>))"

definition SetInfo :: "bool \<Rightarrow> alloc \<Rightarrow> string \<Rightarrow> SDPMessage \<Rightarrow> (int \<times> SDPMessage) outcome" where
  "SetInfo debug mok s m = bindE (dup_len debug mok s) (\<lambda>(n, f). Inr (n, m\<lparr>m_pszInfo := f\<rparr>))"

definition SetUrl :: "bool \<Rightarrow> alloc \<Rightarrow> string \<Rightarrow> SDPMessage \<Rightarrow> (int \<times> SDPMessage) outcome" where
  "SetUrl debug mok s m = bindE (dup_len debug mok s) (\<lambda>(n, f). Inr (n, m\<lparr>m_pszUrl := f\<rparr>))"

definition AddItemIntoVector :: "string list option \<Rightarrow> string \<Rightarrow> bool \<times> string list option" where
  "AddItemIntoVector v s = (case v of Some xs \<Rightarrow> (True, Some (xs @ [s])) | None \<Rightarrow> (False, None))"

definition AddMail :: "string \<Rightarrow> SDPMessage \<Rightarrow> bool \<times> SDPMessage" where
  "AddMail s m = (let (r, v) = AddItemIntoVector (Some (vec (m_pVectorEmails m))) s in (r, m\<lparr>m_pVectorEmails := v\<rparr>))"

definition AddPhone :: "string \<Rightarrow> SDPMessage \<Rightarrow> bool \<times> SDPMessage" where
  "AddPhone s m = (let (r, v) = AddItemIntoVector (Some (vec (m_pVectorPhones m))) s in (r, m\<lparr>m_pVectorPhones := v\<rparr>))"

text \<open>The bandwidth of a session is made and filled but never put into the vector.\<close>

definition AddBandwidth :: "bool \<Rightarrow> alloc \<Rightarrow> string \<Rightarrow> string \<Rightarrow> SDPMessage \<Rightarrow> bool \<times> SDPMessage" where
  "AddBandwidth debug mok pszType pszBandwidth m =
     (fst (SetBandwidth debug mok pszType (word_of_int (atoi pszBandwidth)) SDPBandwidth_new),
      m\<lparr>m_pVectorBandwidths := Some (vec (m_pVectorBandwidths m))\<rparr>)"

definition AddAttribute :: "bool \<Rightarrow> alloc \<Rightarrow> string \<Rightarrow> string \<Rightarrow> SDPMessage \<Rightarrow> bool \<times> SDPMessage" where
  "AddAttribute debug mok pszKey pszValue m =
     (let (r, a) = SetAttribute debug mok pszKey pszValue
      in (r, m\<lparr>m_pVectorAttributes := push_back a (m_pVectorAttributes m)\<rparr>))"

definition GetMediaCount :: "SDPMessage \<Rightarrow> nat" where
  "GetMediaCount m = (case m_pVectorMedias m of Some ms \<Rightarrow> length ms | None \<Rightarrow> 0)"

definition AddMedia :: "SDPMedia \<Rightarrow> SDPMessage \<Rightarrow> bool \<times> SDPMessage" where
  "AddMedia pMedia m = (True, m\<lparr>m_pVectorMedias := push_back pMedia (m_pVectorMedias m)\<rparr>)"

definition GetSDPMedia :: "nat \<Rightarrow> SDPMessage \<Rightarrow> SDPMedia outcome" where
  "GetSDPMedia nIndex m =
     (case m_pVectorMedias m of
        None \<Rightarrow> Inl AssertFailed
      | Some ms \<Rightarrow> if nIndex < length ms then Inr (ms ! nIndex) else Inl AssertFailed)"

definition SetConnection :: "SDPConnection option \<Rightarrow> SDPMessage \<Rightarrow> SDPMessage" where
  "SetConnection c m = m\<lparr>m_pConnection := c\<rparr>"

section \<open>Parsing\<close>

datatype sdp_state = SDP_SESSION | SDP_MEDIA

record SDPContext =
  ctx_state :: sdp_state
  ctx_msg :: SDPMessage
  ctx_media :: "nat option"

text \<open>A call on \<open>pCtx->media\<close>.\<close>

definition on_media :: "(SDPMedia \<Rightarrow> SDPMedia outcome) \<Rightarrow> SDPContext \<Rightarrow> SDPContext outcome" where
  "on_media f ctx =
     (case ctx_media ctx of
        None \<Rightarrow> Inl NullDeref
      | Some i \<Rightarrow>
          bindE (f (vec (m_pVectorMedias (ctx_msg ctx)) ! i)) (\<lambda>m.
            Inr (ctx\<lparr>ctx_msg := (ctx_msg ctx)\<lparr>m_pVectorMedias := Some ((vec (m_pVectorMedias (ctx_msg ctx)))[i := m])\<rparr>\<rparr>)))"

definition on_msg :: "(SDPMessage \<Rightarrow> SDPMessage outcome) \<Rightarrow> SDPContext \<Rightarrow> SDPContext outcome" where
  "on_msg f ctx = bindE (f (ctx_msg ctx)) (\<lambda>m. Inr (ctx\<lparr>ctx_msg := m\<rparr>))"

text \<open>The result of a setter is not used by the parser.\<close>

definition ignore :: "('a \<times> 'b) outcome \<Rightarrow> 'b outcome" where
  "ignore r = bindE r (\<lambda>(_, b). Inr b)"

text \<open>\<open>strtoul (str, NULL, 10)\<close>, which stops at \<open>ULONG_MAX\<close>.\<close>

definition strtoul :: "string \<Rightarrow> u32" where
  "strtoul s =
     (let t = dropWhile is_space s;
          u = (if t \<noteq> [] \<and> (hd t = CHR ''-'' \<or> hd t = CHR ''+'') then tl t else t);
          n = digits_val 0 u
      in if int n > 0xFFFFFFFF then 0xFFFFFFFF
         else if t \<noteq> [] \<and> hd t = CHR ''-'' then - of_nat n else of_nat n)"

abbreviation STR_SIZE :: nat where "STR_SIZE \<equiv> 1024"

definition read_str :: "string \<Rightarrow> string \<times> string" where
  "read_str p = read_string STR_SIZE p"

definition parse_origin :: "bool \<Rightarrow> alloc \<Rightarrow> string \<Rightarrow> SDPOrigin \<Rightarrow> SDPOrigin outcome" where
  "parse_origin debug mok p o0 =
     (let (str, p) = read_str p in bindE (ignore (SetUsername debug mok str o0)) (\<lambda>o1.
      let (str, p) = read_str p in bindE (ignore (SetSessId debug mok str o1)) (\<lambda>o2.
      let (str, p) = read_str p in bindE (ignore (SetSessVersion debug mok str o2)) (\<lambda>o3.
      let (str, p) = read_str p in bindE (ignore (origin_SetNetType debug mok str o3)) (\<lambda>o4.
      let (str, p) = read_str p in bindE (ignore (origin_SetAddrType debug mok str o4)) (\<lambda>o5.
      let (str, p) = read_str p in ignore (SetAddr debug mok str o5)))))))"

definition parse_connection :: "bool \<Rightarrow> alloc \<Rightarrow> string \<Rightarrow> SDPConnection outcome" where
  "parse_connection debug mok p =
     (let p = map (\<lambda>c. if c = CHR ''/'' then CHR '' '' else c) p;
          (str, p) = read_str p in bindE (ignore (SetNetType debug mok str SDPConnection_new)) (\<lambda>c1.
      let (str, p) = read_str p in bindE (ignore (SetAddrType debug mok str c1)) (\<lambda>c2.
      let (str, p) = read_str p in bindE (ignore (SetAddress debug mok str c2)) (\<lambda>c3.
        if m_pszAddrType c3 = Some ''IP4''
        then Inr (SetAddrNum (strtoul (fst (read_str p))) c3)
        else Inr c3))))"

text \<open>The formats of an \<open>m=\<close> line: at least one is added, the last may be empty.\<close>

function add_formats :: "string \<Rightarrow> SDPMedia \<Rightarrow> SDPMedia" where
  "add_formats p m =
     (let (str, p') = read_str p; m' = AddFormat str m
      in if p' \<noteq> [] then add_formats p' m' else m')"
  by auto

lemma read_str_shorter: "snd (read_str p) \<noteq> [] \<Longrightarrow> length (snd (read_str p)) < length p"
proof -
  assume ne: "snd (read_str p) \<noteq> []"
  let ?q = "dropWhile is_space p"
  have snd: "snd (read_str p) = dropWhile (\<lambda>c. \<not> is_space c) ?q" by (simp add: read_str_def read_string_eq)
  with ne obtain c q where q: "?q = c # q" by (cases ?q) auto
  then have "\<not> is_space c" by (metis hd_dropWhile list.distinct(1) list.sel(1))
  then have "length (snd (read_str p)) < length ?q" using snd q length_dropWhile_le [of "\<lambda>c. \<not> is_space c" q] by simp
  then show ?thesis using length_dropWhile_le [of is_space p] by simp
qed

termination add_formats
proof (relation "measure (\<lambda>(p, m). length p)", goal_cases)
  case (2 p m x str p' m')
  then have "snd (read_str p) = p'" by (metis snd_conv)
  with 2 show ?case using read_str_shorter [of p] by simp
qed simp

declare add_formats.simps [simp del]

text \<open>\<open>strrchr (s, '/')\<close>: what is before and behind the last slash.\<close>

definition last_slash :: "string \<Rightarrow> (string \<times> string) option" where
  "last_slash s =
     (if CHR ''/'' \<in> set s
      then Some (rev (tl (dropWhile (\<lambda>c. c \<noteq> CHR ''/'') (rev s))), rev (takeWhile (\<lambda>c. c \<noteq> CHR ''/'') (rev s)))
      else None)"

definition parse_media :: "bool \<Rightarrow> alloc \<Rightarrow> string \<Rightarrow> SDPMedia" where
  "parse_media debug mok p =
     (let (str, p) = read_str p; m1 = snd (SetMedia debug mok str SDPMedia_new);
          (str, p) = read_str p;
          m2 = (case last_slash str of
                  Some (a, b) \<Rightarrow> SetPortNum (word_of_int (atoi b)) (SetSDPort (word_of_int (atoi a)) m1)
                | None \<Rightarrow> SetPortNum 0xFFFFFFFF (SetSDPort (word_of_int (atoi str)) m1));
          (str, p) = read_str p; m3 = snd (SetProtocol debug mok str m2)
      in add_formats p m3)"

text \<open>\<open>read_string_del (str, size, ':', &p); if (*p) p++;\<close>\<close>

definition split_colon :: "string \<Rightarrow> string \<times> string" where
  "split_colon p = (let (str, p) = read_string_del STR_SIZE CHR '':'' p in (str, tl p))"

definition sdp_ParseLine :: "bool \<Rightarrow> alloc \<Rightarrow> char \<Rightarrow> string \<Rightarrow> SDPContext \<Rightarrow> SDPContext outcome" where
  "sdp_ParseLine debug mok ty pszLine ctx =
     (let session = (ctx_state ctx = SDP_SESSION) in
      if ty = CHR ''v'' then on_msg (\<lambda>m. ignore (sdp_SetVersion debug mok pszLine m)) ctx
      else if ty = CHR ''o'' then
        on_msg (\<lambda>m. bindE (parse_origin debug mok pszLine (m_origin m)) (\<lambda>o1. Inr (m\<lparr>m_origin := o1\<rparr>))) ctx
      else if ty = CHR ''s'' then on_msg (\<lambda>m. ignore (SetSessionName debug mok pszLine m)) ctx
      else if ty = CHR ''i'' then
        (if session then on_msg (\<lambda>m. ignore (SetInfo debug mok pszLine m)) ctx
         else on_media (\<lambda>m. ignore (media_SetInfo debug mok pszLine m)) ctx)
      else if ty = CHR ''u'' then on_msg (\<lambda>m. ignore (SetUrl debug mok pszLine m)) ctx
      else if ty = CHR ''e'' then on_msg (\<lambda>m. Inr (snd (AddMail pszLine m))) ctx
      else if ty = CHR ''p'' then on_msg (\<lambda>m. Inr (snd (AddPhone pszLine m))) ctx
      else if ty = CHR ''c'' then
        bindE (parse_connection debug mok pszLine) (\<lambda>c.
          if session then on_msg (\<lambda>m. Inr (SetConnection (Some c) m)) ctx
          else on_media (\<lambda>m. Inr (AddConnection c m)) ctx)
      else if ty = CHR ''b'' then
        (let (str, p) = split_colon pszLine; (str2, _) = read_str p
         in if session then on_msg (\<lambda>m. Inr (snd (AddBandwidth debug mok str str2 m))) ctx
            else on_media (\<lambda>m. Inr (snd (media_AddBandwidth debug mok str str2 m))) ctx)
      else if ty = CHR ''a'' then
        (let (str, p) = split_colon pszLine
         in if session then on_msg (\<lambda>m. Inr (snd (AddAttribute debug mok str p m))) ctx
            else on_media (\<lambda>m. Inr (snd (media_AddAttribute debug mok str p m))) ctx)
      else if ty = CHR ''m'' then
        Inr \<lparr>ctx_state = SDP_MEDIA, ctx_msg = snd (AddMedia (parse_media debug mok pszLine) (ctx_msg ctx)),
             ctx_media = Some (GetMediaCount (ctx_msg ctx))\<rparr>
      else Inr ctx)"

text \<open>\<open>line_done\<close>: to the character behind the next \<open>LF\<close>.\<close>

definition skip_line :: "string \<Rightarrow> string" where
  "skip_line s = tl (dropWhile (\<lambda>c. c \<noteq> LF) s)"

abbreviation not_eol :: "char \<Rightarrow> bool" where "not_eol c \<equiv> c \<noteq> LF \<and> c \<noteq> CR"

function ParseString_lines :: "bool \<Rightarrow> alloc \<Rightarrow> string \<Rightarrow> SDPContext \<Rightarrow> SDPContext outcome" where
  "ParseString_lines debug mok s ctx =
     (case dropWhile is_space s of
        [] \<Rightarrow> Inr ctx
      | ty # pos \<Rightarrow>
          if pos = [] \<or> hd pos \<noteq> CHR ''='' then ParseString_lines debug mok (skip_line pos) ctx
          else bindE (sdp_ParseLine debug mok ty (take (STR_SIZE - 1) (takeWhile not_eol (tl pos))) ctx)
                 (\<lambda>ctx'. ParseString_lines debug mok (skip_line (dropWhile not_eol (tl pos))) ctx'))"
  by auto

lemma skip_line_le: "length (skip_line s) \<le> length s"
  using length_dropWhile_le [of "\<lambda>c. c \<noteq> LF" s] by (simp add: skip_line_def)

termination ParseString_lines
proof (relation "measure (\<lambda>(d, mok, s, ctx). length s)", goal_cases)
  case (2 debug mok s ctx ty pos)
  then have "Suc (length pos) \<le> length s" using length_dropWhile_le [of is_space s] by simp
  then show ?case using skip_line_le [of pos] by simp
next
  case (3 debug mok s ctx ty pos ctx')
  then have "Suc (length pos) \<le> length s" using length_dropWhile_le [of is_space s] by simp
  moreover have "length (skip_line (dropWhile not_eol (tl pos))) \<le> length pos"
    using skip_line_le [of "dropWhile not_eol (tl pos)"] length_dropWhile_le [of not_eol "tl pos"] by simp
  ultimately show ?case by simp
qed simp

declare ParseString_lines.simps [simp del]

text \<open>\<open>ParseString\<close> on the memory at \<open>pszBuf\<close>. \<open>nBufSize\<close> is only compared with 0: the code walks to the
  terminator.\<close>

definition SDPMessage_ParseString ::
    "bool \<Rightarrow> alloc \<Rightarrow> char list option \<Rightarrow> nat \<Rightarrow> SDPMessage \<Rightarrow> (result \<times> SDPMessage) outcome" where
  "SDPMessage_ParseString debug mok pszBuf nBufSize m =
     (case pszBuf of
        None \<Rightarrow> Inr (EINVAL, m)
      | Some mem \<Rightarrow>
          if nBufSize = 0 then Inr (EINVAL, m)
          else if \<not> terminated mem then Inl Unterminated
          else bindE (ParseString_lines debug mok (cstr mem) \<lparr>ctx_state = SDP_SESSION, ctx_msg = m, ctx_media = None\<rparr>)
                 (\<lambda>ctx. Inr (EOK, ctx_msg ctx)))"

section \<open>Descriptions as lines\<close>

type_synonym sdp_line = "char \<times> string"

definition line_bytes :: "sdp_line \<Rightarrow> string" where
  "line_bytes l = fst l # CHR ''='' # snd l @ [CR, LF]"

definition line_ok :: "sdp_line \<Rightarrow> bool" where
  "line_ok l \<longleftrightarrow> \<not> is_space (fst l) \<and> fst l \<noteq> NUL \<and> length (snd l) < STR_SIZE \<and> set (snd l) \<inter> {CR, LF, NUL} = {}"

fun run_lines :: "bool \<Rightarrow> alloc \<Rightarrow> sdp_line list \<Rightarrow> SDPContext \<Rightarrow> SDPContext outcome" where
  "run_lines debug mok [] ctx = Inr ctx"
| "run_lines debug mok (l # ls) ctx = bindE (sdp_ParseLine debug mok (fst l) (snd l) ctx) (run_lines debug mok ls)"

abbreviation sdp_lines_text :: "sdp_line list \<Rightarrow> string" where
  "sdp_lines_text ls \<equiv> concat (map line_bytes ls)"

lemma run_lines_append: "run_lines debug mok (ls @ ls') ctx = bindE (run_lines debug mok ls ctx) (run_lines debug mok ls')"
proof (induction ls arbitrary: ctx)
  case (Cons l ls)
  then show ?case by (cases "sdp_ParseLine debug mok (fst l) (snd l) ctx") auto
qed simp

lemma takeWhile_not_eol: "set v \<inter> {CR, LF, NUL} = {} \<Longrightarrow> takeWhile not_eol (v @ CR # r) = v"
  by (induction v) auto

lemma dropWhile_not_eol: "set v \<inter> {CR, LF, NUL} = {} \<Longrightarrow> dropWhile not_eol (v @ CR # r) = CR # r"
  by (induction v) auto

lemma ParseString_lines_text:
  "\<forall>l \<in> set ls. line_ok l \<Longrightarrow> ParseString_lines debug mok (sdp_lines_text ls) ctx = run_lines debug mok ls ctx"
proof (induction ls arbitrary: ctx)
  case Nil
  show ?case by (simp add: ParseString_lines.simps)
next
  case (Cons l ls)
  obtain t v where l: "l = (t, v)" by (cases l)
  from Cons.prems have ok: "\<not> is_space t" "length v < STR_SIZE" "set v \<inter> {CR, LF, NUL} = {}" by (auto simp: line_ok_def l)
  have IH: "ParseString_lines debug mok (sdp_lines_text ls) = run_lines debug mok ls"
    using Cons by (intro ext) simp
  have cut: "take 1023 v = v" using ok(2) by simp
  have skip: "skip_line (CR # LF # sdp_lines_text ls) = sdp_lines_text ls" by (simp add: skip_line_def)
  show ?case
    by (subst ParseString_lines.simps)
       (simp add: l line_bytes_def ok takeWhile_not_eol dropWhile_not_eol skip IH cut)
qed

lemma NUL_lines_text: "\<forall>l \<in> set ls. line_ok l \<Longrightarrow> NUL \<notin> set (sdp_lines_text ls)"
  by (induction ls) (auto simp: line_ok_def line_bytes_def)

section \<open>Words\<close>

definition sdp_word :: "string \<Rightarrow> bool" where
  "sdp_word w \<longleftrightarrow> w \<noteq> [] \<and> (\<forall>c \<in> set w. \<not> is_space c \<and> c \<noteq> NUL)"

abbreviation words_text :: "string list \<Rightarrow> string" where
  "words_text ws \<equiv> concat (map (Cons CHR '' '') ws)"

lemma read_str_word:
  assumes "sdp_word w" "length w < STR_SIZE" "r = [] \<or> is_space (hd r)"
  shows "read_str (w @ r) = (w, r)" and "read_str (CHR '' '' # w @ r) = (w, r)"
proof -
  have sp: "dropWhile is_space (w @ r) = w @ r" using assms(1) by (cases w) (auto simp: sdp_word_def)
  have tw: "takeWhile (\<lambda>c. \<not> is_space c) (w @ r) = w" "dropWhile (\<lambda>c. \<not> is_space c) (w @ r) = r"
    using assms by (cases r; auto simp: sdp_word_def)+
  show "read_str (w @ r) = (w, r)" using assms(2) by (simp add: read_str_def read_string_eq sp tw)
  then show "read_str (CHR '' '' # w @ r) = (w, r)" by (simp add: read_str_def read_string_eq)
qed

lemma words_text_hd: "words_text ws = [] \<or> is_space (hd (words_text ws))"
  by (cases ws) auto

lemma add_formats_words:
  assumes "ws \<noteq> []" "\<forall>w \<in> set ws. sdp_word w \<and> length w < STR_SIZE"
  shows "add_formats (words_text ws) m = m\<lparr>m_pVectorFmts := Some (vec (m_pVectorFmts m) @ ws)\<rparr>"
  using assms
proof (induction ws arbitrary: m)
  case (Cons w ws)
  then have r: "read_str (CHR '' '' # w @ words_text ws) = (w, words_text ws)"
    using read_str_word(2) [of w "words_text ws"] words_text_hd [of ws] by simp
  show ?case
  proof (cases "ws = []")
    case True
    then show ?thesis using r by (simp add: add_formats.simps [of "CHR '' '' # w"] AddFormat_def push_back_def)
  next
    case False
    then have ne: "words_text ws \<noteq> []" by (cases ws) auto
    with False show ?thesis using r Cons
      by (simp add: add_formats.simps [of "CHR '' '' # w @ words_text ws"] AddFormat_def push_back_def vec_def)
  qed
qed simp

lemma z3_strdup_ok: "s \<noteq> [] \<or> \<not> debug \<Longrightarrow> z3_strdup debug alloc_ok s = Some s"
  by (auto simp: z3_strdup_def alloc_ok)

lemma dup_len_ok: "s \<noteq> [] \<or> \<not> debug \<Longrightarrow> dup_len debug alloc_ok s = Inr (int (length s), Some s)"
  by (simp add: dup_len_def z3_strdup_ok)

lemma sdp_word_ne: "sdp_word w \<Longrightarrow> w \<noteq> []" by (simp add: sdp_word_def)

section \<open>Structured descriptions\<close>

type_synonym sdp_attr = "string \<times> string"

text \<open>A media description: its name, port, protocol, formats and attributes.\<close>

type_synonym media_desc = "string \<times> nat \<times> string \<times> string list \<times> sdp_attr list"

record sdp_desc =
  d_origin :: "string list"
  d_name :: string
  d_attrs :: "sdp_attr list"
  d_medias :: "media_desc list"

definition attr_line :: "sdp_attr \<Rightarrow> sdp_line" where
  "attr_line a = (CHR ''a'', fst a @ CHR '':'' # snd a)"

fun media_lines :: "media_desc \<Rightarrow> sdp_line list" where
  "media_lines (name, port, proto, fmts, attrs) =
     (CHR ''m'', name @ words_text ([dec_nat port, proto] @ fmts)) # map attr_line attrs"

definition desc_lines :: "sdp_desc \<Rightarrow> sdp_line list" where
  "desc_lines d =
     [(CHR ''v'', ''0''), (CHR ''o'', hd (d_origin d) @ words_text (tl (d_origin d))), (CHR ''s'', d_name d), (CHR ''t'', ''0 0'')]
     @ map attr_line (d_attrs d) @ concat (map media_lines (d_medias d))"

definition attr_ok :: "bool \<Rightarrow> sdp_attr \<Rightarrow> bool" where
  "attr_ok debug a \<longleftrightarrow> fst a \<noteq> [] \<and> \<not> is_space (hd (fst a)) \<and> CHR '':'' \<notin> set (fst a) \<and> (snd a \<noteq> [] \<or> \<not> debug)"

fun media_ok :: "bool \<Rightarrow> media_desc \<Rightarrow> bool" where
  "media_ok debug (name, port, proto, fmts, attrs) \<longleftrightarrow> sdp_word name \<and> port < 65536 \<and> sdp_word proto \<and> fmts \<noteq> []
     \<and> (\<forall>f \<in> set fmts. sdp_word f) \<and> (\<forall>a \<in> set attrs. attr_ok debug a)"

text \<open>What a description may hold. An empty attribute value or session name needs the C library's \<open>strdup\<close>.\<close>

definition desc_ok :: "bool \<Rightarrow> sdp_desc \<Rightarrow> bool" where
  "desc_ok debug d \<longleftrightarrow> length (d_origin d) = 6 \<and> (\<forall>w \<in> set (d_origin d). sdp_word w) \<and> (d_name d \<noteq> [] \<or> \<not> debug)
     \<and> (\<forall>a \<in> set (d_attrs d). attr_ok debug a) \<and> (\<forall>x \<in> set (d_medias d). media_ok debug x)
     \<and> (\<forall>l \<in> set (desc_lines d). line_ok l)"

text \<open>The objects a description stands for.\<close>

definition attr_obj :: "sdp_attr \<Rightarrow> SDPAttribute" where
  "attr_obj a = \<lparr>m_pszKey = Some (fst a), m_pszValue = Some (snd a)\<rparr>"

definition opt_vec :: "'a list \<Rightarrow> 'a list option" where
  "opt_vec xs = (if xs = [] then None else Some xs)"

lemma vec_opt_vec [simp]: "vec (opt_vec xs) = xs"
  by (simp add: vec_def opt_vec_def)

lemma push_back_opt_vec [simp]: "push_back x (opt_vec xs) = opt_vec (xs @ [x])"
  by (simp add: push_back_def opt_vec_def [of "xs @ [x]"])

fun media_obj :: "media_desc \<Rightarrow> SDPMedia" where
  "media_obj (name, port, proto, fmts, attrs) =
     SDPMedia_new\<lparr>m_pszMedia := Some name, m_nPort := of_nat port, m_pszProto := Some proto, m_pVectorFmts := Some fmts,
       m_pVectorMediaAttributes := opt_vec (map attr_obj attrs)\<rparr>"

definition origin_obj :: "string list \<Rightarrow> SDPOrigin" where
  "origin_obj ws = \<lparr>m_pszUsername = Some (ws ! 0), m_pszSessId = Some (ws ! 1), m_pszSessVersion = Some (ws ! 2),
     o_pszNetType = Some (ws ! 3), o_pszAddrType = Some (ws ! 4), m_pszAddr = Some (ws ! 5)\<rparr>"

definition desc_obj :: "sdp_desc \<Rightarrow> SDPMessage" where
  "desc_obj d = SDPMessage_new\<lparr>m_pszVersion := Some ''0'', m_origin := origin_obj (d_origin d),
     m_pszSessionName := Some (d_name d), m_pVectorAttributes := opt_vec (map attr_obj (d_attrs d)),
     m_pVectorMedias := opt_vec (map media_obj (d_medias d))\<rparr>"

lemma split_colon_attr:
  assumes "attr_ok debug a" "line_ok (attr_line a)"
  shows "split_colon (fst a @ CHR '':'' # snd a) = a"
proof -
  obtain k v where a: "a = (k, v)" by (cases a)
  have k: "k \<noteq> []" "\<not> is_space (hd k)" "CHR '':'' \<notin> set k" and len: "length k < 1024"
    using assms by (auto simp: a attr_ok_def line_ok_def attr_line_def)
  then have sp: "dropWhile is_space (k @ CHR '':'' # v) = k @ CHR '':'' # v" by (cases k) auto
  have "takeWhile (\<lambda>c. c \<noteq> CHR '':'') (k @ CHR '':'' # v) = k" "dropWhile (\<lambda>c. c \<noteq> CHR '':'') (k @ CHR '':'' # v) = CHR '':'' # v"
    using k(3) by (induction k) auto
  then show ?thesis using len by (simp add: a split_colon_def read_string_del_eq sp)
qed

lemma SetAttribute_obj:
  assumes "attr_ok debug a" shows "SetAttribute debug alloc_ok (fst a) (snd a) = (True, attr_obj a)"
proof -
  have "fst a \<noteq> []" "snd a \<noteq> [] \<or> \<not> debug" using assms by (auto simp: attr_ok_def)
  then show ?thesis by (simp add: SetAttribute_def attr_obj_def z3_strdup_ok Let_def)
qed

text \<open>Attribute lines in front of the first media, and in a media description.\<close>

lemma run_session_attrs:
  assumes "\<forall>a \<in> set as. attr_ok debug a \<and> line_ok (attr_line a)" "ctx_state ctx = SDP_SESSION"
    "m_pVectorAttributes (ctx_msg ctx) = opt_vec (map attr_obj bs)"
  shows "run_lines debug alloc_ok (map attr_line as) ctx =
    Inr (ctx\<lparr>ctx_msg := (ctx_msg ctx)\<lparr>m_pVectorAttributes := opt_vec (map attr_obj (bs @ as))\<rparr>\<rparr>)"
  using assms
proof (induction as arbitrary: ctx bs)
  case (Cons a as)
  let ?ctx = "ctx\<lparr>ctx_msg := (ctx_msg ctx)\<lparr>m_pVectorAttributes := opt_vec (map attr_obj (bs @ [a]))\<rparr>\<rparr>"
  have "sdp_ParseLine debug alloc_ok (fst (attr_line a)) (snd (attr_line a)) ctx = Inr ?ctx"
    using Cons.prems split_colon_attr [of debug a] SetAttribute_obj [of debug a]
    by (cases a) (simp add: sdp_ParseLine_def attr_line_def on_msg_def AddAttribute_def Let_def)
  then show ?case using Cons.IH [of ?ctx "bs @ [a]"] Cons.prems by simp
qed simp

lemma run_media_attrs:
  assumes "\<forall>a \<in> set as. attr_ok debug a \<and> line_ok (attr_line a)" "ctx_state ctx = SDP_MEDIA" "ctx_media ctx = Some (length ms)"
    "m_pVectorMedias (ctx_msg ctx) = Some (ms @ [x])" "m_pVectorMediaAttributes x = opt_vec (map attr_obj bs)"
  shows "run_lines debug alloc_ok (map attr_line as) ctx =
    Inr (ctx\<lparr>ctx_msg := (ctx_msg ctx)\<lparr>m_pVectorMedias :=
       Some (ms @ [x\<lparr>m_pVectorMediaAttributes := opt_vec (map attr_obj (bs @ as))\<rparr>])\<rparr>\<rparr>)"
  using assms
proof (induction as arbitrary: ctx bs x)
  case (Cons a as)
  let ?x = "x\<lparr>m_pVectorMediaAttributes := opt_vec (map attr_obj (bs @ [a]))\<rparr>"
  let ?ctx = "ctx\<lparr>ctx_msg := (ctx_msg ctx)\<lparr>m_pVectorMedias := Some (ms @ [?x])\<rparr>\<rparr>"
  have "sdp_ParseLine debug alloc_ok (fst (attr_line a)) (snd (attr_line a)) ctx = Inr ?ctx"
    using Cons.prems split_colon_attr [of debug a] SetAttribute_obj [of debug a]
    by (cases a) (simp add: sdp_ParseLine_def attr_line_def on_media_def media_AddAttribute_def Let_def vec_def)
  then show ?case using Cons.IH [of ?ctx ?x "bs @ [a]"] Cons.prems by simp
qed simp

lemma dec_nat_word: "sdp_word (dec_nat n)"
  using dec_nat_digits [of n] by (auto simp: sdp_word_def dest: is_digit_not)

lemma slash_dec_nat: "CHR ''/'' \<notin> set (dec_nat n)"
proof
  assume "CHR ''/'' \<in> set (dec_nat n)"
  then have "is_digit CHR ''/''" using dec_nat_digits [of n] by blast
  then show False by (simp add: is_digit_def)
qed

lemma words_text_Cons: "words_text (w # ws) = CHR '' '' # w @ words_text ws" by simp

lemma length_words_text: "w \<in> set ws \<Longrightarrow> length w \<le> length (words_text ws)"
  by (induction ws) auto

lemma parse_media_obj:
  assumes "media_ok debug (name, port, proto, fmts, attrs)"
    and len: "length (name @ words_text ([dec_nat port, proto] @ fmts)) < STR_SIZE"
  shows "parse_media debug alloc_ok (name @ words_text ([dec_nat port, proto] @ fmts))
       = (media_obj (name, port, proto, fmts, [])) \<lparr>m_pVectorMediaAttributes := None\<rparr>"
proof -
  have ok: "sdp_word name" "sdp_word proto" "fmts \<noteq> []" "port < 65536" and f: "\<forall>w \<in> set fmts. sdp_word w \<and> length w < STR_SIZE"
    using assms(1) len length_words_text [of _ fmts] by fastforce+
  have r1: "read_str (name @ words_text (dec_nat port # proto # fmts)) = (name, words_text (dec_nat port # proto # fmts))"
    using read_str_word(1) [OF ok(1), of "words_text (dec_nat port # proto # fmts)"] words_text_hd len by simp
  have r2: "read_str (words_text (dec_nat port # proto # fmts)) = (dec_nat port, words_text (proto # fmts))"
    using read_str_word(2) [OF dec_nat_word, of port "words_text (proto # fmts)"] words_text_hd len by simp
  have r3: "read_str (words_text (proto # fmts)) = (proto, words_text fmts)"
    using read_str_word(2) [OF ok(2), of "words_text fmts"] words_text_hd [of fmts] len by simp
  have port: "last_slash (dec_nat port) = None" "atoi (dec_nat port) = int port"
    using slash_dec_nat atoi_dec_nat [of port] ok(4) by (simp_all add: last_slash_def)
  show ?thesis
    unfolding append_Cons append_Nil
    by (simp only: parse_media_def Let_def r1 r2 r3 case_prod_conv port option.case add_formats_words [OF ok(3) f])
       (simp add: SetMedia_def SetProtocol_def SetSDPort_def SetPortNum_def SDPMedia_new_def z3_strdup_ok sdp_word_ne ok opt_vec_def vec_def)
qed

lemma run_media:
  assumes "media_ok debug x" "\<forall>l \<in> set (media_lines x). line_ok l" "m_pVectorMedias (ctx_msg ctx) = opt_vec ms"
  shows "run_lines debug alloc_ok (media_lines x) ctx =
    Inr \<lparr>ctx_state = SDP_MEDIA, ctx_msg = (ctx_msg ctx)\<lparr>m_pVectorMedias := opt_vec (ms @ [media_obj x])\<rparr>, ctx_media = Some (length ms)\<rparr>"
proof -
  obtain name port proto fmts attrs where x: "x = (name, port, proto, fmts, attrs)" by (cases x) auto
  let ?line = "name @ words_text ([dec_nat port, proto] @ fmts)"
  let ?m0 = "(media_obj (name, port, proto, fmts, []))\<lparr>m_pVectorMediaAttributes := None\<rparr>"
  let ?ctx = "\<lparr>ctx_state = SDP_MEDIA, ctx_msg = (ctx_msg ctx)\<lparr>m_pVectorMedias := Some (ms @ [?m0])\<rparr>, ctx_media = Some (length ms)\<rparr>"
  have "parse_media debug alloc_ok ?line = ?m0"
    using parse_media_obj [of debug name port proto fmts attrs] assms(1,2) by (simp add: x line_ok_def)
  moreover have "GetMediaCount (ctx_msg ctx) = length ms" using assms(3) by (simp add: GetMediaCount_def opt_vec_def)
  ultimately have m: "sdp_ParseLine debug alloc_ok CHR ''m'' ?line ctx = Inr ?ctx"
    using assms(3) by (simp add: sdp_ParseLine_def Let_def AddMedia_def push_back_def)
  have attrs: "run_lines debug alloc_ok (map attr_line attrs) ?ctx =
      Inr (?ctx\<lparr>ctx_msg := (ctx_msg ?ctx)\<lparr>m_pVectorMedias :=
        Some (ms @ [?m0\<lparr>m_pVectorMediaAttributes := opt_vec (map attr_obj ([] @ attrs))\<rparr>])\<rparr>\<rparr>)"
    by (rule run_media_attrs) (use assms(1,2) in \<open>auto simp: x opt_vec_def\<close>)
  show ?thesis using m attrs by (simp add: x opt_vec_def)
qed

lemma run_medias:
  assumes "\<forall>x \<in> set xs. media_ok debug x" "\<forall>l \<in> set (concat (map media_lines xs)). line_ok l"
    "m_pVectorMedias (ctx_msg ctx) = opt_vec ms"
  shows "\<exists>ctx'. run_lines debug alloc_ok (concat (map media_lines xs)) ctx = Inr ctx'
    \<and> ctx_msg ctx' = (ctx_msg ctx)\<lparr>m_pVectorMedias := opt_vec (ms @ map media_obj xs)\<rparr>"
  using assms
proof (induction xs arbitrary: ctx ms)
  case (Cons x xs)
  let ?ctx = "\<lparr>ctx_state = SDP_MEDIA, ctx_msg = (ctx_msg ctx)\<lparr>m_pVectorMedias := opt_vec (ms @ [media_obj x])\<rparr>, ctx_media = Some (length ms)\<rparr>"
  have "run_lines debug alloc_ok (media_lines x) ctx = Inr ?ctx" using run_media [of debug x ctx ms] Cons.prems by simp
  moreover obtain ctx' where "run_lines debug alloc_ok (concat (map media_lines xs)) ?ctx = Inr ctx'"
    "ctx_msg ctx' = (ctx_msg ?ctx)\<lparr>m_pVectorMedias := opt_vec ((ms @ [media_obj x]) @ map media_obj xs)\<rparr>"
    using Cons.IH [of ?ctx "ms @ [media_obj x]"] Cons.prems by auto
  ultimately show ?case by (simp add: run_lines_append)
qed simp

lemma parse_origin_obj:
  assumes "length ws = 6" "\<forall>w \<in> set ws. sdp_word w \<and> length w < STR_SIZE"
  shows "parse_origin debug alloc_ok (hd ws @ words_text (tl ws)) o0 = Inr (origin_obj ws)"
proof -
  obtain a b c d e f where ws: "ws = [a, b, c, d, e, f]"
    using assms(1) by (auto simp: numeral_eq_Suc length_Suc_conv)
  have w: "sdp_word a" "sdp_word b" "sdp_word c" "sdp_word d" "sdp_word e" "sdp_word f" using assms(2) by (auto simp: ws)
  have len: "length a < STR_SIZE" "length b < STR_SIZE" "length c < STR_SIZE" "length d < STR_SIZE" "length e < STR_SIZE"
      "length f < STR_SIZE" using assms(2) by (auto simp: ws)
  have r1: "read_str (a @ words_text [b, c, d, e, f]) = (a, words_text [b, c, d, e, f])"
    by (rule read_str_word(1) [OF w(1) len(1)]) simp
  have r: "read_str (words_text (x # xs)) = (x, words_text xs)" if "sdp_word x" "length x < STR_SIZE" for x xs
    using read_str_word(2) [OF that, of "words_text xs"] words_text_hd by simp
  have ne: "x \<noteq> [] \<or> \<not> debug" if "sdp_word x" for x using that by (simp add: sdp_word_def)
  show ?thesis unfolding ws list.sel
    by (simp only: parse_origin_def Let_def r1 r w len case_prod_conv SetUsername_def SetSessId_def SetSessVersion_def
        origin_SetNetType_def origin_SetAddrType_def SetAddr_def SetField_def dup_len_ok [OF ne] bindE.simps ignore_def)
       (simp add: origin_obj_def)
qed

lemma run_head:
  assumes "desc_ok debug d"
  shows "run_lines debug alloc_ok [(CHR ''v'', ''0''), (CHR ''o'', hd (d_origin d) @ words_text (tl (d_origin d))),
      (CHR ''s'', d_name d), (CHR ''t'', ''0 0'')] \<lparr>ctx_state = SDP_SESSION, ctx_msg = SDPMessage_new, ctx_media = None\<rparr>
    = Inr \<lparr>ctx_state = SDP_SESSION, ctx_msg = SDPMessage_new\<lparr>m_pszVersion := Some ''0'', m_origin := origin_obj (d_origin d),
         m_pszSessionName := Some (d_name d)\<rparr>, ctx_media = None\<rparr>"
proof -
  have "line_ok (CHR ''o'', hd (d_origin d) @ words_text (tl (d_origin d)))" "length (d_origin d) = 6"
    using assms by (simp_all add: desc_ok_def desc_lines_def)
  then have "length w < STR_SIZE" if "w \<in> set (d_origin d)" for w
    using length_words_text [of w "tl (d_origin d)"] that by (cases "d_origin d") (auto simp: line_ok_def)
  then have "parse_origin debug alloc_ok (hd (d_origin d) @ words_text (tl (d_origin d))) o0 = Inr (origin_obj (d_origin d))" for o0
    using assms parse_origin_obj [of "d_origin d" debug o0] by (simp add: desc_ok_def)
  moreover have "d_name d \<noteq> [] \<or> \<not> debug" using assms by (auto simp: desc_ok_def)
  ultimately show ?thesis
    by (simp add: sdp_ParseLine_def on_msg_def ignore_def sdp_SetVersion_def SetSessionName_def dup_len_ok SDPMessage_new_def)
qed

lemma ParseString_desc:
  assumes "desc_ok debug d" "0 < n"
  shows "SDPMessage_ParseString debug alloc_ok (Some (sdp_lines_text (desc_lines d) @ NUL # r)) n SDPMessage_new = Inr (EOK, desc_obj d)"
proof -
  have ok: "\<forall>l \<in> set (desc_lines d). line_ok l" "\<forall>a \<in> set (d_attrs d). attr_ok debug a" "\<forall>x \<in> set (d_medias d). media_ok debug x"
    using assms(1) by (simp_all add: desc_ok_def)
  let ?ctx = "\<lparr>ctx_state = SDP_SESSION, ctx_msg = SDPMessage_new\<lparr>m_pszVersion := Some ''0'', m_origin := origin_obj (d_origin d),
         m_pszSessionName := Some (d_name d)\<rparr>, ctx_media = None\<rparr>"
  have attrs: "run_lines debug alloc_ok (map attr_line (d_attrs d)) ?ctx =
      Inr (?ctx\<lparr>ctx_msg := (ctx_msg ?ctx)\<lparr>m_pVectorAttributes := opt_vec (map attr_obj ([] @ d_attrs d))\<rparr>\<rparr>)"
    by (rule run_session_attrs) (use ok in \<open>auto simp: desc_lines_def SDPMessage_new_def opt_vec_def\<close>)
  let ?ctx2 = "?ctx\<lparr>ctx_msg := (ctx_msg ?ctx)\<lparr>m_pVectorAttributes := opt_vec (map attr_obj (d_attrs d))\<rparr>\<rparr>"
  obtain ctx' where medias: "run_lines debug alloc_ok (concat (map media_lines (d_medias d))) ?ctx2 = Inr ctx'"
    and msg: "ctx_msg ctx' = (ctx_msg ?ctx2)\<lparr>m_pVectorMedias := opt_vec ([] @ map media_obj (d_medias d))\<rparr>"
    using run_medias [of "d_medias d" debug ?ctx2 "[]"] ok by (auto simp: desc_lines_def SDPMessage_new_def opt_vec_def)
  have "run_lines debug alloc_ok (desc_lines d) \<lparr>ctx_state = SDP_SESSION, ctx_msg = SDPMessage_new, ctx_media = None\<rparr> = Inr ctx'"
    unfolding desc_lines_def run_lines_append run_head [OF assms(1)] bindE.simps attrs append_Nil medias by (rule refl)
  moreover have "cstr (sdp_lines_text (desc_lines d) @ NUL # r) = sdp_lines_text (desc_lines d)"
    by (rule cstr_append_NUL) (rule NUL_lines_text [OF ok(1)])
  ultimately show ?thesis
    using assms(2) msg ParseString_lines_text [OF ok(1)]
    by (simp add: SDPMessage_ParseString_def terminated_def desc_obj_def)
qed

section \<open>Attributes and connections\<close>

text \<open>The values of the attributes with a key, in order.\<close>

definition values_of :: "string \<Rightarrow> sdp_attr list \<Rightarrow> string list" where
  "values_of key attrs = map snd (filter (\<lambda>a. stricmp_eq (fst a) key) attrs)"

lemma GetAttributeValue_loop_nth:
  "GetAttributeValue_loop key k (map attr_obj as) = Inr (if k < length (values_of key as) then Some (values_of key as ! k) else None)"
  by (induction as arbitrary: k) (auto simp: attr_obj_def values_of_def split: nat.splits)

lemma GetAttributeValue_obj:
  "GetAttributeValue key k (media_obj (name, port, proto, fmts, attrs)) =
     Inr (if k < length (values_of key attrs) then Some (values_of key attrs ! k) else None)"
  by (simp add: GetAttributeValue_def GetAttributeValue_loop_nth)

text \<open>The parameters behind a connection address, each after a slash.\<close>

definition slash_params :: "nat list \<Rightarrow> string" where
  "slash_params ns = concat (map (\<lambda>n. CHR ''/'' # dec_nat n) ns)"

definition unslash :: "string \<Rightarrow> string" where
  "unslash = map (\<lambda>c. if c = CHR ''/'' then CHR '' '' else c)"

lemma unslash_params: "unslash (slash_params ns) = words_text (map dec_nat ns)"
proof (induction ns)
  case (Cons n ns)
  have "unslash (dec_nat n) = dec_nat n"
    using slash_dec_nat [of n] by (auto simp: unslash_def intro!: map_idI)
  then show ?case using Cons by (simp add: slash_params_def unslash_def)
qed (simp add: slash_params_def unslash_def)

lemma unslash_id: "CHR ''/'' \<notin> set w \<Longrightarrow> unslash w = w"
  by (auto simp: unslash_def intro!: map_idI)

lemma strtoul_dec_nat: "n < 4294967296 \<Longrightarrow> strtoul (dec_nat n) = of_nat n"
proof -
  assume n: "n < 4294967296"
  obtain c cs where d: "dec_nat n = c # cs" by (cases "dec_nat n") auto
  then have "is_digit c" using dec_nat_digits [of n] by simp
  then have "dropWhile is_space (dec_nat n) = dec_nat n" "c \<noteq> CHR ''-''" "c \<noteq> CHR ''+''" using d by (auto dest: is_digit_not)
  then show ?thesis using n digits_val_dec_nat [of n] by (simp add: strtoul_def d)
qed

definition conn_word :: "string \<Rightarrow> bool" where
  "conn_word w \<longleftrightarrow> sdp_word w \<and> CHR ''/'' \<notin> set w"

lemma parse_connection_obj:
  assumes w: "conn_word net" "conn_word ty" "conn_word addr" and n: "\<forall>n \<in> set ns. n < 4294967296"
    and len: "length (net @ words_text [ty, addr] @ slash_params ns) < STR_SIZE"
  shows "parse_connection debug alloc_ok (net @ words_text [ty, addr] @ slash_params ns) =
    Inr \<lparr>m_pszNetType = Some net, m_pszAddrType = Some ty, m_pszAddress = Some addr, m_nTTL = 0,
         m_nAddrNum = (if ty = ''IP4'' then (case ns of [] \<Rightarrow> 0 | n # _ \<Rightarrow> of_nat n) else 0)\<rparr>"
proof -
  let ?ps = "words_text (map dec_nat ns)"
  have w': "sdp_word net" "sdp_word ty" "sdp_word addr" using w by (auto simp: conn_word_def)
  have p: "map (\<lambda>c. if c = CHR ''/'' then CHR '' '' else c) (net @ words_text [ty, addr] @ slash_params ns)
      = net @ words_text (ty # addr # map dec_nat ns)"
    unfolding unslash_def [symmetric] using w unslash_params [of ns] unslash_id
    by (simp add: unslash_def conn_word_def)
  have l: "length net < STR_SIZE" "length ty < STR_SIZE" "length addr < STR_SIZE" using len by simp_all
  have plen: "length ?ps < STR_SIZE" using len arg_cong [OF unslash_params [of ns], of length] by (simp add: unslash_def)
  have r1: "read_str (net @ words_text (ty # addr # map dec_nat ns)) = (net, words_text (ty # addr # map dec_nat ns))"
    by (rule read_str_word(1) [OF w'(1) l(1)]) simp
  have r: "read_str (words_text (x # xs)) = (x, words_text xs)" if "sdp_word x" "length x < STR_SIZE" for x xs
    using read_str_word(2) [OF that, of "words_text xs"] words_text_hd by simp
  have last: "strtoul (fst (read_str ?ps)) = (case ns of [] \<Rightarrow> 0 | n # _ \<Rightarrow> of_nat n)"
  proof (cases ns)
    case Nil
    then show ?thesis by (simp add: read_str_def read_string_eq strtoul_def)
  next
    case (Cons n ms)
    then have "length (dec_nat n) < STR_SIZE" using plen by simp
    then show ?thesis using r [OF dec_nat_word, of n "map dec_nat ms"] strtoul_dec_nat [of n] n Cons by simp
  qed
  have ne: "x \<noteq> [] \<or> \<not> debug" if "sdp_word x" for x using that by (simp add: sdp_word_def)
  show ?thesis
    by (simp only: parse_connection_def Let_def p r1 r w' l case_prod_conv SetNetType_def SetAddrType_def SetAddress_def
        dup_len_ok [OF ne] bindE.simps ignore_def) (simp add: last [simplified] SDPConnection_new_def SetAddrNum_def)
qed

section \<open>What the parser makes of a description\<close>

definition sample_desc :: sdp_desc where
  "sample_desc = \<lparr>d_origin = [''-'', ''1'', ''1'', ''IN'', ''IP4'', ''10.0.0.1''], d_name = ''zoo'', d_attrs = [(''tool'', ''z3'')],
     d_medias = [(''video'', 0, ''RTP/AVP'', [''96''], [(''rtpmap'', ''96 H264/90000''), (''control'', ''track1'')])]\<rparr>"

lemma dec_nat_samples: "dec_nat 0 = ''0''" "dec_nat 127 = ''127''"
  by code_simp+

lemma sample_desc_ok: "desc_ok True sample_desc" "desc_ok False (sample_desc\<lparr>d_name := []\<rparr>)"
  by (simp_all add: desc_ok_def sample_desc_def desc_lines_def attr_line_def attr_ok_def line_ok_def sdp_word_def is_space_def
      dec_nat_samples)

text \<open>C10. Printing and parsing a session description are inverse: for any description (the origin, the name and
  the attributes of the session, any number of media with their ports, formats and attributes; every line at most
  1023 bytes), \<open>ParseString\<close> of its text gives exactly the objects it stands for, every attribute under
  the media it was listed with, and \<open>GetAttributeValue\<close> of a media finds the \<open>k\<close>-th value of a key in
  any case.\<close>

theorem SDP_roundtrip:
  assumes "desc_ok debug d" "0 < n"
  shows "SDPMessage_ParseString debug alloc_ok (Some (sdp_lines_text (desc_lines d) @ NUL # r)) n SDPMessage_new = Inr (EOK, desc_obj d)
    \<and> GetMediaCount (desc_obj d) = length (d_medias d)
    \<and> (\<forall>i < length (d_medias d). case d_medias d ! i of (name, port, proto, fmts, attrs) \<Rightarrow>
        \<exists>md. GetSDPMedia i (desc_obj d) = Inr md \<and> m_pszMedia md = Some name \<and> m_nPort md = of_nat port
          \<and> m_pszProto md = Some proto \<and> m_pVectorFmts md = Some fmts
          \<and> (\<forall>key k. GetAttributeValue key k md =
               Inr (if k < length (values_of key attrs) then Some (values_of key attrs ! k) else None)))"
proof (intro conjI allI impI)
  show "SDPMessage_ParseString debug alloc_ok (Some (sdp_lines_text (desc_lines d) @ NUL # r)) n SDPMessage_new = Inr (EOK, desc_obj d)"
    by (rule ParseString_desc [OF assms])
  show "GetMediaCount (desc_obj d) = length (d_medias d)"
    by (simp add: GetMediaCount_def desc_obj_def opt_vec_def)
  fix i assume i: "i < length (d_medias d)"
  then have m: "GetSDPMedia i (desc_obj d) = Inr (media_obj (d_medias d ! i))"
    by (auto simp: GetSDPMedia_def desc_obj_def opt_vec_def)
  obtain name port proto fmts attrs where x: "d_medias d ! i = (name, port, proto, fmts, attrs)" by (cases "d_medias d ! i") auto
  show "case d_medias d ! i of (name, port, proto, fmts, attrs) \<Rightarrow>
        \<exists>md. GetSDPMedia i (desc_obj d) = Inr md \<and> m_pszMedia md = Some name \<and> m_nPort md = of_nat port
          \<and> m_pszProto md = Some proto \<and> m_pVectorFmts md = Some fmts
          \<and> (\<forall>key k. GetAttributeValue key k md =
               Inr (if k < length (values_of key attrs) then Some (values_of key attrs ! k) else None))"
    using m unfolding x case_prod_conv by (intro exI conjI) (assumption, simp_all only: GetAttributeValue_obj, simp_all add: SDPMedia_new_def)
qed

theorem SDP_roundtrip_witness:
  "SDPMessage_ParseString True alloc_ok (Some (sdp_lines_text (desc_lines sample_desc) @ [NUL])) 1 SDPMessage_new = Inr (EOK, desc_obj sample_desc)
    \<and> GetMediaCount (desc_obj sample_desc) = 1"
  using SDP_roundtrip [OF sample_desc_ok(1), of 1 "[]"] by (simp add: sample_desc_def)

text \<open>An empty session name (\<open>s=\<close> and nothing behind it) is parsed in a build with the C library's \<open>strdup\<close>. In a
  debug build \<open>z3_strdup\<close> makes no copy of an empty string and the length of NULL is taken: the parser crashes.\<close>

theorem empty_session_name:
  assumes "desc_ok False d" "d_name d = []" "0 < n"
  shows "SDPMessage_ParseString debug alloc_ok (Some (sdp_lines_text (desc_lines d) @ NUL # r)) n SDPMessage_new =
    (if debug then Inl NullDeref else Inr (EOK, desc_obj d))"
proof (cases debug)
  case True
  have ok: "\<forall>l \<in> set (desc_lines d). line_ok l" and o6: "length (d_origin d) = 6" "\<forall>w \<in> set (d_origin d). sdp_word w"
    using assms(1) by (simp_all add: desc_ok_def)
  have "length w < STR_SIZE" if "w \<in> set (d_origin d)" for w
    using length_words_text [of w "tl (d_origin d)"] that ok by (cases "d_origin d") (auto simp: line_ok_def desc_lines_def)
  then have "parse_origin debug alloc_ok (hd (d_origin d) @ words_text (tl (d_origin d))) o0 = Inr (origin_obj (d_origin d))" for o0
    using o6 parse_origin_obj [of "d_origin d" debug o0] by simp
  then have "run_lines debug alloc_ok (desc_lines d) \<lparr>ctx_state = SDP_SESSION, ctx_msg = SDPMessage_new, ctx_media = None\<rparr> = Inl NullDeref"
    using assms(2) True
    by (simp add: desc_lines_def sdp_ParseLine_def on_msg_def ignore_def sdp_SetVersion_def SetSessionName_def dup_len_ok)
       (simp add: dup_len_def z3_strdup_def)
  moreover have "cstr (sdp_lines_text (desc_lines d) @ NUL # r) = sdp_lines_text (desc_lines d)"
    by (rule cstr_append_NUL) (rule NUL_lines_text [OF ok])
  ultimately show ?thesis
    using assms(3) True ParseString_lines_text [OF ok] by (simp add: SDPMessage_ParseString_def terminated_def)
next
  case False
  then show ?thesis using ParseString_desc [of debug d n r] assms by simp
qed

theorem empty_session_name_witness:
  "SDPMessage_ParseString True alloc_ok (Some (sdp_lines_text (desc_lines (sample_desc\<lparr>d_name := []\<rparr>)) @ [NUL])) 1 SDPMessage_new = Inl NullDeref"
  using empty_session_name [OF sample_desc_ok(2), of 1 True "[]"] by simp

text \<open>A connection line \<open>c=net type address/ttl/number\<close>, with any number of parameters: the first parameter,
  the time to live, is stored as the number of addresses when the type is \<open>IP4\<close>, the others are dropped, and the
  time to live is 0 whatever the line says. The connection belongs to the session in front of the first media line and
  is added to the current media behind one.\<close>

theorem connection_line:
  assumes "conn_word net" "conn_word ty" "conn_word addr" "\<forall>n \<in> set ns. n < 4294967296"
    "length (net @ words_text [ty, addr] @ slash_params ns) < 1024"
    "ctx_state ctx = SDP_SESSION \<or> (ctx_media ctx = Some (length ms) \<and> m_pVectorMedias (ctx_msg ctx) = Some (ms @ [x]))"
  shows "\<exists>c. m_pszNetType c = Some net \<and> m_pszAddrType c = Some ty \<and> m_pszAddress c = Some addr \<and> m_nTTL c = 0
    \<and> m_nAddrNum c = (if ty = ''IP4'' \<and> ns \<noteq> [] then of_nat (hd ns) else 0)
    \<and> sdp_ParseLine debug alloc_ok CHR ''c'' (net @ words_text [ty, addr] @ slash_params ns) ctx =
       Inr (ctx\<lparr>ctx_msg := (if ctx_state ctx = SDP_SESSION then (ctx_msg ctx)\<lparr>m_pConnection := Some c\<rparr>
              else (ctx_msg ctx)\<lparr>m_pVectorMedias := Some (ms @ [x\<lparr>m_pVectorConnections := push_back c (m_pVectorConnections x)\<rparr>])\<rparr>)\<rparr>)"
proof -
  let ?c = "\<lparr>m_pszNetType = Some net, m_pszAddrType = Some ty, m_pszAddress = Some addr, m_nTTL = 0,
         m_nAddrNum = (if ty = ''IP4'' then (case ns of [] \<Rightarrow> 0 | n # _ \<Rightarrow> of_nat n) else 0)\<rparr> :: SDPConnection"
  have pc: "parse_connection debug alloc_ok (net @ words_text [ty, addr] @ slash_params ns) = Inr ?c"
    by (rule parse_connection_obj) (use assms in simp_all)
  have "sdp_ParseLine debug alloc_ok CHR ''c'' (net @ words_text [ty, addr] @ slash_params ns) ctx =
       Inr (ctx\<lparr>ctx_msg := (if ctx_state ctx = SDP_SESSION then (ctx_msg ctx)\<lparr>m_pConnection := Some ?c\<rparr>
              else (ctx_msg ctx)\<lparr>m_pVectorMedias := Some (ms @ [x\<lparr>m_pVectorConnections := push_back ?c (m_pVectorConnections x)\<rparr>])\<rparr>)\<rparr>)"
    using assms(6) unfolding sdp_ParseLine_def Let_def pc
    by (auto simp: on_msg_def on_media_def SetConnection_def AddConnection_def vec_def)
  then show ?thesis by (intro exI [of _ ?c] conjI) (auto split: list.splits)
qed

theorem connection_line_witness:
  "\<exists>c. m_nTTL c = 0 \<and> m_nAddrNum c = 127 \<and>
    sdp_ParseLine True alloc_ok CHR ''c'' ''IN IP4 224.2.36.42/127''
      \<lparr>ctx_state = SDP_SESSION, ctx_msg = SDPMessage_new, ctx_media = None\<rparr> =
    Inr \<lparr>ctx_state = SDP_SESSION, ctx_msg = SDPMessage_new\<lparr>m_pConnection := Some c\<rparr>, ctx_media = None\<rparr>"
  using connection_line [of "''IN''" "''IP4''" "''224.2.36.42''" "[127]"
      "\<lparr>ctx_state = SDP_SESSION, ctx_msg = SDPMessage_new, ctx_media = None\<rparr>" "[]" undefined True]
  by (auto simp: conn_word_def sdp_word_def is_space_def slash_params_def dec_nat_samples)

end
