(* ===== verification/RtpMedia.thy ===== *)
theory RtpMedia
  imports Z3Prelude
begin

unbundle bit_operations_syntax

text \<open>
  RTP packets and the reassembly of H.264 frames: \<open>z3_rtsp_client/z3_rtp_msg.cpp\<close> (with the
  header macros of \<open>z3_rtp.hpp\<close>), \<open>z3_h264_frame.cpp\<close> and the parser of \<open>z3_rtp_udp_session.cpp\<close>.
  The memory at \<open>pBuf\<close> is a list of bytes whose length is that of the receive buffer; \<open>nLen\<close> is how many of
  them the packet has. \<open>unsigned long\<close>, \<open>size_t\<close> and pointers have 32 bits, as in the Windows build.
\<close>

definition H264_MAX_FRAME_SIZE :: u32 where "H264_MAX_FRAME_SIZE = 2097152"

section \<open>RTP packets\<close>

definition byte_at :: "u8 list \<Rightarrow> nat \<Rightarrow> u8 outcome" where
  "byte_at mem i = (if i < length mem then Inr (mem ! i) else Inl OutOfBounds)"

text \<open>\<open>ntohs\<close> and \<open>ntohl\<close> of the field at an offset: the bytes in network order.\<close>

definition be16 :: "u8 list \<Rightarrow> nat \<Rightarrow> u16 outcome" where
  "be16 mem i =
     (if i + 2 \<le> length mem
      then Inr (push_bit 8 (ucast (mem ! i)) OR ucast (mem ! (i + 1)))
      else Inl OutOfBounds)"

definition be32 :: "u8 list \<Rightarrow> nat \<Rightarrow> u32 outcome" where
  "be32 mem i =
     (if i + 4 \<le> length mem
      then Inr (push_bit 24 (ucast (mem ! i)) OR push_bit 16 (ucast (mem ! (i + 1)))
                OR push_bit 8 (ucast (mem ! (i + 2))) OR ucast (mem ! (i + 3)))
      else Inl OutOfBounds)"

text \<open>The bit fields of \<open>RTP_HDR\<close> on a little-endian machine.\<close>

definition csrc_count :: "u8 list \<Rightarrow> nat outcome" where
  "csrc_count mem = bindE (byte_at mem 0) (\<lambda>b. Inr (unat (b AND 0x0F)))"

definition extension :: "u8 list \<Rightarrow> bool outcome" where
  "extension mem = bindE (byte_at mem 0) (\<lambda>b. Inr (b AND 0x10 \<noteq> 0))"

definition marker :: "u8 list \<Rightarrow> bool outcome" where
  "marker mem = bindE (byte_at mem 1) (\<lambda>b. Inr (b AND 0x80 \<noteq> 0))"

text \<open>\<open>RTP_PKT_DATA\<close>: \<open>data\<close> is an array of \<open>unsigned int\<close> at offset 12, so adding \<open>csrc_count * 4\<close> to
  its address moves 16 bytes for each contributing source.\<close>

definition RTP_PKT_DATA :: "u8 list \<Rightarrow> nat outcome" where
  "RTP_PKT_DATA mem = bindE (csrc_count mem) (\<lambda>cc. Inr (12 + cc * 4 * 4))"

record RTPPacket =
  m_pPacket :: "u8 list option"
  m_nPacketSize :: u32

definition RTPPacket_new :: RTPPacket where
  "RTPPacket_new = \<lparr>m_pPacket = None, m_nPacketSize = 0\<rparr>"

definition InitPacket :: "u8 list \<Rightarrow> u32 \<Rightarrow> RTPPacket \<Rightarrow> RTPPacket" where
  "InitPacket pBuf nBufSize p = p\<lparr>m_pPacket := Some pBuf, m_nPacketSize := nBufSize\<rparr>"

definition packet_mem :: "RTPPacket \<Rightarrow> u8 list outcome" where
  "packet_mem p = (case m_pPacket p of None \<Rightarrow> Inl NullDeref | Some m \<Rightarrow> Inr m)"

text \<open>\<open>GetPayload\<close> as the offset of the payload in the packet, which may be behind its end.\<close>

definition GetPayload :: "RTPPacket \<Rightarrow> nat outcome" where
  "GetPayload p =
     bindE (packet_mem p) (\<lambda>mem.
       bindE (extension mem) (\<lambda>ext.
         bindE (RTP_PKT_DATA mem) (\<lambda>start.
           if ext then bindE (be16 mem (start + 2)) (\<lambda>len. Inr (start + 4 + 4 * unat len))
           else Inr start)))"

definition GetPayloadSize :: "RTPPacket \<Rightarrow> u32 outcome" where
  "GetPayloadSize p = bindE (GetPayload p) (\<lambda>off. Inr (m_nPacketSize p - of_nat off))"

definition RTPPacket_GetTimestamp :: "RTPPacket \<Rightarrow> u32 outcome" where
  "RTPPacket_GetTimestamp p = bindE (packet_mem p) (\<lambda>mem. be32 mem 4)"

definition IsMarker :: "RTPPacket \<Rightarrow> bool outcome" where
  "IsMarker p = bindE (packet_mem p) marker"

text \<open>The other fields of the header, which are only traced.\<close>

definition RTP_PKT_VER :: "u8 list \<Rightarrow> nat outcome" where
  "RTP_PKT_VER mem = bindE (byte_at mem 0) (\<lambda>b. Inr (unat (drop_bit 6 b)))"

definition RTP_PKT_PT :: "u8 list \<Rightarrow> nat outcome" where
  "RTP_PKT_PT mem = bindE (byte_at mem 1) (\<lambda>b. Inr (unat (b AND 0x7F)))"

definition RTP_PKT_SEQ :: "u8 list \<Rightarrow> u16 outcome" where "RTP_PKT_SEQ mem = be16 mem 2"
definition RTP_PKT_TS :: "u8 list \<Rightarrow> u32 outcome" where "RTP_PKT_TS mem = be32 mem 4"
definition RTP_PKT_SSRC :: "u8 list \<Rightarrow> u32 outcome" where "RTP_PKT_SSRC mem = be32 mem 8"

definition RTPPT_ISDYNAMIC :: "nat \<Rightarrow> bool" where
  "RTPPT_ISDYNAMIC pt \<longleftrightarrow> 96 \<le> pt"

text \<open>\<open>RtpMsg\<close> keeps a copy of the packet and has 16 bits for its size. \<open>FillBuffer\<close> does not store the size.\<close>

record RtpMsg =
  rm_pPacket :: "u8 list option"
  rm_nPacketSize :: u16

definition RtpMsg_new :: RtpMsg where
  "RtpMsg_new = \<lparr>rm_pPacket = None, rm_nPacketSize = 0\<rparr>"

definition RtpMsg_FillBuffer :: "alloc \<Rightarrow> u8 list \<Rightarrow> u32 \<Rightarrow> RtpMsg \<Rightarrow> (result \<times> RtpMsg) outcome" where
  "RtpMsg_FillBuffer mok pRtpPacket nPktSize p =
     (if \<not> (rm_pPacket p = None \<and> rm_nPacketSize p = 0) then Inl AssertFailed
      else if mok (unat nPktSize) then
        (if unat nPktSize \<le> length pRtpPacket
         then Inr (EOK, p\<lparr>rm_pPacket := Some (take (unat nPktSize) pRtpPacket)\<rparr>)
         else Inl OutOfBounds)
      else Inr (ENOMEM, p))"

definition RtpMsg_GetPayload :: "RtpMsg \<Rightarrow> nat outcome" where
  "RtpMsg_GetPayload p =
     bindE (case rm_pPacket p of None \<Rightarrow> Inl NullDeref | Some m \<Rightarrow> Inr m) (\<lambda>mem.
       bindE (extension mem) (\<lambda>ext.
         bindE (RTP_PKT_DATA mem) (\<lambda>start.
           if ext then bindE (be16 mem (start + 2)) (\<lambda>len. Inr (start + 4 + 4 * unat len))
           else Inr start)))"

definition RtpMsg_GetPayloadSize :: "RtpMsg \<Rightarrow> u32 outcome" where
  "RtpMsg_GetPayloadSize p = bindE (RtpMsg_GetPayload p) (\<lambda>off. Inr (ucast (rm_nPacketSize p) - of_nat off))"

text \<open>\<open>ToStringImpl\<close> writes a trace and answers false.\<close>

definition RtpMsg_ToStringImpl :: "RtpMsg \<Rightarrow> bool" where
  "RtpMsg_ToStringImpl p = False"

section \<open>Frames\<close>

record H264Frame =
  m_pFrameBuf :: "u8 list option"
  m_lCurrPos :: u32
  m_lMaxFrameSize :: u32
  m_lTimestamp :: u32

definition H264Frame_new :: H264Frame where
  "H264Frame_new = \<lparr>m_pFrameBuf = None, m_lCurrPos = 0, m_lMaxFrameSize = 0, m_lTimestamp = 0\<rparr>"

definition Allocate :: "alloc \<Rightarrow> (nat \<Rightarrow> u8) \<Rightarrow> u32 \<Rightarrow> H264Frame \<Rightarrow> bool \<times> H264Frame" where
  "Allocate mok junk lMaxSize f =
     (if m_lMaxFrameSize f < lMaxSize then
        (if mok (unat lMaxSize)
         then (True, f\<lparr>m_pFrameBuf := Some (map junk [0..<unat lMaxSize]), m_lMaxFrameSize := lMaxSize\<rparr>)
         else (False, f\<lparr>m_pFrameBuf := None\<rparr>))
      else (False, f))"

text \<open>\<open>memcpy\<close> into the frame buffer.\<close>

definition frame_write :: "u8 list \<Rightarrow> H264Frame \<Rightarrow> H264Frame outcome" where
  "frame_write bytes f =
     (case m_pFrameBuf f of
        None \<Rightarrow> Inl NullDeref
      | Some b \<Rightarrow>
          if unat (m_lCurrPos f) + length bytes \<le> length b
          then Inr (f\<lparr>m_pFrameBuf := Some (take (unat (m_lCurrPos f)) b @ bytes
                        @ drop (unat (m_lCurrPos f) + length bytes) b),
                     m_lCurrPos := m_lCurrPos f + of_nat (length bytes)\<rparr>)
          else Inl OutOfBounds)"

definition AddNalStartCode :: "H264Frame \<Rightarrow> (bool \<times> H264Frame) outcome" where
  "AddNalStartCode f =
     (if m_lCurrPos f + 4 > m_lMaxFrameSize f then Inr (False, f)
      else bindE (frame_write [0, 0, 0, 1] f) (\<lambda>f'. Inr (True, f')))"

text \<open>\<open>FillData\<close> copies \<open>nDataSize\<close> bytes from the offset \<open>off\<close> of \<open>mem\<close>.\<close>

definition FillData :: "u8 list \<Rightarrow> nat \<Rightarrow> u32 \<Rightarrow> H264Frame \<Rightarrow> (u32 \<times> H264Frame) outcome" where
  "FillData mem off nDataSize f =
     (if m_lCurrPos f + nDataSize > m_lMaxFrameSize f then Inl AssertFailed
      else if off + unat nDataSize \<le> length mem
      then bindE (frame_write (take (unat nDataSize) (drop off mem)) f) (\<lambda>f'. Inr (nDataSize, f'))
      else Inl OutOfBounds)"

definition Reset :: "H264Frame \<Rightarrow> H264Frame" where
  "Reset f = f\<lparr>m_lCurrPos := 0, m_lTimestamp := 0\<rparr>"

definition GetFrame :: "H264Frame \<Rightarrow> u8 list" where
  "GetFrame f = (case m_pFrameBuf f of None \<Rightarrow> [] | Some b \<Rightarrow> take (unat (m_lCurrPos f)) b)"

section \<open>The parser\<close>

record RTPUDPParser =
  m_pRTPPacket :: "RTPPacket option"
  m_pH264Frame :: H264Frame
  m_bFrameCompleted :: bool

definition RTPUDPParser_new :: "alloc \<Rightarrow> (nat \<Rightarrow> u8) \<Rightarrow> RTPUDPParser" where
  "RTPUDPParser_new mok junk = \<lparr>m_pRTPPacket = None,
     m_pH264Frame = snd (Allocate mok junk H264_MAX_FRAME_SIZE H264Frame_new), m_bFrameCompleted = False\<rparr>"

text \<open>The switch on the type of the NAL unit: the size of the headers to skip, \<open>bNalBegin\<close>, \<open>bNalEnd\<close>
  and the memory, in which the FU case rebuilds the NAL header. For the aggregation types the two
  flags keep the indeterminate values \<open>ind\<close>.\<close>

definition nal_header ::
    "bool \<times> bool \<Rightarrow> u8 list \<Rightarrow> nat \<Rightarrow> u32 \<Rightarrow> (u32 \<times> bool \<times> bool \<times> u8 list) outcome" where
  "nal_header ind mem off nPayloadSize =
     bindE (byte_at mem off) (\<lambda>h0.
       let nalUnitType = h0 AND 0x1F in
       if nalUnitType = 24 then Inr (1, fst ind, snd ind, mem)
       else if nalUnitType = 25 \<or> nalUnitType = 26 \<or> nalUnitType = 27 then Inr (3, fst ind, snd ind, mem)
       else if nalUnitType = 28 \<or> nalUnitType = 29 then
         bindE (byte_at mem (off + 1)) (\<lambda>h1.
           let startBit = h1 AND 0x80; endBit = h1 AND 0x40 in
           if startBit \<noteq> 0 then
             (if \<not> nPayloadSize > 1 then Inl AssertFailed
              else Inr (1, True, endBit \<noteq> 0, mem[off + 1 := (h0 AND 0xE0) + (h1 AND 0x1F)]))
           else
             (if \<not> nPayloadSize > 2 then Inl AssertFailed
              else Inr (2, False, endBit \<noteq> 0, mem)))
       else Inr (0, True, True, mem))"

text \<open>\<open>Parse\<close>: the result code, the frame stored in \<open>*pMsg\<close> if one is, the parser and the memory.\<close>

definition RTPUDPParser_Parse ::
    "bool \<times> bool \<Rightarrow> u8 list \<Rightarrow> u32 \<Rightarrow> RTPUDPParser
       \<Rightarrow> (result \<times> H264Frame option \<times> RTPUDPParser \<times> u8 list) outcome" where
  "RTPUDPParser_Parse ind pBuf nLen p =
     (let frame0 = (if m_bFrameCompleted p then Reset (m_pH264Frame p) else m_pH264Frame p);
          pkt = InitPacket pBuf nLen (case m_pRTPPacket p of None \<Rightarrow> RTPPacket_new | Some q \<Rightarrow> q)
      in bindE (GetPayload pkt) (\<lambda>off.
         bindE (GetPayloadSize pkt) (\<lambda>nPayloadSize.
         bindE (nal_header ind pBuf off nPayloadSize) (\<lambda>(nExpectedHeaderSize, bNalBegin, bNalEnd, mem).
         bindE (if bNalBegin then bindE (AddNalStartCode frame0) (\<lambda>(_, f). Inr f) else Inr frame0) (\<lambda>frame1.
         bindE (FillData mem (off + unat nExpectedHeaderSize) (nPayloadSize - nExpectedHeaderSize) frame1)
           (\<lambda>(_, frame2).
         let pkt' = pkt\<lparr>m_pPacket := Some mem\<rparr> in
         bindE (if m_lTimestamp frame2 = 0
                then bindE (RTPPacket_GetTimestamp pkt') (\<lambda>ts. Inr (frame2\<lparr>m_lTimestamp := ts\<rparr>))
                else if \<not> bNalEnd then bindE (RTPPacket_GetTimestamp pkt') (\<lambda>_. Inr frame2)
                else Inr frame2) (\<lambda>frame3.
         bindE (IsMarker pkt') (\<lambda>mark.
           Inr (if mark then Z3 Z3_EOK else Z3 Z3_EINTR, if mark then Some frame3 else None,
                p\<lparr>m_pRTPPacket := Some pkt', m_pH264Frame := frame3, m_bFrameCompleted := mark\<rparr>, mem)))))))))"

section \<open>Frames as byte strings\<close>

text \<open>\<open>frame_holds f bs\<close>: the frame has its buffer and holds the bytes \<open>bs\<close>.\<close>

definition max_frame :: nat where "max_frame = 2097152"

definition frame_holds :: "H264Frame \<Rightarrow> u8 list \<Rightarrow> bool" where
  "frame_holds f bs \<longleftrightarrow> m_lMaxFrameSize f = of_nat max_frame \<and> m_lCurrPos f = of_nat (length bs)
     \<and> length bs \<le> max_frame \<and> (\<exists>b. m_pFrameBuf f = Some b \<and> length b = max_frame \<and> take (length bs) b = bs)"

lemma unat_small: "n \<le> 4 * max_frame \<Longrightarrow> unat (of_nat n :: u32) = n"
  by (intro unat_of_nat_u32) (simp add: max_frame_def)

lemma GetFrame_holds: "frame_holds f bs \<Longrightarrow> GetFrame f = bs"
  using unat_small [of "length bs"] by (auto simp: frame_holds_def GetFrame_def)

lemma frame_holds_timestamp [simp]: "frame_holds (f\<lparr>m_lTimestamp := t\<rparr>) bs = frame_holds f bs"
  by (simp add: frame_holds_def)

lemma frame_holds_Reset: "frame_holds f bs \<Longrightarrow> frame_holds (Reset f) []"
  by (auto simp: frame_holds_def Reset_def)

lemma frame_write_holds:
  assumes "frame_holds f bs" "length bs + length xs \<le> max_frame"
  obtains f' where "frame_write xs f = Inr f'" "frame_holds f' (bs @ xs)" "m_lTimestamp f' = m_lTimestamp f"
proof -
  obtain b where b: "m_pFrameBuf f = Some b" "length b = max_frame" "take (length bs) b = bs"
    using assms(1) by (auto simp: frame_holds_def)
  have pos: "unat (m_lCurrPos f) = length bs"
    using assms(1) unat_small [of "length bs"] by (simp add: frame_holds_def)
  let ?b = "take (length bs) b @ xs @ drop (length bs + length xs) b"
  let ?f = "f\<lparr>m_pFrameBuf := Some ?b, m_lCurrPos := m_lCurrPos f + of_nat (length xs)\<rparr>"
  have "frame_write xs f = Inr ?f" using b assms(2) pos by (simp add: frame_write_def)
  moreover have "frame_holds ?f (bs @ xs)" using b assms by (auto simp: frame_holds_def)
  ultimately show ?thesis using that [of ?f] by simp
qed

lemma size_check:
  assumes "frame_holds f bs" "n \<le> 2 * max_frame"
  shows "m_lCurrPos f + of_nat n > m_lMaxFrameSize f \<longleftrightarrow> max_frame < length bs + n"
proof -
  have "m_lCurrPos f + of_nat n = of_nat (length bs + n)" "m_lMaxFrameSize f = of_nat max_frame" "length bs \<le> max_frame"
    using assms(1) by (auto simp: frame_holds_def)
  then show ?thesis
    using unat_small [of "length bs + n"] unat_small [of max_frame] assms(2) by (simp only: word_less_nat_alt)
qed

lemma AddNalStartCode_holds:
  assumes "frame_holds f bs" "length bs + 4 \<le> max_frame"
  obtains f' where "AddNalStartCode f = Inr (True, f')" "frame_holds f' (bs @ [0, 0, 0, 1])" "m_lTimestamp f' = m_lTimestamp f"
proof -
  obtain f' where "frame_write [0, 0, 0, 1] f = Inr f'" "frame_holds f' (bs @ [0, 0, 0, 1])" "m_lTimestamp f' = m_lTimestamp f"
    using frame_write_holds [OF assms(1), of "[0, 0, 0, 1]"] assms(2) by auto
  moreover have "\<not> m_lCurrPos f + 4 > m_lMaxFrameSize f"
    using size_check [OF assms(1), of 4] assms(2) by (simp add: max_frame_def)
  ultimately show ?thesis using that by (simp add: AddNalStartCode_def)
qed

lemma FillData_holds:
  assumes "frame_holds f bs" "off + n \<le> length mem" "length bs + n \<le> max_frame"
  obtains f' where "FillData mem off (of_nat n) f = Inr (of_nat n, f')"
    "frame_holds f' (bs @ take n (drop off mem))" "m_lTimestamp f' = m_lTimestamp f"
proof -
  have n: "unat (of_nat n :: u32) = n" using assms(3) by (intro unat_small) simp
  obtain f' where f': "frame_write (take n (drop off mem)) f = Inr f'" "frame_holds f' (bs @ take n (drop off mem))"
    "m_lTimestamp f' = m_lTimestamp f"
    using frame_write_holds [OF assms(1), of "take n (drop off mem)"] assms(2,3) by auto
  moreover have "\<not> m_lCurrPos f + of_nat n > m_lMaxFrameSize f"
    using size_check [OF assms(1), of n] assms(3) by simp
  ultimately show ?thesis using that assms(2) n by (simp add: FillData_def)
qed

section \<open>Packets without contributing sources or extension\<close>

definition plain_header :: "u8 list \<Rightarrow> bool" where
  "plain_header h \<longleftrightarrow> length h = 12 \<and> h ! 0 AND 0x0F = 0 \<and> h ! 0 AND 0x10 = 0"

abbreviation is_fu :: "u8 \<Rightarrow> bool" where
  "is_fu h0 \<equiv> h0 AND 0x1F = 28 \<or> h0 AND 0x1F = 29"

text \<open>Payloads the parser handles: a NAL unit, or a fragment with something in it.\<close>

definition valid_payload :: "u8 list \<Rightarrow> bool" where
  "valid_payload pl \<longleftrightarrow> pl \<noteq> [] \<and> pl ! 0 AND 0x1F \<notin> {24, 25, 26, 27}
     \<and> (is_fu (pl ! 0) \<longrightarrow> (if pl ! 1 AND 0x80 \<noteq> 0 then 1 < length pl else 2 < length pl))"

text \<open>What a payload adds to the frame, after RFC 6184.\<close>

definition nal_bytes :: "u8 list \<Rightarrow> u8 list" where
  "nal_bytes pl =
     (if is_fu (pl ! 0)
      then (if pl ! 1 AND 0x80 \<noteq> 0
            then [0, 0, 0, 1, (pl ! 0 AND 0xE0) + (pl ! 1 AND 0x1F)] @ drop 2 pl
            else drop 2 pl)
      else [0, 0, 0, 1] @ pl)"

lemma payload_offset_plain:
  assumes "plain_header h" "m_pPacket p = Some (h @ rest)"
  shows "GetPayload p = Inr 12"
proof -
  have len: "length h = 12" and b: "(h @ rest) ! 0 AND 0x0F = 0" "(h @ rest) ! 0 AND 0x10 = 0"
    using assms(1) by (auto simp: plain_header_def nth_append)
  have ne: "h \<noteq> []" using len by auto
  show ?thesis
    using len b ne assms(2) by (simp add: GetPayload_def packet_mem_def extension_def RTP_PKT_DATA_def csrc_count_def byte_at_def)
qed

lemma payload_plain:
  assumes "plain_header h" "m_pPacket p = Some (h @ rest)" "m_nPacketSize p = of_nat (12 + n)"
  shows "GetPayload p = Inr 12" "GetPayloadSize p = Inr (of_nat n)"
  using payload_offset_plain [OF assms(1,2)] assms(3) by (simp_all add: GetPayloadSize_def)

lemma packet_mem_update [simp]: "packet_mem (q\<lparr>m_pPacket := Some m\<rparr>) = Inr m"
  by (simp add: packet_mem_def)

lemma nal_header_valid:
  assumes "length h = 12" "valid_payload pl" "length pl < 2 ^ 32"
  shows "\<exists>k b e mem'. nal_header ind (h @ pl @ tail) 12 (of_nat (length pl)) = Inr (of_nat k, b, e, mem')
    \<and> k \<le> length pl \<and> k \<le> 2 \<and> take 12 mem' = h \<and> length mem' = length (h @ pl @ tail)
    \<and> (if b then [0, 0, 0, 1] else []) @ take (length pl - k) (drop (12 + k) mem') = nal_bytes pl"
proof -
  let ?mem = "h @ pl @ tail"
  have ne: "pl \<noteq> []" and agg: "pl ! 0 AND 0x1F \<notin> {24, 25, 26, 27}" using assms(2) by (auto simp: valid_payload_def)
  have b0: "byte_at ?mem 12 = Inr (pl ! 0)" using assms(1) ne by (cases pl) (auto simp: byte_at_def nth_append)
  have size: "(of_nat (length pl) :: u32) > of_nat k \<longleftrightarrow> k < length pl" if "k \<le> 2" for k
    using that assms(3) unat_of_nat_u32 [of "length pl"] unat_of_nat_u32 [of k] by (simp only: word_less_nat_alt) simp
  show ?thesis
  proof (cases "is_fu (pl ! 0)")
    case False
    then have "nal_header ind ?mem 12 (of_nat (length pl)) = Inr (of_nat 0, True, True, ?mem)"
      using b0 agg by (simp add: nal_header_def Let_def)
    moreover have "nal_bytes pl = [0, 0, 0, 1] @ pl" using False by (simp add: nal_bytes_def)
    ultimately show ?thesis
      using assms(1) by (intro exI [of _ 0] exI [of _ True] exI [of _ ?mem] conjI) simp_all
  next
    case True
    then have fu: "if pl ! 1 AND 0x80 \<noteq> 0 then 1 < length pl else 2 < length pl"
      using assms(2) by (auto simp: valid_payload_def)
    then have two: "2 \<le> length pl" by (auto split: if_splits)
    then obtain a c pl' where pl: "pl = a # c # pl'" by (cases pl; cases "tl pl") auto
    have b1: "byte_at ?mem 13 = Inr c" using assms(1) pl by (simp add: byte_at_def nth_append)
    have upd: "?mem[13 := x] = h @ (a # x # pl') @ tail" for x
      using assms(1) by (simp add: pl list_update_append)
    show ?thesis
    proof (cases "c AND 0x80 \<noteq> 0")
      case start: True
      then have "nal_header ind ?mem 12 (of_nat (length pl)) =
          Inr (of_nat 1, True, c AND 0x40 \<noteq> 0, h @ (a # ((a AND 0xE0) + (c AND 0x1F)) # pl') @ tail)"
        using True b0 b1 agg size [of 1] two upd pl by (auto simp add: nal_header_def Let_def)
      moreover have "nal_bytes pl = [0, 0, 0, 1, (a AND 0xE0) + (c AND 0x1F)] @ pl'"
        using True start pl by (simp add: nal_bytes_def)
      ultimately show ?thesis using assms(1) pl by (intro exI [of _ 1] exI [of _ True] exI conjI) auto
    next
      case mid: False
      then have "nal_header ind ?mem 12 (of_nat (length pl)) = Inr (of_nat 2, False, c AND 0x40 \<noteq> 0, ?mem)"
        using True mid b0 b1 agg size [of 2] fu pl by (auto simp add: nal_header_def Let_def)
      moreover have "nal_bytes pl = pl'" using True mid pl by (simp add: nal_bytes_def)
      ultimately show ?thesis using assms(1) pl by (intro exI [of _ 2] exI [of _ False] exI conjI) auto
    qed
  qed
qed

text \<open>The frame a packet is added to: the next packet after a completed frame starts a new one.\<close>

definition open_frame :: "RTPUDPParser \<Rightarrow> H264Frame" where
  "open_frame p = (if m_bFrameCompleted p then Reset (m_pH264Frame p) else m_pH264Frame p)"

definition marked :: "u8 list \<Rightarrow> bool" where
  "marked h \<longleftrightarrow> h ! 1 AND 0x80 \<noteq> 0"

definition header_timestamp :: "u8 list \<Rightarrow> u32" where
  "header_timestamp h = push_bit 24 (ucast (h ! 4)) OR push_bit 16 (ucast (h ! 5))
     OR push_bit 8 (ucast (h ! 6)) OR ucast (h ! 7)"

lemma header_fields:
  assumes "take 12 mem = h" "length h = 12"
  shows "marker mem = Inr (marked h)" "be32 mem 4 = Inr (header_timestamp h)"
proof -
  have len: "12 \<le> length mem" using assms by auto
  have nth: "mem ! i = h ! i" if "i < 12" for i using assms that by (metis nth_take)
  show "marker mem = Inr (marked h)" using len nth [of 1] by (auto simp: marker_def byte_at_def marked_def)
  show "be32 mem 4 = Inr (header_timestamp h)"
    using len nth by (simp add: be32_def header_timestamp_def)
qed

lemma Parse_plain:
  assumes h: "plain_header h" and pl: "valid_payload pl" and holds: "frame_holds (open_frame p) bs"
    and fits: "length (bs @ nal_bytes pl) \<le> max_frame" "length pl \<le> max_frame"
  obtains p' mem' where
    "RTPUDPParser_Parse ind (h @ pl @ tail) (of_nat (12 + length pl)) p =
       Inr (if marked h then EOK else Z3 Z3_EINTR, if marked h then Some (m_pH264Frame p') else None, p', mem')"
    "frame_holds (m_pH264Frame p') (bs @ nal_bytes pl)" "m_bFrameCompleted p' = marked h"
    "m_lTimestamp (m_pH264Frame p') =
       (if m_lTimestamp (open_frame p) = 0 then header_timestamp h else m_lTimestamp (open_frame p))"
proof -
  let ?mem = "h @ pl @ tail" and ?n = "length pl"
  let ?pkt = "InitPacket ?mem (of_nat (12 + ?n)) (case m_pRTPPacket p of None \<Rightarrow> RTPPacket_new | Some q \<Rightarrow> q)"
  have lenh: "length h = 12" using h by (simp add: plain_header_def)
  have small: "?n < 2 ^ 32" using fits(2) by (simp add: max_frame_def)
  have payload: "GetPayload ?pkt = Inr 12" "GetPayloadSize ?pkt = Inr (of_nat ?n)"
    using payload_plain [OF h, of ?pkt "pl @ tail" ?n] by (simp_all add: InitPacket_def)
  obtain k b e mem' where nh: "nal_header ind ?mem 12 (of_nat ?n) = Inr (of_nat k, b, e, mem')"
    and k: "k \<le> ?n" "k \<le> 2" and mem': "take 12 mem' = h" "length mem' = length ?mem"
    and bytes: "(if b then [0, 0, 0, 1] else []) @ take (?n - k) (drop (12 + k) mem') = nal_bytes pl"
    using nal_header_valid [OF lenh pl small, of ind tail] by auto
  have room: "12 + k + (?n - k) \<le> length mem'" using mem' k lenh by simp
  have nb: "length (nal_bytes pl) = (if b then 4 else 0) + (?n - k)"
    unfolding bytes [symmetric] using room by auto
  obtain f1 where f1: "(if b then bindE (AddNalStartCode (open_frame p)) (\<lambda>(_, f). Inr f) else Inr (open_frame p)) = Inr f1"
    and f1h: "frame_holds f1 (bs @ (if b then [0, 0, 0, 1] else []))" and t1: "m_lTimestamp f1 = m_lTimestamp (open_frame p)"
  proof (cases b)
    case True
    then have "length bs + 4 \<le> max_frame" using fits(1) nb by simp
    from AddNalStartCode_holds [OF holds this] obtain f' where "AddNalStartCode (open_frame p) = Inr (True, f')"
      "frame_holds f' (bs @ [0, 0, 0, 1])" "m_lTimestamp f' = m_lTimestamp (open_frame p)" .
    with True show ?thesis using that [of f'] by simp
  qed (use that holds in simp)
  have "length (bs @ (if b then [0, 0, 0, 1] else [])) + (?n - k) \<le> max_frame" using fits(1) nb by auto
  from FillData_holds [OF f1h room this] obtain f2
    where f2: "FillData mem' (12 + k) (of_nat (?n - k)) f1 = Inr (of_nat (?n - k), f2)"
      and f2h: "frame_holds f2 (bs @ nal_bytes pl)" and t2: "m_lTimestamp f2 = m_lTimestamp (open_frame p)"
    using bytes t1 by auto
  have sub: "(of_nat ?n :: u32) - of_nat k = of_nat (?n - k)" using k by simp
  have uk: "unat (of_nat k :: u32) = k" using k by (intro unat_of_nat_u32) simp
  let ?f3 = "if m_lTimestamp f2 = 0 then f2\<lparr>m_lTimestamp := header_timestamp h\<rparr> else f2"
  let ?p' = "p\<lparr>m_pRTPPacket := Some (?pkt\<lparr>m_pPacket := Some mem'\<rparr>), m_pH264Frame := ?f3, m_bFrameCompleted := marked h\<rparr>"
  have ts: "RTPPacket_GetTimestamp (?pkt\<lparr>m_pPacket := Some mem'\<rparr>) = Inr (header_timestamp h)"
    and mk: "IsMarker (?pkt\<lparr>m_pPacket := Some mem'\<rparr>) = Inr (marked h)"
    using header_fields [OF mem'(1) lenh] by (simp_all only: RTPPacket_GetTimestamp_def IsMarker_def packet_mem_update bindE.simps)
  have f3: "(if m_lTimestamp f2 = 0 then Inr (f2\<lparr>m_lTimestamp := header_timestamp h\<rparr>)
      else if \<not> e then Inr f2 else Inr f2) = Inr ?f3"
    by simp
  have "RTPUDPParser_Parse ind ?mem (of_nat (12 + ?n)) p =
       Inr (if marked h then EOK else Z3 Z3_EINTR, if marked h then Some ?f3 else None, ?p', mem')"
    unfolding RTPUDPParser_Parse_def Let_def payload bindE.simps nh case_prod_conv open_frame_def [symmetric] f1 uk sub f2
      ts mk f3 by (rule refl)
  with f2h t2 show ?thesis using that [of ?p' mem'] by simp
qed

section \<open>Sequences of packets\<close>

text \<open>The datagrams of a session, each a receive buffer and the size received, parsed one after the other.\<close>

fun receive :: "bool \<times> bool \<Rightarrow> (u8 list \<times> u32) list \<Rightarrow> RTPUDPParser
    \<Rightarrow> ((result \<times> H264Frame option) list \<times> RTPUDPParser) outcome" where
  "receive ind [] p = Inr ([], p)"
| "receive ind ((pBuf, nLen) # ds) p =
     bindE (RTPUDPParser_Parse ind pBuf nLen p) (\<lambda>(res, msg, p', _).
       bindE (receive ind ds p') (\<lambda>(out, p''). Inr ((res, msg) # out, p'')))"

text \<open>A packet here is its header, its payload and what follows it in the receive buffer.\<close>

type_synonym packet = "u8 list \<times> u8 list \<times> u8 list"

fun datagram :: "packet \<Rightarrow> u8 list \<times> u32" where
  "datagram (h, pl, tail) = (h @ pl @ tail, of_nat (12 + length pl))"

fun sound_packet :: "u32 \<Rightarrow> packet \<Rightarrow> bool" where
  "sound_packet ts (h, pl, tail) \<longleftrightarrow> plain_header h \<and> valid_payload pl \<and> length pl \<le> 65507 \<and> header_timestamp h = ts"

abbreviation packet_bytes :: "packet \<Rightarrow> u8 list" where
  "packet_bytes k \<equiv> nal_bytes (fst (snd k))"

definition collecting :: "u32 \<Rightarrow> u8 list \<Rightarrow> RTPUDPParser \<Rightarrow> bool" where
  "collecting ts bs p \<longleftrightarrow> frame_holds (open_frame p) bs
     \<and> m_lTimestamp (open_frame p) \<in> (if bs = [] then {0, ts} else {ts})"

definition ready :: "RTPUDPParser \<Rightarrow> bool" where
  "ready p \<longleftrightarrow> frame_holds (open_frame p) [] \<and> m_lTimestamp (open_frame p) = 0"

lemma ready_new: "mok 2097152 \<Longrightarrow> ready (RTPUDPParser_new mok junk)"
  by (simp add: ready_def RTPUDPParser_new_def open_frame_def frame_holds_def Allocate_def
      H264Frame_new_def H264_MAX_FRAME_SIZE_def max_frame_def)

lemma nal_bytes_ne: "valid_payload pl \<Longrightarrow> nal_bytes pl \<noteq> []"
  by (cases pl; cases "tl pl") (auto simp: nal_bytes_def valid_payload_def split: if_splits)

lemma packet_step:
  assumes k: "sound_packet ts k" and p: "collecting ts bs p" and fits: "length (bs @ packet_bytes k) \<le> max_frame"
  obtains p' mem' where
    "RTPUDPParser_Parse ind (fst (datagram k)) (snd (datagram k)) p =
       Inr (if marked (fst k) then EOK else Z3 Z3_EINTR, if marked (fst k) then Some (m_pH264Frame p') else None, p', mem')"
    "marked (fst k) \<Longrightarrow> GetFrame (m_pH264Frame p') = bs @ packet_bytes k \<and> m_lTimestamp (m_pH264Frame p') = ts \<and> ready p'"
    "\<not> marked (fst k) \<Longrightarrow> collecting ts (bs @ packet_bytes k) p'"
proof -
  obtain h pl tail where k_eq: "k = (h, pl, tail)" by (cases k) auto
  with k have h: "plain_header h" "valid_payload pl" "length pl \<le> max_frame" "header_timestamp h = ts"
    by (auto simp: max_frame_def)
  have holds: "frame_holds (open_frame p) bs" using p by (simp add: collecting_def)
  obtain p' mem' where step: "RTPUDPParser_Parse ind (h @ pl @ tail) (of_nat (12 + length pl)) p =
       Inr (if marked h then EOK else Z3 Z3_EINTR, if marked h then Some (m_pH264Frame p') else None, p', mem')"
    and p': "frame_holds (m_pH264Frame p') (bs @ nal_bytes pl)" "m_bFrameCompleted p' = marked h"
    and t: "m_lTimestamp (m_pH264Frame p') =
       (if m_lTimestamp (open_frame p) = 0 then header_timestamp h else m_lTimestamp (open_frame p))"
    using Parse_plain [OF h(1,2) holds] fits h(3) by (metis fst_conv k_eq snd_conv)
  have t': "m_lTimestamp (m_pH264Frame p') = ts"
    using t h(4) p by (auto simp: collecting_def split: if_splits)
  show ?thesis
  proof (rule that)
    show "RTPUDPParser_Parse ind (fst (datagram k)) (snd (datagram k)) p =
       Inr (if marked (fst k) then EOK else Z3 Z3_EINTR, if marked (fst k) then Some (m_pH264Frame p') else None, p', mem')"
      using step by (simp add: k_eq)
    show "GetFrame (m_pH264Frame p') = bs @ packet_bytes k \<and> m_lTimestamp (m_pH264Frame p') = ts \<and> ready p'"
      if "marked (fst k)"
      using that p' t' frame_holds_Reset [OF p'(1)] GetFrame_holds [OF p'(1)]
      by (simp add: k_eq ready_def open_frame_def Reset_def)
    show "collecting ts (bs @ packet_bytes k) p'" if "\<not> marked (fst k)"
      using that p' t' by (simp add: k_eq collecting_def open_frame_def)
  qed
qed

text \<open>An access unit: the packets before the last are not marked, the last is.\<close>

lemma receive_unit:
  assumes "\<forall>k \<in> set (ks @ [k']). sound_packet ts k" "\<forall>k \<in> set ks. \<not> marked (fst k)" "marked (fst k')"
    "collecting ts bs p" "length (bs @ concat (map packet_bytes (ks @ [k']))) \<le> max_frame"
  shows "\<exists>f p'. receive ind (map datagram (ks @ [k'])) p =
      Inr (replicate (length ks) (Z3 Z3_EINTR, None) @ [(EOK, Some f)], p')
    \<and> GetFrame f = bs @ concat (map packet_bytes (ks @ [k'])) \<and> m_lTimestamp f = ts \<and> ready p'"
  using assms
proof (induction ks arbitrary: p bs)
  case Nil
  then obtain p' mem' where "RTPUDPParser_Parse ind (fst (datagram k')) (snd (datagram k')) p =
       Inr (EOK, Some (m_pH264Frame p'), p', mem')"
     "GetFrame (m_pH264Frame p') = bs @ packet_bytes k' \<and> m_lTimestamp (m_pH264Frame p') = ts \<and> ready p'"
    using packet_step [of ts k' bs p ind] by auto
  then show ?case by (cases "datagram k'") simp
next
  case (Cons k ks)
  then have k: "sound_packet ts k" "length (bs @ packet_bytes k) \<le> max_frame" and unmarked: "\<not> marked (fst k)" by auto
  obtain p1 mem1 where step: "RTPUDPParser_Parse ind (fst (datagram k)) (snd (datagram k)) p =
       Inr (Z3 Z3_EINTR, None, p1, mem1)" and p1: "collecting ts (bs @ packet_bytes k) p1"
    by (rule packet_step [OF k(1) Cons.prems(4) k(2), of ind]) (use unmarked in auto)
  obtain f p' where "receive ind (map datagram (ks @ [k'])) p1 =
      Inr (replicate (length ks) (Z3 Z3_EINTR, None) @ [(EOK, Some f)], p')"
    "GetFrame f = (bs @ packet_bytes k) @ concat (map packet_bytes (ks @ [k']))" "m_lTimestamp f = ts" "ready p'"
    using Cons.IH [OF _ _ _ p1] Cons.prems by auto
  with step show ?case by (cases "datagram k") simp
qed

lemma ready_collecting: "ready p \<Longrightarrow> collecting ts [] p"
  by (simp add: ready_def collecting_def)

section \<open>Fragmented NAL units\<close>

text \<open>The FU-A payloads of a NAL unit with header byte \<open>hdr\<close>, its other bytes cut into chunks (RFC 6184, 5.8).\<close>

definition fu_indicator :: "u8 \<Rightarrow> u8" where "fu_indicator hdr = (hdr AND 0xE0) OR 28"
definition fu_header :: "u8 \<Rightarrow> u8 \<Rightarrow> u8" where "fu_header flag hdr = flag OR (hdr AND 0x1F)"

fun fu_rest :: "u8 \<Rightarrow> u8 list list \<Rightarrow> u8 list list" where
  "fu_rest hdr [] = []"
| "fu_rest hdr [c] = [fu_indicator hdr # fu_header 0x40 hdr # c]"
| "fu_rest hdr (c # cs) = (fu_indicator hdr # fu_header 0 hdr # c) # fu_rest hdr cs"

fun fu_payloads :: "u8 \<Rightarrow> u8 list list \<Rightarrow> u8 list list" where
  "fu_payloads hdr [] = []"
| "fu_payloads hdr (c # cs) = (fu_indicator hdr # fu_header 0x80 hdr # c) # fu_rest hdr cs"

lemma nal_byte_split: "(h AND 0xE0) + (h AND 0x1F) = (h :: u8)"
proof -
  have "(h AND 0xE0) + (h AND 0x1F) = (h AND 0xE0) OR (h AND 0x1F)"
    using word_plus_and_or [of "h AND 0xE0" "h AND 0x1F"] by (simp add: and.assoc and.left_commute [of _ h])
  also have "\<dots> = h AND 0xFF" by (simp add: bit.conj_disj_distrib [symmetric])
  also have "(0xFF :: u8) = -1" by simp
  also have "h AND -1 = h" by simp
  finally show ?thesis .
qed

lemma fu_bits:
  "fu_indicator h AND 0x1F = 28" "fu_header 0x80 h AND 0x80 \<noteq> 0" "fu_header 0x40 h AND 0x80 = 0"
  "fu_header 0 h AND 0x80 = 0" "(fu_indicator h AND 0xE0) + (fu_header 0x80 h AND 0x1F) = h"
  using nal_byte_split [of h]
  by (simp_all add: fu_indicator_def fu_header_def bit.conj_disj_distrib2 and.assoc)

lemma fu_rest_bytes: "concat (map nal_bytes (fu_rest hdr cs)) = concat cs"
  by (induction hdr cs rule: fu_rest.induct) (simp_all add: nal_bytes_def fu_bits)

lemma fu_payloads_bytes: "concat (map nal_bytes (fu_payloads hdr (c # cs))) = [0, 0, 0, 1, hdr] @ c @ concat cs"
  by (simp add: fu_rest_bytes) (simp add: nal_bytes_def fu_bits)

lemma valid_fu: "c \<noteq> [] \<Longrightarrow> valid_payload (fu_indicator hdr # fu_header flag hdr # c)"
  by (cases c) (simp_all add: valid_payload_def fu_bits)

lemma valid_fu_rest: "\<forall>c \<in> set cs. c \<noteq> [] \<Longrightarrow> \<forall>pl \<in> set (fu_rest hdr cs). valid_payload pl"
  by (induction hdr cs rule: fu_rest.induct) (simp_all add: valid_fu)

lemma valid_fu_payloads: "\<forall>c \<in> set cs. c \<noteq> [] \<Longrightarrow> \<forall>pl \<in> set (fu_payloads hdr cs). valid_payload pl"
  by (cases cs) (use valid_fu_rest in \<open>auto simp: valid_fu\<close>)

lemma fu_rest_sizes: "\<forall>c \<in> set cs. length c \<le> n \<Longrightarrow> \<forall>pl \<in> set (fu_rest hdr cs). length pl \<le> n + 2"
  by (induction hdr cs rule: fu_rest.induct) simp_all

lemma fu_sizes: "\<forall>c \<in> set cs. length c \<le> n \<Longrightarrow> \<forall>pl \<in> set (fu_payloads hdr cs). length pl \<le> n + 2"
  by (cases cs) (use fu_rest_sizes in auto)

text \<open>The check of \<open>FillData\<close> with a size that wrapped around.\<close>

lemma FillData_short:
  assumes "frame_holds f bs" "j < 12" "length mem < 4294967200"
  shows "FillData mem 12 (of_nat j - 12) f = Inl (if 12 - j \<le> length bs then OutOfBounds else AssertFailed)"
proof -
  have neg: "(of_nat j - 12 :: u32) = of_nat (4294967284 + j)" by simp
  have size: "unat (of_nat j - 12 :: u32) = 4294967284 + j"
    unfolding neg using assms(2) by (intro unat_of_nat_u32) simp
  have pos: "m_lCurrPos f = of_nat (length bs)" "length bs \<le> max_frame" "m_lMaxFrameSize f = of_nat max_frame"
    using assms(1) by (auto simp: frame_holds_def)
  have max: "unat (m_lMaxFrameSize f) = max_frame" using pos(3) unat_small [of max_frame] by simp
  have "m_lCurrPos f + (of_nat j - 12) > m_lMaxFrameSize f \<longleftrightarrow> \<not> 12 - j \<le> length bs"
  proof (cases "12 - j \<le> length bs")
    case True
    then have "m_lCurrPos f + (of_nat j - 12) = of_nat (length bs + j - 12)" using assms(2) pos(1) by (simp add: of_nat_diff)
    then have "unat (m_lCurrPos f + (of_nat j - 12)) = length bs + j - 12"
      by (simp only:) (rule unat_small, use pos(2) assms(2) in simp)
    then show ?thesis using True max pos(2) assms(2) by (simp add: word_less_nat_alt)
  next
    case False
    then have "m_lCurrPos f + (of_nat j - 12) = of_nat (4294967284 + j + length bs)" using pos(1) by simp
    then have "unat (m_lCurrPos f + (of_nat j - 12)) = 4294967284 + j + length bs"
      using False by (simp only:) (intro unat_of_nat_u32, simp)
    then show ?thesis using False max by (simp add: word_less_nat_alt max_frame_def)
  qed
  then show ?thesis using size assms(3) by (simp add: FillData_def)
qed

section \<open>What the parser delivers\<close>

definition sample_header :: "u8 \<Rightarrow> u8 list" where
  "sample_header b1 = [0x80, b1, 0, 1, 0, 0, 0, 5, 0, 0, 0, 7]"

lemma sample_header:
  "plain_header (sample_header b)" "marked (sample_header b) \<longleftrightarrow> b AND 0x80 \<noteq> 0" "header_timestamp (sample_header b) = 5"
  by (simp_all add: plain_header_def sample_header_def marked_def header_timestamp_def)

text \<open>C8. A parser with no frame begun, given the packets of one access unit (RTP headers without
  contributing sources or extension and with one timestamp, payloads that are NAL units or fragments,
  the marker on the last packet only) of at most 2 MiB, answers \<open>Z3_EINTR\<close> to every packet but the last
  and delivers a frame at the last: each NAL unit after its start code, in order, with that timestamp;
  the parser is then ready for the next access unit.\<close>

theorem frame_reassembly:
  assumes "ready p" "\<forall>k \<in> set (ks @ [k']). sound_packet ts k" "\<forall>k \<in> set ks. \<not> marked (fst k)" "marked (fst k')"
    "length (concat (map packet_bytes (ks @ [k']))) \<le> 2097152"
  shows "\<exists>f p'. receive ind (map datagram (ks @ [k'])) p =
      Inr (replicate (length ks) (Z3 Z3_EINTR, None) @ [(EOK, Some f)], p')
    \<and> GetFrame f = concat (map packet_bytes (ks @ [k'])) \<and> m_lTimestamp f = ts \<and> ready p'"
  using receive_unit [of ks k' ts "[]" p ind] assms ready_collecting [OF assms(1), of ts]
  by (simp add: max_frame_def)

theorem frame_reassembly_witness:
  "\<exists>f p'. receive (True, True) [(sample_header 0x60 @ [0x67, 0x42], 14), (sample_header 0xE0 @ [0x65, 0x88, 0x84] @ [9], 15)]
       (RTPUDPParser_new alloc_ok (\<lambda>_. 0)) = Inr ([(Z3 Z3_EINTR, None), (EOK, Some f)], p')
     \<and> GetFrame f = [0, 0, 0, 1, 0x67, 0x42, 0, 0, 0, 1, 0x65, 0x88, 0x84] \<and> m_lTimestamp f = 5 \<and> ready p'"
  using frame_reassembly [of "RTPUDPParser_new alloc_ok (\<lambda>_. 0)" "[(sample_header 0x60, [0x67, 0x42], [])]"
      "(sample_header 0xE0, [0x65, 0x88, 0x84], [9])" 5 "(True, True)"]
    ready_new [of alloc_ok "\<lambda>_. 0", OF alloc_ok]
  by (simp add: sample_header valid_payload_def nal_bytes_def)

text \<open>C9. A NAL unit sent as FU-A fragments of any sizes comes out as if it had been sent whole: the
  frame is the start code, the header byte rebuilt from the two fragment headers, and the body.\<close>

theorem fragments_reassemble:
  assumes "ready p" "map (\<lambda>k. fst (snd k)) (ks @ [k']) = fu_payloads hdr (c # cs)"
    "\<forall>x \<in> set (c # cs). x \<noteq> [] \<and> length x \<le> 65505"
    "\<forall>k \<in> set (ks @ [k']). plain_header (fst k) \<and> header_timestamp (fst k) = ts"
    "\<forall>k \<in> set ks. \<not> marked (fst k)" "marked (fst k')" "length (c @ concat cs) \<le> 2097147"
  shows "\<exists>f p'. receive ind (map datagram (ks @ [k'])) p =
      Inr (replicate (length ks) (Z3 Z3_EINTR, None) @ [(EOK, Some f)], p')
    \<and> GetFrame f = [0, 0, 0, 1] @ hdr # c @ concat cs \<and> ready p'"
proof -
  have bytes: "concat (map packet_bytes (ks @ [k'])) = [0, 0, 0, 1, hdr] @ c @ concat cs"
    using arg_cong [OF assms(2), of "map nal_bytes"] fu_payloads_bytes [of hdr c cs] by (simp add: o_def)
  have sizes: "\<forall>pl \<in> set (fu_payloads hdr (c # cs)). length pl \<le> 65507"
    using fu_sizes [of "c # cs" 65505 hdr] assms(3) by simp
  have payloads: "valid_payload (fst (snd k)) \<and> length (fst (snd k)) \<le> 65507" if "k \<in> set (ks @ [k'])" for k
  proof -
    have "fst (snd k) \<in> set (fu_payloads hdr (c # cs))"
      unfolding assms(2) [symmetric] set_map using that by (rule imageI)
    then show ?thesis using sizes valid_fu_payloads [of "c # cs" hdr] assms(3) by auto
  qed
  have "sound_packet ts k" if "k \<in> set (ks @ [k'])" for k
    using payloads [OF that] assms(4) that by (cases k) auto
  then have all: "\<forall>k \<in> set (ks @ [k']). sound_packet ts k" by blast
  have len: "length ([] @ concat (map packet_bytes (ks @ [k']))) \<le> max_frame"
    unfolding bytes using assms(7) by (simp add: max_frame_def)
  from receive_unit [OF all assms(5,6) ready_collecting [OF assms(1)] len, of ind] obtain f p'
    where "receive ind (map datagram (ks @ [k'])) p = Inr (replicate (length ks) (Z3 Z3_EINTR, None) @ [(EOK, Some f)], p')"
      "GetFrame f = [] @ concat (map packet_bytes (ks @ [k']))" "ready p'"
    by blast
  then show ?thesis unfolding bytes by auto
qed

theorem fragments_reassemble_witness:
  "\<exists>f p'. receive (True, True) [(sample_header 0x60 @ [0x7C, 0x85, 1, 2], 16), (sample_header 0xE0 @ [0x7C, 0x45, 3], 15)]
       (RTPUDPParser_new alloc_ok (\<lambda>_. 0)) = Inr ([(Z3 Z3_EINTR, None), (EOK, Some f)], p')
     \<and> GetFrame f = [0, 0, 0, 1, 0x65, 1, 2, 3] \<and> ready p'"
  using fragments_reassemble [of "RTPUDPParser_new alloc_ok (\<lambda>_. 0)" "[(sample_header 0x60, [0x7C, 0x85, 1, 2], [])]"
      "(sample_header 0xE0, [0x7C, 0x45, 3], [])" "0x65" "[1, 2]" "[[3]]" 5 "(True, True)"]
    ready_new [of alloc_ok "\<lambda>_. 0", OF alloc_ok]
  by (simp add: sample_header fu_indicator_def fu_header_def)

text \<open>Where the payload begins, for every header that is inside the buffer: 16 bytes are skipped for
  each contributing source, where an identifier has 4, so the offset is the one of RFC 3550 exactly when there is
  no contributing source.\<close>

theorem GetPayload_offset:
  assumes "m_pPacket p = Some mem" "12 \<le> length mem"
    "cc = unat (mem ! 0 AND 0x0F)" "ext \<longleftrightarrow> mem ! 0 AND 0x10 \<noteq> 0" "ext \<longrightarrow> 16 + 16 * cc \<le> length mem"
  shows "\<exists>words. GetPayload p = Inr (12 + 16 * cc + (if ext then 4 + 4 * words else 0))
     \<and> words < 65536 \<and> GetPayloadSize p = Inr (m_nPacketSize p - of_nat (12 + 16 * cc + (if ext then 4 + 4 * words else 0)))
     \<and> (12 + 16 * cc = 12 + 4 * cc \<longleftrightarrow> cc = 0)"
proof -
  define words where "words = unat (push_bit 8 (ucast (mem ! (14 + 16 * cc))) OR ucast (mem ! (15 + 16 * cc)) :: u16)"
  have "words < 65536" using unsigned_less [where 'a = nat, of "push_bit 8 (ucast (mem ! (14 + 16 * cc))) OR ucast (mem ! (15 + 16 * cc)) :: u16"]
    by (simp add: words_def)
  moreover have pl: "GetPayload p = Inr (12 + 16 * cc + (if ext then 4 + 4 * words else 0))"
  proof -
    have "byte_at mem 0 = Inr (mem ! 0)" using assms(2) by (auto simp: byte_at_def)
    then have head: "extension mem = Inr ext" "RTP_PKT_DATA mem = Inr (12 + 16 * cc)"
      using assms(3,4) by (simp_all add: extension_def RTP_PKT_DATA_def csrc_count_def)
    have "be16 mem (12 + 16 * cc + 2) = Inr (push_bit 8 (ucast (mem ! (14 + 16 * cc))) OR ucast (mem ! (15 + 16 * cc)))" if ext
      using that assms(5) by (simp add: be16_def)
    then show ?thesis by (simp add: GetPayload_def packet_mem_def assms(1) head words_def)
  qed
  ultimately show ?thesis by (intro exI [of _ words]) (simp add: GetPayloadSize_def)
qed

theorem GetPayload_offset_witness:
  "\<exists>words. GetPayload \<lparr>m_pPacket = Some (0x81 # replicate 40 0), m_nPacketSize = 41\<rparr> = Inr (12 + 16 * 1 + 0 * words)"
  using GetPayload_offset [of "\<lparr>m_pPacket = Some (0x81 # replicate 40 0), m_nPacketSize = 41\<rparr>" "0x81 # replicate 40 0" 1 False]
  by auto

text \<open>A datagram shorter than its RTP header is not rejected. The payload size wraps around; where the
  frame already holds enough bytes the check of \<open>FillData\<close> wraps as well and nearly 4 GiB are read behind the
  buffer, and otherwise its \<open>assert\<close> fails. No such packet is survived.\<close>

theorem short_packet_faults:
  assumes "plain_header h" "j < 12" "frame_holds (open_frame p) bs" "length bs + 4 \<le> 2097152"
    "b AND 0x1F \<notin> {24, 25, 26, 27, 28, 29}" "length rest < 4294967000"
  shows "RTPUDPParser_Parse ind (h @ b # rest) (of_nat j) p =
     Inl (if 12 - j \<le> length bs + 4 then OutOfBounds else AssertFailed)"
proof -
  let ?mem = "h @ b # rest"
  let ?pkt = "InitPacket ?mem (of_nat j) (case m_pRTPPacket p of None \<Rightarrow> RTPPacket_new | Some q \<Rightarrow> q)"
  let ?size = "of_nat j - 12 :: u32"
  have lenh: "length h = 12" using assms(1) by (simp add: plain_header_def)
  have payload: "GetPayload ?pkt = Inr 12"
    by (rule payload_offset_plain [OF assms(1), of _ "b # rest"]) (simp add: InitPacket_def)
  then have psize: "GetPayloadSize ?pkt = Inr ?size" by (simp add: GetPayloadSize_def InitPacket_def)
  have nh: "nal_header ind ?mem 12 ?size = Inr (0, True, True, ?mem)"
    using lenh assms(5) by (simp add: nal_header_def byte_at_def nth_append)
  obtain f where f: "AddNalStartCode (open_frame p) = Inr (True, f)" "frame_holds f (bs @ [0, 0, 0, 1])"
    using AddNalStartCode_holds [OF assms(3)] assms(4) by (auto simp: max_frame_def)
  have "FillData ?mem 12 ?size f = Inl (if 12 - j \<le> length bs + 4 then OutOfBounds else AssertFailed)"
    using FillData_short [OF f(2) assms(2), of ?mem] lenh assms(6) by simp
  then show ?thesis
    unfolding RTPUDPParser_Parse_def Let_def payload psize bindE.simps nh case_prod_conv open_frame_def [symmetric] if_True f
    by simp
qed

theorem short_packet_faults_witness:
  "RTPUDPParser_Parse (True, True) (sample_header 0xE0 @ [0x65]) 8 (RTPUDPParser_new alloc_ok (\<lambda>_. 0)) = Inl OutOfBounds"
  using short_packet_faults [of "sample_header 0xE0" 8 "RTPUDPParser_new alloc_ok (\<lambda>_. 0)" "[]" "0x65" "[]" "(True, True)"]
    ready_new [of alloc_ok "\<lambda>_. 0", OF alloc_ok]
  by (simp add: sample_header ready_def)

text \<open>A message that was filled finds the payload where a packet does, but the size it answers is that of an empty packet: the
  offset of the payload, subtracted from nothing.\<close>

theorem RtpMsg_payload:
  assumes "RtpMsg_FillBuffer mok mem n RtpMsg_new = Inr (EOK, p)"
  defines "q \<equiv> InitPacket (take (unat n) mem) n RTPPacket_new"
  shows "RtpMsg_GetPayload p = GetPayload q"
    and "RtpMsg_GetPayloadSize p = bindE (GetPayloadSize q) (\<lambda>k. Inr (k - n))"
proof -
  have p: "p = \<lparr>rm_pPacket = Some (take (unat n) mem), rm_nPacketSize = 0\<rparr>"
    using assms(1) by (auto simp: RtpMsg_FillBuffer_def RtpMsg_new_def split: if_splits)
  show "RtpMsg_GetPayload p = GetPayload q"
    by (simp add: p q_def RtpMsg_GetPayload_def GetPayload_def packet_mem_def InitPacket_def)
  then show "RtpMsg_GetPayloadSize p = bindE (GetPayloadSize q) (\<lambda>k. Inr (k - n))"
    by (cases "GetPayload q") (simp_all add: p q_def RtpMsg_GetPayloadSize_def GetPayloadSize_def InitPacket_def)
qed

end
