(* ===== verification/Sockets.thy ===== *)
theory Sockets
  imports RtpMedia
begin

text \<open>
  Asynchronous sockets: \<open>z3_engine/z3_socket_obj.cpp\<close>, the overlapped structures of \<open>z3_io_endpoint.cpp\<close>, the UDP
  sessions of \<open>z3_udp_session.cpp\<close> and the RTP session built on them (\<open>z3_rtp_udp_session.cpp\<close>). Windows is a
  parameter, \<open>winsock\<close>: what each of its calls answers, a field being the error code, 0 for success. What the
  code asked of it is recorded in the socket: the reads it posted and the bytes it handed to \<open>WSASend\<close>.
\<close>

section \<open>Windows\<close>

record winsock =
  w_socket :: u32
  w_bind :: "nat \<Rightarrow> u32"
  w_close :: u32
  w_iocp :: u32
  w_send :: "string \<Rightarrow> u32"
  w_recv :: u32
  w_calloc :: bool
  w_delete_timer :: "u32 option"   \<comment> \<open>the error of \<open>DeleteTimer\<close>, if it fails\<close>

definition WSA_IO_PENDING :: u32 where "WSA_IO_PENDING = 997"
definition INFINITE :: u32 where "INFINITE = 0xFFFFFFFF"
definition SOCKET_READ_TIMEOUT :: u32 where "SOCKET_READ_TIMEOUT = 7000"
definition SOCKET_WRITE_TIMEOUT :: u32 where "SOCKET_WRITE_TIMEOUT = 3000"
definition SOCKET_SEND_BUFSIZE :: nat where "SOCKET_SEND_BUFSIZE = 4096"
definition SOCKET_RECV_BUFSIZE :: nat where "SOCKET_RECV_BUFSIZE = 4096"

definition wsa_error :: "u32 \<Rightarrow> result" where "wsa_error e = Z3 (Z3_WSA_ERROR e)"
definition sys_error :: "u32 \<Rightarrow> result" where "sys_error e = Z3 (Z3_SYS_ERROR e)"

text \<open>A service that is wholly available, with every call completing in the background.\<close>

definition ok_winsock :: winsock where
  "ok_winsock = \<lparr>w_socket = 0, w_bind = (\<lambda>_. 0), w_close = 0, w_iocp = 0, w_send = (\<lambda>_. WSA_IO_PENDING),
     w_recv = WSA_IO_PENDING, w_calloc = True, w_delete_timer = None\<rparr>"

section \<open>Overlapped structures\<close>

datatype ev_id =
    EV_UNKNOWN | EV_INSTANCE_START | EV_INSTANCE_STOP | EV_TIMEOUT | EV_READ | EV_WRITE | EV_CONNECT
  | EV_ACCEPT | EV_OP_ADD | EV_OP_REMOVE | EV_NOTIFY

record Z3_EV_OVL =
  ovl_id :: ev_id
  ovl_timer :: bool   \<comment> \<open>whether \<open>timer\<close> is not \<open>INVALID_HANDLE_VALUE\<close>\<close>

text \<open>\<open>AddTimer\<close> compares the handle it gets with \<open>INVALID_HANDLE_VALUE\<close>, which \<open>TimerEngine::AddTimer\<close> never
  returns (it answers NULL when it fails), so that it always succeeds.\<close>

definition AllocZ3Ovl :: "winsock \<Rightarrow> ev_id \<Rightarrow> u32 \<Rightarrow> Z3_EV_OVL option" where
  "AllocZ3Ovl w evID millseconds =
     (if \<not> w_calloc w then None
      else if millseconds > 0 \<and> millseconds < INFINITE then Some \<lparr>ovl_id = evID, ovl_timer = True\<rparr>
      else Some \<lparr>ovl_id = evID, ovl_timer = False\<rparr>)"

definition CancelTimer :: "winsock \<Rightarrow> Z3_EV_OVL \<Rightarrow> result \<times> Z3_EV_OVL" where
  "CancelTimer w pOvl =
     (if \<not> ovl_timer pOvl then (Z3 Z3_EINVAL, pOvl)
      else case w_delete_timer w of
        None \<Rightarrow> (EOK, pOvl\<lparr>ovl_timer := False\<rparr>)
      | Some e \<Rightarrow> (sys_error e, pOvl))"

section \<open>Sockets\<close>

record SocketObj =
  m_hSocket :: bool        \<comment> \<open>whether it is not \<open>INVALID_SOCKET\<close>\<close>
  m_hClosedEvent :: bool   \<comment> \<open>whether the event exists\<close>
  closed :: bool           \<comment> \<open>the event is signalled\<close>
  reads :: nat             \<comment> \<open>reads posted and not completed\<close>
  sent :: "string list"    \<comment> \<open>what was handed to \<open>WSASend\<close>, in order\<close>

definition SocketObj_new :: SocketObj where
  "SocketObj_new = \<lparr>m_hSocket = False, m_hClosedEvent = False, closed = False, reads = 0, sent = []\<rparr>"

definition SocketObj_Init :: "winsock \<Rightarrow> SocketObj \<Rightarrow> (result \<times> SocketObj) outcome" where
  "SocketObj_Init w s =
     (if m_hSocket s then Inl AssertFailed
      else let s' = s\<lparr>m_hSocket := (w_socket w = 0), m_hClosedEvent := True\<rparr>
           in Inr (if m_hSocket s' then EOK else wsa_error (w_socket w), s'))"

definition Close :: "winsock \<Rightarrow> SocketObj \<Rightarrow> (result \<times> SocketObj) outcome" where
  "Close w s =
     (if m_hSocket s
      then (if w_close w \<noteq> 0 then Inr (wsa_error (w_close w), s)
            else if \<not> m_hClosedEvent s then Inl AssertFailed
            else Inr (EOK, s\<lparr>m_hSocket := False, closed := True\<rparr>))
      else Inr (EOK, s))"

definition Bind :: "winsock \<Rightarrow> nat \<Rightarrow> SocketObj \<Rightarrow> result outcome" where
  "Bind w nPort s =
     (if \<not> m_hSocket s then Inl AssertFailed
      else Inr (if w_bind w nPort \<noteq> 0 then wsa_error (w_bind w nPort) else EOK))"

definition posted :: "u32 \<Rightarrow> bool" where
  "posted e \<longleftrightarrow> e = 0 \<or> e = WSA_IO_PENDING"

text \<open>\<open>AsyncTCPRead\<close> and \<open>AsyncUDPRead\<close> differ in the call of Windows only. The timeout they are given is
  not used.\<close>

definition AsyncTCPRead :: "winsock \<Rightarrow> u32 \<Rightarrow> SocketObj \<Rightarrow> result \<times> SocketObj" where
  "AsyncTCPRead w nMillseconds s =
     (if \<not> m_hSocket s then (Z3 Z3_EINVAL, s)
      else if AllocZ3Ovl w EV_READ SOCKET_READ_TIMEOUT = None then (Z3 Z3_ENOMEM, s)
      else if posted (w_recv w) then (EOK, s\<lparr>reads := reads s + 1\<rparr>)
      else (wsa_error (w_recv w), s))"

definition AsyncUDPRead :: "winsock \<Rightarrow> u32 \<Rightarrow> SocketObj \<Rightarrow> result \<times> SocketObj" where
  "AsyncUDPRead w nMillseconds s =
     (if \<not> m_hSocket s then (Z3 Z3_EINVAL, s)
      else if AllocZ3Ovl w EV_READ SOCKET_READ_TIMEOUT = None then (Z3 Z3_ENOMEM, s)
      else if posted (w_recv w) then (EOK, s\<lparr>reads := reads s + 1\<rparr>)
      else (wsa_error (w_recv w), s))"

definition AsyncTCPWrite :: "winsock \<Rightarrow> u32 \<Rightarrow> string \<Rightarrow> SocketObj \<Rightarrow> result \<times> SocketObj" where
  "AsyncTCPWrite w nMillseconds buf s =
     (if \<not> m_hSocket s \<or> buf = [] then (Z3 Z3_EINVAL, s)
      else if AllocZ3Ovl w EV_WRITE SOCKET_WRITE_TIMEOUT = None then (Z3 Z3_ENOMEM, s)
      else if posted (w_send w buf) then (EOK, s\<lparr>sent := sent s @ [buf]\<rparr>)
      else (wsa_error (w_send w buf), s))"

definition AsyncUDPWrite :: "SocketObj \<Rightarrow> (result \<times> SocketObj) outcome" where
  "AsyncUDPWrite s = Inl AssertFailed"

text \<open>The event is reset by the wait that it ends. \<open>None\<close>: nobody has set it, and the wait does not end.\<close>

definition WaitForClosedEvent :: "u32 \<Rightarrow> SocketObj \<Rightarrow> (bool \<times> SocketObj) outcome option" where
  "WaitForClosedEvent millseconds s =
     (if \<not> m_hClosedEvent s then Some (Inl AssertFailed)
      else if closed s then Some (Inr (True, s\<lparr>closed := False\<rparr>))
      else if millseconds = INFINITE then None
      else Some (Inr (False, s)))"

section \<open>UDP sessions\<close>

record UDPSession =
  u_socket :: SocketObj
  u_nPort :: nat
  m_pUdpRecvBuf :: "u8 list"

definition UDPSession_new :: UDPSession where
  "UDPSession_new = \<lparr>u_socket = SocketObj_new, u_nPort = 0, m_pUdpRecvBuf = replicate SOCKET_RECV_BUFSIZE 0\<rparr>"

definition UDPSession_Init :: "winsock \<Rightarrow> nat \<Rightarrow> UDPSession \<Rightarrow> (result \<times> UDPSession) outcome" where
  "UDPSession_Init w nPort u =
     bindE (SocketObj_Init w (u_socket u)) (\<lambda>(nError, s).
       let u1 = u\<lparr>u_socket := s\<rparr> in
       if nError \<noteq> EOK then Inr (nError, u1)
       else let u2 = u1\<lparr>u_nPort := nPort\<rparr> in
         bindE (Bind w nPort s) (\<lambda>nError.
           if nError \<noteq> EOK then Inr (nError, u2)
           else if w_iocp w \<noteq> 0
             then bindE (Close w s) (\<lambda>(_, s'). Inr (sys_error (w_iocp w), u2\<lparr>u_socket := s'\<rparr>))
           else Inr (EOK, u2)))"

text \<open>\<open>StartRead\<close> clears the receive buffer and posts a read into it. \<open>refill\<close> is what Windows has written into the buffer by the time
  it is used: a datagram that was waiting when the read was posted, or came right behind it, and nothing if there is none.
  The flags \<open>AsyncUDPRead\<close> hands to \<open>WSARecvFrom\<close> are a variable it never sets (\<open>AsyncTCPRead\<close> sets them to 0): what
  Windows makes of them is part of its answer \<open>w_recv\<close>.\<close>

definition UDPSession_StartRead :: "winsock \<Rightarrow> u8 list \<Rightarrow> u32 \<Rightarrow> UDPSession \<Rightarrow> result \<times> UDPSession" where
  "UDPSession_StartRead w refill nTimeout u =
     (let (nError, s) = AsyncUDPRead w nTimeout (u_socket u)
      in (nError, u\<lparr>u_socket := s,
            m_pUdpRecvBuf := (if nError = EOK then take SOCKET_RECV_BUFSIZE refill else [])
              @ replicate (SOCKET_RECV_BUFSIZE - (if nError = EOK then length refill else 0)) 0\<rparr>))"

text \<open>A read has completed. The virtual functions are arguments: \<open>parse\<close> is \<open>GetProtoParser ()->Parse\<close> and \<open>dispatch\<close>
  is \<open>Dispatch\<close>, where \<open>q\<close> is the parser and the other members the derived class has; \<open>parse\<close> gives its result, the
  message, those members and the buffer, into which it may write. The result is followed by the message that was dispatched.\<close>

definition UDPSession_OnEvRead ::
    "(u8 list \<Rightarrow> u32 \<Rightarrow> 'p \<Rightarrow> (result \<times> 'm option \<times> 'p \<times> u8 list) outcome)
       \<Rightarrow> ('m option \<Rightarrow> 'p \<Rightarrow> (result \<times> 'p) outcome)
       \<Rightarrow> winsock \<Rightarrow> u8 list \<Rightarrow> u32 \<Rightarrow> u32 \<Rightarrow> 'p \<Rightarrow> UDPSession \<Rightarrow> (result \<times> 'm option \<times> 'p \<times> UDPSession) outcome" where
  "UDPSession_OnEvRead parse dispatch w refill nErrorCode nBytes q u =
     (let u0 = u\<lparr>u_socket := (u_socket u)\<lparr>reads := reads (u_socket u) - 1\<rparr>\<rparr> in
      if nErrorCode \<noteq> 0 then bindE (Close w (u_socket u0)) (\<lambda>(_, s). Inr (Z3 Z3_EINTR, None, q, u0\<lparr>u_socket := s\<rparr>))
      else if nBytes = 0 then Inr (Z3 Z3_ERROR, None, q, u0)
      else let (nError, u1) = UDPSession_StartRead w refill SOCKET_READ_TIMEOUT u0 in
        if nError \<noteq> EOK then Inl AssertFailed
        else bindE (parse (m_pUdpRecvBuf u1) nBytes q) (\<lambda>(res, msg, q', buf).
          let u2 = u1\<lparr>m_pUdpRecvBuf := buf\<rparr> in
          if res = EOK then bindE (dispatch msg q') (\<lambda>(res', q''). Inr (res', msg, q'', u2)) else Inr (res, None, q', u2)))"

definition UDPSession_OnEvWrite :: "winsock \<Rightarrow> u32 \<Rightarrow> UDPSession \<Rightarrow> (result \<times> UDPSession) outcome" where
  "UDPSession_OnEvWrite w nErrorCode u =
     (if nErrorCode \<noteq> 0 then bindE (Close w (u_socket u)) (\<lambda>(_, s). Inr (Z3 Z3_EINTR, u\<lparr>u_socket := s\<rparr>))
      else Inl AssertFailed)"

text \<open>\<open>Run\<close> has no case for \<open>EV_INSTANCE_START\<close> and \<open>EV_INSTANCE_STOP\<close>, which \<open>IOCPObj::Start\<close> and \<open>Stop\<close> post.\<close>

definition UDPSession_Run ::
    "(u8 list \<Rightarrow> u32 \<Rightarrow> 'p \<Rightarrow> (result \<times> 'm option \<times> 'p \<times> u8 list) outcome)
       \<Rightarrow> ('m option \<Rightarrow> 'p \<Rightarrow> (result \<times> 'p) outcome)
       \<Rightarrow> winsock \<Rightarrow> u8 list \<Rightarrow> ev_id \<Rightarrow> u32 \<Rightarrow> u32 \<Rightarrow> 'p \<Rightarrow> UDPSession \<Rightarrow> (result \<times> 'm option \<times> 'p \<times> UDPSession) outcome" where
  "UDPSession_Run parse dispatch w refill evID nErrorCode nBytes q u =
     (case evID of
        EV_READ \<Rightarrow> UDPSession_OnEvRead parse dispatch w refill nErrorCode nBytes q u
      | EV_WRITE \<Rightarrow> bindE (UDPSession_OnEvWrite w nErrorCode u) (\<lambda>(res, u'). Inr (res, None, q, u'))
      | _ \<Rightarrow> Inl AssertFailed)"

section \<open>The RTP session\<close>

text \<open>\<open>RTPUDPSession::Dispatch\<close> writes a trace of the frame, for which it calls it.\<close>

definition RTPUDPSession_Dispatch :: "H264Frame option \<Rightarrow> RTPUDPParser \<Rightarrow> (result \<times> RTPUDPParser) outcome" where
  "RTPUDPSession_Dispatch pMsg q = Inr (EOK, q)"

definition RTPUDPSession_OnEvRead ::
    "bool \<times> bool \<Rightarrow> winsock \<Rightarrow> u8 list \<Rightarrow> u32 \<Rightarrow> u32 \<Rightarrow> RTPUDPParser \<Rightarrow> UDPSession
       \<Rightarrow> (result \<times> H264Frame option \<times> RTPUDPParser \<times> UDPSession) outcome" where
  "RTPUDPSession_OnEvRead ind =
     UDPSession_OnEvRead (RTPUDPParser_Parse ind) RTPUDPSession_Dispatch"

text \<open>The datagrams of a session, in order. The flag says of a datagram that it was \<^emph>\<open>early\<close>: it was in the receive buffer by the time the
  one before it was parsed. The others come after the handler of the one before has returned.
  The handlers run one after the other, and the buffer does not change while a parser reads it.\<close>

type_synonym arrival = "bool \<times> u8 list"

fun next_waiting :: "arrival list \<Rightarrow> u8 list" where
  "next_waiting ((True, d) # ds) = d"
| "next_waiting ds = []"

fun rtp_session ::
    "bool \<times> bool \<Rightarrow> winsock \<Rightarrow> arrival list \<Rightarrow> RTPUDPParser \<Rightarrow> UDPSession
       \<Rightarrow> ((result \<times> H264Frame option) list \<times> RTPUDPParser \<times> UDPSession) outcome" where
  "rtp_session ind w [] q u = Inr ([], q, u)"
| "rtp_session ind w ((early, d) # ds) q u =
     bindE (RTPUDPSession_OnEvRead ind w (next_waiting ds) 0 (of_nat (length d)) q
         (if early then u else u\<lparr>m_pUdpRecvBuf := d @ drop (length d) (m_pUdpRecvBuf u)\<rparr>)) (\<lambda>(res, msg, q', u').
       bindE (rtp_session ind w ds q' u') (\<lambda>(out, q'', u''). Inr ((res, msg) # out, q'', u'')))"

section \<open>What becomes of a datagram\<close>

definition live_session :: "winsock \<Rightarrow> UDPSession \<Rightarrow> bool" where
  "live_session w u \<longleftrightarrow> m_hSocket (u_socket u) \<and> posted (w_recv w) \<and> w_calloc w"

text \<open>The receive buffer the parser is given, and with it the size of the datagram whose read has completed.\<close>

definition buffer_of :: "u8 list \<Rightarrow> u8 list" where
  "buffer_of d = take SOCKET_RECV_BUFSIZE d @ replicate (SOCKET_RECV_BUFSIZE - length d) 0"

fun seen :: "arrival list \<Rightarrow> (u8 list \<times> u32) list" where
  "seen [] = []"
| "seen ((_, d) # ds) = (buffer_of (next_waiting ds), of_nat (length d)) # seen ds"

lemma buffer_of_nothing [simp]: "buffer_of [] = replicate SOCKET_RECV_BUFSIZE 0"
  by (simp add: buffer_of_def)

lemma length_buffer_of [simp]: "length (buffer_of d) = SOCKET_RECV_BUFSIZE"
  by (simp add: buffer_of_def)

lemma StartRead_live:
  assumes "live_session w u"
  shows "UDPSession_StartRead w r t (u\<lparr>u_socket := (u_socket u)\<lparr>reads := k\<rparr>\<rparr>) =
    (EOK, u\<lparr>u_socket := (u_socket u)\<lparr>reads := k + 1\<rparr>, m_pUdpRecvBuf := buffer_of r\<rparr>)"
  using assms
  by (simp add: UDPSession_StartRead_def AsyncUDPRead_def AllocZ3Ovl_def SOCKET_READ_TIMEOUT_def INFINITE_def live_session_def buffer_of_def)

lemma datagram_size: "1 \<le> n \<Longrightarrow> n \<le> SOCKET_RECV_BUFSIZE \<Longrightarrow> (of_nat n :: u32) \<noteq> 0"
  using unat_of_nat_u32 [of n] by (auto simp: SOCKET_RECV_BUFSIZE_def)

text \<open>The marker is in the second byte, in front of every byte that the rebuilding of a NAL header changes.\<close>

lemma GetPayload_ge: "GetPayload p = Inr off \<Longrightarrow> 12 \<le> off"
  by (auto simp: GetPayload_def RTP_PKT_DATA_def csrc_count_def bindE_Inr_iff split: if_splits)

lemma nal_header_keeps:
  "nal_header ind mem off n = Inr (k, b, e, mem') \<Longrightarrow> 12 \<le> off \<Longrightarrow> mem' ! 1 = mem ! 1 \<and> length mem' = length mem"
  by (auto simp: nal_header_def Let_def bindE_Inr_iff split: if_splits)

lemma Parse_marker:
  assumes "RTPUDPParser_Parse ind mem n p = Inr (res, msg, p', mem')"
  shows "(res = EOK \<longleftrightarrow> msg \<noteq> None) \<and> (msg \<noteq> None \<longrightarrow> 1 < length mem \<and> mem ! 1 AND 0x80 \<noteq> 0)"
proof -
  from assms obtain off k b e m mark pkt where *: "GetPayload (InitPacket mem n pkt) = Inr off"
      "nal_header ind mem off (m_nPacketSize (InitPacket mem n pkt) - of_nat off) = Inr (k, b, e, m)"
      "marker m = Inr mark" "res = (if mark then EOK else Z3 Z3_EINTR)" "msg \<noteq> None \<longleftrightarrow> mark"
    unfolding RTPUDPParser_Parse_def Let_def GetPayloadSize_def IsMarker_def
    by (auto simp: bindE_Inr_iff)
  with nal_header_keeps [OF *(2) GetPayload_ge [OF *(1)]] show ?thesis
    by (auto simp: marker_def byte_at_def bindE_Inr_iff split: if_splits)
qed

lemma zero_packet:
  assumes "12 \<le> n" "n \<le> SOCKET_RECV_BUFSIZE"
  shows "replicate SOCKET_RECV_BUFSIZE 0 = replicate 12 0 @ replicate (n - 12) 0 @ replicate (SOCKET_RECV_BUFSIZE - n) (0 :: u8)"
  using assms by (simp add: replicate_add [symmetric])

lemma zero_header: "plain_header (replicate 12 0)" "\<not> marked (replicate 12 0)"
  by (simp_all add: plain_header_def marked_def)

lemma zero_payload: "0 < k \<Longrightarrow> valid_payload (replicate k 0) \<and> nal_bytes (replicate k 0) = [0, 0, 0, 1] @ replicate k 0"
  by (auto simp: valid_payload_def nal_bytes_def)

text \<open>A packet that does not fit fails the assertion of \<open>FillData\<close>.\<close>

lemma Parse_overflow:
  assumes h: "plain_header h" and pl: "valid_payload pl" "\<not> is_fu (pl ! 0)" and holds: "frame_holds (open_frame p) bs"
    and big: "max_frame < length bs + 4 + length pl" "4 \<le> length pl" "length pl \<le> max_frame"
  shows "RTPUDPParser_Parse ind (h @ pl @ tail) (of_nat (12 + length pl)) p = Inl AssertFailed"
proof -
  let ?mem = "h @ pl @ tail"
  let ?pkt = "InitPacket ?mem (of_nat (12 + length pl)) (case m_pRTPPacket p of None \<Rightarrow> RTPPacket_new | Some q \<Rightarrow> q)"
  have lenh: "length h = 12" using h by (simp add: plain_header_def)
  have payload: "GetPayload ?pkt = Inr 12" "GetPayloadSize ?pkt = Inr (of_nat (length pl))"
    using payload_plain [OF h, of ?pkt "pl @ tail" "length pl"] by (simp_all add: InitPacket_def)
  have "pl \<noteq> []" "pl ! 0 AND 0x1F \<notin> {24, 25, 26, 27}" using pl(1) by (auto simp: valid_payload_def)
  then have nh: "nal_header ind ?mem 12 (of_nat (length pl)) = Inr (0, True, True, ?mem)"
    using lenh pl(2) by (cases pl) (auto simp: nal_header_def byte_at_def nth_append Let_def)
  have full: "FillData ?mem 12 (of_nat (length pl)) f = Inl AssertFailed"
    if "frame_holds f bs'" "max_frame < length bs' + length pl" for f bs'
    using size_check [OF that(1), of "length pl"] that(2) big(3) by (simp add: FillData_def)
  obtain b f where f: "AddNalStartCode (open_frame p) = Inr (b, f)" and "FillData ?mem 12 (of_nat (length pl)) f = Inl AssertFailed"
  proof (cases "length bs + 4 \<le> max_frame")
    case True
    from AddNalStartCode_holds [OF holds True] obtain f where "AddNalStartCode (open_frame p) = Inr (True, f)"
      "frame_holds f (bs @ [0, 0, 0, 1])" .
    then show ?thesis using that full [of f "bs @ [0, 0, 0, 1]"] big(1) by simp
  next
    case False
    then have "AddNalStartCode (open_frame p) = Inr (False, open_frame p)"
      using size_check [OF holds, of 4] by (simp add: AddNalStartCode_def max_frame_def)
    then show ?thesis using that full [OF holds] False big(2) by simp
  qed
  then show ?thesis
    unfolding RTPUDPParser_Parse_def Let_def payload bindE.simps nh case_prod_conv open_frame_def [symmetric] if_True f
    by simp
qed

lemma OnEvRead_parses:
  assumes live: "live_session w u" and n: "1 \<le> n" "n \<le> SOCKET_RECV_BUFSIZE"
  shows "RTPUDPSession_OnEvRead ind w r 0 (of_nat n) q u =
    bindE (RTPUDPParser_Parse ind (buffer_of r) (of_nat n) q) (\<lambda>(res, msg, q', buf).
      Inr (res, msg, q', u\<lparr>u_socket := (u_socket u)\<lparr>reads := reads (u_socket u) - 1 + 1\<rparr>, m_pUdpRecvBuf := buf\<rparr>))"
proof (cases "RTPUDPParser_Parse ind (buffer_of r) (of_nat n) q")
  case (Inr x)
  then show ?thesis using Parse_marker [of ind "buffer_of r" "of_nat n" q] datagram_size [OF n]
    by (cases x) (auto simp: RTPUDPSession_OnEvRead_def UDPSession_OnEvRead_def Let_def StartRead_live [OF live] RTPUDPSession_Dispatch_def)
qed (use datagram_size [OF n] in \<open>simp add: RTPUDPSession_OnEvRead_def UDPSession_OnEvRead_def Let_def StartRead_live [OF live]\<close>)

lemma live_update [simp]:
  "live_session w (u\<lparr>m_pUdpRecvBuf := b\<rparr>) = live_session w u"
  "live_session w (u\<lparr>u_socket := (u_socket u)\<lparr>reads := k\<rparr>\<rparr>) = live_session w u"
  by (simp_all add: live_session_def)

definition small_datagrams :: "arrival list \<Rightarrow> bool" where
  "small_datagrams ds \<longleftrightarrow> (\<forall>(_, d) \<in> set ds. 1 \<le> length d \<and> length d \<le> 4096)"

text \<open>A session parses, of each datagram, the size and the contents of the next.\<close>

lemma rtp_session_receives:
  assumes "live_session w u" "small_datagrams ds"
  shows "bindE (rtp_session ind w ds q u) (\<lambda>(out, q', _). Inr (out, q')) = receive ind (seen ds) q"
  using assms
proof (induction ds arbitrary: q u)
  case (Cons x ds)
  obtain early d where x: "x = (early, d)" by (cases x)
  let ?u = "if early then u else u\<lparr>m_pUdpRecvBuf := d @ drop (length d) (m_pUdpRecvBuf u)\<rparr>"
  let ?u' = "\<lambda>buf. ?u\<lparr>u_socket := (u_socket ?u)\<lparr>reads := reads (u_socket ?u) - 1 + 1\<rparr>, m_pUdpRecvBuf := buf\<rparr>"
  have live: "live_session w ?u" using Cons.prems(1) by simp
  have d: "1 \<le> length d" "length d \<le> SOCKET_RECV_BUFSIZE" and ds: "small_datagrams ds"
    using Cons.prems(2) by (auto simp: x small_datagrams_def SOCKET_RECV_BUFSIZE_def)
  have next_u: "live_session w (?u' buf)" for buf using live by (simp only: live_update)
  show ?case
  proof (cases "RTPUDPParser_Parse ind (buffer_of (next_waiting ds)) (of_nat (length d)) q")
    case (Inl f)
    then show ?thesis unfolding x rtp_session.simps seen.simps receive.simps OnEvRead_parses [OF live d] by simp
  next
    case (Inr y)
    obtain res msg q1 buf where y: "y = (res, msg, q1, buf)" by (cases y)
    show ?thesis
      unfolding x rtp_session.simps seen.simps receive.simps OnEvRead_parses [OF live d] Inr y bindE.simps case_prod_conv
        Cons.IH [OF next_u ds, of q1 buf, symmetric]
      by (cases "rtp_session ind w ds q1 (?u' buf)") (simp_all add: split_def)
  qed
qed simp

text \<open>A frame is only delivered at a datagram whose successor is there early, with the marker.\<close>

lemma receive_seen_frames:
  assumes "receive ind (seen ds) q = Inr (out, q')" "i < length ds" "snd (out ! i) \<noteq> None"
  shows "\<exists>d. i + 1 < length ds \<and> ds ! (i + 1) = (True, d) \<and> 1 < length d \<and> d ! 1 AND 0x80 \<noteq> 0"
  using assms
proof (induction ds arbitrary: q out i)
  case (Cons x ds)
  obtain early d res msg q1 mem out' where x: "x = (early, d)"
    and parse: "RTPUDPParser_Parse ind (buffer_of (next_waiting ds)) (of_nat (length d)) q = Inr (res, msg, q1, mem)"
    and rest: "receive ind (seen ds) q1 = Inr (out', q')" and out: "out = (res, msg) # out'"
    using Cons.prems(1) by (cases x) (auto simp: bindE_Inr_iff)
  show ?case
  proof (cases i)
    case 0
    then have mark: "buffer_of (next_waiting ds) ! 1 AND 0x80 \<noteq> 0" using Parse_marker [OF parse] Cons.prems(3) out by simp
    then have "1 < length (next_waiting ds)" "next_waiting ds ! 1 AND 0x80 \<noteq> 0"
      by (auto simp: buffer_of_def nth_append SOCKET_RECV_BUFSIZE_def split: if_splits)
    then show ?thesis using 0 by (cases ds rule: next_waiting.cases) auto
  next
    case (Suc j)
    then show ?thesis using Cons.IH [OF rest, of j] Cons.prems(2,3) out by auto
  qed
qed simp

lemma datagram_step:
  assumes live: "live_session w u" and d: "16 \<le> n" "n \<le> SOCKET_RECV_BUFSIZE" and holds: "frame_holds (open_frame q) bs"
  shows "if length bs + (n - 8) \<le> max_frame
     then \<exists>q' u'. RTPUDPSession_OnEvRead ind w [] 0 (of_nat n) q u = Inr (Z3 Z3_EINTR, None, q', u')
       \<and> frame_holds (open_frame q') (bs @ [0, 0, 0, 1] @ replicate (n - 12) 0) \<and> live_session w u'
     else RTPUDPSession_OnEvRead ind w [] 0 (of_nat n) q u = Inl AssertFailed"
proof -
  let ?pl = "replicate (n - 12) (0 :: u8)"
  have n0: "1 \<le> n" and nn: "n = 12 + length ?pl" using d by auto
  have pl: "valid_payload ?pl" "nal_bytes ?pl = [0, 0, 0, 1] @ ?pl" "\<not> is_fu (?pl ! 0)"
    using zero_payload [of "n - 12"] d by auto
  have small: "length ?pl \<le> max_frame" using d by (simp add: SOCKET_RECV_BUFSIZE_def max_frame_def)
  have step: "RTPUDPSession_OnEvRead ind w [] 0 (of_nat n) q u =
      bindE (RTPUDPParser_Parse ind (replicate 12 0 @ ?pl @ replicate (SOCKET_RECV_BUFSIZE - n) 0) (of_nat (12 + length ?pl)) q)
        (\<lambda>(res, msg, q', buf). Inr (res, msg, q', u\<lparr>u_socket := (u_socket u)\<lparr>reads := reads (u_socket u) - 1 + 1\<rparr>, m_pUdpRecvBuf := buf\<rparr>))"
    using zero_packet [of n] d unfolding OnEvRead_parses [OF live n0 d(2)] by (simp add: nn [symmetric])
  show ?thesis
  proof (cases "length bs + (n - 8) \<le> max_frame")
    case True
    then have fits: "length (bs @ nal_bytes ?pl) \<le> max_frame" using pl(2) d by simp
    obtain q' mem' where "RTPUDPParser_Parse ind (replicate 12 0 @ ?pl @ replicate (SOCKET_RECV_BUFSIZE - n) 0) (of_nat (12 + length ?pl)) q =
          Inr (Z3 Z3_EINTR, None, q', mem')"
        "frame_holds (m_pH264Frame q') (bs @ nal_bytes ?pl)" "m_bFrameCompleted q' = False"
      by (rule Parse_plain [OF zero_header(1) pl(1) holds fits small, of ind "replicate (SOCKET_RECV_BUFSIZE - n) 0"])
         (use zero_header(2) in auto)
    then show ?thesis using True live pl(2) unfolding step by (simp add: open_frame_def)
  next
    case False
    then have "RTPUDPParser_Parse ind (replicate 12 0 @ ?pl @ replicate (SOCKET_RECV_BUFSIZE - n) 0) (of_nat (12 + length ?pl)) q
        = Inl AssertFailed"
      using d small by (intro Parse_overflow [OF zero_header(1) pl(1,3) holds]) auto
    then show ?thesis using False unfolding step by simp
  qed
qed

text \<open>Where no datagram is early the parser gets zeros only: it adds a start code and zeros to the frame, and when the frame buffer is full its
  assertion ends the program.\<close>

lemma rtp_session_zeros:
  assumes "live_session w u" "frame_holds (open_frame q) bs" "\<forall>(early, d) \<in> set ds. \<not> early \<and> 16 \<le> length d \<and> length d \<le> 4096"
  shows "if length bs + (\<Sum>(_, d)\<leftarrow>ds. length d - 8) \<le> max_frame
     then \<exists>q' u'. rtp_session ind w ds q u = Inr (replicate (length ds) (Z3 Z3_EINTR, None), q', u')
     else rtp_session ind w ds q u = Inl AssertFailed"
  using assms
proof (induction ds arbitrary: q u bs)
  case Nil
  then show ?case by (auto simp: frame_holds_def)
next
  case (Cons x ds)
  obtain d where x: "x = (False, d)" and d: "16 \<le> length d" "length d \<le> SOCKET_RECV_BUFSIZE"
    using Cons.prems(3) by (cases x) (auto simp: SOCKET_RECV_BUFSIZE_def)
  let ?u = "u\<lparr>m_pUdpRecvBuf := d @ drop (length d) (m_pUdpRecvBuf u)\<rparr>"
  let ?bs = "bs @ [0, 0, 0, 1] @ replicate (length d - 12) 0"
  have none: "next_waiting ds = []" using Cons.prems(3) by (cases ds rule: next_waiting.cases) auto
  have live: "live_session w ?u" using Cons.prems(1) by simp
  note step = datagram_step [OF live d Cons.prems(2), of ind]
  show ?case
  proof (cases "length bs + (length d - 8) \<le> max_frame")
    case True
    then obtain q' u' where ev: "RTPUDPSession_OnEvRead ind w [] 0 (of_nat (length d)) q ?u = Inr (Z3 Z3_EINTR, None, q', u')"
      and holds: "frame_holds (open_frame q') ?bs" and live': "live_session w u'"
      using step by auto
    have len: "length ?bs + (\<Sum>(_, d)\<leftarrow>ds. length d - 8) = length bs + (\<Sum>(_, d)\<leftarrow>(x # ds). length d - 8)" using d x by simp
    from Cons.IH [OF live' holds] Cons.prems(3) show ?thesis unfolding len x by (auto simp: ev none split: if_splits)
  next
    case False
    then show ?thesis using step by (simp add: x none)
  qed
qed

text \<open>C12. The RTP session parses the wrong datagram. The handler of a completed read clears the receive buffer and posts the next read before
  it parses: of each datagram the parser gets the size, with the contents of the next one where that is in the buffer by
  then, and with zeros where it is not. No byte of the datagram itself is used, and the first one is never seen. So a frame comes out of a
  datagram only where the next one was early and has the marker; and where every datagram comes after the one before was handled there is
  never a frame, only zeros until the assertion at 2 MiB ends the program. (Datagrams of 1 to 4096 bytes; a buffer that
  Windows changes while the parser reads it is not considered.)\<close>

theorem rtp_parses_next:
  assumes "live_session w u" and "small_datagrams ds"
  shows "bindE (rtp_session ind w ds q u) (\<lambda>(out, q', _). Inr (out, q')) = receive ind (seen ds) q
    \<and> (\<forall>out q' u' i. rtp_session ind w ds q u = Inr (out, q', u') \<longrightarrow> i < length ds \<longrightarrow> snd (out ! i) \<noteq> None \<longrightarrow>
        (\<exists>d. i + 1 < length ds \<and> ds ! (i + 1) = (True, d) \<and> 1 < length d \<and> d ! 1 AND 0x80 \<noteq> 0))
    \<and> (\<forall>bs. frame_holds (open_frame q) bs \<longrightarrow> (\<forall>(early, d) \<in> set ds. \<not> early \<and> 16 \<le> length d) \<longrightarrow>
        (if length bs + (\<Sum>(_, d)\<leftarrow>ds. length d - 8) \<le> 2097152
         then \<exists>q' u'. rtp_session ind w ds q u = Inr (replicate (length ds) (Z3 Z3_EINTR, None), q', u')
         else rtp_session ind w ds q u = Inl AssertFailed))"
proof (intro conjI allI impI)
  show *: "bindE (rtp_session ind w ds q u) (\<lambda>(out, q', _). Inr (out, q')) = receive ind (seen ds) q"
    by (rule rtp_session_receives [OF assms])
  show "\<exists>d. i + 1 < length ds \<and> ds ! (i + 1) = (True, d) \<and> 1 < length d \<and> d ! 1 AND 0x80 \<noteq> 0"
    if "rtp_session ind w ds q u = Inr (out, q', u')" "i < length ds" "snd (out ! i) \<noteq> None" for out q' u' i
    using * [symmetric] receive_seen_frames [of ind ds q out q', OF _ that(2,3)] that(1) by simp
  show "if length bs + (\<Sum>(_, d)\<leftarrow>ds. length d - 8) \<le> 2097152
      then \<exists>q' u'. rtp_session ind w ds q u = Inr (replicate (length ds) (Z3 Z3_EINTR, None), q', u')
      else rtp_session ind w ds q u = Inl AssertFailed"
    if "frame_holds (open_frame q) bs" "\<forall>(early, d) \<in> set ds. \<not> early \<and> 16 \<le> length d" for bs
  proof -
    have "\<forall>(early, d) \<in> set ds. \<not> early \<and> 16 \<le> length d \<and> length d \<le> 4096"
      using that(2) assms(2) by (fastforce simp: small_datagrams_def)
    from rtp_session_zeros [OF assms(1) that(1) this, of ind] show ?thesis by (simp add: max_frame_def)
  qed
qed

text \<open>Two datagrams, the second early: the first, of 16 bytes without the marker, delivers the frame of the second, and the second then delivers nothing.
  With the same datagrams one after the other nothing is delivered.\<close>

theorem rtp_parses_next_witness:
  "(\<exists>f q' u'. rtp_session (True, True) ok_winsock [(False, sample_header 0x60 @ [0x41, 9, 8, 7]), (True, sample_header 0xE0 @ [0x65, 1, 2, 3])]
        (RTPUDPParser_new alloc_ok (\<lambda>_. 0)) (UDPSession_new\<lparr>u_socket := SocketObj_new\<lparr>m_hSocket := True\<rparr>\<rparr>)
      = Inr ([(EOK, Some f), (Z3 Z3_EINTR, None)], q', u'))
   \<and> (\<exists>q' u'. rtp_session (True, True) ok_winsock [(False, sample_header 0x60 @ [0x41, 9, 8, 7]), (False, sample_header 0xE0 @ [0x65, 1, 2, 3])]
        (RTPUDPParser_new alloc_ok (\<lambda>_. 0)) (UDPSession_new\<lparr>u_socket := SocketObj_new\<lparr>m_hSocket := True\<rparr>\<rparr>)
      = Inr ([(Z3 Z3_EINTR, None), (Z3 Z3_EINTR, None)], q', u'))"
proof
  let ?q = "RTPUDPParser_new alloc_ok (\<lambda>_. 0)" and ?u = "UDPSession_new\<lparr>u_socket := SocketObj_new\<lparr>m_hSocket := True\<rparr>\<rparr>"
  have live: "live_session ok_winsock ?u" by (simp add: live_session_def ok_winsock_def posted_def)
  have holds: "frame_holds (open_frame ?q) []" using ready_new [of alloc_ok "\<lambda>_. 0", OF alloc_ok] by (simp add: ready_def)
  let ?ds = "\<lambda>early. [(False, sample_header 0x60 @ [0x41, 9, 8, 7]), (early, sample_header 0xE0 @ [0x65, 1, 2, 3])]"
  have small: "small_datagrams (?ds early)" for early by (simp add: small_datagrams_def sample_header_def)
  have buf: "buffer_of (sample_header 0xE0 @ [0x65, 1, 2, 3]) = sample_header 0xE0 @ [0x65, 1, 2, 3] @ replicate 4080 0"
    by (simp add: buffer_of_def SOCKET_RECV_BUFSIZE_def sample_header_def)
  obtain q1 m1 where p1: "RTPUDPParser_Parse (True, True) (buffer_of (sample_header 0xE0 @ [0x65, 1, 2, 3])) 16 ?q = Inr (EOK, Some (m_pH264Frame q1), q1, m1)"
      and q1: "frame_holds (m_pH264Frame q1) [0, 0, 0, 1, 0x65, 1, 2, 3]" "m_bFrameCompleted q1"
    by (rule Parse_plain [of "sample_header 0xE0" "[0x65, 1, 2, 3]" ?q "[]" "(True, True)" "replicate 4080 0", OF _ _ holds])
      (auto simp: sample_header valid_payload_def nal_bytes_def max_frame_def buf)
  obtain q2 m2 where p2: "RTPUDPParser_Parse (True, True) (replicate SOCKET_RECV_BUFSIZE 0) 16 q1 = Inr (Z3 Z3_EINTR, None, q2, m2)"
    by (rule Parse_plain [of "replicate 12 0" "replicate 4 0" q1 "[]" "(True, True)" "replicate 4080 0"])
      (use q1 zero_header zero_payload [of 4] frame_holds_Reset [OF q1(1)] zero_packet [of 16] in
        \<open>auto simp: open_frame_def max_frame_def SOCKET_RECV_BUFSIZE_def replicate_add [symmetric]\<close>)
  have "receive (True, True) (seen (?ds True)) ?q = Inr ([(EOK, Some (m_pH264Frame q1)), (Z3 Z3_EINTR, None)], q2)"
    using p1 p2 by (simp add: sample_header_def)
  then show "\<exists>f q' u'. rtp_session (True, True) ok_winsock (?ds True) ?q ?u = Inr ([(EOK, Some f), (Z3 Z3_EINTR, None)], q', u')"
    using rtp_parses_next [OF live small [of True], of "(True, True)" ?q] by (auto simp del: rtp_session.simps seen.simps simp: bindE_Inr_iff)
  show "\<exists>q' u'. rtp_session (True, True) ok_winsock (?ds False) ?q ?u = Inr ([(Z3 Z3_EINTR, None), (Z3 Z3_EINTR, None)], q', u')"
    using rtp_parses_next [OF live small [of False], of "(True, True)" ?q] holds
    by (auto simp del: rtp_session.simps seen.simps simp: sample_header_def)
qed

end
