(* ===== verification/RtspSession.thy ===== *)
theory RtspSession
  imports RtspParserMessages MediaPorts SdpMsg Sockets
begin

text \<open>
  The RTSP client session: \<open>z3_rtsp_client/z3_rtsp_session.cpp\<close>, the media it sets up (\<open>z3_rtsp_media.cpp\<close>)
  and the reading and writing of \<open>z3_engine/z3_connector.cpp\<close> beneath it. The members of the connector that the session
  uses are fields of its record, and so is \<open>MediaPorts::m_pInstance\<close>. A handler returns its result and the
  session; the executor that calls it (\<open>z3_executor.cpp\<close>) ignores the result.
\<close>

section \<open>The environment\<close>

text \<open>What the code asks of the outside: memory, the build, the time, Windows, and the contents of memory it
  does not initialise.\<close>

record session_env =
  e_mok :: alloc
  e_debug :: bool
  e_time :: tm
  e_wsa :: winsock
  e_ind :: indet
  e_junk :: "nat \<Rightarrow> char"
  e_bits :: "nat \<Rightarrow> u8"
  e_reserved :: nat
  e_dns :: u32                       \<comment> \<open>the result of \<open>GetAddrInfoEx\<close>, 0 for success\<close>
  e_ioctl :: bool                    \<comment> \<open>whether \<open>WSAIoctl\<close> finds \<open>ConnectEx\<close>\<close>
  e_connect :: u32                   \<comment> \<open>the result of \<open>ConnectEx\<close>, 0 for success\<close>
  e_msg :: "u32 \<Rightarrow> string option"     \<comment> \<open>the text \<open>FormatMessage\<close> finds for an error code, if any\<close>

definition UDP_RECV_TIMEOUT :: u32 where "UDP_RECV_TIMEOUT = 3000"
definition DEFAULT_RTSP_PORT :: u16 where "DEFAULT_RTSP_PORT = 8554"
definition SOCKET_CONNECTING_TIMEOUT :: u32 where "SOCKET_CONNECTING_TIMEOUT = 7000"
definition DEFAULT_RTSP_SESSION_TIMEOUT :: int where "DEFAULT_RTSP_SESSION_TIMEOUT = 15000"

section \<open>Media sessions\<close>

datatype media_type = UNKNOWN_TYPE | VIDEO_TYPE | AUDIO_TYPE | OTHER_TYPE
datatype transfer_mode = UNKNOWN_MODE | RTP_OVER_RTSP | RTP_OVER_UDP | RTP_OVER_TCP

record MediaSession =
  m_nRTPPort :: nat
  m_nRTCPPort :: nat
  m_pRTPSession :: "UDPSession option"
  m_pRTCPSession :: "UDPSession option"
  m_nMediaType :: media_type
  m_nTransferMode :: transfer_mode

definition MediaSession_new :: MediaSession where
  "MediaSession_new = \<lparr>m_nRTPPort = 0, m_nRTCPPort = 0, m_pRTPSession = None, m_pRTCPSession = None,
     m_nMediaType = UNKNOWN_TYPE, m_nTransferMode = UNKNOWN_MODE\<rparr>"

text \<open>The destructor releases both sessions, and that of a socket asserts that it is closed. It does not give
  the ports back.\<close>

definition udp_delete :: "UDPSession option \<Rightarrow> unit outcome" where
  "udp_delete u = (case u of None \<Rightarrow> Inr () | Some x \<Rightarrow> assertE (\<not> m_hSocket (u_socket x)))"

definition MediaSession_delete :: "MediaSession \<Rightarrow> unit outcome" where
  "MediaSession_delete ms = bindE (udp_delete (m_pRTPSession ms)) (\<lambda>_. udp_delete (m_pRTCPSession ms))"

text \<open>\<open>Init\<close> of a new UDP session and \<open>StartRead\<close>.\<close>

definition udp_open :: "winsock \<Rightarrow> nat \<Rightarrow> (result \<times> UDPSession) outcome" where
  "udp_open w port =
     bindE (UDPSession_Init w port UDPSession_new) (\<lambda>(nError, u).
       if nError \<noteq> EOK then Inr (nError, u) else Inr (UDPSession_StartRead w [] UDP_RECV_TIMEOUT u))"

definition media_type_of :: "string \<Rightarrow> media_type" where
  "media_type_of s = (if s = ''video'' then VIDEO_TYPE else if s = ''audio'' then AUDIO_TYPE else OTHER_TYPE)"

definition MediaSession_Init ::
    "session_env \<Rightarrow> SDPMedia \<Rightarrow> PortsCtl option \<Rightarrow> MediaSession \<Rightarrow> (result \<times> MediaSession \<times> PortsCtl option) outcome" where
  "MediaSession_Init env pSDPMedia inst ms =
     (case m_pszMedia pSDPMedia of
        None \<Rightarrow> Inl NullDeref
      | Some pszMedia \<Rightarrow>
          let ms1 = ms\<lparr>m_nMediaType := media_type_of pszMedia, m_nTransferMode := RTP_OVER_UDP\<rparr> in
          bindE (GetInstance (e_mok env) (e_bits env) (e_reserved env) inst) (\<lambda>p.
          bindE (GetPairPorts pair_fuel p) (\<lambda>(nError, ports, p1).
            case ports of
              None \<Rightarrow> Inr (nError, ms1, Some p1)
            | Some (lo, hi) \<Rightarrow>
                let ms2 = ms1\<lparr>m_nRTPPort := lo, m_nRTCPPort := hi\<rparr> in
                if nError \<noteq> EOK then Inr (nError, ms2, Some p1)
                else if m_pRTPSession ms \<noteq> None \<or> m_pRTCPSession ms \<noteq> None then Inl AssertFailed
                else bindE (udp_open (e_wsa env) lo) (\<lambda>(nError, u).
                  let ms3 = ms2\<lparr>m_pRTPSession := Some u\<rparr> in
                  if nError \<noteq> EOK then Inr (nError, ms3, Some p1)
                  else bindE (udp_open (e_wsa env) hi) (\<lambda>(nError, v).
                    Inr (nError, ms3\<lparr>m_pRTCPSession := Some v\<rparr>, Some p1))))))"

definition GetPort :: "MediaSession \<Rightarrow> nat \<times> nat" where
  "GetPort ms = (m_nRTPPort ms, m_nRTCPPort ms)"

section \<open>Media\<close>

record RtspMedia =
  m_pszContentBase :: "string option"
  m_pMediaSessions :: "MediaSession list option"
  m_pSDP :: "SDPMessage option"
  m_nTrackCount :: nat
  m_nRequestTrack :: nat

definition RtspMedia_new :: RtspMedia where
  "RtspMedia_new = \<lparr>m_pszContentBase = None, m_pMediaSessions = None, m_pSDP = None,
     m_nTrackCount = 0xFFFFFFFF, m_nRequestTrack = 0xFFFFFFFF\<rparr>"

definition RtspMedia_Init ::
    "bool \<Rightarrow> alloc \<Rightarrow> string \<Rightarrow> nat \<Rightarrow> nat \<Rightarrow> SDPMessage \<Rightarrow> RtspMedia \<Rightarrow> bool \<times> RtspMedia" where
  "RtspMedia_Init debug mok pszContentBase nTracks nRequestTrack pSDP m =
     (let b = z3_strdup debug mok pszContentBase
      in (b \<noteq> None, m\<lparr>m_nTrackCount := nTracks, m_nRequestTrack := nRequestTrack, m_pSDP := Some pSDP, m_pszContentBase := b\<rparr>))"

text \<open>The destructor walks the list of media sessions, which is NULL until the first is added.\<close>

definition RtspMedia_delete :: "RtspMedia \<Rightarrow> unit outcome" where
  "RtspMedia_delete m =
     (case m_pMediaSessions m of
        None \<Rightarrow> Inl NullDeref
      | Some xs \<Rightarrow> fold (\<lambda>ms r. bindE r (\<lambda>_. MediaSession_delete ms)) xs (Inr ()))"

definition AddMediaSession :: "MediaSession \<Rightarrow> RtspMedia \<Rightarrow> RtspMedia" where
  "AddMediaSession ms m = m\<lparr>m_pMediaSessions := push_back ms (m_pMediaSessions m)\<rparr>"

definition CreateMediaSession ::
    "session_env \<Rightarrow> SDPMedia \<Rightarrow> PortsCtl option \<Rightarrow> RtspMedia \<Rightarrow> (MediaSession option \<times> RtspMedia \<times> PortsCtl option) outcome" where
  "CreateMediaSession env pMedia inst m =
     bindE (MediaSession_Init env pMedia inst MediaSession_new) (\<lambda>(nError, ms, inst').
       if nError = EOK then Inr (Some ms, AddMediaSession ms m, inst')
       else bindE (MediaSession_delete ms) (\<lambda>_. Inr (None, m, inst')))"

section \<open>Sessions\<close>

datatype session_state =
    RTSP_SESSION_INIT | RTSP_SESSION_READY | RTSP_SESSION_PLAYING | RTSP_SESSION_RECORDING | STATE_CONNECT_TIMEOUT

record RtspSession =
  m_pszUrl :: "string option"
  m_methodPrevious :: RTSP_METHOD
  m_nCSeqPrevious :: int
  m_pRtspMedia :: "RtspMedia option"
  m_pParser :: "RtspProtoParser option"
  m_nSessionState :: session_state
  m_pszSessionId :: "string option"
  m_nTimeout :: int
  m_pszHost :: "string option"
  c_nPort :: u16
  m_wsaSendBuf :: string
  s_socket :: SocketObj
  m_hFileHandle :: bool             \<comment> \<open>whether it is not \<open>INVALID_HANDLE_VALUE\<close>\<close>
  m_bStarted :: bool
  s_ports :: "PortsCtl option"      \<comment> \<open>\<open>MediaPorts::m_pInstance\<close>\<close>
  connecting :: nat                 \<comment> \<open>connects posted and not completed\<close>
  notified :: "(ev_id \<times> u32) list"  \<comment> \<open>what was pushed to the client's queue\<close>

text \<open>\<open>m_bStarted\<close> is not initialised by \<open>IOCPObj::IOCPObj\<close>.\<close>

definition RtspSession_new :: "bool \<Rightarrow> PortsCtl option \<Rightarrow> RtspSession" where
  "RtspSession_new started inst = \<lparr>m_pszUrl = None, m_methodPrevious = RTSP_INVALID, m_nCSeqPrevious = 0, m_pRtspMedia = None,
     m_pParser = None, m_nSessionState = RTSP_SESSION_INIT, m_pszSessionId = None,
     m_nTimeout = DEFAULT_RTSP_SESSION_TIMEOUT, m_pszHost = None, c_nPort = 0, m_wsaSendBuf = [],
     s_socket = SocketObj_new, m_hFileHandle = False, m_bStarted = started,
     s_ports = inst, connecting = 0, notified = []\<rparr>"

section \<open>The destination\<close>

definition SetDestination :: "alloc \<Rightarrow> string \<Rightarrow> u16 \<Rightarrow> RtspSession \<Rightarrow> bool \<times> RtspSession" where
  "SetDestination mok pszHost nPort s =
     (if nPort = 0 \<or> pszHost = [] then (False, s)
      else if mok (length pszHost + 1) then (True, s\<lparr>m_pszHost := Some pszHost, c_nPort := nPort\<rparr>)
      else (False, s\<lparr>m_pszHost := None\<rparr>))"

text \<open>\<open>SetRequestUrl\<close>. A copy to NULL ends the program. Where no slash follows the host, the size of the copy is computed from
  a NULL pointer and the allocation cannot be served.\<close>

definition SetRequestUrl_host :: "alloc \<Rightarrow> string \<Rightarrow> RtspSession \<Rightarrow> (result \<times> RtspSession) outcome" where
  "SetRequestUrl_host mok rest s =
     (case index_of CHR ''/'' rest of
        None \<Rightarrow> Inl NullDeref
      | Some j \<Rightarrow>
          if \<not> mok (j + 1) then Inl NullDeref
          else let pszHost = take j rest;
                   (host, nPort) = (case index_of CHR '':'' pszHost of
                       None \<Rightarrow> (pszHost, DEFAULT_RTSP_PORT)
                     | Some k \<Rightarrow> (take k pszHost, word_of_int (atoi (drop (k + 1) pszHost))));
                   (ok, s') = SetDestination mok host nPort s
               in Inr (if ok then EOK else Z3 Z3_ENOMEM, s'))"

definition SetRequestUrl :: "alloc \<Rightarrow> string \<Rightarrow> RtspSession \<Rightarrow> (result \<times> RtspSession) outcome" where
  "SetRequestUrl mok pszUrl s =
     (if \<not> mok (length pszUrl + 1) then Inr (Z3 Z3_ENOMEM, s\<lparr>m_pszUrl := None\<rparr>)
      else let s1 = s\<lparr>m_pszUrl := Some pszUrl\<rparr>; mem = pszUrl @ [NUL] in
        case index_of CHR '':'' pszUrl of
          None \<Rightarrow> Inr (Z3 Z3_EINVAL, s1)
        | Some i \<Rightarrow>
            if \<not> mok (i + 1) then Inl NullDeref
            else if \<not> stricmp_eq (take i pszUrl) ''rtsp'' then Inr (Z3 Z3_EINVAL, s1)
            else if mem ! (i + 1) \<noteq> CHR ''/'' \<and> \<not> i + 2 < length mem then Inl OutOfBounds
            else if mem ! (i + 1) \<noteq> CHR ''/'' \<and> mem ! (i + 2) \<noteq> CHR ''/'' then Inr (Z3 Z3_EINVAL, s1)
            else if \<not> i + 3 < length mem then Inl OutOfBounds
            else SetRequestUrl_host mok (drop (i + 3) pszUrl) s1)"

section \<open>Reading and writing\<close>

definition WriteBytes :: "session_env \<Rightarrow> string \<Rightarrow> RtspSession \<Rightarrow> (result \<times> RtspSession) outcome" where
  "WriteBytes env pBuf s =
     (if length pBuf > SOCKET_SEND_BUFSIZE then Inl AssertFailed
      else let (nError, sock) = AsyncTCPWrite (e_wsa env) SOCKET_WRITE_TIMEOUT pBuf (s_socket s)
           in Inr (nError, s\<lparr>m_wsaSendBuf := pBuf, s_socket := sock\<rparr>))"

definition WriteMsg :: "session_env \<Rightarrow> RtspMsg \<Rightarrow> RtspSession \<Rightarrow> (result \<times> RtspSession) outcome" where
  "WriteMsg env pMsg s =
     bindE (ToString (e_mok env) (e_time env) pMsg) (\<lambda>(pBuf, _).
       case pBuf of
         None \<Rightarrow> Inr (Z3 Z3_EINVAL, s)
       | Some t \<Rightarrow> if t = [] then Inl AssertFailed else WriteBytes env t s)"

definition StartRead :: "session_env \<Rightarrow> RtspSession \<Rightarrow> result \<times> RtspSession" where
  "StartRead env s =
     (let (nError, sock) = AsyncTCPRead (e_wsa env) SOCKET_READ_TIMEOUT (s_socket s)
      in (nError, s\<lparr>s_socket := sock\<rparr>))"

definition session_close :: "session_env \<Rightarrow> RtspSession \<Rightarrow> RtspSession outcome" where
  "session_close env s = bindE (Close (e_wsa env) (s_socket s)) (\<lambda>(_, sock). Inr (s\<lparr>s_socket := sock\<rparr>))"

text \<open>\<open>Notify\<close> pushes to the queue the session was started with.\<close>

definition Notify :: "ev_id \<Rightarrow> u32 \<Rightarrow> RtspSession \<Rightarrow> RtspSession" where
  "Notify evID nErrorCode s = s\<lparr>notified := notified s @ [(evID, nErrorCode)]\<rparr>"

fun ev_id_text :: "ev_id \<Rightarrow> string" where
  "ev_id_text EV_UNKNOWN = ''EV_UNKNOWN''"
| "ev_id_text EV_INSTANCE_START = ''EV_INSTANCE_START''"
| "ev_id_text EV_INSTANCE_STOP = ''EV_INSTANCE_STOP''"
| "ev_id_text EV_TIMEOUT = ''EV_TIMEOUT''"
| "ev_id_text EV_READ = ''EV_READ''"
| "ev_id_text EV_WRITE = ''EV_WRITE''"
| "ev_id_text EV_CONNECT = ''EV_CONNECT''"
| "ev_id_text EV_ACCEPT = ''EV_ACCEPT''"
| "ev_id_text EV_OP_ADD = ''EV_OP_ADD''"
| "ev_id_text EV_OP_REMOVE = ''EV_OP_REMOVE''"
| "ev_id_text EV_NOTIFY = ''EV_NOTIFY''"

definition interpret_ev_id :: "ev_id \<Rightarrow> nat \<Rightarrow> nat \<times> string" where
  "interpret_ev_id evID nLength = (if nLength \<le> 32 then (0, []) else (length (ev_id_text evID), ev_id_text evID))"

text \<open>Where \<open>FormatMessage\<close> finds no text, \<open>retrieve_msg_string\<close> takes the length of a pointer that was never set.\<close>

definition retrieve_msg_string :: "session_env \<Rightarrow> u32 \<Rightarrow> (nat \<times> string) outcome" where
  "retrieve_msg_string env nWinCode =
     (case e_msg env nWinCode of
        None \<Rightarrow> Inl OutOfBounds
      | Some t \<Rightarrow> if t \<noteq> [] \<and> \<not> e_mok env (length t + 1) then Inl NullDeref else Inr (length t, t))"

definition NotifyError :: "session_env \<Rightarrow> ev_id \<Rightarrow> u32 \<Rightarrow> RtspSession \<Rightarrow> RtspSession outcome" where
  "NotifyError env evID nErrorCode s =
     bindE (assertE (fst (interpret_ev_id evID 36) > 0)) (\<lambda>_.
     bindE (retrieve_msg_string env nErrorCode) (\<lambda>(nLength, _).
     bindE (assertE (nLength > 0)) (\<lambda>_. Inr (Notify evID nErrorCode s))))"

section \<open>Requests\<close>

text \<open>A header the code adds and then asserts that it was added.\<close>

definition add_hdr :: "session_env \<Rightarrow> RTSP_HEADER_FIELD \<Rightarrow> char list \<Rightarrow> nat \<Rightarrow> RtspMsg \<Rightarrow> RtspMsg outcome" where
  "add_hdr env field pValue nLength m =
     bindE (AddHeader (e_mok env) field (Some pValue) nLength m) (\<lambda>(res, m').
       bindE (assertE (res = EOK)) (\<lambda>_. Inr m'))"

text \<open>A string constant with its terminator, \<open>sizeof\<close> bytes long.\<close>

abbreviation sz :: "string \<Rightarrow> char list" where "sz s \<equiv> s @ [NUL]"

definition szAgent :: string where
  "szAgent = ''RtspClient, which is developped by Z3Engine & RTSP util library'' @ CRLF"

definition SendOPTIONS :: "session_env \<Rightarrow> RtspSession \<Rightarrow> (result \<times> RtspSession) outcome" where
  "SendOPTIONS env s =
     (case m_pszUrl s of
        None \<Rightarrow> Inl AssertFailed
      | Some url \<Rightarrow>
          let (nError, m) = InitRequest (e_mok env) RTSP_OPTIONS url (length url) RtspMsg_new in
          if nError \<noteq> EOK then Inr (Z3 Z3_ENOMEM, s)
          else bindE (add_hdr env RTSP_HDR_CSEQ (sz ''0'') 2 m) (\<lambda>m1.
               bindE (add_hdr env RTSP_HDR_USER_AGENT (sz szAgent) (length szAgent + 1) m1) (\<lambda>m2.
               bindE (WriteMsg env m2 s) (\<lambda>(nError, s').
                 Inr (nError, if nError = EOK then s'\<lparr>m_methodPrevious := RTSP_OPTIONS, m_nCSeqPrevious := 0\<rparr> else s')))))"

text \<open>The value of the \<open>CSeq\<close> header is the whole array of 16 bytes.\<close>

definition SendDESCRIBE :: "session_env \<Rightarrow> RtspSession \<Rightarrow> (result \<times> RtspSession) outcome" where
  "SendDESCRIBE env s =
     (case m_pszUrl s of
        None \<Rightarrow> Inl AssertFailed
      | Some url \<Rightarrow>
          let (nError, m) = InitRequest (e_mok env) RTSP_DESCRIBE url (length url) RtspMsg_new in
          if nError \<noteq> EOK then Inr (Z3 Z3_ENOMEM, s)
          else let s1 = s\<lparr>m_nCSeqPrevious := m_nCSeqPrevious s + 1\<rparr>;
                   szCSeq = take 16 (sz (dec_int (m_nCSeqPrevious s1)) @ map (e_junk env) [0..<16])
               in bindE (add_hdr env RTSP_HDR_CSEQ szCSeq 16 m) (\<lambda>m1.
                  bindE (add_hdr env RTSP_HDR_ACCEPT (sz ''application/sdp'') 16 m1) (\<lambda>m2.
                  bindE (WriteMsg env m2 s1) (\<lambda>(nError, s').
                    Inr (nError, if nError = EOK then s'\<lparr>m_methodPrevious := RTSP_DESCRIBE\<rparr> else s')))))"

text \<open>\<open>sprintf_s\<close> into a buffer of \<open>n\<close> bytes ends the program when the text does not fit.\<close>

definition sprintf_s :: "nat \<Rightarrow> string \<Rightarrow> string outcome" where
  "sprintf_s n t = (if length t < n then Inr t else Inl AssertFailed)"

text \<open>What is in \<open>szBuf\<close> behind the switch over the transfer mode; it held the URL before.\<close>

definition transport_text :: "transfer_mode \<Rightarrow> nat \<Rightarrow> nat \<Rightarrow> string \<Rightarrow> string outcome" where
  "transport_text mode nRtpPort nRtcpPort url =
     (case mode of
        RTP_OVER_RTSP \<Rightarrow> sprintf_s 256 (''RTP/AVP/TCP;unicast;interleaved='' @ dec_int (int nRtpPort) @ ''-'' @ dec_int (int nRtcpPort))
      | RTP_OVER_UDP \<Rightarrow> sprintf_s 256 (''RTP/AVP;unicast;client_port='' @ dec_int (int nRtpPort) @ ''-'' @ dec_int (int nRtcpPort))
      | RTP_OVER_TCP \<Rightarrow> Inl AssertFailed
      | UNKNOWN_MODE \<Rightarrow> Inr url)"

text \<open>The headers of a SETUP request, in order; the result of adding the session header is not looked at.\<close>

definition setup_headers ::
    "session_env \<Rightarrow> MediaSession \<Rightarrow> string option \<Rightarrow> int \<Rightarrow> string \<Rightarrow> RtspMsg \<Rightarrow> RtspMsg outcome" where
  "setup_headers env ms pszSessionId nCSeq url m =
     (let (nRtpPort, nRtcpPort) = GetPort ms in
      bindE (assertE (nRtpPort \<noteq> 0 \<and> nRtcpPort \<noteq> 0)) (\<lambda>_.
      bindE (assertE (nRtcpPort = nRtpPort + 1)) (\<lambda>_.
      bindE (assertE (nRtpPort mod 2 = 0)) (\<lambda>_.
      bindE (transport_text (m_nTransferMode ms) nRtpPort nRtcpPort url) (\<lambda>transport.
      bindE (add_hdr env RTSP_HDR_TRANSPORT (sz transport) (length transport + 1) m) (\<lambda>m1.
      bindE (case pszSessionId of
               None \<Rightarrow> Inr m1
             | Some sid \<Rightarrow> bindE (AddHeader (e_mok env) RTSP_HDR_SESSION (Some (sz sid)) (length sid + 1) m1) (\<lambda>(_, m'). Inr m'))
        (\<lambda>m2. add_hdr env RTSP_HDR_CSEQ (sz (dec_int nCSeq)) (length (dec_int nCSeq) + 1) m2)))))))"

definition SendSETUP :: "session_env \<Rightarrow> RtspSession \<Rightarrow> (result \<times> RtspSession) outcome" where
  "SendSETUP env s =
     (case m_pRtspMedia s of
        None \<Rightarrow> Inl AssertFailed
      | Some media \<Rightarrow>
          (case m_pSDP media of
             None \<Rightarrow> Inl AssertFailed
           | Some sdp \<Rightarrow>
               bindE (GetSDPMedia (m_nRequestTrack media) sdp) (\<lambda>pSDPMedia.
               bindE (GetAttributeValue ''control'' 0 pSDPMedia) (\<lambda>pValue.
                 case (m_pszContentBase media, pValue) of
                   (Some pContentBase, Some control) \<Rightarrow>
                     bindE (sprintf_s 256 (pContentBase @ control)) (\<lambda>url.
                     let media1 = media\<lparr>m_nRequestTrack := m_nRequestTrack media + 1\<rparr>;
                         (result, m) = InitRequest (e_mok env) RTSP_SETUP url (length url) RtspMsg_new in
                     bindE (assertE (result = EOK)) (\<lambda>_.
                     bindE (CreateMediaSession env pSDPMedia (s_ports s) media1) (\<lambda>(pMediaSession, media2, inst).
                       let s1 = s\<lparr>m_pRtspMedia := Some media2, s_ports := inst\<rparr> in
                       case pMediaSession of
                         None \<Rightarrow> Inr (RTSP Z3_RTSP_EMEDIASESSION, s1)
                       | Some ms \<Rightarrow>
                           let s2 = s1\<lparr>m_nCSeqPrevious := m_nCSeqPrevious s + 1\<rparr> in
                           bindE (setup_headers env ms (m_pszSessionId s) (m_nCSeqPrevious s2) url m) (\<lambda>m'.
                           bindE (WriteMsg env m' s2) (\<lambda>(nError, s').
                             Inr (nError, if nError = EOK then s'\<lparr>m_methodPrevious := RTSP_SETUP\<rparr> else s'))))))
                 | _ \<Rightarrow> Inl AssertFailed))))"

definition SendPLAY :: "session_env \<Rightarrow> RtspSession \<Rightarrow> (result \<times> RtspSession) outcome" where
  "SendPLAY env s =
     (case m_pRtspMedia s of
        None \<Rightarrow> Inl AssertFailed
      | Some media \<Rightarrow>
          (case m_pszContentBase media of
             None \<Rightarrow> Inl AssertFailed
           | Some pContentBase \<Rightarrow>
               bindE (sprintf_s 256 pContentBase) (\<lambda>url.
               let (result, m) = InitRequest (e_mok env) RTSP_PLAY url (length url) RtspMsg_new;
                   s1 = s\<lparr>m_nCSeqPrevious := m_nCSeqPrevious s + 1\<rparr>;
                   nCSeq = dec_int (m_nCSeqPrevious s1) in
               bindE (assertE (result = EOK)) (\<lambda>_.
               bindE (add_hdr env RTSP_HDR_CSEQ (sz nCSeq) (length nCSeq + 1) m) (\<lambda>m1.
               bindE (add_hdr env RTSP_HDR_RANGE (sz ''npt=0.000-'') 11 m1) (\<lambda>m2.
                 case m_pszSessionId s of
                   None \<Rightarrow> Inl NullDeref
                 | Some sid \<Rightarrow>
                     bindE (add_hdr env RTSP_HDR_SESSION (sz sid) (length sid + 1) m2) (\<lambda>m3.
                     bindE (WriteMsg env m3 s1) (\<lambda>(nError, s').
                       Inr (nError, if nError = EOK then s'\<lparr>m_methodPrevious := RTSP_PLAY\<rparr> else s')))))))))"

section \<open>Responses\<close>

text \<open>The loop of \<open>OnOptionsRespond\<close>: whether one of the \<open>Public\<close> headers is \<open>DESCRIBE\<close>. A message has at most 16
  headers, so that 17 rounds are enough.\<close>

fun find_public :: "nat \<Rightarrow> nat \<Rightarrow> RtspMsg \<Rightarrow> bool outcome" where
  "find_public 0 nIndex m = Inl OutOfFuel"
| "find_public (Suc n) nIndex m =
     (case GetHeader RTSP_HDR_PUBLIC nIndex m of
        None \<Rightarrow> Inr False
      | Some p \<Rightarrow> bindE (cstrE p) (\<lambda>pValue.
          if stricmp_eq pValue ''describe'' then Inr True else find_public n (nIndex + 1) m))"

definition public_fuel :: nat where "public_fuel = TOP_MAX_KEY_VALUE + 1"

definition OnOptionsRespond :: "session_env \<Rightarrow> RtspMsg \<Rightarrow> RtspSession \<Rightarrow> (result \<times> RtspSession) outcome" where
  "OnOptionsRespond env pResponse s =
     bindE (find_public public_fuel 0 pResponse) (\<lambda>found.
       if found then SendDESCRIBE env s else Inr (RTSP Z3_RTSP_EUNSUPPORTED, s))"

definition OnDescribeRespond :: "session_env \<Rightarrow> RtspMsg \<Rightarrow> RtspSession \<Rightarrow> (result \<times> RtspSession) outcome" where
  "OnDescribeRespond env pResponse s =
     bindE (assertE (m_nSessionState s = RTSP_SESSION_INIT)) (\<lambda>_.
     bindE (assertE (m_pRtspMedia s = None)) (\<lambda>_.
     let nBytes = sint (m_nBodySize pResponse) in
     if nBytes \<le> 0 \<or> m_pBody pResponse = None then Inr (Z3 Z3_EINVAL, s)
     else bindE (SDPMessage_ParseString (e_debug env) (e_mok env) (m_pBody pResponse) (nat nBytes) SDPMessage_new) (\<lambda>(nError, sdp).
       if nError \<noteq> EOK then Inr (nError, s)
       else let nTracks = GetMediaCount sdp in
       if nTracks < 1 then Inr (RTSP Z3_RTSP_ESTREAMCOUNTS, s)
       else case GetHeader RTSP_HDR_CONTENT_BASE 0 pResponse of
         None \<Rightarrow> Inr (RTSP Z3_RTSP_ENOTIMPL, s)
       | Some p \<Rightarrow> bindE (cstrE p) (\<lambda>pContentBase.
           let (ok, media) = RtspMedia_Init (e_debug env) (e_mok env) pContentBase nTracks 0 sdp RtspMedia_new in
           if \<not> ok then bindE (RtspMedia_delete media) (\<lambda>_. Inr (Z3 Z3_ENOMEM, s))
           else SendSETUP env (s\<lparr>m_pRtspMedia := Some media\<rparr>)))))"

text \<open>\<open>strtok_s (s, ";", &pToken)\<close> writes a terminator behind the first token of \<open>s\<close>; the string at \<open>s\<close> then ends there.\<close>

definition strtok_semicolon :: "string \<Rightarrow> string" where
  "strtok_semicolon s = takeWhile (\<lambda>c. c = CHR '';'') s @ takeWhile (\<lambda>c. c \<noteq> CHR '';'') (dropWhile (\<lambda>c. c = CHR '';'') s)"

text \<open>\<open>strstr\<close>, as the string that begins with what is searched for.\<close>

fun strstr :: "string \<Rightarrow> string \<Rightarrow> string option" where
  "strstr [] needle = (if needle = [] then Some [] else None)"
| "strstr (c # cs) needle = (if take (length needle) (c # cs) = needle then Some (c # cs) else strstr cs needle)"

text \<open>\<open>%d\<close> of \<open>sscanf_s\<close>: the number is read into 64 bits, where it saturates, and the low 32 bits are stored.\<close>

definition scan_d :: "string \<Rightarrow> int option" where
  "scan_d s =
     (let t = dropWhile is_space s;
          neg = (t \<noteq> [] \<and> hd t = CHR ''-'');
          u = (if t \<noteq> [] \<and> (hd t = CHR ''-'' \<or> hd t = CHR ''+'') then tl t else t);
          v = int (digits_val 0 u)
      in if u \<noteq> [] \<and> is_digit (hd u)
         then Some (sint (word_of_int (max (- (2 ^ 63)) (min (2 ^ 63 - 1) (if neg then - v else v))) :: u32))
         else None)"

definition session_timeout :: "string \<Rightarrow> int \<Rightarrow> int" where
  "session_timeout sid nTimeout =
     (case strstr sid ''timeout='' of
        None \<Rightarrow> nTimeout
      | Some t \<Rightarrow> let n = (case scan_d (drop 8 t) of None \<Rightarrow> nTimeout | Some n \<Rightarrow> n)
                  in if n \<le> 0 then DEFAULT_RTSP_SESSION_TIMEOUT else n)"

text \<open>The rest of \<open>OnSetupRespond\<close>, once the session identifier is stored or found unchanged.\<close>

definition next_request :: "session_env \<Rightarrow> RtspMedia \<Rightarrow> RtspSession \<Rightarrow> (result \<times> RtspSession) outcome" where
  "next_request env media s =
     (if m_nRequestTrack media \<ge> m_nTrackCount media
      then SendPLAY env (s\<lparr>m_nSessionState := RTSP_SESSION_READY\<rparr>)
      else SendSETUP env s)"

definition OnSetupRespond :: "session_env \<Rightarrow> RtspMsg \<Rightarrow> RtspSession \<Rightarrow> (result \<times> RtspSession) outcome" where
  "OnSetupRespond env pResponse s =
     (case m_pRtspMedia s of
        None \<Rightarrow> Inl AssertFailed
      | Some media \<Rightarrow>
          (case GetHeader RTSP_HDR_SESSION 0 pResponse of
             None \<Rightarrow> Inr (RTSP Z3_RTSP_ENOSESSIONID, s)
           | Some p \<Rightarrow> bindE (cstrE p) (\<lambda>pszSessionId.
               case m_pszSessionId s of
                 None \<Rightarrow>
                   (case z3_strdup (e_debug env) (e_mok env) pszSessionId of
                      None \<Rightarrow> Inl NullDeref
                    | Some d \<Rightarrow>
                        let sid = strtok_semicolon d in
                        next_request env media (s\<lparr>m_pszSessionId := Some sid, m_nTimeout := session_timeout sid (m_nTimeout s)\<rparr>))
               | Some sid \<Rightarrow>
                   if take (length sid) pszSessionId \<noteq> sid then Inr (RTSP Z3_RTSP_ESESSIONID, s)
                   else next_request env media s)))"

section \<open>Dispatch\<close>

text \<open>\<open>InvokeStateMachine\<close> returns 0 whatever the handler returned.\<close>

definition InvokeStateMachine ::
    "session_env \<Rightarrow> RTSP_METHOD \<Rightarrow> RtspMsg \<Rightarrow> RtspSession \<Rightarrow> (result \<times> RtspSession) outcome" where
  "InvokeStateMachine env method pResponse s =
     bindE (if method = RTSP_OPTIONS then OnOptionsRespond env pResponse s
            else if method = RTSP_DESCRIBE then OnDescribeRespond env pResponse s
            else if method = RTSP_SETUP then OnSetupRespond env pResponse s
            else if method = RTSP_PLAY then Inr (Z3 Z3_ERROR, s)
            else Inl AssertFailed) (\<lambda>(nError, s').
       if nError = EOK then
         (let (nError', s'') = StartRead env s' in bindE (assertE (nError' = EOK)) (\<lambda>_. Inr (EOK, s'')))
       else Inr (EOK, s'))"

text \<open>The message is that of the parser, which \<open>ToString\<close> changes.\<close>

definition Dispatch :: "session_env \<Rightarrow> RtspMsg \<Rightarrow> RtspSession \<Rightarrow> (result \<times> RtspSession) outcome" where
  "Dispatch env pMsg s =
     (case m_pMsgObj pMsg of
        None \<Rightarrow> Inl NullDeref
      | Some (RTSP_MSG_RESPONSE r) \<Rightarrow>
          if sint (rs_code r) \<noteq> 200 then Inr (EOK, s)
          else (case GetHeader RTSP_HDR_CSEQ 0 pMsg of
                  None \<Rightarrow> Inr (EOK, s)
                | Some p \<Rightarrow> bindE (cstrE p) (\<lambda>pCSeq.
                    if atoi pCSeq \<noteq> m_nCSeqPrevious s then Inr (EOK, s)
                    else InvokeStateMachine env (m_methodPrevious s) pMsg s))
      | Some _ \<Rightarrow>
          bindE (ToString (e_mok env) (e_time env) pMsg) (\<lambda>(_, m).
            Inr (EINVAL, s\<lparr>m_pParser := map_option (\<lambda>q. q\<lparr>m_pRtspMsg := m\<rparr>) (m_pParser s)\<rparr>)))"

definition GetProtoParser :: "RtspSession \<Rightarrow> RtspProtoParser \<times> RtspSession" where
  "GetProtoParser s =
     (let q = (case m_pParser s of None \<Rightarrow> RtspProtoParser_new | Some q \<Rightarrow> q) in (q, s\<lparr>m_pParser := Some q\<rparr>))"

section \<open>Events\<close>

definition OnConnect :: "session_env \<Rightarrow> u32 \<Rightarrow> RtspSession \<Rightarrow> (result \<times> RtspSession) outcome" where
  "OnConnect env nErrorCode s =
     (if nErrorCode \<noteq> 0 then Inr (EOK, Notify EV_NOTIFY (z3_rtsp_errno_code Z3_RTSP_SESSION_ECONNECT) s)
      else bindE (SendOPTIONS env s) (\<lambda>(nError, s').
        Inr (if nError = EOK then StartRead env s' else (nError, s'))))"

text \<open>A read has completed with the bytes \<open>packet\<close> in the receive buffer.\<close>

definition OnEvRead :: "session_env \<Rightarrow> u32 \<Rightarrow> string \<Rightarrow> RtspSession \<Rightarrow> (result \<times> RtspSession) outcome" where
  "OnEvRead env nErrorCode packet s =
     (if nErrorCode \<noteq> 0 then
        bindE (NotifyError env EV_READ nErrorCode s) (\<lambda>s1.
        bindE (session_close env s1) (\<lambda>s2. Inr (Z3 Z3_EINTR, s2)))
      else if packet = [] then Inr (Z3 Z3_ERROR, s)
      else bindE (assertE (length packet < SOCKET_RECV_BUFSIZE)) (\<lambda>_.
        let (q, s1) = GetProtoParser s in
        bindE (Parse (e_debug env) (e_mok env) (e_ind env) packet q) (\<lambda>(nError, pMsg, q').
          let s2 = s1\<lparr>m_pParser := Some q'\<rparr> in
          case pMsg of
            Some m \<Rightarrow> if nError = EOK then Dispatch env m s2 else Inr (nError, s2)
          | None \<Rightarrow> Inr (nError, s2))))"

definition OnEvWrite :: "session_env \<Rightarrow> u32 \<Rightarrow> nat \<Rightarrow> RtspSession \<Rightarrow> (result \<times> RtspSession) outcome" where
  "OnEvWrite env nErrorCode nBytes s =
     (if nErrorCode \<noteq> 0 then
        bindE (NotifyError env EV_WRITE nErrorCode s) (\<lambda>s1.
        bindE (session_close env s1) (\<lambda>s2. Inr (Z3 Z3_EINTR, s2)))
      else if nBytes < length (m_wsaSendBuf s) then WriteBytes env (drop nBytes (m_wsaSendBuf s)) s
      else Inr (EOK, s))"

text \<open>\<open>Connect\<close>, with \<open>InterpretDNS\<close> and \<open>SocketObj::AsyncConnect\<close>.\<close>

definition InterpretDNS :: "session_env \<Rightarrow> RtspSession \<Rightarrow> u32 outcome" where
  "InterpretDNS env s = bindE (assertE (m_pszHost s \<noteq> None \<and> m_pszHost s \<noteq> Some [])) (\<lambda>_. Inr (e_dns env))"

definition AsyncConnect :: "session_env \<Rightarrow> u32 \<Rightarrow> RtspSession \<Rightarrow> (result \<times> RtspSession) outcome" where
  "AsyncConnect env nMillseconds s =
     (if \<not> m_hSocket (s_socket s) then Inr (Z3 Z3_EINVAL, s)
      else bindE (assertE (\<not> m_hFileHandle s)) (\<lambda>_.
        let s1 = s\<lparr>m_hFileHandle := True\<rparr> in
        bindE (assertE (e_ioctl env)) (\<lambda>_.
          if AllocZ3Ovl (e_wsa env) EV_CONNECT nMillseconds = None then Inr (Z3 Z3_ENOMEM, s1)
          else if posted (e_connect env) then Inr (EOK, s1\<lparr>connecting := connecting s1 + 1\<rparr>)
          else Inr (wsa_error (e_connect env), s1))))"

definition Connect :: "session_env \<Rightarrow> u32 \<Rightarrow> RtspSession \<Rightarrow> (result \<times> RtspSession) outcome" where
  "Connect env nTimeout s =
     bindE (InterpretDNS env s) (\<lambda>e.
       if e \<noteq> 0 then Inr (wsa_error e, s)
       else bindE (SocketObj_Init (e_wsa env) (s_socket s)) (\<lambda>(nError, sock).
         let s1 = s\<lparr>s_socket := sock\<rparr> in
         if nError \<noteq> EOK then Inr (nError, s1)
         else bindE (Bind (e_wsa env) 0 sock) (\<lambda>nError.
           if nError \<noteq> EOK then Inr (nError, s1)
           else if w_iocp (e_wsa env) \<noteq> 0 then
             bindE (session_close env s1) (\<lambda>s2. Inr (sys_error (w_iocp (e_wsa env)), s2))
           else AsyncConnect env nTimeout s1)))"

definition OnStart :: "session_env \<Rightarrow> RtspSession \<Rightarrow> (result \<times> RtspSession) outcome" where
  "OnStart env s =
     bindE (if m_pszHost s \<noteq> None \<and> c_nPort s > 0 then Connect env SOCKET_CONNECTING_TIMEOUT s else Inr (EOK, s))
       (\<lambda>(nResult, s'). Inr (nResult, if nResult = EOK then s'\<lparr>m_bStarted := True\<rparr> else s'))"

definition OnStop :: "session_env \<Rightarrow> RtspSession \<Rightarrow> (result \<times> RtspSession) outcome" where
  "OnStop env s =
     bindE (Close (e_wsa env) (s_socket s)) (\<lambda>(nResult, sock).
       let s' = s\<lparr>s_socket := sock\<rparr> in
       if nResult = EOK
       then bindE (assertE (m_bStarted s')) (\<lambda>_. Inr (EOK, s'\<lparr>m_bStarted := False\<rparr>))
       else Inr (nResult, s'))"

text \<open>The events the executor hands to \<open>IOEndpoint::Run\<close>: the start and the stop that were posted to the completion port
  and the operations that completed, each with what completed it.\<close>

datatype session_event =
    InstanceStart
  | InstanceStop
  | Connected u32
  | Received u32 string
  | Sent u32 nat

fun Run :: "session_env \<Rightarrow> session_event \<Rightarrow> RtspSession \<Rightarrow> (result \<times> RtspSession) outcome" where
  "Run env InstanceStart s = OnStart env s"
| "Run env InstanceStop s = OnStop env s"
| "Run env (Connected e) s = OnConnect env e (s\<lparr>connecting := connecting s - 1\<rparr>)"
| "Run env (Received e packet) s =
     OnEvRead env e packet (s\<lparr>s_socket := (s_socket s)\<lparr>reads := reads (s_socket s) - 1\<rparr>\<rparr>)"
| "Run env (Sent e n) s = OnEvWrite env e n s"

text \<open>\<open>Executor::RunOnce\<close> ignores the result.\<close>

fun run_events :: "session_env \<Rightarrow> session_event list \<Rightarrow> RtspSession \<Rightarrow> RtspSession outcome" where
  "run_events env [] s = Inr s"
| "run_events env (e # es) s = bindE (Run env e s) (\<lambda>(_, s'). run_events env es s')"

end
