(* ===== verification/RtspRequests.thy ===== *)
theory RtspRequests
  imports RtspSession
begin

text \<open>
  The requests of a session as text: what the session hands to \<open>WSASend\<close> when it sends OPTIONS, DESCRIBE, SETUP and PLAY,
  where memory and Windows serve it.
\<close>

section \<open>Request messages\<close>

text \<open>\<open>request m i url hs\<close>: the message \<open>m\<close> is a request with the \<open>i\<close>-th method and the headers \<open>hs\<close>, without a body.\<close>

definition request :: "RtspMsg \<Rightarrow> nat \<Rightarrow> string \<Rightarrow> header list \<Rightarrow> bool" where
  "request m i url hs \<longleftrightarrow>
     (\<exists>r. m_pMsgObj m = Some (RTSP_MSG_REQUEST r) \<and> rq_method r = push_bit i 1 \<and> rq_pURI r = Some url)
     \<and> hdrs_repr m hs \<and> m_pBody m = None"

definition request_text :: "nat \<Rightarrow> string \<Rightarrow> header list \<Rightarrow> string" where
  "request_text i url hs = RTSP_METHODS ! i @ '' '' @ url @ '' RTSP/1.0'' @ CRLF @ headers_text hs @ CRLF"

lemma InitRequest_request:
  assumes "url \<noteq> []"
  shows "\<exists>m. InitRequest alloc_ok (push_bit i 1) url (length url) m0 = (EOK, m) \<and> request m i url []"
  using assms by (auto simp: InitRequest_def RtspRequest_Init_def Unset_def request_def alloc_ok Let_def)

lemma add_hdr_request:
  assumes "request m i url hs" "length hs < 16" "n \<le> length v" "e_mok env = alloc_ok"
  shows "\<exists>m'. add_hdr env f v n m = Inr m' \<and> request m' i url (hs @ [(f, take n v)])"
proof -
  have r: "hdrs_repr m hs" "length hs < TOP_MAX_KEY_VALUE" using assms(1,2) by (simp_all add: request_def msg_sizes)
  obtain k where k: "k = DEF_MAX_KEY_VALUE \<or> k = TOP_MAX_KEY_VALUE" "length hs < k"
    "AddHeader alloc_ok f (Some v) n m = Inr (EOK, m\<lparr>m_pHdrFields := Some (array_of k (hs @ [(f, take n v)]))\<rparr>)"
    using AddHeader_repr [OF r assms(3), of alloc_ok f] alloc_ok by blast
  have "request (m\<lparr>m_pHdrFields := Some (array_of k (hs @ [(f, take n v)]))\<rparr>) i url (hs @ [(f, take n v)])"
    using assms(1) k by (auto simp: request_def intro!: hdrs_reprI)
  with k assms(4) show ?thesis by (simp add: add_hdr_def)
qed

text \<open>An environment that serves every call.\<close>

definition good_env :: "session_env \<Rightarrow> bool" where
  "good_env env \<longleftrightarrow> e_mok env = alloc_ok \<and> w_calloc (e_wsa env) \<and> (\<forall>b. posted (w_send (e_wsa env) b))
     \<and> posted (w_recv (e_wsa env)) \<and> w_iocp (e_wsa env) = 0 \<and> w_socket (e_wsa env) = 0 \<and> (\<forall>n. w_bind (e_wsa env) n = 0)"

definition send :: "string \<Rightarrow> RtspSession \<Rightarrow> RtspSession" where
  "send t s = s\<lparr>m_wsaSendBuf := t, s_socket := (s_socket s)\<lparr>sent := sent (s_socket s) @ [t]\<rparr>\<rparr>"

lemma WriteBytes_ok:
  assumes "good_env env" "m_hSocket (s_socket s)" "t \<noteq> []" "length t \<le> 4096"
  shows "WriteBytes env t s = Inr (EOK, send t s)"
  using assms
  by (simp add: WriteBytes_def SOCKET_SEND_BUFSIZE_def AsyncTCPWrite_def good_env_def AllocZ3Ovl_def send_def
      SOCKET_WRITE_TIMEOUT_def INFINITE_def)

lemma WriteMsg_request:
  assumes "request m i url hs" "i < 13" "hs \<noteq> []" "\<forall>h \<in> set hs. header_ok h"
    and "RTSP_HDR_CONTENT_LENGTH \<notin> fst ` set hs" and "length (request_text i url hs) < 1500"
    and "good_env env" and "m_hSocket (s_socket s)"
  shows "WriteMsg env m s = Inr (EOK, send (request_text i url hs) s)"
proof -
  obtain r where r: "m_pMsgObj m = Some (RTSP_MSG_REQUEST r)" "rq_pURI r = Some url" "rq_method r = push_bit i 1"
    and h: "hdrs_repr m hs" "m_pBody m = None" using assms(1) by (auto simp: request_def)
  have meth: "RTSP_METHOD_AS_TEXT (rq_method r) = Inr (Some (RTSP_METHODS ! i))"
    using RTSP_METHOD_AS_TEXT_nth [OF assms(2)] r(3) by simp
  have mok: "e_mok env RTSP_MSG_STRING_MAX_LENGTH" using assms(7) by (simp add: good_env_def alloc_ok)
  have "ToString (e_mok env) (e_time env) m = Inr (Some (request_text i url hs), m)"
    using ToString_request_eq [where mok = "e_mok env", OF r(1,2) meth h(1) assms(3-5) h(2) mok,
        of "RTSP_METHODS ! i @ '' '' @ url @ '' RTSP/1.0'' @ CRLF" "e_time env"] assms(6)
    by (simp add: request_text_def CRLF_def)
  moreover have "request_text i url hs \<noteq> []" by (simp add: request_text_def)
  ultimately show ?thesis using WriteBytes_ok [OF assms(7,8)] assms(6) by (simp add: WriteMsg_def)
qed

section \<open>The four requests\<close>

lemma NUL_dec_int: "NUL \<notin> set (dec_int i)"
proof -
  have "NUL \<notin> set (dec_nat n)" for n using dec_nat_digits [of n] is_digit_not by blast
  then show ?thesis by (simp add: dec_int_def)
qed

lemma length_dec_int:
  assumes "0 \<le> i" "i \<le> 2147483647"
  shows "length (dec_int i) \<le> 10"
proof -
  have "nat i < 10 ^ 10" using assms by (simp add: nat_less_iff)
  then show ?thesis using length_dec_nat [of "nat i" 10] assms(1) by (simp add: dec_int_def)
qed

lemma cstr_sz: "NUL \<notin> set s \<Longrightarrow> cstr (sz s) = s"
  by (simp add: cstr_append_NUL)

lemma names [simp]:
  "field_name RTSP_HDR_CSEQ = ''CSeq''" "field_name RTSP_HDR_USER_AGENT = ''User-Agent''"
  "field_name RTSP_HDR_ACCEPT = ''Accept''" "field_name RTSP_HDR_TRANSPORT = ''Transport''"
  "field_name RTSP_HDR_SESSION = ''Session''" "field_name RTSP_HDR_RANGE = ''Range''"
  using field_name_nth [of 16] field_name_nth [of 36] field_name_nth [of 0] field_name_nth [of 34]
    field_name_nth [of 31] field_name_nth [of 25]
  by (simp_all add: RTSP_HEADERS_def)

lemma header_ok_sz: "f \<noteq> RTSP_HDR_INVALID \<Longrightarrow> unat (f - 1) < 48 \<Longrightarrow> header_ok (f, v @ NUL # r)"
  by (simp add: header_ok_def terminated_def)

lemma request_names:
  "RTSP_METHODS ! 0 = ''DESCRIBE''" "RTSP_METHODS ! 3 = ''OPTIONS''" "RTSP_METHODS ! 5 = ''PLAY''" "RTSP_METHODS ! 8 = ''SETUP''"
  by (simp_all add: RTSP_METHODS_def)

definition options_text :: "string \<Rightarrow> string" where
  "options_text url = ''OPTIONS '' @ url @ '' RTSP/1.0'' @ CRLF @ ''CSeq: 0'' @ CRLF @ ''User-Agent: '' @ szAgent @ CRLF @ CRLF"

definition describe_text :: "string \<Rightarrow> int \<Rightarrow> string" where
  "describe_text url n = ''DESCRIBE '' @ url @ '' RTSP/1.0'' @ CRLF @ ''CSeq: '' @ dec_int n @ CRLF
     @ ''Accept: application/sdp'' @ CRLF @ CRLF"

definition setup_text :: "string \<Rightarrow> nat \<times> nat \<Rightarrow> string option \<Rightarrow> int \<Rightarrow> string" where
  "setup_text url ports sid n = ''SETUP '' @ url @ '' RTSP/1.0'' @ CRLF
     @ ''Transport: RTP/AVP;unicast;client_port='' @ dec_int (int (fst ports)) @ ''-'' @ dec_int (int (snd ports)) @ CRLF
     @ (case sid of None \<Rightarrow> [] | Some i \<Rightarrow> ''Session: '' @ i @ CRLF) @ ''CSeq: '' @ dec_int n @ CRLF @ CRLF"

definition play_text :: "string \<Rightarrow> string \<Rightarrow> int \<Rightarrow> string" where
  "play_text url sid n = ''PLAY '' @ url @ '' RTSP/1.0'' @ CRLF @ ''CSeq: '' @ dec_int n @ CRLF
     @ ''Range: npt=0.000-'' @ CRLF @ ''Session: '' @ sid @ CRLF @ CRLF"

lemma length_szAgent: "length szAgent = 65" "NUL \<notin> set szAgent"
  by (simp_all add: szAgent_def CRLF_def)

lemma SendOPTIONS_ok:
  assumes "good_env env" "m_hSocket (s_socket s)" "m_pszUrl s = Some url" "url \<noteq> []" "length url \<le> 1000"
  shows "SendOPTIONS env s =
    Inr (EOK, (send (options_text url) s)\<lparr>m_methodPrevious := RTSP_OPTIONS, m_nCSeqPrevious := 0\<rparr>)"
proof -
  have mok: "e_mok env = alloc_ok" using assms(1) by (simp add: good_env_def)
  obtain m where m: "InitRequest alloc_ok RTSP_OPTIONS url (length url) RtspMsg_new = (EOK, m)" "request m 3 url []"
    using InitRequest_request [OF assms(4), of 3 RtspMsg_new] by auto
  obtain m1 where m1: "add_hdr env RTSP_HDR_CSEQ (sz ''0'') 2 m = Inr m1" "request m1 3 url [(RTSP_HDR_CSEQ, sz ''0'')]"
    using add_hdr_request [OF m(2) _ _ mok, of 2 "sz ''0''" RTSP_HDR_CSEQ] by auto
  let ?hs = "[(RTSP_HDR_CSEQ, sz ''0''), (RTSP_HDR_USER_AGENT, sz szAgent)]"
  obtain m2 where m2: "add_hdr env RTSP_HDR_USER_AGENT (sz szAgent) (length szAgent + 1) m1 = Inr m2" "request m2 3 url ?hs"
    using add_hdr_request [OF m1(2) _ _ mok, of "length szAgent + 1" "sz szAgent" RTSP_HDR_USER_AGENT] by auto
  have t: "request_text 3 url ?hs = options_text url"
    by (simp add: request_text_def options_text_def header_text_def request_names cstr_append_NUL length_szAgent)
  have "length (options_text url) < 1500"
    using assms(5) by (simp add: options_text_def CRLF_def length_szAgent)
  then have "WriteMsg env m2 s = Inr (EOK, send (options_text url) s)"
    using WriteMsg_request [OF m2(2) _ _ _ _ _ assms(1,2)] unfolding t by (simp add: header_ok_def terminated_def)
  then show ?thesis using m(1) m1(1) m2(1) by (simp add: SendOPTIONS_def assms(3) mok)
qed

lemma SendDESCRIBE_ok:
  assumes "good_env env" "m_hSocket (s_socket s)" "m_pszUrl s = Some url" "url \<noteq> []" "length url \<le> 1000"
    and "n = m_nCSeqPrevious s + 1" "0 \<le> n" "n \<le> 2147483647"
  shows "SendDESCRIBE env s =
    Inr (EOK, (send (describe_text url n) s)\<lparr>m_methodPrevious := RTSP_DESCRIBE, m_nCSeqPrevious := n\<rparr>)"
proof -
  define seq where "seq = take 16 (sz (dec_int n) @ map (e_junk env) [0..<16])"
  let ?s1 = "s\<lparr>m_nCSeqPrevious := n\<rparr>"
  have mok: "e_mok env = alloc_ok" using assms(1) by (simp add: good_env_def)
  have "length (dec_int n) \<le> 10" using length_dec_int [OF assms(7,8)] .
  then have len: "length seq = 16" "\<exists>r. seq = dec_int n @ NUL # r" by (auto simp: seq_def take_Cons')
  then obtain r where r: "seq = dec_int n @ NUL # r" by blast
  obtain m where m: "InitRequest alloc_ok RTSP_DESCRIBE url (length url) RtspMsg_new = (EOK, m)" "request m 0 url []"
    using InitRequest_request [OF assms(4), of 0 RtspMsg_new] by auto
  obtain m1 where m1: "add_hdr env RTSP_HDR_CSEQ seq 16 m = Inr m1" "request m1 0 url [(RTSP_HDR_CSEQ, seq)]"
    using add_hdr_request [OF m(2) _ _ mok, of 16 seq RTSP_HDR_CSEQ] len(1) by auto
  let ?hs = "[(RTSP_HDR_CSEQ, seq), (RTSP_HDR_ACCEPT, sz ''application/sdp'')]"
  obtain m2 where m2: "add_hdr env RTSP_HDR_ACCEPT (sz ''application/sdp'') 16 m1 = Inr m2" "request m2 0 url ?hs"
    using add_hdr_request [OF m1(2) _ _ mok, of 16 "sz ''application/sdp''" RTSP_HDR_ACCEPT] by auto
  have t: "request_text 0 url ?hs = describe_text url n"
    unfolding r by (simp add: request_text_def describe_text_def header_text_def request_names cstr_append_NUL NUL_dec_int)
  have "length (describe_text url n) < 1500"
    using assms(5) length_dec_int [OF assms(7,8)] by (simp add: describe_text_def CRLF_def)
  moreover have "\<forall>h \<in> set ?hs. header_ok h" unfolding r by (simp add: header_ok_def terminated_def)
  ultimately have "WriteMsg env m2 ?s1 = Inr (EOK, send (describe_text url n) ?s1)"
    using WriteMsg_request [OF m2(2) _ _ _ _ _ assms(1), of ?s1] assms(2) unfolding t by simp
  then show ?thesis
    using m(1) m1(1) m2(1) unfolding seq_def SendDESCRIBE_def
    by (simp add: assms(3) mok assms(6) [symmetric] Let_def) (simp add: send_def)
qed

text \<open>A media session that has its ports and is waiting for datagrams on both.\<close>

definition receiving :: "nat \<Rightarrow> UDPSession option \<Rightarrow> bool" where
  "receiving port u \<longleftrightarrow> (case u of None \<Rightarrow> False
     | Some v \<Rightarrow> u_nPort v = port \<and> m_hSocket (u_socket v) \<and> reads (u_socket v) = 1)"

definition media_up :: "nat \<times> nat \<Rightarrow> MediaSession \<Rightarrow> bool" where
  "media_up ports ms \<longleftrightarrow> GetPort ms = ports \<and> m_nTransferMode ms = RTP_OVER_UDP
     \<and> receiving (fst ports) (m_pRTPSession ms) \<and> receiving (snd ports) (m_pRTCPSession ms)"

lemma udp_open_ok:
  assumes "good_env env"
  shows "\<exists>u. udp_open (e_wsa env) port = Inr (EOK, u) \<and> receiving port (Some u)"
  using assms
  by (simp add: udp_open_def UDPSession_Init_def UDPSession_new_def SocketObj_Init_def SocketObj_new_def Bind_def
      UDPSession_StartRead_def AsyncUDPRead_def good_env_def AllocZ3Ovl_def SOCKET_READ_TIMEOUT_def INFINITE_def
      receiving_def Let_def)

lemma CreateMediaSession_ok:
  assumes "good_env env" "m_pszMedia pMedia \<noteq> None"
    and "GetInstance alloc_ok (e_bits env) (e_reserved env) inst = Inr q"
    and "GetPairPorts pair_fuel q = Inr (EOK, Some (lo, hi), q')"
  shows "\<exists>ms. CreateMediaSession env pMedia inst m = Inr (Some ms, AddMediaSession ms m, Some q') \<and> media_up (lo, hi) ms"
proof -
  have mok: "e_mok env = alloc_ok" using assms(1) by (simp add: good_env_def)
  obtain name where name: "m_pszMedia pMedia = Some name" using assms(2) by auto
  obtain u where u: "udp_open (e_wsa env) lo = Inr (EOK, u)" "receiving lo (Some u)" using udp_open_ok [OF assms(1)] by blast
  obtain v where v: "udp_open (e_wsa env) hi = Inr (EOK, v)" "receiving hi (Some v)" using udp_open_ok [OF assms(1)] by blast
  show ?thesis
    using u v
    by (simp add: CreateMediaSession_def MediaSession_Init_def name mok assms(3,4) MediaSession_new_def media_up_def GetPort_def Let_def)
qed

lemma setup_headers_ok:
  assumes "e_mok env = alloc_ok" "request m 8 url []" "media_up (lo, lo + 1) ms" "even lo" "0 < lo" "lo < 65535"
    and "NUL \<notin> set (case sid of None \<Rightarrow> [] | Some i \<Rightarrow> i)" "length (case sid of None \<Rightarrow> [] | Some i \<Rightarrow> i) \<le> 900"
    and "0 \<le> n" "n \<le> 2147483647" "length url < 256"
  shows "\<exists>m' hs. setup_headers env ms sid n url m = Inr m' \<and> request m' 8 url hs \<and> hs \<noteq> [] \<and> (\<forall>h \<in> set hs. header_ok h)
    \<and> RTSP_HDR_CONTENT_LENGTH \<notin> fst ` set hs \<and> request_text 8 url hs = setup_text url (lo, lo + 1) sid n
    \<and> length (setup_text url (lo, lo + 1) sid n) < 1500"
proof -
  define t where "t = ''RTP/AVP;unicast;client_port='' @ dec_int (int lo) @ ''-'' @ dec_int (int (lo + 1))"
  let ?sids = "case sid of None \<Rightarrow> [] | Some i \<Rightarrow> [(RTSP_HDR_SESSION, sz i)]"
  have ports: "length (dec_int (int lo)) \<le> 10" "length (dec_int (int (lo + 1))) \<le> 10"
    using assms(6) by (auto intro!: length_dec_int)
  have seq: "length (dec_int n) \<le> 10" using assms(9,10) by (rule length_dec_int)
  obtain m1 where m1: "add_hdr env RTSP_HDR_TRANSPORT (sz t) (length t + 1) m = Inr m1" "request m1 8 url [(RTSP_HDR_TRANSPORT, sz t)]"
    using add_hdr_request [OF assms(2) _ _ assms(1), of "length t + 1" "sz t" RTSP_HDR_TRANSPORT] by auto
  obtain m2 where m2: "(case sid of None \<Rightarrow> Inr m1
        | Some i \<Rightarrow> bindE (AddHeader (e_mok env) RTSP_HDR_SESSION (Some (sz i)) (length i + 1) m1) (\<lambda>(_, m'). Inr m')) = Inr m2"
    "request m2 8 url ((RTSP_HDR_TRANSPORT, sz t) # ?sids)"
  proof (cases sid)
    case (Some i)
    obtain m' where "add_hdr env RTSP_HDR_SESSION (sz i) (length i + 1) m1 = Inr m'"
      "request m' 8 url [(RTSP_HDR_TRANSPORT, sz t), (RTSP_HDR_SESSION, sz i)]"
      using add_hdr_request [OF m1(2) _ _ assms(1), of "length i + 1" "sz i" RTSP_HDR_SESSION] by auto
    then show ?thesis
      using that [of m'] Some by (auto simp: add_hdr_def bindE_Inr_iff split_beta)
  qed (use that m1 in simp)
  have few: "length ((RTSP_HDR_TRANSPORT, sz t) # ?sids) < 16" by (cases sid) simp_all
  let ?hs = "((RTSP_HDR_TRANSPORT, sz t) # ?sids) @ [(RTSP_HDR_CSEQ, sz (dec_int n))]"
  obtain m3 where m3: "add_hdr env RTSP_HDR_CSEQ (sz (dec_int n)) (length (dec_int n) + 1) m2 = Inr m3" "request m3 8 url ?hs"
    using add_hdr_request [OF m2(2) few _ assms(1), of "length (dec_int n) + 1" "sz (dec_int n)" RTSP_HDR_CSEQ] by auto
  have t_ok: "NUL \<notin> set t" by (simp add: t_def NUL_dec_int)
  have mode: "transport_text (m_nTransferMode ms) lo (lo + 1) url = Inr t" "GetPort ms = (lo, lo + 1)"
    using assms(3) ports by (auto simp: media_up_def transport_text_def sprintf_s_def t_def)
  have "setup_headers env ms sid n url m = Inr m3"
    using assms(4,5) m1(1) m2(1) m3(1) mode(1) unfolding setup_headers_def mode(2) by simp
  moreover have "request_text 8 url ?hs = setup_text url (lo, lo + 1) sid n"
    using assms(7) t_ok
    by (cases sid) (simp_all add: request_text_def setup_text_def header_text_def request_names cstr_append_NUL NUL_dec_int cstr_sz,
        simp_all add: t_def)
  moreover have "length (setup_text url (lo, lo + 1) sid n) < 1500"
    using assms(8,11) ports seq by (cases sid) (simp_all add: setup_text_def CRLF_def)
  moreover have "\<forall>h \<in> set ?hs. header_ok h" "RTSP_HDR_CONTENT_LENGTH \<notin> fst ` set ?hs" "?hs \<noteq> []"
    by (cases sid; simp add: header_ok_def terminated_def)+
  ultimately show ?thesis using m3(2) by blast
qed

lemma SendSETUP_ok:
  assumes good: "good_env env" "m_hSocket (s_socket s)"
    and media: "m_pRtspMedia s = Some media" "m_pSDP media = Some sdp" "m_pszContentBase media = Some base"
    and track: "GetSDPMedia (m_nRequestTrack media) sdp = Inr pm" "GetAttributeValue ''control'' 0 pm = Inr (Some ctl)"
      "m_pszMedia pm \<noteq> None" "base @ ctl \<noteq> []" "length (base @ ctl) < 256"
    and ports: "GetInstance alloc_ok (e_bits env) (e_reserved env) (s_ports s) = Inr q"
      "GetPairPorts pair_fuel q = Inr (EOK, Some (lo, lo + 1), q')" "even lo" "0 < lo" "lo < 65535"
    and sid: "NUL \<notin> set (case m_pszSessionId s of None \<Rightarrow> [] | Some i \<Rightarrow> i)"
      "length (case m_pszSessionId s of None \<Rightarrow> [] | Some i \<Rightarrow> i) \<le> 900"
    and n: "n = m_nCSeqPrevious s + 1" "0 \<le> n" "n \<le> 2147483647"
  shows "\<exists>ms. SendSETUP env s = Inr (EOK, (send (setup_text (base @ ctl) (lo, lo + 1) (m_pszSessionId s) n) s)
      \<lparr>m_methodPrevious := RTSP_SETUP, m_nCSeqPrevious := n, s_ports := Some q',
       m_pRtspMedia := Some (AddMediaSession ms (media\<lparr>m_nRequestTrack := m_nRequestTrack media + 1\<rparr>))\<rparr>)
    \<and> media_up (lo, lo + 1) ms"
proof -
  let ?url = "base @ ctl" and ?media1 = "media\<lparr>m_nRequestTrack := m_nRequestTrack media + 1\<rparr>"
  have mok: "e_mok env = alloc_ok" using good(1) by (simp add: good_env_def)
  obtain m where m: "InitRequest alloc_ok RTSP_SETUP ?url (length ?url) RtspMsg_new = (EOK, m)" "request m 8 ?url []"
    using InitRequest_request [OF track(4), of 8 RtspMsg_new] by auto
  obtain ms where ms: "CreateMediaSession env pm (s_ports s) ?media1 = Inr (Some ms, AddMediaSession ms ?media1, Some q')"
    "media_up (lo, lo + 1) ms"
    using CreateMediaSession_ok [OF good(1) track(3) ports(1,2)] by blast
  obtain m' hs where m': "setup_headers env ms (m_pszSessionId s) n ?url m = Inr m'" "request m' 8 ?url hs" "hs \<noteq> []"
    "\<forall>h \<in> set hs. header_ok h" "RTSP_HDR_CONTENT_LENGTH \<notin> fst ` set hs"
    "request_text 8 ?url hs = setup_text ?url (lo, lo + 1) (m_pszSessionId s) n"
    "length (setup_text ?url (lo, lo + 1) (m_pszSessionId s) n) < 1500"
    using setup_headers_ok [OF mok m(2) ms(2) ports(3-5) sid n(2,3) track(5)] by blast
  let ?s2 = "s\<lparr>m_pRtspMedia := Some (AddMediaSession ms ?media1), s_ports := Some q', m_nCSeqPrevious := n\<rparr>"
  have "WriteMsg env m' ?s2 = Inr (EOK, send (setup_text ?url (lo, lo + 1) (m_pszSessionId s) n) ?s2)"
    using WriteMsg_request [OF m'(2) _ m'(3-5) _ good(1), of ?s2] m'(7) good(2) unfolding m'(6) by simp
  moreover have "sprintf_s 256 ?url = Inr ?url" using track(5) by (simp add: sprintf_s_def)
  ultimately have "SendSETUP env s = Inr (EOK, (send (setup_text ?url (lo, lo + 1) (m_pszSessionId s) n) ?s2)\<lparr>m_methodPrevious := RTSP_SETUP\<rparr>)"
    using m(1) m'(1) ms(1) by (simp add: SendSETUP_def media track(1,2) mok n(1) [symmetric])
  then show ?thesis using ms(2) by (intro exI [of _ ms]) (simp add: send_def)
qed

lemma SendPLAY_ok:
  assumes good: "good_env env" "m_hSocket (s_socket s)"
    and media: "m_pRtspMedia s = Some media" "m_pszContentBase media = Some base" "base \<noteq> []" "length base < 256"
    and sid: "m_pszSessionId s = Some sid" "NUL \<notin> set sid" "length sid \<le> 900"
    and n: "n = m_nCSeqPrevious s + 1" "0 \<le> n" "n \<le> 2147483647"
  shows "SendPLAY env s = Inr (EOK, (send (play_text base sid n) s)\<lparr>m_methodPrevious := RTSP_PLAY, m_nCSeqPrevious := n\<rparr>)"
proof -
  let ?s1 = "s\<lparr>m_nCSeqPrevious := n\<rparr>"
  have mok: "e_mok env = alloc_ok" using good(1) by (simp add: good_env_def)
  have seq: "length (dec_int n) \<le> 10" using n(2,3) by (rule length_dec_int)
  obtain m where m: "InitRequest alloc_ok RTSP_PLAY base (length base) RtspMsg_new = (EOK, m)" "request m 5 base []"
    using InitRequest_request [OF media(3), of 5 RtspMsg_new] by auto
  obtain m1 where m1: "add_hdr env RTSP_HDR_CSEQ (sz (dec_int n)) (length (dec_int n) + 1) m = Inr m1"
    "request m1 5 base [(RTSP_HDR_CSEQ, sz (dec_int n))]"
    using add_hdr_request [OF m(2) _ _ mok, of "length (dec_int n) + 1" "sz (dec_int n)" RTSP_HDR_CSEQ] by auto
  obtain m2 where m2: "add_hdr env RTSP_HDR_RANGE (sz ''npt=0.000-'') 11 m1 = Inr m2"
    "request m2 5 base [(RTSP_HDR_CSEQ, sz (dec_int n)), (RTSP_HDR_RANGE, sz ''npt=0.000-'')]"
    using add_hdr_request [OF m1(2) _ _ mok, of 11 "sz ''npt=0.000-''" RTSP_HDR_RANGE] by auto
  let ?hs = "[(RTSP_HDR_CSEQ, sz (dec_int n)), (RTSP_HDR_RANGE, sz ''npt=0.000-''), (RTSP_HDR_SESSION, sz sid)]"
  obtain m3 where m3: "add_hdr env RTSP_HDR_SESSION (sz sid) (length sid + 1) m2 = Inr m3" "request m3 5 base ?hs"
    using add_hdr_request [OF m2(2) _ _ mok, of "length sid + 1" "sz sid" RTSP_HDR_SESSION] by auto
  have t: "request_text 5 base ?hs = play_text base sid n"
    using sid(2) by (simp add: request_text_def play_text_def header_text_def request_names cstr_append_NUL NUL_dec_int)
  have "length (play_text base sid n) < 1500"
    using media(4) sid(3) seq by (simp add: play_text_def CRLF_def)
  moreover have "\<forall>h \<in> set ?hs. header_ok h" by (simp add: header_ok_def terminated_def)
  ultimately have "WriteMsg env m3 ?s1 = Inr (EOK, send (play_text base sid n) ?s1)"
    using WriteMsg_request [OF m3(2) _ _ _ _ _ good(1), of ?s1] good(2) unfolding t by simp
  moreover have "sprintf_s 256 base = Inr base" using media(4) by (simp add: sprintf_s_def)
  ultimately show ?thesis
    using m(1) m1(1) m2(1) m3(1) by (simp add: SendPLAY_def media(1,2) sid(1) mok n(1) [symmetric] Let_def) (simp add: send_def)
qed

end
