(* ===== verification/RtspHandshake.thy ===== *)
theory RtspHandshake
  imports RtspRequests
begin

text \<open>
  The session and its server: from the bytes of the responses, through the parser, the state machine and the description of
  the media, to the bytes of the requests.
\<close>

section \<open>Responses\<close>

text \<open>The text of a response \<open>200 OK\<close>, and what the session gets to see of one.\<close>

definition reply :: "(RTSP_HEADER_FIELD \<times> string) list \<Rightarrow> string \<Rightarrow> string" where
  "reply hs body = (''RTSP/1.0 '' @ dec_nat 200 @ '' '' @ ''OK'') @ CRLF @ lines_text hs @ CRLF @ body"

definition reply_ok :: "(RTSP_HEADER_FIELD \<times> string) list \<Rightarrow> string \<Rightarrow> bool" where
  "reply_ok hs body \<longleftrightarrow> (\<forall>h \<in> set hs. sendable h) \<and> length hs \<le> 16 \<and> length (reply hs body) < 4096
     \<and> (if body = [] then RTSP_HDR_CONTENT_LENGTH \<notin> fst ` set hs
        else filter (\<lambda>h. fst h = RTSP_HDR_CONTENT_LENGTH) hs = [(RTSP_HDR_CONTENT_LENGTH, dec_nat (length body))])"

definition response :: "RtspMsg \<Rightarrow> (RTSP_HEADER_FIELD \<times> string) list \<Rightarrow> string \<Rightarrow> bool" where
  "response m hs body \<longleftrightarrow> msg_wf m \<and> msg_hdrs m = hs
     \<and> (\<exists>r. m_pMsgObj m = Some (RTSP_MSG_RESPONSE r) \<and> rs_code r = 200)
     \<and> (body \<noteq> [] \<longrightarrow> m_pBody m = Some (body @ [NUL]) \<and> m_nBodySize m = of_nat (length body + 1) \<and> length body < 4096)"

lemma alloc_ok_total: "alloc_total alloc_ok"
  by (simp add: alloc_total_def alloc_ok)

lemma Parse_fresh:
  assumes "fresh_parser q" "Parse debug alloc_ok ind packet q = Inr (r, pMsg, q')" "m_bMsgCompleted q'"
  shows "fresh_parser q'"
  using Parse_ends [of q alloc_ok debug ind packet] assms by (simp add: fresh_parser_def alloc_ok_total)

lemma Parse_reply:
  assumes "fresh_parser q" "reply_ok hs body"
  shows "\<exists>m q'. Parse debug alloc_ok ind (reply hs body) q = Inr (EOK, Some m, q') \<and> fresh_parser q' \<and> response m hs body"
proof -
  have hs: "\<forall>h \<in> set hs. sendable h" "take TOP_MAX_KEY_VALUE hs = hs" "length (reply hs body) \<le> RTSP_RECVBUF_SIZE"
    using assms(2) by (simp_all add: reply_ok_def msg_sizes RTSP_RECVBUF_SIZE_def)
  have ok: "clean_line ''OK''" "hd ''OK'' \<noteq> CHR '' ''" by (simp_all add: clean_line_def is_space_def)
  show ?thesis
  proof (cases "body = []")
    case True
    then have "RTSP_HDR_CONTENT_LENGTH \<notin> fst ` set hs" using assms(2) by (simp add: reply_ok_def)
    then obtain m q' where "Parse debug alloc_ok ind (reply hs body) q = Inr (EOK, Some m, q')" "m_bMsgCompleted q'" "msg_wf m"
      "msg_hdrs m = take TOP_MAX_KEY_VALUE hs" "m_pMsgObj m = Some (RTSP_MSG_RESPONSE \<lparr>rs_code = of_nat 200, rs_pReason = Some ''OK'',
          rs_nReasonLen = length ''OK'' + 1, rs_version = RTSP_VERSION_1_0\<rparr>)"
      using parse_no_body [OF assms(1) start_line_response [OF _ ok, of 200] hs(1) disjI2 [OF refl] _ refl,
          where debug = debug and ind = ind and extra = "[]"] hs(3) True
      by (simp add: reply_def) blast
    with Parse_fresh [OF assms(1)] hs(2) True show ?thesis by (auto simp: response_def)
  next
    case False
    then have cl: "filter (\<lambda>h. fst h = RTSP_HDR_CONTENT_LENGTH) (take TOP_MAX_KEY_VALUE hs) = [(RTSP_HDR_CONTENT_LENGTH, dec_nat (length body))]"
      and len: "length body < 4096" using assms(2) hs(2) by (simp_all add: reply_ok_def reply_def)
    from response_body_cases [OF assms(1) _ ok hs(1) cl _ len _ hs(3), of 200 body debug ind] False
    show ?thesis using Parse_fresh [OF assms(1)] hs(2) len by (fastforce simp: reply_def response_def)
  qed
qed

lemma GetHeader_first:
  assumes "response m hs body"
  shows "case map_of hs f of None \<Rightarrow> GetHeader f 0 m = None | Some v \<Rightarrow> \<exists>p. GetHeader f 0 m = Some p \<and> cstrE p = Inr v"
proof -
  have m: "msg_wf m" "msg_hdrs m = hs" using assms by (simp_all add: response_def)
  have "map_of hs f = (case filter (\<lambda>h. fst h = f) hs of [] \<Rightarrow> None | h # _ \<Rightarrow> Some (snd h))"
    by (induction hs) (auto split: list.splits)
  then show ?thesis using GetHeader_wf [OF m(1), of f] unfolding m(2) by (auto split: list.splits)
qed

text \<open>The values of a header that comes several times, and the search through those of \<open>Public\<close>.\<close>

lemma find_public_values:
  assumes "hdrs_repr m hs" "\<forall>h \<in> set hs. terminated (snd h)"
    and "length (filter (\<lambda>h. fst h = RTSP_HDR_PUBLIC) hs) < n + i"
    and "i \<le> length (filter (\<lambda>h. fst h = RTSP_HDR_PUBLIC) hs)"
  shows "find_public n i m =
    Inr (\<exists>h \<in> set (drop i (filter (\<lambda>h. fst h = RTSP_HDR_PUBLIC) hs)). stricmp_eq (cstr (snd h)) ''describe'')"
  using assms(3,4)
proof (induction n arbitrary: i)
  case (Suc n)
  let ?vs = "filter (\<lambda>h. fst h = RTSP_HDR_PUBLIC) hs"
  show ?case
  proof (cases "i < length ?vs")
    case True
    have "terminated (snd (?vs ! i))" using assms(2) nth_mem [OF True] by auto
    moreover have "GetHeader RTSP_HDR_PUBLIC i m = Some (Some (value_of (snd (?vs ! i))))"
      using True by (simp add: GetHeader_repr [OF assms(1)] nth_header_def Let_def)
    moreover have "drop i ?vs = ?vs ! i # drop (Suc i) ?vs" using True by (simp add: Cons_nth_drop_Suc)
    ultimately show ?thesis using Suc.IH [of "i + 1"] Suc.prems True by (auto simp: cstrE_value_of)
  next
    case False
    then show ?thesis by (simp add: GetHeader_repr [OF assms(1)] nth_header_def Let_def)
  qed
qed simp

lemma find_public_response:
  assumes "response m hs body"
  shows "find_public public_fuel 0 m = Inr (\<exists>v. (RTSP_HDR_PUBLIC, v) \<in> set hs \<and> stricmp_eq v ''describe'')"
proof -
  obtain gs where gs: "hdrs_repr m gs" "\<forall>h \<in> set gs. terminated (snd h)"
    using assms by (auto simp: response_def msg_wf_def)
  then have hs: "hs = map (\<lambda>h. (fst h, cstr (snd h))) gs" using assms by (simp add: response_def msg_hdrs_repr)
  have "length (filter (\<lambda>h. fst h = RTSP_HDR_PUBLIC) gs) \<le> 16"
    using hdrs_repr_le [OF gs(1)] by (simp add: msg_sizes le_trans [OF length_filter_le])
  then show ?thesis
    using find_public_values [OF gs, of public_fuel 0] by (force simp: public_fuel_def msg_sizes hs)
qed

lemma Dispatch_response:
  assumes "response m hs body" "map_of hs RTSP_HDR_CSEQ = Some v" "atoi v = m_nCSeqPrevious s"
  shows "Dispatch env m s = InvokeStateMachine env (m_methodPrevious s) m s"
  using assms(1) GetHeader_first [OF assms(1), of RTSP_HDR_CSEQ] assms(2,3)
  by (auto simp: Dispatch_def response_def)

lemma sint_of_nat_u32: "n < 2147483648 \<Longrightarrow> sint (of_nat n :: u32) = int n"
  by (simp add: signed_of_nat signed_take_bit_int_eq_self)

section \<open>One step of the handshake\<close>

definition parser_ready :: "RtspSession \<Rightarrow> bool" where
  "parser_ready s \<longleftrightarrow> (case m_pParser s of None \<Rightarrow> True | Some q \<Rightarrow> fresh_parser q)"

definition received :: "RtspProtoParser \<Rightarrow> RtspSession \<Rightarrow> RtspSession" where
  "received q s = s\<lparr>s_socket := (s_socket s)\<lparr>reads := reads (s_socket s) - 1\<rparr>, m_pParser := Some q\<rparr>"

lemma received_simps [simp]:
  "m_pszUrl (received q s) = m_pszUrl s" "m_methodPrevious (received q s) = m_methodPrevious s"
  "m_nCSeqPrevious (received q s) = m_nCSeqPrevious s" "m_pRtspMedia (received q s) = m_pRtspMedia s"
  "m_nSessionState (received q s) = m_nSessionState s" "m_pszSessionId (received q s) = m_pszSessionId s"
  "s_ports (received q s) = s_ports s" "m_hSocket (s_socket (received q s)) = m_hSocket (s_socket s)"
  "m_pParser (received q s) = Some q" "m_nTimeout (received q s) = m_nTimeout s"
  "reads (s_socket (received q s)) = reads (s_socket s) - 1" "sent (s_socket (received q s)) = sent (s_socket s)"
  by (simp_all add: received_def)

lemma send_simps [simp]:
  "m_pszUrl (send t s) = m_pszUrl s" "m_methodPrevious (send t s) = m_methodPrevious s"
  "m_nCSeqPrevious (send t s) = m_nCSeqPrevious s" "m_pRtspMedia (send t s) = m_pRtspMedia s"
  "m_nSessionState (send t s) = m_nSessionState s" "m_pszSessionId (send t s) = m_pszSessionId s"
  "s_ports (send t s) = s_ports s" "m_hSocket (s_socket (send t s)) = m_hSocket (s_socket s)"
  "m_pParser (send t s) = m_pParser s" "m_nTimeout (send t s) = m_nTimeout s"
  "reads (s_socket (send t s)) = reads (s_socket s)" "sent (s_socket (send t s)) = sent (s_socket s) @ [t]"
  by (simp_all add: send_def)

lemma Received_reply:
  assumes "e_mok env = alloc_ok" "parser_ready s" "reply_ok hs body"
  shows "\<exists>m q. response m hs body \<and> fresh_parser q \<and> Run env (Received 0 (reply hs body)) s = Dispatch env m (received q s)"
proof -
  let ?q0 = "case m_pParser s of None \<Rightarrow> RtspProtoParser_new | Some q \<Rightarrow> q"
  have "fresh_parser ?q0" using assms(2) fresh_new by (auto simp: parser_ready_def split: option.splits)
  from Parse_reply [OF this assms(3)] obtain m q where
    "Parse (e_debug env) alloc_ok (e_ind env) (reply hs body) ?q0 = Inr (EOK, Some m, q)" "fresh_parser q" "response m hs body"
    by blast
  moreover have "reply hs body \<noteq> []" "length (reply hs body) < SOCKET_RECV_BUFSIZE"
    using assms(3) by (simp_all add: reply_def reply_ok_def SOCKET_RECV_BUFSIZE_def)
  ultimately show ?thesis
    using assms(1) by (intro exI [of _ m] exI [of _ q]) (simp add: OnEvRead_def GetProtoParser_def Let_def received_def)
qed

lemma StartRead_ok:
  assumes "good_env env" "m_hSocket (s_socket s)"
  shows "StartRead env s = (EOK, s\<lparr>s_socket := (s_socket s)\<lparr>reads := reads (s_socket s) + 1\<rparr>\<rparr>)"
  using assms by (simp add: StartRead_def AsyncTCPRead_def good_env_def AllocZ3Ovl_def SOCKET_READ_TIMEOUT_def INFINITE_def)

lemma options_step:
  assumes good: "good_env env" "m_hSocket (s_socket s)" "parser_ready s" "reads (s_socket s) = 1"
    and url: "m_pszUrl s = Some url" "url \<noteq> []" "length url \<le> 1000"
    and prev: "m_methodPrevious s = RTSP_OPTIONS" "m_nCSeqPrevious s = 0"
    and hs: "reply_ok hs []" "map_of hs RTSP_HDR_CSEQ = Some v" "atoi v = 0"
      "(RTSP_HDR_PUBLIC, w) \<in> set hs" "stricmp_eq w ''describe''"
  shows "\<exists>q. fresh_parser q \<and> Run env (Received 0 (reply hs [])) s =
    Inr (EOK, (send (describe_text url 1) s)\<lparr>m_pParser := Some q, m_methodPrevious := RTSP_DESCRIBE, m_nCSeqPrevious := 1\<rparr>)"
proof -
  have mok: "e_mok env = alloc_ok" using good(1) by (simp add: good_env_def)
  obtain m q where m: "response m hs []" "fresh_parser q" "Run env (Received 0 (reply hs [])) s = Dispatch env m (received q s)"
    using Received_reply [OF mok good(3) hs(1)] by blast
  let ?s' = "(send (describe_text url 1) (received q s))\<lparr>m_methodPrevious := RTSP_DESCRIBE, m_nCSeqPrevious := 1\<rparr>"
  have "SendDESCRIBE env (received q s) = Inr (EOK, ?s')"
    using SendDESCRIBE_ok [OF good(1), of "received q s" url 1] good(2) url prev(2) by simp
  then have opt: "OnOptionsRespond env m (received q s) = Inr (EOK, ?s')"
    using find_public_response [OF m(1)] hs(4,5) by (auto simp: OnOptionsRespond_def)
  have "Dispatch env m (received q s) = InvokeStateMachine env RTSP_OPTIONS m (received q s)"
    using Dispatch_response [OF m(1) hs(2)] hs(3) prev by simp
  also have "\<dots> = Inr (EOK, snd (StartRead env ?s'))"
    using opt StartRead_ok [OF good(1), of ?s'] good(2) by (simp add: InvokeStateMachine_def)
  finally show ?thesis
    using m(2,3) StartRead_ok [OF good(1), of ?s'] good(2,4)
    by (intro exI [of _ q]) (simp add: send_def received_def)
qed

text \<open>The track \<open>k\<close> of a description has the control attribute \<open>c\<close>.\<close>

definition control :: "sdp_desc \<Rightarrow> nat \<Rightarrow> string \<Rightarrow> bool" where
  "control d k c \<longleftrightarrow> k < length (d_medias d)
     \<and> (case d_medias d ! k of (_, _, _, _, attrs) \<Rightarrow> \<exists>cs. values_of ''control'' attrs = c # cs)"

lemma control_track:
  assumes "control d k c"
  shows "\<exists>pm. GetSDPMedia k (desc_obj d) = Inr pm \<and> GetAttributeValue ''control'' 0 pm = Inr (Some c) \<and> m_pszMedia pm \<noteq> None"
proof -
  obtain name port proto fmts attrs where x: "d_medias d ! k = (name, port, proto, fmts, attrs)" by (cases "d_medias d ! k") auto
  obtain cs where k: "k < length (d_medias d)" "values_of ''control'' attrs = c # cs" using assms x by (auto simp: control_def)
  then have "GetSDPMedia k (desc_obj d) = Inr (media_obj (d_medias d ! k))"
    by (auto simp: GetSDPMedia_def desc_obj_def opt_vec_def)
  moreover have "GetAttributeValue ''control'' 0 (media_obj (d_medias d ! k)) = Inr (Some c)"
    using k(2) unfolding x by (simp only: GetAttributeValue_obj) simp
  ultimately show ?thesis by (intro exI conjI) (assumption, assumption, simp add: x)
qed

text \<open>A session that waits for the response to the \<open>k\<close>-th SETUP of a description.\<close>

definition setting_up :: "string \<Rightarrow> sdp_desc \<Rightarrow> nat \<Rightarrow> string option \<Rightarrow> PortsCtl \<Rightarrow> MediaSession list \<Rightarrow> RtspSession \<Rightarrow> bool" where
  "setting_up base d k sid q mss s \<longleftrightarrow>
     m_hSocket (s_socket s) \<and> reads (s_socket s) = 1 \<and> parser_ready s \<and> m_nSessionState s = RTSP_SESSION_INIT
     \<and> m_methodPrevious s = RTSP_SETUP \<and> m_nCSeqPrevious s = int k + 1 \<and> m_pszSessionId s = sid \<and> s_ports s = Some q
     \<and> m_pRtspMedia s = Some \<lparr>m_pszContentBase = Some base, m_pMediaSessions = Some mss, m_pSDP = Some (desc_obj d),
          m_nTrackCount = length (d_medias d), m_nRequestTrack = k\<rparr>"

lemma Invoke_then_read:
  assumes "response m hs body" "map_of hs RTSP_HDR_CSEQ = Some v" "atoi v = m_nCSeqPrevious s"
    and "good_env env" "m_hSocket (s_socket s')"
    and "m_methodPrevious s = RTSP_DESCRIBE \<and> OnDescribeRespond env m s = Inr (EOK, s')
      \<or> m_methodPrevious s = RTSP_SETUP \<and> OnSetupRespond env m s = Inr (EOK, s')"
  shows "Dispatch env m s = Inr (EOK, s'\<lparr>s_socket := (s_socket s')\<lparr>reads := reads (s_socket s') + 1\<rparr>\<rparr>)"
  using assms(6) StartRead_ok [OF assms(4,5)] by (auto simp: Dispatch_response [OF assms(1-3)] InvokeStateMachine_def)

lemma describe_step:
  assumes good: "good_env env" "m_hSocket (s_socket s)" "parser_ready s" "reads (s_socket s) = 1"
    and prev: "m_methodPrevious s = RTSP_DESCRIBE" "m_nCSeqPrevious s = 1" "m_nSessionState s = RTSP_SESSION_INIT"
      "m_pRtspMedia s = None" "m_pszSessionId s = None"
    and d: "desc_ok (e_debug env) d" "body = sdp_lines_text (desc_lines d)"
    and hs: "reply_ok hs body" "map_of hs RTSP_HDR_CSEQ = Some v" "atoi v = 1" "map_of hs RTSP_HDR_CONTENT_BASE = Some base" "base \<noteq> []"
    and ctl: "control d 0 c" "length (base @ c) < 256"
    and ports: "GetInstance alloc_ok (e_bits env) (e_reserved env) (s_ports s) = Inr q"
      "GetPairPorts pair_fuel q = Inr (EOK, Some (lo, lo + 1), q')" "even lo" "0 < lo" "lo < 65535"
  shows "\<exists>s' ms. Run env (Received 0 (reply hs body)) s = Inr (EOK, s') \<and> setting_up base d 1 None q' [ms] s'
    \<and> media_up (lo, lo + 1) ms \<and> sent (s_socket s') = sent (s_socket s) @ [setup_text (base @ c) (lo, lo + 1) None 2]"
proof -
  have mok: "e_mok env = alloc_ok" using good(1) by (simp add: good_env_def)
  obtain m p where m: "response m hs body" "fresh_parser p" "Run env (Received 0 (reply hs body)) s = Dispatch env m (received p s)"
    using Received_reply [OF mok good(3) hs(1)] by blast
  have "body \<noteq> []" using d(2) by (simp add: desc_lines_def line_bytes_def)
  then have body: "m_pBody m = Some (body @ [NUL])" "sint (m_nBodySize m) = int (length body + 1)"
    using m(1) sint_of_nat_u32 [of "length body + 1"] by (auto simp: response_def)
  obtain b where b: "GetHeader RTSP_HDR_CONTENT_BASE 0 m = Some b" "cstrE b = Inr base"
    using GetHeader_first [OF m(1), of RTSP_HDR_CONTENT_BASE] hs(4) by auto
  have dup: "z3_strdup (e_debug env) alloc_ok base = Some base" using hs(5) by (simp add: z3_strdup_def alloc_ok)
  have n: "0 < length (d_medias d)" using ctl(1) by (simp add: control_def)
  have sdp: "SDPMessage_ParseString (e_debug env) alloc_ok (Some (body @ [NUL])) (length body + 1) SDPMessage_new = Inr (EOK, desc_obj d)"
    unfolding d(2) by (rule ParseString_desc [OF d(1)]) simp
  have count: "GetMediaCount (desc_obj d) = length (d_medias d)" by (simp add: GetMediaCount_def desc_obj_def opt_vec_def)
  obtain pm where pm: "GetSDPMedia 0 (desc_obj d) = Inr pm" "GetAttributeValue ''control'' 0 pm = Inr (Some c)" "m_pszMedia pm \<noteq> None"
    using control_track [OF ctl(1)] by blast
  let ?media = "\<lparr>m_pszContentBase = Some base, m_pMediaSessions = None, m_pSDP = Some (desc_obj d),
          m_nTrackCount = length (d_medias d), m_nRequestTrack = 0\<rparr>"
  let ?s1 = "(received p s)\<lparr>m_pRtspMedia := Some ?media\<rparr>"
  have resp: "OnDescribeRespond env m (received p s) = SendSETUP env ?s1"
    using body n by (simp add: OnDescribeRespond_def prev Let_def sdp [simplified] count b mok RtspMedia_Init_def RtspMedia_new_def dup nat_add_distrib)
  obtain ms where ms: "SendSETUP env ?s1 = Inr (EOK, (send (setup_text (base @ c) (lo, lo + 1) None 2) ?s1)
      \<lparr>m_methodPrevious := RTSP_SETUP, m_nCSeqPrevious := 2, s_ports := Some q',
       m_pRtspMedia := Some (AddMediaSession ms (?media\<lparr>m_nRequestTrack := 0 + 1\<rparr>))\<rparr>)" "media_up (lo, lo + 1) ms"
    using SendSETUP_ok [OF good(1), of ?s1 ?media "desc_obj d" base pm c q lo q' 2] good(2) pm hs(5) ctl(2) ports prev by auto
  let ?s2 = "(send (setup_text (base @ c) (lo, lo + 1) None 2) ?s1)
      \<lparr>m_methodPrevious := RTSP_SETUP, m_nCSeqPrevious := 2, s_ports := Some q',
       m_pRtspMedia := Some (AddMediaSession ms (?media\<lparr>m_nRequestTrack := 0 + 1\<rparr>))\<rparr>"
  have "Dispatch env m (received p s) = Inr (EOK, ?s2\<lparr>s_socket := (s_socket ?s2)\<lparr>reads := reads (s_socket ?s2) + 1\<rparr>\<rparr>)"
    by (rule Invoke_then_read [OF m(1) hs(2) _ good(1)]) (use hs(3) prev good(2) resp ms(1) in simp_all)
  then show ?thesis
    using m(2,3) ms(2) good(2,4) prev
    by (intro exI conjI) (assumption | simp add: setting_up_def parser_ready_def AddMediaSession_def push_back_def vec_def)+
qed

text \<open>The session identifier \<open>sid\<close> the session has after a response with the \<open>Session\<close> header \<open>w\<close>.\<close>

definition session_id :: "string option \<Rightarrow> string \<Rightarrow> string \<Rightarrow> bool" where
  "session_id old w sid \<longleftrightarrow> (case old of None \<Rightarrow> sid = strtok_semicolon w | Some i \<Rightarrow> sid = i \<and> take (length i) w = i)"

lemma strtok_subset: "set (strtok_semicolon w) \<subseteq> set w"
  by (auto simp: strtok_semicolon_def dest: set_takeWhileD set_dropWhileD)

lemma session_id_clean:
  assumes "session_id old w sid" "reply_ok hs body" "map_of hs f = Some w"
  shows "NUL \<notin> set sid" "w \<noteq> []"
proof -
  have "(f, w) \<in> set hs" using assms(3) by (rule map_of_SomeD)
  then have w: "clean_line w" using assms(2) by (auto simp: reply_ok_def sendable_def)
  then show "w \<noteq> []" by (simp add: clean_line_def)
  have "NUL \<notin> set w" using w by (simp add: clean_line_def)
  moreover have "set sid \<subseteq> set w"
    using assms(1) strtok_subset [of w] set_take_subset [of "length sid" w] by (auto simp: session_id_def split: option.splits)
  ultimately show "NUL \<notin> set sid" by blast
qed

lemma OnSetupRespond_next:
  assumes "e_mok env = alloc_ok" "response m hs body" "map_of hs RTSP_HDR_SESSION = Some w" "w \<noteq> []"
    and "m_pRtspMedia s = Some media" "session_id (m_pszSessionId s) w sid"
  shows "\<exists>t. OnSetupRespond env m s = next_request env media (s\<lparr>m_pszSessionId := Some sid, m_nTimeout := t\<rparr>)"
proof -
  obtain p where p: "GetHeader RTSP_HDR_SESSION 0 m = Some p" "cstrE p = Inr w"
    using GetHeader_first [OF assms(2), of RTSP_HDR_SESSION] assms(3) by auto
  have dup: "z3_strdup (e_debug env) alloc_ok w = Some w" using assms(4) by (simp add: z3_strdup_def alloc_ok)
  show ?thesis
  proof (cases "m_pszSessionId s")
    case None
    then show ?thesis using assms(6) dup by (auto simp: OnSetupRespond_def assms(1,5) p session_id_def Let_def)
  next
    case (Some i)
    then have "OnSetupRespond env m s = next_request env media s" "i = sid"
      using assms(6) by (auto simp: OnSetupRespond_def assms(5) p session_id_def)
    moreover have "s = s\<lparr>m_pszSessionId := Some sid, m_nTimeout := m_nTimeout s\<rparr>" using Some \<open>i = sid\<close> by simp
    ultimately show ?thesis by metis
  qed
qed

lemma setup_step:
  assumes good: "good_env env" and st: "setting_up base d k old q mss s" and more: "k < length (d_medias d)" "length (d_medias d) \<le> 4096"
    and hs: "reply_ok hs []" "map_of hs RTSP_HDR_CSEQ = Some v" "atoi v = int k + 1"
      "map_of hs RTSP_HDR_SESSION = Some w" "session_id old w sid" "length sid \<le> 900"
    and ctl: "control d k c" "length (base @ c) < 256" "base \<noteq> []"
    and ports: "GetPairPorts pair_fuel q = Inr (EOK, Some (lo, lo + 1), q')" "even lo" "0 < lo" "lo < 65535"
  shows "\<exists>s' ms. Run env (Received 0 (reply hs [])) s = Inr (EOK, s') \<and> setting_up base d (k + 1) (Some sid) q' (mss @ [ms]) s'
    \<and> media_up (lo, lo + 1) ms
    \<and> sent (s_socket s') = sent (s_socket s) @ [setup_text (base @ c) (lo, lo + 1) (Some sid) (int k + 2)]"
proof -
  note st = st [unfolded setting_up_def]
  have mok: "e_mok env = alloc_ok" using good by (simp add: good_env_def)
  have ready: "parser_ready s" using st by blast
  obtain m p where m: "response m hs []" "fresh_parser p" "Run env (Received 0 (reply hs [])) s = Dispatch env m (received p s)"
    using Received_reply [OF mok ready hs(1)] by blast
  note sid = session_id_clean [OF hs(5,1,4)]
  obtain pm where pm: "GetSDPMedia k (desc_obj d) = Inr pm" "GetAttributeValue ''control'' 0 pm = Inr (Some c)" "m_pszMedia pm \<noteq> None"
    using control_track [OF ctl(1)] by blast
  let ?media = "\<lparr>m_pszContentBase = Some base, m_pMediaSessions = Some mss, m_pSDP = Some (desc_obj d),
          m_nTrackCount = length (d_medias d), m_nRequestTrack = k\<rparr>"
  obtain t where t: "OnSetupRespond env m (received p s) =
      next_request env ?media ((received p s)\<lparr>m_pszSessionId := Some sid, m_nTimeout := t\<rparr>)"
    using OnSetupRespond_next [OF mok m(1) hs(4) sid(2), of "received p s" ?media] st hs(5) by auto
  let ?s1 = "(received p s)\<lparr>m_pszSessionId := Some sid, m_nTimeout := t\<rparr>"
  have inst: "GetInstance alloc_ok (e_bits env) (e_reserved env) (s_ports ?s1) = Inr q" using st by (simp add: GetInstance_def)
  let ?out = "\<lambda>ms. (send (setup_text (base @ c) (lo, lo + 1) (Some sid) (int k + 2)) ?s1)
      \<lparr>m_methodPrevious := RTSP_SETUP, m_nCSeqPrevious := int k + 2, s_ports := Some q',
       m_pRtspMedia := Some (AddMediaSession ms (?media\<lparr>m_nRequestTrack := k + 1\<rparr>))\<rparr>"
  have "\<exists>ms. SendSETUP env ?s1 = Inr (EOK, ?out ms) \<and> media_up (lo, lo + 1) ms"
    using SendSETUP_ok [OF good, of ?s1 ?media "desc_obj d" base pm c q lo q' "int k + 2"] st pm ctl inst ports sid hs(6) more by auto
  then obtain ms where ms: "SendSETUP env ?s1 = Inr (EOK, ?out ms)" "media_up (lo, lo + 1) ms" by blast
  have "OnSetupRespond env m (received p s) = Inr (EOK, ?out ms)" using t ms(1) more by (simp add: next_request_def)
  then have "Dispatch env m (received p s) = Inr (EOK, (?out ms)\<lparr>s_socket := (s_socket (?out ms))\<lparr>reads := reads (s_socket (?out ms)) + 1\<rparr>\<rparr>)"
    using st hs(3) by (intro Invoke_then_read [OF m(1) hs(2) _ good]) simp_all
  then show ?thesis
    using m(2,3) ms(2) st
    by (intro exI conjI) (assumption | simp add: setting_up_def parser_ready_def AddMediaSession_def push_back_def vec_def)+
qed

lemma play_step:
  assumes good: "good_env env" and st: "setting_up base d k old q mss s" and last: "k = length (d_medias d)" "k \<le> 4096"
    and hs: "reply_ok hs []" "map_of hs RTSP_HDR_CSEQ = Some v" "atoi v = int k + 1"
      "map_of hs RTSP_HDR_SESSION = Some w" "session_id old w sid" "length sid \<le> 900"
    and base: "base \<noteq> []" "length base < 256"
  shows "\<exists>s' media. Run env (Received 0 (reply hs [])) s = Inr (EOK, s') \<and> m_nSessionState s' = RTSP_SESSION_READY
    \<and> m_methodPrevious s' = RTSP_PLAY \<and> m_pRtspMedia s' = Some media \<and> m_pMediaSessions media = Some mss
    \<and> reads (s_socket s') = 1 \<and> sent (s_socket s') = sent (s_socket s) @ [play_text base sid (int k + 2)]"
proof -
  note st = st [unfolded setting_up_def]
  have mok: "e_mok env = alloc_ok" using good by (simp add: good_env_def)
  have ready: "parser_ready s" using st by blast
  obtain m p where m: "response m hs []" "fresh_parser p" "Run env (Received 0 (reply hs [])) s = Dispatch env m (received p s)"
    using Received_reply [OF mok ready hs(1)] by blast
  note sid = session_id_clean [OF hs(5,1,4)]
  let ?media = "\<lparr>m_pszContentBase = Some base, m_pMediaSessions = Some mss, m_pSDP = Some (desc_obj d),
          m_nTrackCount = length (d_medias d), m_nRequestTrack = k\<rparr>"
  obtain t where t: "OnSetupRespond env m (received p s) =
      next_request env ?media ((received p s)\<lparr>m_pszSessionId := Some sid, m_nTimeout := t\<rparr>)"
    using OnSetupRespond_next [OF mok m(1) hs(4) sid(2), of "received p s" ?media] st hs(5) by auto
  let ?s1 = "(received p s)\<lparr>m_pszSessionId := Some sid, m_nTimeout := t, m_nSessionState := RTSP_SESSION_READY\<rparr>"
  let ?out = "(send (play_text base sid (int k + 2)) ?s1)\<lparr>m_methodPrevious := RTSP_PLAY, m_nCSeqPrevious := int k + 2\<rparr>"
  have "SendPLAY env ?s1 = Inr (EOK, ?out)"
    using SendPLAY_ok [OF good, of ?s1 ?media base sid "int k + 2"] st base sid hs(6) last by simp
  then have "OnSetupRespond env m (received p s) = Inr (EOK, ?out)"
    using t last by (simp add: next_request_def)
  then have "Dispatch env m (received p s) = Inr (EOK, ?out\<lparr>s_socket := (s_socket ?out)\<lparr>reads := reads (s_socket ?out) + 1\<rparr>\<rparr>)"
    using st hs(3) by (intro Invoke_then_read [OF m(1) hs(2) _ good]) simp_all
  then show ?thesis using m(3) st by (intro exI conjI) (assumption | simp)+
qed

section \<open>The whole handshake\<close>

text \<open>Port pairs handed out one after the other.\<close>

fun take_pairs :: "nat \<Rightarrow> PortsCtl \<Rightarrow> ((nat \<times> nat) list \<times> PortsCtl) option" where
  "take_pairs 0 q = Some ([], q)"
| "take_pairs (Suc n) q =
     (case GetPairPorts pair_fuel q of
        Inr (r, Some p, q') \<Rightarrow> map_option (\<lambda>(ps, q''). (p # ps, q'')) (take_pairs n q')
      | _ \<Rightarrow> None)"

lemma take_pairs_Suc:
  assumes "take_pairs (Suc n) q = Some (ps, q'')" "ports_inv q"
  obtains lo q' ps' where "GetPairPorts pair_fuel q = Inr (EOK, Some (lo, lo + 1), q')" "take_pairs n q' = Some (ps', q'')"
    "ps = (lo, lo + 1) # ps'" "even lo" "0 < lo" "lo < 65535" "ports_inv q'"
    "lo \<notin> used_ports q" "lo + 1 \<notin> used_ports q" "used_ports q' = used_ports q \<union> {lo, lo + 1}"
proof -
  obtain r lo hi q' ps' where g: "GetPairPorts pair_fuel q = Inr (r, Some (lo, hi), q')" "take_pairs n q' = Some (ps', q'')"
    "ps = (lo, hi) # ps'"
    using assms(1) by (auto split: sum.splits option.splits)
  have p: "r = EOK" "even lo" "hi = lo + 1" "lo \<notin> used_ports q" "hi \<notin> used_ports q" "ports_inv q'" "used_ports q' = used_ports q \<union> {lo, hi}"
    using ports.get_pair [OF assms(2) g(1)] by auto
  have "lo \<in> used_ports q'" "hi \<in> used_ports q'" using p(7) by auto
  then have "m_nMinPort q' \<le> lo" "hi < m_nMaxPort q'" using used_ports_range [OF p(6)] by auto
  moreover have "0 < m_nMinPort q'" "m_nMaxPort q' < 65536" using p(6) by (auto simp: ports_inv_def)
  ultimately have "0 < lo" "lo < 65535" using p(3) by auto
  with that g p show ?thesis by blast
qed

lemma take_pairs_distinct:
  "take_pairs n q = Some (ps, q') \<Longrightarrow> ports_inv q \<Longrightarrow>
     length ps = n \<and> distinct (ports_of ps) \<and> set (ports_of ps) \<inter> used_ports q = {}"
proof (induction n arbitrary: q ps)
  case (Suc n)
  obtain lo q1 ps' where "take_pairs n q1 = Some (ps', q')" "ps = (lo, lo + 1) # ps'" "ports_inv q1"
    "lo \<notin> used_ports q" "lo + 1 \<notin> used_ports q" "used_ports q1 = used_ports q \<union> {lo, lo + 1}"
    by (rule take_pairs_Suc [OF Suc.prems])
  with Suc.IH [of q1 ps'] show ?case by auto
qed simp

text \<open>The responses to the SETUP requests from number \<open>n\<close> on: each with the number of its request, and with a session
  identifier that begins like the one before.\<close>

fun setup_replies :: "int \<Rightarrow> string option \<Rightarrow> string \<Rightarrow> (RTSP_HEADER_FIELD \<times> string) list list \<Rightarrow> bool" where
  "setup_replies n old sid [] = True"
| "setup_replies n old sid (hs # rs) =
     (reply_ok hs [] \<and> (case map_of hs RTSP_HDR_CSEQ of None \<Rightarrow> False | Some v \<Rightarrow> atoi v = n)
      \<and> (case map_of hs RTSP_HDR_SESSION of None \<Rightarrow> False | Some w \<Rightarrow> session_id old w sid)
      \<and> setup_replies (n + 1) (Some sid) sid rs)"

abbreviation replies :: "(RTSP_HEADER_FIELD \<times> string) list list \<Rightarrow> session_event list" where
  "replies \<equiv> map (\<lambda>hs. Received 0 (reply hs []))"

definition setup_texts :: "string \<Rightarrow> string list \<Rightarrow> string option \<Rightarrow> string \<Rightarrow> nat \<Rightarrow> (nat \<times> nat) list \<Rightarrow> string list" where
  "setup_texts base cs old sid k ps =
     map (\<lambda>j. setup_text (base @ cs ! (k + j)) (ps ! j) (if j = 0 then old else Some sid) (int (k + j) + 2)) [0..<length ps]"

lemma setup_texts_Cons:
  "setup_texts base cs old sid k (p # ps) =
     setup_text (base @ cs ! k) p old (int k + 2) # setup_texts base cs (Some sid) sid (k + 1) ps"
  by (auto simp: setup_texts_def upt_conv_Cons map_Suc_upt [symmetric] simp del: upt_Suc intro!: map_cong)

lemma run_setups:
  assumes good: "good_env env" and few: "length (d_medias d) \<le> 4096" and sid: "length sid \<le> 900"
    and tracks: "\<forall>j < length (d_medias d). control d j (cs ! j) \<and> length (base @ cs ! j) < 256"
    and base: "base \<noteq> []" "length base < 256"
  shows "setting_up base d k old q mss s \<Longrightarrow> k + n = length (d_medias d) \<Longrightarrow> length rs = n + 1 \<Longrightarrow>
    setup_replies (int k + 1) old sid rs \<Longrightarrow> take_pairs n q = Some (ps, q') \<Longrightarrow> ports_inv q \<Longrightarrow> list_all2 media_up ps0 mss \<Longrightarrow>
    \<exists>s' media mss'. run_events env (replies rs) s = Inr s' \<and> m_nSessionState s' = RTSP_SESSION_READY
      \<and> m_methodPrevious s' = RTSP_PLAY \<and> m_pRtspMedia s' = Some media \<and> m_pMediaSessions media = Some mss'
      \<and> list_all2 media_up (ps0 @ ps) mss' \<and> reads (s_socket s') = 1
      \<and> sent (s_socket s') = sent (s_socket s) @ setup_texts base cs (Some sid) sid k ps
          @ [play_text base sid (int (length (d_medias d)) + 2)]"
proof (induction n arbitrary: k old q mss s rs ps ps0)
  case 0
  obtain hs where rs: "rs = [hs]" using 0 by (cases rs) auto
  obtain v w where "reply_ok hs []" "map_of hs RTSP_HDR_CSEQ = Some v" "atoi v = int k + 1"
    "map_of hs RTSP_HDR_SESSION = Some w" "session_id old w sid"
    using 0 rs by (auto split: option.splits)
  from play_step [OF good 0(1) _ _ this sid base] 0 few obtain s' media where
    "Run env (Received 0 (reply hs [])) s = Inr (EOK, s')" "m_nSessionState s' = RTSP_SESSION_READY"
    "m_methodPrevious s' = RTSP_PLAY" "m_pRtspMedia s' = Some media" "m_pMediaSessions media = Some mss"
    "reads (s_socket s') = 1" "sent (s_socket s') = sent (s_socket s) @ [play_text base sid (int k + 2)]" by auto
  then show ?case using 0 rs by (auto simp: setup_texts_def)
next
  case (Suc n)
  obtain hs rs' where rs: "rs = hs # rs'" using Suc.prems(3) by (cases rs) auto
  obtain v w where hs: "reply_ok hs []" "map_of hs RTSP_HDR_CSEQ = Some v" "atoi v = int k + 1"
    "map_of hs RTSP_HDR_SESSION = Some w" "session_id old w sid"
    and rest: "setup_replies (int (k + 1) + 1) (Some sid) sid rs'"
    using Suc.prems(4) rs by (auto split: option.splits simp: add.commute add.left_commute)
  obtain lo q1 ps' where g: "GetPairPorts pair_fuel q = Inr (EOK, Some (lo, lo + 1), q1)" "take_pairs n q1 = Some (ps', q')"
    "ps = (lo, lo + 1) # ps'" "even lo" "0 < lo" "lo < 65535" "ports_inv q1"
    by (rule take_pairs_Suc [OF Suc.prems(5,6)])
  have k: "k < length (d_medias d)" using Suc.prems(2) by simp
  then have c: "control d k (cs ! k)" "length (base @ cs ! k) < 256" using tracks by auto
  obtain s1 ms where s1: "Run env (Received 0 (reply hs [])) s = Inr (EOK, s1)" "setting_up base d (k + 1) (Some sid) q1 (mss @ [ms]) s1"
    "media_up (lo, lo + 1) ms" "sent (s_socket s1) = sent (s_socket s) @ [setup_text (base @ cs ! k) (lo, lo + 1) (Some sid) (int k + 2)]"
    using setup_step [OF good Suc.prems(1) k few hs sid c base(1) g(1,4-6)] by blast
  have "list_all2 media_up (ps0 @ [(lo, lo + 1)]) (mss @ [ms])"
    using Suc.prems(7) s1(3) by (simp add: list_all2_appendI)
  from Suc.IH [OF s1(2) _ _ rest g(2,7) this] Suc.prems(2,3) rs s1(1,4) g(3) show ?case
    by (auto simp: setup_texts_Cons)
qed

text \<open>A session that was started with a URL and whose connect was posted, with the request URL \<open>url\<close>.\<close>

definition connecting_to :: "string \<Rightarrow> RtspSession \<Rightarrow> bool" where
  "connecting_to url s \<longleftrightarrow> m_hSocket (s_socket s) \<and> reads (s_socket s) = 0 \<and> sent (s_socket s) = [] \<and> m_pszUrl s = Some url
     \<and> m_pParser s = None \<and> m_nSessionState s = RTSP_SESSION_INIT \<and> m_pRtspMedia s = None \<and> m_pszSessionId s = None"

lemma connect_step:
  assumes "good_env env" "connecting_to url s" "url \<noteq> []" "length url \<le> 1000"
  shows "\<exists>s'. Run env (Connected 0) s = Inr (EOK, s') \<and> m_hSocket (s_socket s') \<and> parser_ready s' \<and> reads (s_socket s') = 1
    \<and> m_pszUrl s' = Some url \<and> m_methodPrevious s' = RTSP_OPTIONS \<and> m_nCSeqPrevious s' = 0 \<and> m_nSessionState s' = RTSP_SESSION_INIT
    \<and> m_pRtspMedia s' = None \<and> m_pszSessionId s' = None \<and> s_ports s' = s_ports s \<and> sent (s_socket s') = [options_text url]"
proof -
  let ?s0 = "s\<lparr>connecting := connecting s - 1\<rparr>"
  let ?s1 = "(send (options_text url) ?s0)\<lparr>m_methodPrevious := RTSP_OPTIONS, m_nCSeqPrevious := 0\<rparr>"
  note c = assms(2) [unfolded connecting_to_def]
  have "SendOPTIONS env ?s0 = Inr (EOK, ?s1)" using SendOPTIONS_ok [OF assms(1), of ?s0 url] c assms(3,4) by simp
  then have "Run env (Connected 0) s = Inr (EOK, ?s1\<lparr>s_socket := (s_socket ?s1)\<lparr>reads := reads (s_socket ?s1) + 1\<rparr>\<rparr>)"
    using StartRead_ok [OF assms(1), of ?s1] c by (simp add: OnConnect_def)
  then show ?thesis using c by (simp add: parser_ready_def)
qed

text \<open>C1. The whole handshake, from bytes to bytes, where memory and Windows serve the session. The connect succeeds; the
  server answers OPTIONS with a \<open>Public\<close> header that names DESCRIBE, DESCRIBE with a \<open>Content-Base\<close> and the
  description of any number \<open>n \<ge> 1\<close> of tracks that have control attributes, and each SETUP with a session identifier; each response carries the
  number of its request, is shorter than 4096 bytes and arrives in one piece. Then the session sends, in this order and
  nothing else, OPTIONS (0), DESCRIBE (1), one SETUP for each track (2 to \<open>n + 1\<close>) with the URL of the track and its own
  pair of ports, from the second on with the session identifier, and PLAY (\<open>n + 2\<close>); it ends in the state READY with
  one media session for each track, whose two sockets are reading on the ports of its SETUP, all ports being different.\<close>

theorem handshake:
  assumes "good_env env" and "connecting_to url s" and "url \<noteq> []" and "length url \<le> 1000"
    and "reply_ok hopt []" and "map_of hopt RTSP_HDR_CSEQ = Some v0" and "atoi v0 = 0"
    and "(RTSP_HDR_PUBLIC, w) \<in> set hopt" and "stricmp_eq w ''describe''"
    and "desc_ok (e_debug env) d" and "d_medias d \<noteq> []" and "length (d_medias d) \<le> 4096"
    and "reply_ok hdesc (sdp_lines_text (desc_lines d))" and "map_of hdesc RTSP_HDR_CSEQ = Some v1" and "atoi v1 = 1"
    and "map_of hdesc RTSP_HDR_CONTENT_BASE = Some base" and "base \<noteq> []" and "length base < 256"
    and "\<forall>j < length (d_medias d). control d j (cs ! j) \<and> length (base @ cs ! j) < 256"
    and "length rs = length (d_medias d)" and "setup_replies 2 None sid rs" and "length sid \<le> 900"
    and "GetInstance alloc_ok (e_bits env) (e_reserved env) (s_ports s) = Inr q" and "ports_inv q"
    and "take_pairs (length (d_medias d)) q = Some (ps, q')"
  shows "\<exists>s' media mss. run_events env (Connected 0 # Received 0 (reply hopt []) #
        Received 0 (reply hdesc (sdp_lines_text (desc_lines d))) # replies rs) s = Inr s'
    \<and> sent (s_socket s') = [options_text url, describe_text url 1] @ setup_texts base cs None sid 0 ps
        @ [play_text base sid (int (length (d_medias d)) + 2)]
    \<and> m_nSessionState s' = RTSP_SESSION_READY \<and> m_methodPrevious s' = RTSP_PLAY \<and> reads (s_socket s') = 1
    \<and> m_pRtspMedia s' = Some media \<and> m_pMediaSessions media = Some mss \<and> list_all2 media_up ps mss
    \<and> length ps = length (d_medias d) \<and> distinct (ports_of ps)"
proof -
  obtain n where n: "length (d_medias d) = Suc n" using assms(11) by (cases "d_medias d") auto
  obtain s1 where s1: "Run env (Connected 0) s = Inr (EOK, s1)" "m_hSocket (s_socket s1)" "parser_ready s1" "reads (s_socket s1) = 1"
    "m_pszUrl s1 = Some url" "m_methodPrevious s1 = RTSP_OPTIONS" "m_nCSeqPrevious s1 = 0" "m_nSessionState s1 = RTSP_SESSION_INIT"
    "m_pRtspMedia s1 = None" "m_pszSessionId s1 = None" "s_ports s1 = s_ports s" "sent (s_socket s1) = [options_text url]"
    using connect_step [OF assms(1-4)] by auto
  obtain p where p: "fresh_parser p" and s2: "Run env (Received 0 (reply hopt [])) s1 =
    Inr (EOK, (send (describe_text url 1) s1)\<lparr>m_pParser := Some p, m_methodPrevious := RTSP_DESCRIBE, m_nCSeqPrevious := 1\<rparr>)"
    using options_step [OF assms(1) s1(2-5) assms(3,4) s1(6,7) assms(5-9)] by blast
  let ?s2 = "(send (describe_text url 1) s1)\<lparr>m_pParser := Some p, m_methodPrevious := RTSP_DESCRIBE, m_nCSeqPrevious := 1\<rparr>"
  obtain lo q1 ps' where g: "GetPairPorts pair_fuel q = Inr (EOK, Some (lo, lo + 1), q1)" "take_pairs n q1 = Some (ps', q')"
    "ps = (lo, lo + 1) # ps'" "even lo" "0 < lo" "lo < 65535" "ports_inv q1"
    by (rule take_pairs_Suc [OF assms(25) [unfolded n] assms(24)])
  have c: "control d 0 (cs ! 0)" "length (base @ cs ! 0) < 256" using assms(11,19) by auto
  have inst: "GetInstance alloc_ok (e_bits env) (e_reserved env) (s_ports ?s2) = Inr q" using assms(23) s1(11) by simp
  have "\<exists>s3 ms. Run env (Received 0 (reply hdesc (sdp_lines_text (desc_lines d)))) ?s2 = Inr (EOK, s3) \<and> setting_up base d 1 None q1 [ms] s3
    \<and> media_up (lo, lo + 1) ms \<and> sent (s_socket s3) = sent (s_socket ?s2) @ [setup_text (base @ cs ! 0) (lo, lo + 1) None 2]"
    by (rule describe_step [OF assms(1) _ _ _ _ _ _ _ _ assms(10) refl assms(13-17) c inst g(1,4-6)])
      (simp_all add: s1 p parser_ready_def)
  then obtain s3 ms where s3: "Run env (Received 0 (reply hdesc (sdp_lines_text (desc_lines d)))) ?s2 = Inr (EOK, s3)"
    "setting_up base d 1 None q1 [ms] s3" "media_up (lo, lo + 1) ms"
    "sent (s_socket s3) = [options_text url, describe_text url 1, setup_text (base @ cs ! 0) (lo, lo + 1) None 2]"
    using s1(12) by auto
  have reps: "setup_replies (int 1 + 1) None sid rs" using assms(21) by simp
  have up: "list_all2 media_up [(lo, lo + 1)] [ms]" using s3(3) by simp
  have lens: "1 + n = length (d_medias d)" "length rs = n + 1" using n assms(20) by simp_all
  obtain s' media mss where "run_events env (replies rs) s3 = Inr s'" "m_nSessionState s' = RTSP_SESSION_READY"
      "m_methodPrevious s' = RTSP_PLAY" "m_pRtspMedia s' = Some media" "m_pMediaSessions media = Some mss"
      "list_all2 media_up ([(lo, lo + 1)] @ ps') mss" "reads (s_socket s') = 1"
      "sent (s_socket s') = sent (s_socket s3) @ setup_texts base cs (Some sid) sid 1 ps' @ [play_text base sid (int (length (d_medias d)) + 2)]"
    using run_setups [OF assms(1,12,22,19,17,18) s3(2) lens reps g(2,7) up] by blast
  then show ?thesis
    using s1(1) s2 s3(1,4) g(3) take_pairs_distinct [OF assms(25,24)]
    by (intro exI [of _ s'] exI [of _ media] exI [of _ mss]) (simp add: setup_texts_Cons)
qed

definition sample_env :: session_env where
  "sample_env = \<lparr>e_mok = alloc_ok, e_debug = True, e_time = sample_time, e_wsa = ok_winsock, e_ind = zero_indet,
     e_junk = (\<lambda>_. NUL), e_bits = (\<lambda>_. 0), e_reserved = 0, e_dns = 0, e_ioctl = True, e_connect = WSA_IO_PENDING,
     e_msg = (\<lambda>_. Some ''error'')\<rparr>"

definition sample_session :: RtspSession where
  "sample_session = (RtspSession_new False (Some sample_ports))\<lparr>m_pszUrl := Some ''rtsp://h/v'',
     s_socket := SocketObj_new\<lparr>m_hSocket := True, m_hClosedEvent := True\<rparr>\<rparr>"

lemma sample_env_good: "good_env sample_env"
  by (simp add: good_env_def sample_env_def ok_winsock_def posted_def)

lemma sample_connecting: "connecting_to ''rtsp://h/v'' sample_session"
  by (simp add: connecting_to_def sample_session_def RtspSession_new_def SocketObj_new_def)

definition sample_body :: string where "sample_body = sdp_lines_text (desc_lines sample_desc)"

lemma sample_body: "length sample_body = 119" "dec_nat 119 = ''119''"
  by code_simp+

lemma sample_sendable:
  "sendable (RTSP_HDR_CSEQ, ''0'')" "sendable (RTSP_HDR_CSEQ, ''1'')" "sendable (RTSP_HDR_CSEQ, ''2'')"
  "sendable (RTSP_HDR_PUBLIC, ''DESCRIBE'')" "sendable (RTSP_HDR_CONTENT_BASE, ''rtsp://h/v/'')"
  "sendable (RTSP_HDR_CONTENT_LENGTH, ''119'')" "sendable (RTSP_HDR_SESSION, ''42'')"
  unfolding sendable_def
  by (rule conjI, rule exI [of _ 16], simp add: RTSP_HEADERS_def, simp add: clean_line_def is_space_def,
      rule conjI, rule exI [of _ 16], simp add: RTSP_HEADERS_def, simp add: clean_line_def is_space_def,
      rule conjI, rule exI [of _ 16], simp add: RTSP_HEADERS_def, simp add: clean_line_def is_space_def,
      rule conjI, rule exI [of _ 24], simp add: RTSP_HEADERS_def plain_value_def, simp add: clean_line_def is_space_def,
      rule conjI, rule exI [of _ 10], simp add: RTSP_HEADERS_def, simp add: clean_line_def is_space_def,
      rule conjI, rule exI [of _ 13], simp add: RTSP_HEADERS_def, simp add: clean_line_def is_space_def,
      rule conjI, rule exI [of _ 31], simp add: RTSP_HEADERS_def, simp add: clean_line_def is_space_def)

definition sample_options :: "(RTSP_HEADER_FIELD \<times> string) list" where
  "sample_options = [(RTSP_HDR_CSEQ, ''0''), (RTSP_HDR_PUBLIC, ''DESCRIBE'')]"

definition sample_describe :: "(RTSP_HEADER_FIELD \<times> string) list" where
  "sample_describe = [(RTSP_HDR_CSEQ, ''1''), (RTSP_HDR_CONTENT_BASE, ''rtsp://h/v/''), (RTSP_HDR_CONTENT_LENGTH, ''119'')]"

definition sample_setup :: "(RTSP_HEADER_FIELD \<times> string) list" where
  "sample_setup = [(RTSP_HDR_CSEQ, ''2''), (RTSP_HDR_SESSION, ''42'')]"

lemma sample_replies: "reply_ok sample_options []" "reply_ok sample_describe sample_body" "reply_ok sample_setup []"
proof -
  have "length (dec_nat 200) \<le> 3" by (rule length_dec_nat) simp_all
  moreover have "sample_body \<noteq> []" using sample_body(1) by auto
  ultimately show "reply_ok sample_options []" "reply_ok sample_describe sample_body" "reply_ok sample_setup []"
    using sample_sendable sample_body
    by (simp_all add: reply_ok_def sample_options_def sample_describe_def sample_setup_def reply_def CRLF_def header_line_text_def
        field_name_def RTSP_HEADERS_def)
qed

lemma sample_pair: "\<exists>ps q'. take_pairs 1 sample_ports = Some (ps, q')"
proof -
  have "pair_free sample_ports 20000"
    using sample_ports_inv(2) by (simp add: pair_free_def) (simp add: sample_ports_def)
  then have "\<exists>x\<ge>m_nNext sample_ports. pair_free sample_ports x" by (auto simp: sample_ports_def)
  moreover have "\<not> m_nUsed sample_ports + m_nReserved sample_ports + 2 > m_nMaxPort sample_ports - m_nMinPort sample_ports"
    by (simp add: sample_ports_def)
  ultimately show ?thesis using GetPairPorts_eq [OF sample_ports_inv(1)] by (simp add: Let_def)
qed

lemma sample_tracks: "d_medias sample_desc \<noteq> []" "length (d_medias sample_desc) = 1" "control sample_desc 0 ''track1''"
  by (simp_all add: sample_desc_def control_def values_of_def stricmp_eq_def to_lower_def)

theorem handshake_witness:
  "\<exists>s'. run_events sample_env [Connected 0, Received 0 (reply sample_options []), Received 0 (reply sample_describe sample_body),
        Received 0 (reply sample_setup [])] sample_session = Inr s'
    \<and> m_nSessionState s' = RTSP_SESSION_READY \<and> length (sent (s_socket s')) = 4"
proof -
  obtain ps q' where ps: "take_pairs 1 sample_ports = Some (ps, q')" using sample_pair by auto
  have a: "atoi ''0'' = 0" "atoi ''1'' = 1" "atoi ''2'' = 2" by code_simp+
  have m: "map_of sample_options RTSP_HDR_CSEQ = Some ''0''" "map_of sample_describe RTSP_HDR_CSEQ = Some ''1''"
    "(RTSP_HDR_PUBLIC, ''DESCRIBE'') \<in> set sample_options" "stricmp_eq ''DESCRIBE'' ''describe''"
    "map_of sample_describe RTSP_HDR_CONTENT_BASE = Some ''rtsp://h/v/''" "setup_replies 2 None ''42'' [sample_setup]"
    using sample_replies(3) a(3)
    by (simp_all add: sample_options_def sample_describe_def sample_setup_def stricmp_eq_def to_lower_def session_id_def strtok_semicolon_def)
  have i: "GetInstance alloc_ok (e_bits sample_env) (e_reserved sample_env) (s_ports sample_session) = Inr sample_ports"
    by (simp add: GetInstance_def sample_session_def RtspSession_new_def)
  have d: "desc_ok (e_debug sample_env) sample_desc" using sample_desc_ok(1) by (simp add: sample_env_def)
  show ?thesis
    using handshake [OF sample_env_good sample_connecting _ _ sample_replies(1) m(1) a(1) m(3,4) d sample_tracks(1) _
        sample_replies(2) [unfolded sample_body_def] m(2) a(2) m(5) _ _ _ _ m(6) _ i sample_ports_inv(1), of "[''track1'']" ps q']
      sample_tracks ps
    by (auto simp: sample_body_def setup_texts_def)
qed

end
