(* ===== verification/RtspLifetime.thy ===== *)
theory RtspLifetime
  imports RtspHandshake
begin

text \<open>
  The life of a session as a step relation, in any environment: what holds in every state it can reach, and the states it
  cannot leave; then the session identifier, the URL and writes that are done in parts.
\<close>

section \<open>Steps\<close>

text \<open>An event reaches a session that has something pending it can complete. A completed write may be any.\<close>

inductive session_step :: "session_env \<Rightarrow> RtspSession \<Rightarrow> RtspSession \<Rightarrow> bool" for env where
  start: "Run env InstanceStart s = Inr (r, s') \<Longrightarrow> session_step env s s'"
| stop: "Run env InstanceStop s = Inr (r, s') \<Longrightarrow> session_step env s s'"
| connected: "0 < connecting s \<Longrightarrow> Run env (Connected e) s = Inr (r, s') \<Longrightarrow> session_step env s s'"
| received: "0 < reads (s_socket s) \<Longrightarrow> Run env (Received e packet) s = Inr (r, s') \<Longrightarrow> session_step env s s'"
| sent: "Run env (Sent e n) s = Inr (r, s') \<Longrightarrow> session_step env s s'"

inductive_cases session_stepE: "session_step env s s'"

text \<open>What a session knows of the conversation, apart from its sockets and buffers.\<close>

definition core :: "RtspSession \<Rightarrow> _" where
  "core s = (m_nSessionState s, m_methodPrevious s, m_nCSeqPrevious s, m_pRtspMedia s, m_pszSessionId s, s_ports s)"

lemma core_eq:
  "core s = core s' \<longleftrightarrow> m_nSessionState s = m_nSessionState s' \<and> m_methodPrevious s = m_methodPrevious s'
     \<and> m_nCSeqPrevious s = m_nCSeqPrevious s' \<and> m_pRtspMedia s = m_pRtspMedia s' \<and> m_pszSessionId s = m_pszSessionId s'
     \<and> s_ports s = s_ports s'"
  by (simp add: core_def)

text \<open>Operations that neither post a read or a connect nor change the core.\<close>

definition quiet :: "RtspSession \<Rightarrow> RtspSession \<Rightarrow> bool" where
  "quiet s s' \<longleftrightarrow> core s' = core s \<and> reads (s_socket s') = reads (s_socket s) \<and> connecting s' = connecting s
     \<and> m_hFileHandle s' = m_hFileHandle s"

lemma quiet_refl [simp]: "quiet s s" by (simp add: quiet_def)

lemma quiet_trans: "quiet s s1 \<Longrightarrow> quiet s1 s2 \<Longrightarrow> quiet s s2" by (simp add: quiet_def)

lemma quiet_updates [simp]:
  "quiet s (s\<lparr>s_socket := k\<rparr>) \<longleftrightarrow> reads k = reads (s_socket s)"
  "quiet s (s'\<lparr>m_bStarted := b\<rparr>) \<longleftrightarrow> quiet s s'" "quiet s (s'\<lparr>notified := ns\<rparr>) \<longleftrightarrow> quiet s s'"
  by (auto simp: quiet_def core_def)

lemma reads_Close: "Close w k = Inr (r, k') \<Longrightarrow> reads k' = reads k"
  by (auto simp: Close_def split: if_splits)

lemma reads_Init: "SocketObj_Init w k = Inr (r, k') \<Longrightarrow> reads k' = reads k"
  by (auto simp: SocketObj_Init_def Let_def split: if_splits)

lemma quiet_AsyncTCPWrite: "AsyncTCPWrite w t b k = (r, k') \<Longrightarrow> reads k' = reads k"
  by (auto simp: AsyncTCPWrite_def split: if_splits)

lemma quiet_WriteBytes: "WriteBytes env b s = Inr (r, s') \<Longrightarrow> quiet s s'"
  by (auto simp: WriteBytes_def quiet_def core_def split: if_splits prod.splits dest: quiet_AsyncTCPWrite)

lemma quiet_WriteMsg: "WriteMsg env m s = Inr (r, s') \<Longrightarrow> quiet s s'"
  by (auto simp: WriteMsg_def bindE_Inr_iff dest: quiet_WriteBytes split: option.splits if_splits)

lemma quiet_close: "session_close env s = Inr s' \<Longrightarrow> quiet s s'"
  by (auto simp: session_close_def bindE_Inr_iff dest: reads_Close)

lemma quiet_NotifyError: "NotifyError env e n s = Inr s' \<Longrightarrow> quiet s s'"
  by (auto simp: NotifyError_def Notify_def bindE_Inr_iff)

lemma quiet_OnEvWrite: "OnEvWrite env e n s = Inr (r, s') \<Longrightarrow> quiet s s'"
  by (auto simp: OnEvWrite_def bindE_Inr_iff split: if_splits dest: quiet_NotifyError quiet_close quiet_WriteBytes
      intro: quiet_trans)

lemma quiet_OnStop: "OnStop env s = Inr (r, s') \<Longrightarrow> quiet s s'"
proof -
  assume stop: "OnStop env s = Inr (r, s')"
  then obtain n k where c: "Close (e_wsa env) (s_socket s) = Inr (n, k)" by (auto simp: OnStop_def bindE_Inr_iff)
  then have "s' = s\<lparr>s_socket := k\<rparr> \<or> s' = s\<lparr>s_socket := k, m_bStarted := False\<rparr>"
    using stop by (auto simp: OnStop_def bindE_Inr_iff Let_def split: if_splits)
  then show "quiet s s'" using reads_Close [OF c] by auto
qed

text \<open>A second connect of a session that has had one fails its assertion, unless it ends before.\<close>

lemma AsyncConnect_again: "m_hFileHandle s \<Longrightarrow> AsyncConnect env t s = Inr (r, s') \<Longrightarrow> s' = s"
  by (auto simp: AsyncConnect_def bindE_Inr_iff split: if_splits)

lemma quiet_Connect:
  assumes "Connect env t s = Inr (r, s')" "m_hFileHandle s"
  shows "quiet s s'"
proof -
  obtain e where e: "InterpretDNS env s = Inr e" using assms(1) by (auto simp: Connect_def bindE_Inr_iff)
  show ?thesis
  proof (cases "e = 0")
    case True
    then obtain n k where init: "SocketObj_Init (e_wsa env) (s_socket s) = Inr (n, k)"
      using assms(1) e by (auto simp: Connect_def bindE_Inr_iff)
    let ?s1 = "s\<lparr>s_socket := k\<rparr>"
    have q: "quiet s ?s1" using reads_Init [OF init] by simp
    have "(r, s') = (n, ?s1) \<or> (\<exists>e. (r, s') = (e, ?s1)) \<or> session_close env ?s1 = Inr s' \<or> AsyncConnect env t ?s1 = Inr (r, s')"
      using assms(1) True e init
      by (auto simp: Connect_def bindE_Inr_iff Let_def split: if_splits)
    then show ?thesis
      using q quiet_trans [OF q quiet_close [of env ?s1 s']] AsyncConnect_again [of ?s1 env t r s'] assms(2) by auto
  qed (use assms(1) e in \<open>auto simp: Connect_def\<close>)
qed

lemma quiet_OnStart: "OnStart env s = Inr (r, s') \<Longrightarrow> m_hFileHandle s \<Longrightarrow> quiet s s'"
  by (auto simp: OnStart_def bindE_Inr_iff split: if_splits dest!: quiet_Connect)

section \<open>Sessions that stop listening\<close>

definition deaf :: "RtspSession \<Rightarrow> bool" where
  "deaf s \<longleftrightarrow> connecting s = 0 \<and> reads (s_socket s) = 0 \<and> m_hFileHandle s"

lemma deaf_step:
  assumes "session_step env s s'" "deaf s"
  shows "deaf s' \<and> core s' = core s"
proof -
  have "quiet s s'"
    using assms(1)
    by (rule session_stepE)
      (use assms(2) quiet_OnStart quiet_OnStop quiet_OnEvWrite in \<open>auto simp: deaf_def\<close>)
  then show ?thesis using assms(2) by (auto simp: quiet_def deaf_def)
qed

lemma deaf_steps: "(session_step env)\<^sup>*\<^sup>* s s' \<Longrightarrow> deaf s \<Longrightarrow> deaf s' \<and> core s' = core s"
  by (induction rule: rtranclp_induct) (auto dest: deaf_step)

text \<open>C11. A response the session cannot use is the last thing it ever reads. If the only pending read completes with bytes
  from which the parser gets no message (a part of a response, as TCP may deliver it, or an error), or with a
  response that has a status other than 200, no \<open>CSeq\<close>, or another number than the last request, then the handler returns
  without posting a read, and from then on, whatever happens in any order (writes completing, starts and stops), no read is
  ever pending again and the state, the last request and the media stay what they were.\<close>

theorem lost_response:
  assumes "connecting s = 0" and "reads (s_socket s) = 1" and "m_hFileHandle s"
    and "packet \<noteq> []" and "length packet < SOCKET_RECV_BUFSIZE"
    and "Parse (e_debug env) (e_mok env) (e_ind env) packet (case m_pParser s of None \<Rightarrow> RtspProtoParser_new | Some q \<Rightarrow> q)
        = Inr (r, pMsg, q')"
    and "case pMsg of None \<Rightarrow> True | Some m \<Rightarrow> \<exists>rs. m_pMsgObj m = Some (RTSP_MSG_RESPONSE rs) \<and>
        (sint (rs_code rs) \<noteq> 200 \<or> GetHeader RTSP_HDR_CSEQ 0 m = None
         \<or> (\<exists>p v. GetHeader RTSP_HDR_CSEQ 0 m = Some p \<and> cstrE p = Inr v \<and> atoi v \<noteq> m_nCSeqPrevious s))"
  shows "\<exists>r' s1. Run env (Received 0 packet) s = Inr (r', s1)
    \<and> (\<forall>s'. (session_step env)\<^sup>*\<^sup>* s1 s' \<longrightarrow> reads (s_socket s') = 0 \<and> core s' = core s)"
proof -
  let ?s1 = "received q' s"
  have d: "Dispatch env m ?s1 = Inr (EOK, ?s1)" if "pMsg = Some m" for m
    using assms(7) that by (auto simp: Dispatch_def)
  have "Run env (Received 0 packet) s = (case pMsg of Some m \<Rightarrow> if r = EOK then Dispatch env m ?s1 else Inr (r, ?s1)
      | None \<Rightarrow> Inr (r, ?s1))"
    using assms(6) by (cases pMsg) (simp_all add: OnEvRead_def GetProtoParser_def Let_def assms(4,5) received_def)
  then obtain r' where run: "Run env (Received 0 packet) s = Inr (r', ?s1)" using d by (cases pMsg; cases "r = EOK") (auto simp del: Run.simps)
  have "deaf ?s1" "core ?s1 = core s" using assms(1-3) by (simp_all add: deaf_def received_def core_def)
  then have "reads (s_socket s') = 0 \<and> core s' = core s" if "(session_step env)\<^sup>*\<^sup>* ?s1 s'" for s'
    using deaf_steps [OF that] by (simp add: deaf_def)
  with run show ?thesis by blast
qed

theorem lost_response_witness:
  "\<exists>r' s1. Run sample_env (Received 0 (reply sample_options [])) (sample_session\<lparr>m_nCSeqPrevious := 5, m_hFileHandle := True,
       s_socket := (s_socket sample_session)\<lparr>reads := 1\<rparr>\<rparr>) = Inr (r', s1) \<and> reads (s_socket s1) = 0"
proof -
  let ?s = "sample_session\<lparr>m_nCSeqPrevious := 5, m_hFileHandle := True, s_socket := (s_socket sample_session)\<lparr>reads := 1\<rparr>\<rparr>"
  obtain m q where m: "Parse (e_debug sample_env) (e_mok sample_env) (e_ind sample_env) (reply sample_options [])
      RtspProtoParser_new = Inr (EOK, Some m, q)" "response m sample_options []"
    using Parse_reply [OF fresh_new sample_replies(1), of "e_debug sample_env" "e_ind sample_env"] by (auto simp: sample_env_def)
  have p: "m_pParser ?s = None" by (simp add: sample_session_def RtspSession_new_def)
  have "atoi ''0'' = 0" by code_simp
  then have c: "\<exists>rs. m_pMsgObj m = Some (RTSP_MSG_RESPONSE rs) \<and> (sint (rs_code rs) \<noteq> 200 \<or> GetHeader RTSP_HDR_CSEQ 0 m = None
         \<or> (\<exists>p v. GetHeader RTSP_HDR_CSEQ 0 m = Some p \<and> cstrE p = Inr v \<and> atoi v \<noteq> m_nCSeqPrevious ?s))"
    using GetHeader_first [OF m(2), of RTSP_HDR_CSEQ] m(2) by (force simp: response_def sample_options_def)
  have l: "reply sample_options [] \<noteq> []" "length (reply sample_options []) < SOCKET_RECV_BUFSIZE"
    using sample_replies(1) by (simp_all add: reply_ok_def reply_def SOCKET_RECV_BUFSIZE_def)
  show ?thesis
    using lost_response [of ?s "reply sample_options []" sample_env EOK "Some m" q] m(1) p c l
    by (force simp: sample_session_def RtspSession_new_def)
qed

section \<open>What holds in every state\<close>

definition sessions_of :: "RtspSession \<Rightarrow> MediaSession list" where
  "sessions_of s = (case m_pRtspMedia s of None \<Rightarrow> [] | Some media \<Rightarrow> vec (m_pMediaSessions media))"

definition media_inv :: "RtspMedia \<Rightarrow> bool" where
  "media_inv media \<longleftrightarrow> (\<exists>sdp. m_pSDP media = Some sdp \<and> m_nTrackCount media = GetMediaCount sdp)
     \<and> m_pszContentBase media \<noteq> None \<and> m_nRequestTrack media \<le> m_nTrackCount media
     \<and> length (vec (m_pMediaSessions media)) \<le> m_nRequestTrack media"

definition session_inv :: "RtspSession \<Rightarrow> bool" where
  "session_inv s \<longleftrightarrow>
     (m_nSessionState s = RTSP_SESSION_INIT \<or> m_nSessionState s = RTSP_SESSION_READY)
     \<and> m_methodPrevious s \<in> {RTSP_INVALID, RTSP_OPTIONS, RTSP_DESCRIBE, RTSP_SETUP, RTSP_PLAY} \<and> 0 \<le> m_nCSeqPrevious s
     \<and> (\<forall>media. m_pRtspMedia s = Some media \<longrightarrow> media_inv media)
     \<and> (m_methodPrevious s = RTSP_SETUP \<longrightarrow> m_pRtspMedia s \<noteq> None)
     \<and> (m_methodPrevious s = RTSP_PLAY \<longrightarrow> m_nSessionState s = RTSP_SESSION_READY)
     \<and> (m_nSessionState s = RTSP_SESSION_READY \<longrightarrow> m_pszSessionId s \<noteq> None
          \<and> (\<exists>media. m_pRtspMedia s = Some media \<and> m_nRequestTrack media = m_nTrackCount media))
     \<and> (\<exists>q. s_ports s = Some q \<and> ports_inv q \<and> distinct (ports_of (map GetPort (sessions_of s)))
          \<and> set (ports_of (map GetPort (sessions_of s))) \<subseteq> used_ports q)"

lemma session_inv_core: "core s' = core s \<Longrightarrow> session_inv s' = session_inv s"
  by (simp add: core_eq session_inv_def sessions_of_def)

text \<open>Taking apart a computation that succeeded.\<close>

lemma bindE_pairE: "bindE m (case_prod k) = Inr b \<Longrightarrow> (\<And>x y. m = Inr (x, y) \<Longrightarrow> k x y = Inr b \<Longrightarrow> P) \<Longrightarrow> P"
  by (cases m) auto

lemma bindE_tripleE:
  "bindE m (\<lambda>(x, y, z). k x y z) = Inr b \<Longrightarrow> (\<And>x y z. m = Inr (x, y, z) \<Longrightarrow> k x y z = Inr b \<Longrightarrow> P) \<Longrightarrow> P"
  by (cases m) auto

lemma bindE_E: "bindE m k = Inr b \<Longrightarrow> (\<And>a. m = Inr a \<Longrightarrow> k a = Inr b \<Longrightarrow> P) \<Longrightarrow> P"
  by (cases m) auto

lemmas bindE_elims = bindE_tripleE bindE_pairE bindE_E

lemma quiet_core: "quiet s s' \<Longrightarrow> core s' = core s" by (simp add: quiet_def)

lemma WriteMsg_core: "WriteMsg env m s = Inr (r, s') \<Longrightarrow> core s' = core s"
  by (rule quiet_core [OF quiet_WriteMsg])

text \<open>\<open>requested s mth n s'\<close>: the request \<open>mth\<close> took the number \<open>n\<close>, and was sent or was not.\<close>

definition requested :: "RtspSession \<Rightarrow> RTSP_METHOD \<Rightarrow> int \<Rightarrow> RtspSession \<Rightarrow> bool" where
  "requested s mth n s' \<longleftrightarrow> m_nSessionState s' = m_nSessionState s \<and> m_pRtspMedia s' = m_pRtspMedia s
     \<and> m_pszSessionId s' = m_pszSessionId s \<and> s_ports s' = s_ports s
     \<and> (m_nCSeqPrevious s' = m_nCSeqPrevious s \<or> m_nCSeqPrevious s' = n)
     \<and> (m_methodPrevious s' = m_methodPrevious s \<or> m_methodPrevious s' = mth)"

lemma session_inv_requested:
  assumes "requested s mth n s'" "session_inv s" "0 \<le> n"
    and "mth = RTSP_OPTIONS \<or> mth = RTSP_DESCRIBE \<or> mth = RTSP_SETUP \<and> m_pRtspMedia s \<noteq> None
      \<or> mth = RTSP_PLAY \<and> m_nSessionState s = RTSP_SESSION_READY"
  shows "session_inv s'"
  using assms unfolding requested_def session_inv_def sessions_of_def by (elim conjE disjE) simp_all

lemma SendOPTIONS_requested: "SendOPTIONS env s = Inr (r, s') \<Longrightarrow> requested s RTSP_OPTIONS 0 s'"
  by (auto simp: SendOPTIONS_def requested_def core_eq split: option.splits if_splits prod.splits elim!: bindE_elims dest!: WriteMsg_core)

lemma SendDESCRIBE_requested: "SendDESCRIBE env s = Inr (r, s') \<Longrightarrow> requested s RTSP_DESCRIBE (m_nCSeqPrevious s + 1) s'"
  by (auto simp: SendDESCRIBE_def Let_def requested_def core_eq split: option.splits if_splits prod.splits elim!: bindE_elims dest!: WriteMsg_core)

lemma SendPLAY_requested: "SendPLAY env s = Inr (r, s') \<Longrightarrow> requested s RTSP_PLAY (m_nCSeqPrevious s + 1) s'"
  by (auto simp: SendPLAY_def Let_def requested_def core_eq split: option.splits if_splits prod.splits elim!: bindE_elims dest!: WriteMsg_core)

text \<open>A new media session takes a pair of ports nobody has.\<close>

lemma CreateMediaSession_ports:
  assumes "CreateMediaSession env pm (Some q) m = Inr (x, m', inst)" "ports_inv q"
  shows "\<exists>q'. inst = Some q' \<and> ports_inv q' \<and> used_ports q \<subseteq> used_ports q'
    \<and> (case x of None \<Rightarrow> m' = m
       | Some ms \<Rightarrow> m' = AddMediaSession ms m \<and> (\<exists>lo. GetPort ms = (lo, lo + 1) \<and> {lo, lo + 1} \<inter> used_ports q = {} \<and> {lo, lo + 1} \<subseteq> used_ports q'))"
proof -
  obtain nError ms i where init: "MediaSession_Init env pm (Some q) MediaSession_new = Inr (nError, ms, i)"
    and x: "if nError = EOK then x = Some ms \<and> m' = AddMediaSession ms m \<and> inst = i else x = None \<and> m' = m \<and> inst = i"
    using assms(1) by (auto simp: CreateMediaSession_def split: if_splits elim!: bindE_elims)
  obtain r ports p where get: "GetPairPorts pair_fuel q = Inr (r, ports, p)" and i: "i = Some p"
    and ms: "case ports of None \<Rightarrow> nError = r | Some ps \<Rightarrow> nError = EOK \<longrightarrow> GetPort ms = ps"
    using init
    by (auto simp: MediaSession_Init_def GetInstance_def Let_def GetPort_def split: option.splits if_splits elim!: bindE_elims)
  show ?thesis
  proof (cases ports)
    case None
    then show ?thesis using ports.get_none [OF assms(2)] get i x ms assms(2) by (auto split: if_splits)
  next
    case (Some ps)
    obtain lo hi where ps: "ps = (lo, hi)" by (cases ps)
    then show ?thesis
      using ports.get_pair [OF assms(2), of r lo hi p] get i x ms Some by (auto split: if_splits)
  qed
qed

lemma SendSETUP_cases:
  assumes "SendSETUP env s = Inr (r, s')"
  obtains media sdp pm x media2 inst where "m_pRtspMedia s = Some media" "m_pSDP media = Some sdp"
    "GetSDPMedia (m_nRequestTrack media) sdp = Inr pm"
    "CreateMediaSession env pm (s_ports s) (media\<lparr>m_nRequestTrack := m_nRequestTrack media + 1\<rparr>) = Inr (x, media2, inst)"
    "requested (s\<lparr>m_pRtspMedia := Some media2, s_ports := inst\<rparr>) RTSP_SETUP (m_nCSeqPrevious s + 1) s'"
  using assms
  by (auto simp: SendSETUP_def Let_def requested_def core_eq split: option.splits if_splits prod.splits
      elim!: bindE_elims dest!: WriteMsg_core)

lemma ports_of_set: "ports_of (xs @ [(lo, hi)]) = ports_of xs @ [lo, hi]"
  by (simp add: ports_of_append)

lemma inv_SendSETUP:
  assumes "SendSETUP env s = Inr (r, s')" "session_inv s"
  shows "session_inv s'"
proof -
  obtain media sdp pm x media2 inst where c: "m_pRtspMedia s = Some media" "m_pSDP media = Some sdp"
    "GetSDPMedia (m_nRequestTrack media) sdp = Inr pm"
    "CreateMediaSession env pm (s_ports s) (media\<lparr>m_nRequestTrack := m_nRequestTrack media + 1\<rparr>) = Inr (x, media2, inst)"
    "requested (s\<lparr>m_pRtspMedia := Some media2, s_ports := inst\<rparr>) RTSP_SETUP (m_nCSeqPrevious s + 1) s'"
    by (rule SendSETUP_cases [OF assms(1)])
  obtain q where q: "s_ports s = Some q" "ports_inv q" "distinct (ports_of (map GetPort (sessions_of s)))"
    "set (ports_of (map GetPort (sessions_of s))) \<subseteq> used_ports q"
    using assms(2) by (auto simp: session_inv_def)
  have m: "media_inv media" and seq: "0 \<le> m_nCSeqPrevious s + 1" using assms(2) c(1) by (auto simp: session_inv_def)
  have less: "m_nRequestTrack media < m_nTrackCount media"
    using c(2,3) m by (auto simp: GetSDPMedia_def GetMediaCount_def media_inv_def split: option.splits if_splits)
  then have init: "m_nSessionState s = RTSP_SESSION_INIT" using assms(2) c(1) by (auto simp: session_inv_def)
  let ?s1 = "s\<lparr>m_pRtspMedia := Some media2, s_ports := inst\<rparr>"
  obtain q' where q': "inst = Some q'" "ports_inv q'" "used_ports q \<subseteq> used_ports q'"
    and x: "case x of None \<Rightarrow> media2 = media\<lparr>m_nRequestTrack := m_nRequestTrack media + 1\<rparr>
       | Some ms \<Rightarrow> media2 = AddMediaSession ms (media\<lparr>m_nRequestTrack := m_nRequestTrack media + 1\<rparr>)
         \<and> (\<exists>lo. GetPort ms = (lo, lo + 1) \<and> {lo, lo + 1} \<inter> used_ports q = {} \<and> {lo, lo + 1} \<subseteq> used_ports q')"
    using CreateMediaSession_ports [OF c(4) [unfolded q(1)] q(2)] by blast
  have m2: "media_inv media2" using m less x by (auto simp: media_inv_def AddMediaSession_def push_back_def vec_def split: option.splits)
  have old: "sessions_of s = vec (m_pMediaSessions media)" using c(1) by (simp add: sessions_of_def)
  have p2: "distinct (ports_of (map GetPort (vec (m_pMediaSessions media2))))
      \<and> set (ports_of (map GetPort (vec (m_pMediaSessions media2)))) \<subseteq> used_ports q'"
  proof (cases x)
    case None
    then show ?thesis using x q(3,4) q'(3) unfolding old by auto
  next
    case (Some ms)
    then obtain lo where lo: "GetPort ms = (lo, lo + 1)" "{lo, lo + 1} \<inter> used_ports q = {}" "{lo, lo + 1} \<subseteq> used_ports q'"
      "vec (m_pMediaSessions media2) = vec (m_pMediaSessions media) @ [ms]"
      using x by (auto simp: AddMediaSession_def push_back_def vec_def)
    have "set (ports_of (map GetPort (vec (m_pMediaSessions media)))) \<inter> {lo, lo + 1} = {}" using q(4) lo(2) unfolding old by blast
    then show ?thesis
      using q(3,4) q'(3) lo(3) unfolding old lo(4) by (auto simp: lo(1) ports_of_append)
  qed
  have "session_inv ?s1"
    using assms(2) init m2 p2 q'(1,2) c(1) by (auto simp: session_inv_def sessions_of_def)
  then show ?thesis using session_inv_requested [OF c(5)] seq by simp
qed

lemma inv_next_request:
  assumes "next_request env media s = Inr (r, s')" "session_inv s" "m_pRtspMedia s = Some media" "m_pszSessionId s \<noteq> None"
  shows "session_inv s'"
proof (cases "m_nRequestTrack media \<ge> m_nTrackCount media")
  case True
  have "media_inv media" using assms(2,3) by (simp add: session_inv_def)
  then have "m_nRequestTrack media = m_nTrackCount media" using True by (simp add: media_inv_def)
  then have r: "session_inv (s\<lparr>m_nSessionState := RTSP_SESSION_READY\<rparr>)"
    using assms(2-4) by (auto simp: session_inv_def sessions_of_def)
  have "requested (s\<lparr>m_nSessionState := RTSP_SESSION_READY\<rparr>) RTSP_PLAY (m_nCSeqPrevious s + 1) s'"
    using assms(1) True SendPLAY_requested [of env "s\<lparr>m_nSessionState := RTSP_SESSION_READY\<rparr>" r s'] by (simp add: next_request_def)
  from session_inv_requested [OF this r] assms(2) show ?thesis by (simp add: session_inv_def)
next
  case False
  then show ?thesis using assms(1,2) inv_SendSETUP by (auto simp: next_request_def)
qed

lemma inv_OnSetupRespond:
  assumes "OnSetupRespond env m s = Inr (r, s')" "session_inv s"
  shows "session_inv s'"
proof -
  have id: "session_inv (s\<lparr>m_pszSessionId := Some i, m_nTimeout := t\<rparr>)" for i t
    using assms(2) by (auto simp: session_inv_def sessions_of_def)
  obtain media where media: "m_pRtspMedia s = Some media" using assms(1) by (auto simp: OnSetupRespond_def split: option.splits)
  have "s' = s \<or> (\<exists>i t. next_request env media (s\<lparr>m_pszSessionId := Some i, m_nTimeout := t\<rparr>) = Inr (r, s'))
      \<or> m_pszSessionId s \<noteq> None \<and> next_request env media s = Inr (r, s')"
    using assms(1) media
    by (auto simp: OnSetupRespond_def Let_def split: option.splits if_splits elim!: bindE_elims)
  then show ?thesis
    using inv_next_request assms(2) id media by (auto split: option.splits)
qed

lemma inv_OnDescribeRespond:
  assumes "OnDescribeRespond env m s = Inr (r, s')" "session_inv s"
  shows "session_inv s'"
proof (cases "s' = s")
  case False
  then obtain b sdp where m: "m_nSessionState s = RTSP_SESSION_INIT" "m_pRtspMedia s = None"
    "SendSETUP env (s\<lparr>m_pRtspMedia := Some \<lparr>m_pszContentBase = Some b, m_pMediaSessions = None, m_pSDP = Some sdp,
        m_nTrackCount = GetMediaCount sdp, m_nRequestTrack = 0\<rparr>\<rparr>) = Inr (r, s')"
    using assms(1)
    by (auto simp: OnDescribeRespond_def Let_def RtspMedia_Init_def RtspMedia_new_def RtspMedia_delete_def
        split: option.splits if_splits elim!: bindE_elims)
  have "session_inv (s\<lparr>m_pRtspMedia := Some \<lparr>m_pszContentBase = Some b, m_pMediaSessions = None, m_pSDP = Some sdp,
        m_nTrackCount = GetMediaCount sdp, m_nRequestTrack = 0\<rparr>\<rparr>)"
    using assms(2) m(1,2) by (auto simp: session_inv_def sessions_of_def vec_def media_inv_def)
  then show ?thesis using inv_SendSETUP [OF m(3)] by simp
qed (use assms(2) in simp)

lemma core_StartRead: "core (snd (StartRead env s)) = core s"
  by (simp add: StartRead_def core_def split: prod.splits)

lemma inv_Invoke:
  assumes "InvokeStateMachine env mth m s = Inr (r, s')" "session_inv s"
  shows "session_inv s'"
proof -
  obtain n s1 where s1: "(if mth = RTSP_OPTIONS then OnOptionsRespond env m s
            else if mth = RTSP_DESCRIBE then OnDescribeRespond env m s
            else if mth = RTSP_SETUP then OnSetupRespond env m s
            else if mth = RTSP_PLAY then Inr (Z3 Z3_ERROR, s)
            else Inl AssertFailed) = Inr (n, s1)"
    and s': "s' = s1 \<or> s' = snd (StartRead env s1)"
    using assms(1) unfolding InvokeStateMachine_def by (auto split: if_splits prod.splits elim!: bindE_elims)
  have seq: "0 \<le> m_nCSeqPrevious s + 1" using assms(2) by (simp add: session_inv_def)
  have "session_inv s1" if "OnOptionsRespond env m s = Inr (n, s1)"
  proof -
    have "s1 = s \<or> SendDESCRIBE env s = Inr (n, s1)"
      using that by (auto simp: OnOptionsRespond_def split: if_splits elim!: bindE_elims)
    then show ?thesis using session_inv_requested [OF SendDESCRIBE_requested assms(2) seq] assms(2) by auto
  qed
  then have "session_inv s1"
    using s1 assms(2) inv_OnDescribeRespond inv_OnSetupRespond by (auto split: if_splits)
  then show ?thesis using s' session_inv_core [OF core_StartRead] by auto
qed

lemma inv_Dispatch: "Dispatch env m s = Inr (r, s') \<Longrightarrow> session_inv s \<Longrightarrow> session_inv s'"
  by (auto simp: Dispatch_def split: option.splits RtspMsgObj.splits if_splits elim!: bindE_elims dest: inv_Invoke)
    (auto simp: session_inv_def sessions_of_def)

lemma core_updates [simp]:
  "core (s\<lparr>s_socket := k\<rparr>) = core s" "core (s\<lparr>m_bStarted := b\<rparr>) = core s" "core (s\<lparr>connecting := n\<rparr>) = core s"
  "core (s\<lparr>m_pszUrl := u\<rparr>) = core s" "core (s\<lparr>m_pszHost := u\<rparr>) = core s" "core (s\<lparr>c_nPort := p\<rparr>) = core s"
  "core (s\<lparr>m_hFileHandle := h\<rparr>) = core s" "core (s\<lparr>m_pParser := pa\<rparr>) = core s" "core (s\<lparr>notified := ns\<rparr>) = core s"
  by (simp_all add: core_def)

lemma core_OnStart: "OnStart env s = Inr (r, s') \<Longrightarrow> core s' = core s"
  by (auto simp: OnStart_def Connect_def AsyncConnect_def Let_def session_close_def
      split: option.splits if_splits elim!: bindE_elims)

lemma inv_Run:
  assumes "Run env e s = Inr (r, s')" "session_inv s"
  shows "session_inv s'"
proof (cases e)
  case InstanceStart
  then have "core s' = core s" using assms(1) core_OnStart [of env s r s'] by simp
  then show ?thesis using assms(2) session_inv_core [of s' s] by blast
next
  case InstanceStop
  then have "core s' = core s" using assms(1) by (simp add: quiet_core [OF quiet_OnStop])
  then show ?thesis using assms(2) session_inv_core [of s' s] by blast
next
  case (Connected n)
  let ?s = "s\<lparr>connecting := connecting s - 1\<rparr>"
  have s: "session_inv ?s" using assms(2) session_inv_core [of ?s s] by (simp add: core_def)
  consider "s' = Notify EV_NOTIFY (z3_rtsp_errno_code Z3_RTSP_SESSION_ECONNECT) ?s"
    | x s1 where "SendOPTIONS env ?s = Inr (x, s1)" "s' = s1 \<or> s' = snd (StartRead env s1)"
    using assms(1) Connected by (auto simp: OnConnect_def split: if_splits elim!: bindE_elims)
  then show ?thesis
  proof cases
    case 1
    then show ?thesis using s session_inv_core [of s' ?s] by (simp add: Notify_def core_def)
  next
    case 2
    then have "session_inv s1" using session_inv_requested [OF SendOPTIONS_requested s] by simp
    then show ?thesis using 2(2) session_inv_core [OF core_StartRead] by auto
  qed
next
  case (Received n packet)
  let ?s = "s\<lparr>s_socket := (s_socket s)\<lparr>reads := reads (s_socket s) - 1\<rparr>\<rparr>"
  have s: "session_inv (?s\<lparr>m_pParser := Some q\<rparr>)" for q
    using assms(2) session_inv_core [of "?s\<lparr>m_pParser := Some q\<rparr>" s] by simp
  have "core s' = core s \<or> (\<exists>m q x. Dispatch env m (?s\<lparr>m_pParser := Some q\<rparr>) = Inr (x, s'))"
    using assms(1) Received
    by (auto simp: OnEvRead_def GetProtoParser_def Let_def split: option.splits if_splits elim!: bindE_elims
        dest!: quiet_core [OF quiet_NotifyError] quiet_core [OF quiet_close])
  then show ?thesis using assms(2) session_inv_core [of s' s] inv_Dispatch s by blast
next
  case (Sent n k)
  then have "core s' = core s" using assms(1) by (simp add: quiet_core [OF quiet_OnEvWrite])
  then show ?thesis using assms(2) session_inv_core [of s' s] by blast
qed

lemma inv_step: "session_step env s s' \<Longrightarrow> session_inv s \<Longrightarrow> session_inv s'"
  by (auto simp del: Run.simps elim!: session_step.cases intro: inv_Run)

lemma new_session_inv:
  assumes "ports_inv q" "SetRequestUrl mok url (RtspSession_new started (Some q)) = Inr (r, s)"
  shows "session_inv s"
proof -
  have "core s = core (RtspSession_new started (Some q))"
    using assms(2)
    by (auto simp: SetRequestUrl_def SetRequestUrl_host_def SetDestination_def Let_def
        split: option.splits if_splits prod.splits)
  moreover have "session_inv (RtspSession_new started (Some q))"
    using assms(1) by (simp add: session_inv_def RtspSession_new_def sessions_of_def)
  ultimately show ?thesis using session_inv_core [of s] by blast
qed

text \<open>C2. What holds in every state that a session with a request URL can reach, in any environment, through any events in any order
  and with any bytes from the server: it is in the state INIT or READY, and never PLAYING, whatever the server answers to
  PLAY; READY means that every track has been asked for and the session has an identifier, and PLAY is sent in READY only; the number of tracks is that of the description, no more
  are asked for than there are, and no more media sessions exist than were asked for; and the ports of all media sessions are different
  from one another and marked as used in the allocator.\<close>

theorem session_states:
  assumes "ports_inv q" and "SetRequestUrl mok url (RtspSession_new started (Some q)) = Inr (r, s0)"
    and "(session_step env)\<^sup>*\<^sup>* s0 s"
  shows "session_inv s"
  using assms(3)
  by (induction rule: rtranclp_induct) (use new_session_inv [OF assms(1,2)] inv_step in blast)+

theorem session_states_witness:
  "\<exists>r s0. SetRequestUrl alloc_ok ''http://h/v'' (RtspSession_new False (Some sample_ports)) = Inr (r, s0) \<and> session_inv s0"
proof -
  let ?s0 = "(RtspSession_new False (Some sample_ports))\<lparr>m_pszUrl := Some ''http://h/v''\<rparr>"
  have s0: "SetRequestUrl alloc_ok ''http://h/v'' (RtspSession_new False (Some sample_ports)) = Inr (Z3 Z3_EINVAL, ?s0)"
    by (simp add: SetRequestUrl_def alloc_ok stricmp_eq_def to_lower_def Let_def)
  have "Run sample_env (Sent 0 0) ?s0 = Inr (EOK, ?s0)" by (simp add: OnEvWrite_def RtspSession_new_def)
  then have "(session_step sample_env)\<^sup>*\<^sup>* ?s0 ?s0" by (blast intro: session_step.sent)
  then show ?thesis using session_states [OF sample_ports_inv(1) s0] s0 by blast
qed

section \<open>The session identifier\<close>

lemma strtok_at: "i \<noteq> [] \<Longrightarrow> CHR '';'' \<notin> set i \<Longrightarrow> strtok_semicolon (i @ CHR '';'' # rest) = i"
  by (cases i) (auto simp: strtok_semicolon_def takeWhile_tail takeWhile_eq_all_conv dropWhile_append3)

text \<open>The \<open>Session\<close> header of a SETUP response. From the first response the identifier in front of the first semicolon is kept; what
  follows it, a \<open>timeout\<close> parameter included, changes nothing, so that the timeout of the session stays at its
  default of 15000. A later response is accepted exactly if its header begins with the identifier; another
  one is refused with \<open>Z3_RTSP_ESESSIONID\<close>, and without a header the result is \<open>Z3_RTSP_ENOSESSIONID\<close>; in both cases the session does not change and nothing is sent.\<close>

theorem session_identifier:
  assumes "e_mok env = alloc_ok" and "response m hs body" and "m_pRtspMedia s = Some media"
    and "i \<noteq> []" and "CHR '';'' \<notin> set i" and "strstr i ''timeout='' = None"
    and "map_of hs RTSP_HDR_SESSION = None \<or> map_of hs RTSP_HDR_SESSION = Some (i @ CHR '';'' # rest)"
  shows "OnSetupRespond env m s =
    (if map_of hs RTSP_HDR_SESSION = None then Inr (RTSP Z3_RTSP_ENOSESSIONID, s)
     else case m_pszSessionId s of
       None \<Rightarrow> next_request env media (s\<lparr>m_pszSessionId := Some i\<rparr>)
     | Some old \<Rightarrow> if take (length old) (i @ CHR '';'' # rest) = old then next_request env media s
                   else Inr (RTSP Z3_RTSP_ESESSIONID, s))"
proof (cases "map_of hs RTSP_HDR_SESSION")
  case None
  then have "GetHeader RTSP_HDR_SESSION 0 m = None" using GetHeader_first [OF assms(2), of RTSP_HDR_SESSION] by simp
  then show ?thesis using None by (simp add: OnSetupRespond_def assms(3))
next
  case (Some w)
  then have w: "w = i @ CHR '';'' # rest" using assms(7) by simp
  obtain p where p: "GetHeader RTSP_HDR_SESSION 0 m = Some p" "cstrE p = Inr w"
    using GetHeader_first [OF assms(2), of RTSP_HDR_SESSION] Some by auto
  have dup: "z3_strdup (e_debug env) (e_mok env) w = Some w" using assms(1) by (simp add: z3_strdup_def alloc_ok w)
  have "s\<lparr>m_pszSessionId := Some i, m_nTimeout := session_timeout i (m_nTimeout s)\<rparr> = s\<lparr>m_pszSessionId := Some i\<rparr>"
    using assms(6) by (simp add: session_timeout_def)
  then show ?thesis
    using Some by (cases "m_pszSessionId s") (simp_all add: OnSetupRespond_def assms(3) p dup [unfolded w] w Let_def strtok_at [OF assms(4,5)])
qed

theorem session_identifier_witness:
  "\<exists>m. OnSetupRespond sample_env m (sample_session\<lparr>m_pszSessionId := Some ''7'', m_pRtspMedia := Some RtspMedia_new\<rparr>)
    = Inr (RTSP Z3_RTSP_ENOSESSIONID, sample_session\<lparr>m_pszSessionId := Some ''7'', m_pRtspMedia := Some RtspMedia_new\<rparr>)"
proof -
  obtain m q where m: "response m sample_options []"
    using Parse_reply [OF fresh_new sample_replies(1), of False zero_indet] by blast
  have "map_of sample_options RTSP_HDR_SESSION = None" by (simp add: sample_options_def)
  then show ?thesis
    using session_identifier [of sample_env m sample_options "[]" "sample_session\<lparr>m_pszSessionId := Some ''7'', m_pRtspMedia := Some RtspMedia_new\<rparr>"
        RtspMedia_new "''7''"] m
    by (auto simp: sample_env_def)
qed

section \<open>The request URL\<close>

lemma to_lower_colon: "to_lower c \<noteq> CHR '':'' \<Longrightarrow> c \<noteq> CHR '':''"
  by (auto simp: to_lower_def)

lemma rtsp_no_colon: "stricmp_eq proto ''rtsp'' \<Longrightarrow> CHR '':'' \<notin> set proto"
proof
  assume "stricmp_eq proto ''rtsp''" "CHR '':'' \<in> set proto"
  then have "to_lower CHR '':'' \<in> set (map to_lower ''rtsp'')" unfolding stricmp_eq_def by (metis image_eqI set_map)
  then show False by (simp add: to_lower_def)
qed

definition port_text :: "nat option \<Rightarrow> string" where
  "port_text port = (case port of None \<Rightarrow> [] | Some n \<Rightarrow> CHR '':'' # dec_nat n)"

text \<open>The URL \<open>rtsp://host[:port]/path\<close>, the protocol in any case, on every branch. Without a slash behind the host the program
  crashes. Otherwise the URL is kept as the request URL and the host and the port become the destination; the
  port is 8554 where none is given and is taken modulo 65536, so that 65536 is refused as 0 is, with \<open>Z3_ENOMEM\<close>, as is an empty host;
  the session then has the URL but no destination, and does not connect when it is started.\<close>

theorem SetRequestUrl_branches:
  assumes "stricmp_eq proto ''rtsp''" and "CHR ''/'' \<notin> set host" and "CHR '':'' \<notin> set host"
    and "\<forall>n. port = Some n \<longrightarrow> n \<le> 2147483647" and "tail = [] \<or> hd tail = CHR ''/''"
    and "url = proto @ ''://'' @ host @ port_text port @ tail"
    and "p = (case port of None \<Rightarrow> 8554 | Some n \<Rightarrow> of_nat n)"
  shows "SetRequestUrl alloc_ok url s =
    (if tail = [] then Inl NullDeref
     else if p = 0 \<or> host = [] then Inr (Z3 Z3_ENOMEM, s\<lparr>m_pszUrl := Some url\<rparr>)
     else Inr (EOK, s\<lparr>m_pszUrl := Some url, m_pszHost := Some host, c_nPort := p\<rparr>))"
proof -
  let ?rest = "host @ port_text port @ tail" and ?s = "s\<lparr>m_pszUrl := Some url\<rparr>"
  have "index_of CHR '':'' url = Some (length proto)"
    using rtsp_no_colon [OF assms(1)] assms(6) by simp
  then have url: "SetRequestUrl alloc_ok url s = SetRequestUrl_host alloc_ok ?rest ?s"
    using assms(1,6) by (simp add: SetRequestUrl_def alloc_ok Let_def nth_append)
  have digits: "CHR ''/'' \<notin> set (dec_nat n)" for n
    using dec_nat_digits [of n] by (auto simp: is_digit_def)
  then have no_slash: "CHR ''/'' \<notin> set (host @ port_text port)" using assms(2) by (auto simp: port_text_def split: option.splits)
  show ?thesis
  proof (cases tail)
    case Nil
    then have "index_of CHR ''/'' ?rest = None" using no_slash by (simp add: index_of_None_iff)
    then show ?thesis using url Nil by (simp add: SetRequestUrl_host_def)
  next
    case (Cons c path)
    then have "index_of CHR ''/'' ?rest = Some (length (host @ port_text port))"
      using no_slash assms(5) index_of_append_here [of "CHR ''/''" "host @ port_text port" path] by simp
    moreover have "take (length (host @ port_text port)) ?rest = host @ port_text port" by simp
    moreover have "(case index_of CHR '':'' (host @ port_text port) of None \<Rightarrow> (host @ port_text port, DEFAULT_RTSP_PORT)
        | Some k \<Rightarrow> (take k (host @ port_text port), word_of_int (atoi (drop (k + 1) (host @ port_text port))))) = (host, p)"
    proof (cases port)
      case None
      then have "index_of CHR '':'' host = None" using assms(3) by (simp add: index_of_None_iff)
      then show ?thesis using None assms(7) by (simp add: port_text_def DEFAULT_RTSP_PORT_def)
    next
      case (Some n)
      then show ?thesis using assms(3,4,7) by (simp add: port_text_def atoi_dec_nat)
    qed
    ultimately have "SetRequestUrl_host alloc_ok ?rest ?s =
      (let (ok, s') = SetDestination alloc_ok host p ?s in Inr (if ok then EOK else Z3 Z3_ENOMEM, s'))"
      by (simp only: SetRequestUrl_host_def option.case alloc_ok Let_def case_prod_conv not_True_eq_False if_False)
    then show ?thesis using url Cons by (simp add: SetDestination_def alloc_ok)
  qed
qed

theorem SetRequestUrl_branches_witness:
  "\<exists>s. SetRequestUrl alloc_ok ''RTSP://h:554/v'' sample_session = Inr (EOK, s) \<and> m_pszHost s = Some ''h'' \<and> c_nPort s = 554"
proof -
  have "dec_nat 554 = ''554''" by code_simp
  then show ?thesis
    using SetRequestUrl_branches [of "''RTSP''" "''h''" "Some 554" "''/v''" "''RTSP://h:554/v''" 554 sample_session]
    by (simp add: port_text_def stricmp_eq_def to_lower_def)
qed

section \<open>Writes done in parts\<close>

lemma OnEvWrite_part:
  assumes "good_env env" "m_hSocket (s_socket s)" "length (m_wsaSendBuf s) \<le> 4096" "n < length (m_wsaSendBuf s)"
  shows "OnEvWrite env 0 n s = Inr (EOK, send (drop n (m_wsaSendBuf s)) s)"
  using assms WriteBytes_ok [OF assms(1,2), of "drop n (m_wsaSendBuf s)"] by (simp add: OnEvWrite_def)

text \<open>The buffers handed to \<open>WSASend\<close> when the writes of a message complete with \<open>ns\<close> bytes each, the first included.\<close>

fun remainders :: "nat list \<Rightarrow> string \<Rightarrow> string list" where
  "remainders [] buf = [buf]"
| "remainders (n # ns) buf = buf # remainders ns (drop n buf)"

text \<open>C40. A message whose writes complete in parts is not lost, nor is a part of it sent twice. With any numbers of bytes \<open>ns\<close> that are
  together fewer than the message, each completion posts the rest that is missing, so that the bytes that
  left the machine are, in order, the first \<open>sum_list ns\<close> bytes of the message, and what is being written now is everything behind
  them.\<close>

theorem partial_writes:
  assumes "good_env env" and "m_hSocket (s_socket s)" and "length (m_wsaSendBuf s) \<le> 4096"
    and "sum_list ns < length (m_wsaSendBuf s)"
  shows "\<exists>s'. run_events env (map (Sent 0) ns) s = Inr s'
    \<and> sent (s_socket s') = sent (s_socket s) @ tl (remainders ns (m_wsaSendBuf s))
    \<and> concat (map2 take ns (remainders ns (m_wsaSendBuf s))) = take (sum_list ns) (m_wsaSendBuf s)
    \<and> m_wsaSendBuf s' = drop (sum_list ns) (m_wsaSendBuf s)"
  using assms(2-4)
proof (induction ns arbitrary: s)
  case (Cons n ns)
  let ?buf = "m_wsaSendBuf s" and ?s1 = "send (drop n (m_wsaSendBuf s)) s"
  have s1: "OnEvWrite env 0 n s = Inr (EOK, ?s1)" using OnEvWrite_part [OF assms(1)] Cons.prems by simp
  have buf1: "m_wsaSendBuf ?s1 = drop n ?buf" by (simp add: send_def)
  have "m_hSocket (s_socket ?s1)" "length (drop n ?buf) \<le> 4096" "sum_list ns < length (drop n ?buf)" using Cons.prems by auto
  from Cons.IH [of ?s1, unfolded buf1, OF this] obtain s' where s': "run_events env (map (Sent 0) ns) ?s1 = Inr s'"
    "sent (s_socket s') = sent (s_socket ?s1) @ tl (remainders ns (drop n ?buf))"
    "concat (map2 take ns (remainders ns (drop n ?buf))) = take (sum_list ns) (drop n ?buf)"
    "m_wsaSendBuf s' = drop (sum_list ns) (drop n ?buf)"
    by blast
  have "remainders ns (drop n ?buf) = drop n ?buf # tl (remainders ns (drop n ?buf))" by (cases ns) simp_all
  then show ?case using s1 s' by (simp add: take_add add.commute)
qed simp

theorem partial_writes_witness:
  "\<exists>s'. run_events sample_env [Sent 0 2, Sent 0 1] (sample_session\<lparr>m_wsaSendBuf := ''PLAY''\<rparr>) = Inr s' \<and> m_wsaSendBuf s' = ''Y''"
  using partial_writes [OF sample_env_good, of "sample_session\<lparr>m_wsaSendBuf := ''PLAY''\<rparr>" "[2, 1]"]
  by (auto simp: sample_session_def RtspSession_new_def)

end
