(* ===== verification/AsyncQueues.thy ===== *)
theory AsyncQueues
  imports Z3Prelude
begin

text \<open>
  \<open>z3_engine/z3_async_queue.hpp\<close>, the queue between the threads of the engine: a list behind a mutex, and a manual-reset event. What
  threads do to it is a sequence of actions, each of which is one of the code's sections: one that holds the mutex from its beginning to its
  end, or one call of Windows. An action that would have to wait has no result. Two locales say what is promised to those who put
  messages into a queue and to those who wait for them; theory \<open>Truck\<close> shows a second queue of the program that keeps only the first.
\<close>

section \<open>Runs\<close>

fun run_acts :: "('a \<Rightarrow> 's \<Rightarrow> 's option) \<Rightarrow> 'a list \<Rightarrow> 's \<Rightarrow> 's option" where
  "run_acts step [] s = Some s"
| "run_acts step (a # as) s = (case step a s of None \<Rightarrow> None | Some s' \<Rightarrow> run_acts step as s')"

lemma run_acts_append: "run_acts step (as @ bs) s = (case run_acts step as s of None \<Rightarrow> None | Some s' \<Rightarrow> run_acts step bs s')"
  by (induction as arbitrary: s) (auto split: option.splits)

lemma run_acts_invariant:
  assumes "\<And>a s s'. step a s = Some s' \<Longrightarrow> P s \<Longrightarrow> P s'"
  shows "run_acts step as s = Some s' \<Longrightarrow> P s \<Longrightarrow> P s'"
  by (induction as arbitrary: s) (auto split: option.splits dest: assms)

text \<open>Messages come out in the order they went in, and none is lost or doubled.\<close>

locale mailbox =
  fixes step :: "'a \<Rightarrow> 's \<Rightarrow> 's option" and valid :: "'s \<Rightarrow> bool" and sent received waiting :: "'s \<Rightarrow> 'm list"
  assumes step_valid: "step a s = Some s' \<Longrightarrow> valid s \<Longrightarrow> valid s'"
    and step_sent: "step a s = Some s' \<Longrightarrow> valid s \<Longrightarrow> sent s = received s @ waiting s \<Longrightarrow> sent s' = received s' @ waiting s'"
begin

lemma run_sent:
  assumes "run_acts step as s = Some s'" "valid s" "sent s = received s @ waiting s"
  shows "valid s' \<and> sent s' = received s' @ waiting s'"
  by (rule run_acts_invariant [where P = "\<lambda>s. valid s \<and> sent s = received s @ waiting s", OF _ assms(1)])
    (use assms(2,3) step_valid step_sent in blast)+

end

text \<open>And whoever waits is woken: in every state of a run, a message that waits can be taken, or there is still somebody who will
  set the event.\<close>

locale waking_mailbox = mailbox step valid sent received waiting
  for step :: "'a \<Rightarrow> 's \<Rightarrow> 's option" and valid :: "'s \<Rightarrow> bool" and sent received waiting :: "'s \<Rightarrow> 'm list" +
  fixes awake :: "'s \<Rightarrow> bool"
  assumes step_awake: "step a s = Some s' \<Longrightarrow> waiting s \<noteq> [] \<longrightarrow> awake s \<Longrightarrow> waiting s' \<noteq> [] \<longrightarrow> awake s'"
begin

lemma run_awake: "run_acts step as s = Some s' \<Longrightarrow> waiting s \<noteq> [] \<longrightarrow> awake s \<Longrightarrow> waiting s' \<noteq> [] \<longrightarrow> awake s'"
  by (rule run_acts_invariant [where P = "\<lambda>s. waiting s \<noteq> [] \<longrightarrow> awake s", OF step_awake])

end

section \<open>The queue\<close>

record 'e AsyncQueue =
  m_Queue :: "'e list"
  m_hEvent :: bool

definition AsyncQueue_new :: "'e AsyncQueue" where
  "AsyncQueue_new = \<lparr>m_Queue = [], m_hEvent = False\<rparr>"

definition queue_Push :: "'e \<Rightarrow> 'e AsyncQueue \<Rightarrow> 'e AsyncQueue" where
  "queue_Push element q = q\<lparr>m_Queue := m_Queue q @ [element]\<rparr>"

definition queue_Pop :: "'e AsyncQueue \<Rightarrow> 'e option \<times> 'e AsyncQueue" where
  "queue_Pop q = (case m_Queue q of [] \<Rightarrow> (None, q) | e # es \<Rightarrow> (Some e, q\<lparr>m_Queue := es\<rparr>))"

definition queue_Signal :: "bool \<Rightarrow> 'e AsyncQueue \<Rightarrow> 'e AsyncQueue" where
  "queue_Signal bOK q = q\<lparr>m_hEvent := bOK\<rparr>"

text \<open>\<open>WaitForEV\<close> has the mutex when its wait succeeds and gives it back at the end; another thread may set the event in between.\<close>

definition WaitForEV_take :: "'e AsyncQueue \<Rightarrow> 'e option \<times> 'e AsyncQueue" where
  "WaitForEV_take q = queue_Pop q"

definition WaitForEV_leave :: "'e AsyncQueue \<Rightarrow> 'e AsyncQueue" where
  "WaitForEV_leave q = (if m_Queue q = [] then q\<lparr>m_hEvent := False\<rparr> else q)"

text \<open>With nobody else about: a wait for a queue whose event is not set ends with the time.\<close>

definition WaitForEV :: "'e AsyncQueue \<Rightarrow> 'e option \<times> 'e AsyncQueue" where
  "WaitForEV q = (if m_hEvent q then (case WaitForEV_take q of (e, q') \<Rightarrow> (e, WaitForEV_leave q')) else (None, q))"

section \<open>Threads at the queue\<close>

text \<open>\<open>signals\<close> counts the threads that have pushed and not yet set the event, \<open>inside\<close> holds while a waiter has the mutex.\<close>

record 'e queue_state =
  queue :: "'e AsyncQueue"
  signals :: nat
  inside :: bool
  pushed :: "'e list"
  taken :: "'e list"

datatype 'e queue_act = QPush 'e | QSignal | QPop | QTake | QLeave | QTimeOut

definition queue_start :: "'e queue_state" where
  "queue_start = \<lparr>queue = AsyncQueue_new, signals = 0, inside = False, pushed = [], taken = []\<rparr>"

definition note_taken :: "'e option \<times> 'e AsyncQueue \<Rightarrow> 'e queue_state \<Rightarrow> 'e queue_state" where
  "note_taken r s = s\<lparr>queue := snd r, taken := taken s @ (case fst r of None \<Rightarrow> [] | Some e \<Rightarrow> [e])\<rparr>"

fun queue_step :: "'e queue_act \<Rightarrow> 'e queue_state \<Rightarrow> 'e queue_state option" where
  "queue_step (QPush e) s =
     (if inside s then None else Some (s\<lparr>queue := queue_Push e (queue s), signals := signals s + 1, pushed := pushed s @ [e]\<rparr>))"
| "queue_step QSignal s =
     (if signals s = 0 then None else Some (s\<lparr>queue := queue_Signal True (queue s), signals := signals s - 1\<rparr>))"
| "queue_step QPop s = (if inside s then None else Some (note_taken (queue_Pop (queue s)) s))"
| "queue_step QTake s =
     (if inside s \<or> \<not> m_hEvent (queue s) then None else Some ((note_taken (WaitForEV_take (queue s)) s)\<lparr>inside := True\<rparr>))"
| "queue_step QLeave s = (if inside s then Some (s\<lparr>queue := WaitForEV_leave (queue s), inside := False\<rparr>) else None)"
| "queue_step QTimeOut s = Some s"

lemmas queue_simps = queue_Push_def queue_Pop_def queue_Signal_def WaitForEV_take_def WaitForEV_leave_def note_taken_def

definition queue_waiting :: "'e queue_state \<Rightarrow> 'e list" where
  "queue_waiting s = m_Queue (queue s)"

definition queue_awake :: "'e queue_state \<Rightarrow> bool" where
  "queue_awake s \<longleftrightarrow> m_hEvent (queue s) \<or> 0 < signals s"

interpretation aq: waking_mailbox queue_step "\<lambda>_. True" pushed taken queue_waiting queue_awake
proof
  fix a :: "'e queue_act" and s s' :: "'e queue_state"
  assume step: "queue_step a s = Some s'"
  show "pushed s' = taken s' @ queue_waiting s'" if "pushed s = taken s @ queue_waiting s"
    using step that by (cases a) (auto simp: queue_simps queue_waiting_def split: if_splits list.splits)
  show True ..
  show "queue_waiting s' \<noteq> [] \<longrightarrow> queue_awake s'" if "queue_waiting s \<noteq> [] \<longrightarrow> queue_awake s"
    using step that by (cases a) (auto simp: queue_simps queue_waiting_def queue_awake_def split: if_splits list.splits)
qed

text \<open>C34. Any number of threads push elements (and set the event afterwards), pop and wait for them, in any order. What was taken and what is in
  the queue is what was pushed, in order. No wake-up is lost: if the queue is not empty and everybody who pushed has set the event, a wait
  that finds the mutex free takes the first element, so a thread never waits beside an element.\<close>

theorem queue_delivers:
  assumes "run_acts queue_step as queue_start = Some s"
  shows "pushed s = taken s @ m_Queue (queue s)
    \<and> (m_Queue (queue s) \<noteq> [] \<longrightarrow> signals s = 0 \<longrightarrow> \<not> inside s \<longrightarrow>
        (\<exists>s'. queue_step QTake s = Some s' \<and> taken s' = taken s @ [hd (m_Queue (queue s))] \<and> m_Queue (queue s') = tl (m_Queue (queue s))))
    \<and> (m_Queue (queue s) \<noteq> [] \<longrightarrow> signals s = 0 \<longrightarrow> \<not> inside s \<longrightarrow> fst (WaitForEV (queue s)) = Some (hd (m_Queue (queue s))))"
proof -
  have "True \<and> pushed s = taken s @ queue_waiting s"
    by (rule aq.run_sent [OF assms]) (simp_all add: queue_start_def AsyncQueue_new_def queue_waiting_def)
  moreover have "queue_waiting s \<noteq> [] \<longrightarrow> queue_awake s"
    by (rule aq.run_awake [OF assms]) (simp add: queue_start_def AsyncQueue_new_def queue_waiting_def)
  ultimately show ?thesis
    by (auto simp: queue_waiting_def queue_awake_def queue_simps WaitForEV_def split: list.splits)
qed

theorem queue_delivers_witness:
  "\<exists>s. run_acts queue_step [QPush 1, QPush 2, QSignal, QTake, QSignal, QLeave] queue_start = Some s
    \<and> pushed s = [1, 2 :: nat] \<and> taken s = [1] \<and> fst (WaitForEV (queue s)) = Some 2"
proof -
  let ?r = "run_acts queue_step [QPush 1, QPush 2, QSignal, QTake, QSignal, QLeave] (queue_start :: nat queue_state)"
  let ?s = "\<lparr>queue = \<lparr>m_Queue = [2], m_hEvent = True\<rparr>, signals = 0, inside = False, pushed = [1, 2], taken = [1]\<rparr>"
  have r: "?r = Some ?s" by (simp add: queue_start_def AsyncQueue_new_def queue_simps)
  with queue_delivers [OF r] show ?thesis by auto
qed

end
