(* ===== verification/Executors.thy ===== *)
theory Executors
  imports AsyncQueues Sockets
begin

text \<open>
  How a completion reaches its object: \<open>Engine::RunOnce\<close> takes it from the completion port and puts it into the queue (\<open>z3_engine.cpp\<close>),
  \<open>Executor::RunOnce\<close> waits for it, locks the object, cancels the timer of the operation and calls \<open>Run\<close> (\<open>z3_executor.cpp\<close>); the timer
  queue of Windows calls \<open>TimerEngine::TimerCallBack\<close> on a thread of its own (\<open>z3_timer_obj.cpp\<close>). There is one executor, as
  \<open>Client::OnThreadStart\<close> starts the pool, and one object, whose \<open>Run\<close> is a parameter. An action that has to wait has no result.
\<close>

section \<open>State\<close>

text \<open>A completion as \<open>GetQueuedCompletionStatus\<close> gives it: the overlapped structure, by a number, with its event, whether a timer was made for
  it, and the result of the operation.\<close>

record completion =
  c_ovl :: nat
  c_ev :: ev_id
  c_timer :: bool
  c_error :: u32
  c_bytes :: u32

datatype engine_pc = E_Get | E_Push completion | E_Signal

datatype executor_pc =
    X_Wait | X_Leave "completion option" | X_Lock completion | X_Cancel completion | X_Run completion | X_Unlock completion | X_Free completion
  | X_Dead fault completion

text \<open>A timer of the queue: \<open>Fired\<close> while its callback waits for the lock of the object, \<open>Calling\<close> while it has it.\<close>

datatype timer_state = Unarmed | Armed | Fired | Calling | Called

datatype holder = Exec | Callback nat

record 'o engine =
  port :: "completion list"
  epc :: engine_pc
  ev_queue :: "completion queue_state"
  xpc :: executor_pc
  timers :: "nat \<Rightarrow> timer_state"
  obj_lock :: "holder option"
  obj :: 'o
  completed :: "completion list"
  handled :: "completion list"

definition engine_start :: "'o \<Rightarrow> 'o engine" where
  "engine_start ob = \<lparr>port = [], epc = E_Get, ev_queue = queue_start, xpc = X_Wait, timers = (\<lambda>_. Unarmed), obj_lock = None, obj = ob,
     completed = [], handled = []\<rparr>"

section \<open>Threads\<close>

text \<open>\<open>Engine::RunOnce\<close> and \<open>Engine::Dispatch\<close>. The error of a failed operation is in the completion.\<close>

definition Engine_RunOnce :: "'o engine \<Rightarrow> 'o engine option" where
  "Engine_RunOnce s =
     (case epc s of
        E_Get \<Rightarrow> (case port s of [] \<Rightarrow> None | c # cs \<Rightarrow> Some (s\<lparr>port := cs, epc := E_Push c\<rparr>))
      | E_Push c \<Rightarrow> (case queue_step (QPush c) (ev_queue s) of None \<Rightarrow> None | Some q \<Rightarrow> Some (s\<lparr>ev_queue := q, epc := E_Signal\<rparr>))
      | E_Signal \<Rightarrow> (case queue_step QSignal (ev_queue s) of None \<Rightarrow> None | Some q \<Rightarrow> Some (s\<lparr>ev_queue := q, epc := E_Get\<rparr>)))"

text \<open>\<open>DeleteTimerQueueTimer\<close> with an event waits until no callback of the timer runs.\<close>

definition Executor_RunOnce :: "(completion \<Rightarrow> 'o \<Rightarrow> 'o outcome) \<Rightarrow> 'o engine \<Rightarrow> 'o engine option" where
  "Executor_RunOnce run s =
     (case xpc s of
        X_Wait \<Rightarrow>
          (case queue_step QTake (ev_queue s) of
             None \<Rightarrow> None
           | Some q \<Rightarrow> Some (s\<lparr>ev_queue := q, xpc := X_Leave (fst (WaitForEV_take (queue (ev_queue s))))\<rparr>))
      | X_Leave r \<Rightarrow>
          (case queue_step QLeave (ev_queue s) of
             None \<Rightarrow> None
           | Some q \<Rightarrow> Some (s\<lparr>ev_queue := q, xpc := (case r of None \<Rightarrow> X_Wait
               | Some c \<Rightarrow> if c_ev c = EV_UNKNOWN then X_Dead AssertFailed c else X_Lock c)\<rparr>))
      | X_Lock c \<Rightarrow> if obj_lock s = None then Some (s\<lparr>obj_lock := Some Exec, xpc := X_Cancel c\<rparr>) else None
      | X_Cancel c \<Rightarrow>
          if \<not> c_timer c then Some (s\<lparr>xpc := X_Run c\<rparr>)
          else if timers s (c_ovl c) \<in> {Fired, Calling} then None
          else Some (s\<lparr>timers := (timers s)(c_ovl c := Unarmed), xpc := X_Run c\<rparr>)
      | X_Run c \<Rightarrow> (case run c (obj s) of
            Inl f \<Rightarrow> Some (s\<lparr>xpc := X_Dead f c\<rparr>)
          | Inr ob \<Rightarrow> Some (s\<lparr>obj := ob, handled := handled s @ [c], xpc := X_Unlock c\<rparr>))
      | X_Unlock c \<Rightarrow> Some (s\<lparr>obj_lock := None, xpc := X_Free c\<rparr>)
      | X_Free c \<Rightarrow> Some (s\<lparr>xpc := X_Wait\<rparr>)
      | X_Dead f c \<Rightarrow> None)"

text \<open>\<open>TimerEngine::TimerCallBack\<close>; what \<open>OnTimer\<close> does is to cancel the operation, which completes it.\<close>

definition TimerCallBack :: "nat \<Rightarrow> 'o engine \<Rightarrow> 'o engine option" where
  "TimerCallBack k s =
     (case timers s k of
        Fired \<Rightarrow> if obj_lock s = None then Some (s\<lparr>timers := (timers s)(k := Calling), obj_lock := Some (Callback k)\<rparr>) else None
      | Calling \<Rightarrow> Some (s\<lparr>timers := (timers s)(k := Called), obj_lock := None\<rparr>)
      | _ \<Rightarrow> None)"

datatype engine_act =
    Post nat                \<comment> \<open>an operation with a timer begins\<close>
  | Complete completion     \<comment> \<open>an operation ends\<close>
  | Fire nat                \<comment> \<open>the time of a timer is over\<close>
  | Callback_step nat
  | Engine_step
  | Executor_step

fun engine_do :: "(completion \<Rightarrow> 'o \<Rightarrow> 'o outcome) \<Rightarrow> engine_act \<Rightarrow> 'o engine \<Rightarrow> 'o engine option" where
  "engine_do run (Post k) s = (if timers s k = Unarmed then Some (s\<lparr>timers := (timers s)(k := Armed)\<rparr>) else None)"
| "engine_do run (Complete c) s = Some (s\<lparr>port := port s @ [c], completed := completed s @ [c]\<rparr>)"
| "engine_do run (Fire k) s = (if timers s k = Armed then Some (s\<lparr>timers := (timers s)(k := Fired)\<rparr>) else None)"
| "engine_do run (Callback_step k) s = TimerCallBack k s"
| "engine_do run Engine_step s = Engine_RunOnce s"
| "engine_do run Executor_step s = Executor_RunOnce run s"

section \<open>Order of completions\<close>

definition in_engine :: "engine_pc \<Rightarrow> completion list" where
  "in_engine pc = (case pc of E_Push c \<Rightarrow> [c] | _ \<Rightarrow> [])"

definition in_executor :: "executor_pc \<Rightarrow> completion list" where
  "in_executor pc = (case pc of X_Leave (Some c) \<Rightarrow> [c] | X_Lock c \<Rightarrow> [c] | X_Cancel c \<Rightarrow> [c] | X_Run c \<Rightarrow> [c] | X_Dead _ c \<Rightarrow> [c] | _ \<Rightarrow> [])"

definition in_flight :: "'o engine \<Rightarrow> completion list" where
  "in_flight s = in_executor (xpc s) @ m_Queue (queue (ev_queue s)) @ in_engine (epc s) @ port s"

lemma queue_act_waiting:
  "queue_step (QPush c) q = Some q' \<Longrightarrow> m_Queue (queue q') = m_Queue (queue q) @ [c]"
  "queue_step QSignal q = Some q' \<Longrightarrow> m_Queue (queue q') = m_Queue (queue q)"
  "queue_step QLeave q = Some q' \<Longrightarrow> m_Queue (queue q') = m_Queue (queue q)"
  "queue_step QTake q = Some q' \<Longrightarrow>
    m_Queue (queue q) = (case fst (WaitForEV_take (queue q)) of None \<Rightarrow> [] | Some c \<Rightarrow> [c]) @ m_Queue (queue q')"
  by (auto simp: queue_simps split: if_splits list.splits)

lemma engine_do_order:
  assumes "engine_do run a s = Some s'" "completed s = handled s @ in_flight s"
  shows "completed s' = handled s' @ in_flight s'"
proof (cases a)
  case Engine_step
  then show ?thesis using assms
    by (auto simp: Engine_RunOnce_def in_flight_def in_engine_def queue_act_waiting
      split: engine_pc.splits list.splits option.splits simp del: queue_step.simps)
next
  case Executor_step
  show ?thesis
  proof (cases "xpc s")
    case X_Wait
    then obtain q where q: "queue_step QTake (ev_queue s) = Some q" using assms(1) Executor_step
      by (auto simp: Executor_RunOnce_def split: option.splits simp del: queue_step.simps)
    then show ?thesis using assms X_Wait Executor_step queue_act_waiting(4) [OF q]
      by (auto simp: Executor_RunOnce_def in_flight_def in_executor_def split: option.splits simp del: queue_step.simps)
  qed (use assms Executor_step in \<open>auto simp: Executor_RunOnce_def in_flight_def in_executor_def queue_act_waiting
      split: option.splits if_splits sum.splits simp del: queue_step.simps\<close>)
qed (use assms in \<open>auto simp: in_flight_def TimerCallBack_def split: if_splits timer_state.splits\<close>)


text \<open>The object after a sequence of completions.\<close>

definition run_all :: "(completion \<Rightarrow> 'o \<Rightarrow> 'o outcome) \<Rightarrow> completion list \<Rightarrow> 'o \<Rightarrow> 'o outcome" where
  "run_all run cs ob = fold (\<lambda>c r. bindE r (run c)) cs (Inr ob)"

lemma run_all_simps [simp]: "run_all run [] ob = Inr ob" "run_all run (cs @ [c]) ob = bindE (run_all run cs ob) (run c)"
  by (simp_all add: run_all_def)

lemma engine_do_handled:
  assumes "engine_do run a s = Some s'" "run_all run (handled s) ob = Inr (obj s)"
  shows "run_all run (handled s') ob = Inr (obj s')"
  using assms by (cases a) (auto simp: Engine_RunOnce_def Executor_RunOnce_def TimerCallBack_def
    split: if_splits timer_state.splits engine_pc.splits executor_pc.splits option.splits list.splits sum.splits simp del: queue_step.simps)

interpretation en: mailbox "engine_do run" "\<lambda>s. run_all run (handled s) ob = Inr (obj s)" completed handled in_flight for run ob
  by unfold_locales (rule engine_do_handled engine_do_order; assumption)+

text \<open>C29. Whatever order the threads run in, and however many operations are under way: the completions are handled one after the
  other in the order in which they came to the port, each once; the object is what \<open>Run\<close> makes of it for those handled so far.
  The rest is under way, in the executor, the queue, the engine and the port.\<close>

theorem completions_in_order:
  assumes "run_acts (engine_do run) as (engine_start ob) = Some s"
  shows "completed s = handled s @ in_flight s \<and> run_all run (handled s) ob = Inr (obj s)"
  using en.run_sent [OF assms, of ob]
  by (simp add: engine_start_def in_flight_def in_executor_def in_engine_def queue_start_def AsyncQueue_new_def)

text \<open>An executor that cancels the timer of an operation while the timer waits for the object.\<close>

definition stuck :: "completion \<Rightarrow> 'o engine \<Rightarrow> bool" where
  "stuck c s \<longleftrightarrow> xpc s = X_Cancel c \<and> c_timer c \<and> timers s (c_ovl c) = Fired \<and> obj_lock s = Some Exec
     \<and> (\<forall>k. timers s k \<noteq> Calling)"

lemma stuck_step: "engine_do run a s = Some s' \<Longrightarrow> stuck c s \<Longrightarrow> stuck c s' \<and> handled s' = handled s \<and> obj s' = obj s"
  by (cases a) (auto simp: stuck_def Engine_RunOnce_def Executor_RunOnce_def TimerCallBack_def
    split: if_splits timer_state.splits engine_pc.splits option.splits list.splits simp del: queue_step.simps)

text \<open>C33. If the time of an operation runs out between the moment its completion is fetched and the moment the executor cancels the
  timer, the program hangs: the executor holds the lock of the object and waits for the callback of the timer, the callback waits for the lock.
  This is reached from the start, and whatever happens then, no completion of the object is ever handled again.\<close>

theorem timer_deadlock:
  assumes "c_timer c" and "c_ev c \<noteq> EV_UNKNOWN"
  shows "\<exists>as s. run_acts (engine_do run) as (engine_start ob) = Some s \<and> completed s = [c] \<and> handled s = [] \<and>
    (\<forall>as' s'. run_acts (engine_do run) as' s = Some s' \<longrightarrow> handled s' = [] \<and> xpc s' = X_Cancel c \<and> engine_do run Executor_step s' = None
      \<and> TimerCallBack (c_ovl c) s' = None)"
proof -
  let ?as = "[Post (c_ovl c), Complete c, Engine_step, Engine_step, Engine_step, Executor_step, Executor_step, Executor_step, Fire (c_ovl c)]"
  obtain s where s: "run_acts (engine_do run) ?as (engine_start ob) = Some s" "stuck c s" "completed s = [c]" "handled s = []"
    using assms by (simp add: engine_start_def Engine_RunOnce_def Executor_RunOnce_def queue_simps queue_start_def AsyncQueue_new_def stuck_def)
  have "stuck c s' \<and> handled s' = []" if "run_acts (engine_do run) as' s = Some s'" for as' s'
    by (rule run_acts_invariant [where P = "\<lambda>s. stuck c s \<and> handled s = []", OF _ that]) (use stuck_step s in \<open>auto, blast, metis\<close>)
  then show ?thesis
    using s by (intro exI [of _ ?as] exI [of _ s]) (auto simp: stuck_def Executor_RunOnce_def TimerCallBack_def)
qed

theorem timer_deadlock_witness:
  "\<exists>as s. run_acts (engine_do (\<lambda>_. Inr)) as (engine_start ()) = Some s
    \<and> completed s = [\<lparr>c_ovl = 1, c_ev = EV_READ, c_timer = True, c_error = 0, c_bytes = 4\<rparr>] \<and> handled s = []"
  using timer_deadlock [of "\<lparr>c_ovl = 1, c_ev = EV_READ, c_timer = True, c_error = 0, c_bytes = 4\<rparr>" "\<lambda>_. Inr" "()"] by auto

theorem completions_in_order_witness:
  "\<exists>s. run_acts (engine_do (\<lambda>c n. Inr (n + unat (c_bytes c))))
      [Complete \<lparr>c_ovl = 1, c_ev = EV_READ, c_timer = False, c_error = 0, c_bytes = 4\<rparr>, Engine_step, Engine_step, Engine_step,
       Executor_step, Executor_step, Executor_step, Executor_step, Executor_step] (engine_start 3) = Some s
    \<and> obj s = 7 \<and> completed s = handled s @ in_flight s"
proof -
  let ?run = "\<lambda>c n. Inr (n + unat (c_bytes c)) :: nat outcome"
  let ?as = "[Complete \<lparr>c_ovl = 1, c_ev = EV_READ, c_timer = False, c_error = 0, c_bytes = 4\<rparr>, Engine_step, Engine_step, Engine_step,
       Executor_step, Executor_step, Executor_step, Executor_step, Executor_step]"
  obtain s where "run_acts (engine_do ?run) ?as (engine_start 3) = Some s" "obj s = 7"
    by (simp add: engine_start_def Engine_RunOnce_def Executor_RunOnce_def queue_simps queue_start_def AsyncQueue_new_def)
  with completions_in_order [OF this(1)] show ?thesis by blast
qed

section \<open>Timers\<close>

text \<open>Handles are numbers: NULL is 0 and \<open>INVALID_HANDLE_VALUE\<close> is -1. A mutex that was closed cannot be waited for, and the
  assertion behind the wait fails.\<close>

datatype mutex_handle = No_mutex | Open_mutex | Closed_mutex

datatype timer_instance = No_instance | Instance_with nat | Deleted_instance

record TimerEngine =
  m_pInstance :: timer_instance     \<comment> \<open>with its references; nothing resets the pointer when the instance is deleted\<close>
  te_hMutex :: mutex_handle
  m_nTimerIDIndex :: u32

definition TimerEngine_new :: TimerEngine where
  "TimerEngine_new = \<lparr>m_pInstance = No_instance, te_hMutex = No_mutex, m_nTimerIDIndex = 10000\<rparr>"

definition wait_mutex :: "TimerEngine \<Rightarrow> unit outcome" where
  "wait_mutex t = assertE (te_hMutex t = Open_mutex)"

definition Instance :: "TimerEngine \<Rightarrow> TimerEngine outcome" where
  "Instance t =
     (let t1 = (if te_hMutex t = No_mutex then t\<lparr>te_hMutex := Open_mutex\<rparr> else t) in
      bindE (wait_mutex t1) (\<lambda>_.
        case m_pInstance t1 of
          No_instance \<Rightarrow> Inr (t1\<lparr>m_pInstance := Instance_with 1\<rparr>)
        | Instance_with n \<Rightarrow> Inr (t1\<lparr>m_pInstance := Instance_with (n + 1)\<rparr>)
        | Deleted_instance \<Rightarrow> Inl OutOfBounds))"

text \<open>\<open>RefObj::Release\<close>, as the destructor of \<open>TimerObj\<close> calls it: the last reference deletes the instance.\<close>

definition TimerEngine_Release :: "TimerEngine \<Rightarrow> TimerEngine outcome" where
  "TimerEngine_Release t =
     (case m_pInstance t of
        Instance_with n \<Rightarrow> Inr (t\<lparr>m_pInstance := (if n \<le> 1 then Deleted_instance else Instance_with (n - 1))\<rparr>)
      | _ \<Rightarrow> Inl OutOfBounds)"

definition CreateTimerID :: "TimerEngine \<Rightarrow> (u32 \<times> TimerEngine) outcome" where
  "CreateTimerID t =
     bindE (assertE (te_hMutex t \<noteq> No_mutex)) (\<lambda>_.
     bindE (wait_mutex t) (\<lambda>_.
       let nTimerID = m_nTimerIDIndex t + 1 in Inr (nTimerID, t\<lparr>m_nTimerIDIndex := nTimerID, te_hMutex := Closed_mutex\<rparr>)))"

text \<open>\<open>Destroy\<close>, which nothing calls, gives up a reference and closes the mutex without releasing it.\<close>

definition TimerEngine_Destroy :: "TimerEngine \<Rightarrow> TimerEngine outcome" where
  "TimerEngine_Destroy t =
     bindE (assertE (te_hMutex t \<noteq> No_mutex)) (\<lambda>_.
     bindE (wait_mutex t) (\<lambda>_.
     bindE (if m_pInstance t = No_instance then Inr t else TimerEngine_Release t) (\<lambda>t1.
       Inr (t1\<lparr>te_hMutex := Closed_mutex\<rparr>))))"

text \<open>\<open>CreateTimerQueueTimer\<close> answers whether it made a timer, and its handle.\<close>

definition TimerEngine_AddTimer :: "bool \<Rightarrow> int \<Rightarrow> int" where
  "TimerEngine_AddTimer bOK hTimer = (if bOK then hTimer else 0)"

text \<open>The answers of \<open>DeleteTimerQueueTimer\<close>, one for each try: \<open>None\<close> for success, or the error.\<close>

fun DeleteTimer_loop :: "u32 option list \<Rightarrow> unit outcome" where
  "DeleteTimer_loop [] = Inl OutOfFuel"
| "DeleteTimer_loop (a # as) = (if a = None \<or> a = Some 997 then Inr () else DeleteTimer_loop as)"

definition TimerEngine_DeleteTimer :: "bool \<Rightarrow> u32 option list \<Rightarrow> bool \<Rightarrow> int \<Rightarrow> bool outcome" where
  "TimerEngine_DeleteTimer event answers waited hTimer =
     bindE (assertE (hTimer \<noteq> 0)) (\<lambda>_.
       if \<not> event then Inr False else bindE (DeleteTimer_loop answers) (\<lambda>_. Inr waited))"

definition TimerObj_AddTimer :: "bool \<Rightarrow> int \<Rightarrow> bool" where
  "TimerObj_AddTimer bOK hTimer = (TimerEngine_AddTimer bOK hTimer \<noteq> -1)"

definition TimerObj_DeleteTimer :: "bool \<Rightarrow> u32 option list \<Rightarrow> bool \<Rightarrow> int \<Rightarrow> bool outcome" where
  "TimerObj_DeleteTimer event answers waited hTimer =
     bindE (assertE (hTimer \<noteq> -1)) (\<lambda>_. TimerEngine_DeleteTimer event answers waited hTimer)"

text \<open>After it the engine cannot be had again, nor destroyed again.\<close>

lemma destroyed_engine:
  "TimerEngine_Destroy t = Inr t' \<Longrightarrow> Instance t' = Inl AssertFailed \<and> TimerEngine_Destroy t' = Inl AssertFailed"
  by (auto simp: TimerEngine_Destroy_def TimerEngine_Release_def Instance_def wait_mutex_def assertE_def bindE_Inr_iff Let_def
    split: timer_instance.splits if_splits)

text \<open>The numbers of timers can be had once: \<open>CreateTimerID\<close> closes the mutex where it means to release it. After that neither a second number nor
  the instance can be had. A timer that Windows refuses counts as added, and cancelling it fails an assertion.\<close>

lemma timer_numbers:
  "te_hMutex t = Open_mutex \<Longrightarrow> \<exists>t'. CreateTimerID t = Inr (m_nTimerIDIndex t + 1, t')
    \<and> CreateTimerID t' = Inl AssertFailed \<and> Instance t' = Inl AssertFailed"
  by (simp add: CreateTimerID_def Instance_def wait_mutex_def Let_def)

text \<open>When the last object with a timer is gone, no object can have one any more.\<close>

lemma instance_once:
  "te_hMutex t = Open_mutex \<Longrightarrow> m_pInstance t = Instance_with 1 \<Longrightarrow>
    \<exists>t'. TimerEngine_Release t = Inr t' \<and> Instance t' = Inl OutOfBounds"
  by (simp add: TimerEngine_Release_def Instance_def wait_mutex_def Let_def)

lemma refused_timer: "TimerObj_AddTimer False hTimer \<and> TimerObj_DeleteTimer event answers waited (TimerEngine_AddTimer False hTimer) = Inl AssertFailed"
  by (simp add: TimerObj_AddTimer_def TimerObj_DeleteTimer_def TimerEngine_AddTimer_def TimerEngine_DeleteTimer_def)

end
