(* ===== verification/SessionThreads.thy ===== *)
theory SessionThreads
  imports RtspLifetime Executors
begin

text \<open>The media session of theory \<open>RtspSession\<close> as the object of the engine of theory \<open>Executors\<close>: \<open>IOEndpoint::Run\<close> and
  \<open>Connector::OnEvCompleted\<close> take a completion apart and call the handler of the session. Shown: whatever the order in which the
  threads take their steps, the session goes through the transitions of theory \<open>RtspLifetime\<close> only.\<close>

section \<open>Operations under way\<close>

text \<open>\<open>session_more\<close>: at least as many reads and connects are under way.\<close>

definition session_more :: "RtspSession \<Rightarrow> RtspSession \<Rightarrow> bool" where
  "session_more s s' \<longleftrightarrow> reads (s_socket s) \<le> reads (s_socket s') \<and> connecting s \<le> connecting s'"

lemma more_refl [simp]: "session_more s s" by (simp add: session_more_def)

lemma more_updates [simp]:
  "session_more (s\<lparr>m_nCSeqPrevious := n\<rparr>) s' \<longleftrightarrow> session_more s s'" "session_more (s\<lparr>m_pRtspMedia := m\<rparr>) s' \<longleftrightarrow> session_more s s'"
  "session_more (s\<lparr>s_ports := p\<rparr>) s' \<longleftrightarrow> session_more s s'" "session_more (s\<lparr>m_nSessionState := k\<rparr>) s' \<longleftrightarrow> session_more s s'"
  "session_more (s\<lparr>m_pszSessionId := i\<rparr>) s' \<longleftrightarrow> session_more s s'" "session_more (s\<lparr>m_nTimeout := t\<rparr>) s' \<longleftrightarrow> session_more s s'"
  "session_more (s\<lparr>m_pParser := q\<rparr>) s' \<longleftrightarrow> session_more s s'"
  "session_more s (s'\<lparr>m_methodPrevious := mth\<rparr>) \<longleftrightarrow> session_more s s'" "session_more s (s'\<lparr>m_nCSeqPrevious := n\<rparr>) \<longleftrightarrow> session_more s s'"
  "session_more s (s'\<lparr>m_pRtspMedia := m\<rparr>) \<longleftrightarrow> session_more s s'" "session_more s (s'\<lparr>s_ports := p\<rparr>) \<longleftrightarrow> session_more s s'"
  "session_more s (s'\<lparr>m_pParser := q\<rparr>) \<longleftrightarrow> session_more s s'" "session_more s (s'\<lparr>notified := ns\<rparr>) \<longleftrightarrow> session_more s s'"
  "session_more s (s'\<lparr>m_bStarted := b\<rparr>) \<longleftrightarrow> session_more s s'"
  by (simp_all add: session_more_def)

lemma more_trans: "session_more s s1 \<Longrightarrow> session_more s1 s2 \<Longrightarrow> session_more s s2" by (auto simp: session_more_def)

lemma quiet_more: "quiet s s' \<Longrightarrow> session_more s s'" by (simp add: quiet_def session_more_def)

lemmas more_WriteMsg = quiet_more [OF quiet_WriteMsg]

lemma more_SendOPTIONS: "SendOPTIONS env s = Inr (r, s') \<Longrightarrow> session_more s s'"
  by (auto simp: SendOPTIONS_def split: option.splits if_splits prod.splits elim!: bindE_elims dest!: more_WriteMsg)

lemma more_SendDESCRIBE: "SendDESCRIBE env s = Inr (r, s') \<Longrightarrow> session_more s s'"
  by (auto simp: SendDESCRIBE_def Let_def split: option.splits if_splits prod.splits elim!: bindE_elims dest!: more_WriteMsg)

lemma more_SendPLAY: "SendPLAY env s = Inr (r, s') \<Longrightarrow> session_more s s'"
  by (auto simp: SendPLAY_def Let_def split: option.splits if_splits prod.splits elim!: bindE_elims dest!: more_WriteMsg)

lemma more_SendSETUP: "SendSETUP env s = Inr (r, s') \<Longrightarrow> session_more s s'"
  by (auto simp: SendSETUP_def Let_def split: option.splits if_splits prod.splits elim!: bindE_elims dest!: more_WriteMsg)

lemmas more_sends = more_SendOPTIONS more_SendDESCRIBE more_SendPLAY more_SendSETUP

lemma more_next_request: "next_request env media s = Inr (r, s') \<Longrightarrow> session_more s s'"
  by (auto simp: next_request_def split: if_splits dest!: more_sends)

lemma more_OnOptions: "OnOptionsRespond env m s = Inr (r, s') \<Longrightarrow> session_more s s'"
  by (auto simp: OnOptionsRespond_def split: if_splits elim!: bindE_elims dest!: more_sends)

lemma more_OnDescribe: "OnDescribeRespond env m s = Inr (r, s') \<Longrightarrow> session_more s s'"
  by (auto simp: OnDescribeRespond_def Let_def split: if_splits option.splits prod.splits elim!: bindE_elims dest!: more_sends)

lemma more_OnSetup: "OnSetupRespond env m s = Inr (r, s') \<Longrightarrow> session_more s s'"
  by (auto simp: OnSetupRespond_def Let_def split: if_splits option.splits elim!: bindE_elims dest!: more_next_request)

lemma more_StartRead: "StartRead env s = (r, s') \<Longrightarrow> session_more s s'"
  by (auto simp: StartRead_def AsyncTCPRead_def session_more_def split: prod.splits if_splits)

lemma more_Invoke: "InvokeStateMachine env mth m s = Inr (r, s') \<Longrightarrow> session_more s s'"
  by (auto simp: InvokeStateMachine_def split: if_splits prod.splits elim!: bindE_elims
    dest!: more_OnOptions more_OnDescribe more_OnSetup more_StartRead intro: more_trans)

lemma more_Dispatch: "Dispatch env m s = Inr (r, s') \<Longrightarrow> session_more s s'"
  by (auto simp: Dispatch_def split: option.splits RtspMsgObj.splits if_splits prod.splits elim!: bindE_elims dest!: more_Invoke)

lemmas more_close = quiet_more [OF quiet_close]
lemmas more_NotifyError = quiet_more [OF quiet_NotifyError]

lemma more_OnStart: "OnStart env s = Inr (r, s') \<Longrightarrow> session_more s s'"
  by (auto simp: OnStart_def Connect_def AsyncConnect_def Let_def session_more_def split: if_splits prod.splits elim!: bindE_elims
    dest!: more_close reads_Init)

lemma more_OnConnect: "OnConnect env e s = Inr (r, s') \<Longrightarrow> session_more s s'"
  by (auto simp: OnConnect_def Notify_def split: if_splits elim!: bindE_elims dest!: more_SendOPTIONS more_StartRead intro: more_trans)

lemma more_OnEvRead: "OnEvRead env e packet s = Inr (r, s') \<Longrightarrow> session_more s s'"
  by (auto simp: OnEvRead_def GetProtoParser_def Let_def split: if_splits option.splits elim!: bindE_elims
    dest!: more_Dispatch more_NotifyError more_close intro: more_trans)

lemma Run_more:
  "Run env InstanceStart s = Inr (r, s') \<Longrightarrow> session_more s s'"
  "Run env InstanceStop s = Inr (r, s') \<Longrightarrow> session_more s s'"
  "Run env (Sent e n) s = Inr (r, s') \<Longrightarrow> session_more s s'"
  "Run env (Connected e) s = Inr (r, s') \<Longrightarrow> session_more (s\<lparr>connecting := connecting s - 1\<rparr>) s'"
  "Run env (Received e packet) s = Inr (r, s') \<Longrightarrow> session_more (s\<lparr>s_socket := (s_socket s)\<lparr>reads := reads (s_socket s) - 1\<rparr>\<rparr>) s'"
  by (auto dest: more_OnStart more_OnConnect more_OnEvRead quiet_more [OF quiet_OnStop] quiet_more [OF quiet_OnEvWrite])

section \<open>A session under the threads of the engine\<close>

text \<open>\<open>IOEndpoint::Run\<close> and \<open>Connector::OnEvCompleted\<close>: the event of a completion. \<open>data c\<close> is what the read of \<open>c\<close> put into the receive buffer.
  The executor does not look at the result.\<close>

definition Run_completion :: "session_env \<Rightarrow> (completion \<Rightarrow> string) \<Rightarrow> completion \<Rightarrow> RtspSession \<Rightarrow> RtspSession outcome" where
  "Run_completion env data c s =
     map_sum id snd (case c_ev c of
        EV_INSTANCE_START \<Rightarrow> Run env InstanceStart s
      | EV_INSTANCE_STOP \<Rightarrow> Run env InstanceStop s
      | EV_READ \<Rightarrow> Run env (Received (c_error c) (data c)) s
      | EV_WRITE \<Rightarrow> Run env (Sent (c_error c) (unat (c_bytes c))) s
      | EV_CONNECT \<Rightarrow> Run env (Connected (c_error c)) s
      | _ \<Rightarrow> Inl AssertFailed)"

definition of_event :: "ev_id \<Rightarrow> completion list \<Rightarrow> nat" where
  "of_event ev cs = length (filter (\<lambda>c. c_ev c = ev) cs)"

lemma of_event_simps [simp]: "of_event ev [] = 0" "of_event ev (c # cs) = of_bool (c_ev c = ev) + of_event ev cs"
  "of_event ev (cs @ ds) = of_event ev cs + of_event ev ds"
  by (simp_all add: of_event_def)

text \<open>Windows completes reads and connects that are under way, each once.\<close>

fun windows_ok :: "engine_act \<Rightarrow> RtspSession engine \<Rightarrow> bool" where
  "windows_ok (Complete c) s \<longleftrightarrow>
     (c_ev c = EV_READ \<longrightarrow> of_event EV_READ (in_flight s) < reads (s_socket (obj s)))
     \<and> (c_ev c = EV_CONNECT \<longrightarrow> of_event EV_CONNECT (in_flight s) < connecting (obj s))"
| "windows_ok _ s \<longleftrightarrow> True"

fun windows_run :: "(completion \<Rightarrow> RtspSession \<Rightarrow> RtspSession outcome) \<Rightarrow> engine_act list \<Rightarrow> RtspSession engine \<Rightarrow> bool" where
  "windows_run run [] s = True"
| "windows_run run (a # as) s = (windows_ok a s \<and> (case engine_do run a s of None \<Rightarrow> True | Some s' \<Rightarrow> windows_run run as s'))"

text \<open>What is under way at Windows or completed and not handled covers what is in flight.\<close>

definition posted_inv :: "session_env \<Rightarrow> RtspSession \<Rightarrow> RtspSession engine \<Rightarrow> bool" where
  "posted_inv env s0 s \<longleftrightarrow> (session_step env)\<^sup>*\<^sup>* s0 (obj s) \<and> of_event EV_READ (in_flight s) \<le> reads (s_socket (obj s))
     \<and> of_event EV_CONNECT (in_flight s) \<le> connecting (obj s)"

lemma Run_completion_step:
  assumes "Run_completion env data c s = Inr s'"
    and "c_ev c = EV_READ \<longrightarrow> 0 < reads (s_socket s)" and "c_ev c = EV_CONNECT \<longrightarrow> 0 < connecting s"
  shows "session_step env s s' \<and> reads (s_socket s) \<le> reads (s_socket s') + of_bool (c_ev c = EV_READ)
    \<and> connecting s \<le> connecting s' + of_bool (c_ev c = EV_CONNECT)"
proof
  show "session_step env s s'" using assms
    by (cases "c_ev c") (auto simp: Run_completion_def map_sum_Inr_iff simp del: Run.simps intro: session_step.intros)
  show "reads (s_socket s) \<le> reads (s_socket s') + of_bool (c_ev c = EV_READ)
    \<and> connecting s \<le> connecting s' + of_bool (c_ev c = EV_CONNECT)" using assms
    by (cases "c_ev c") (auto simp: Run_completion_def map_sum_Inr_iff session_more_def simp del: Run.simps dest!: Run_more)
qed

lemma in_flight_step:
  assumes "engine_do run a s = Some s'"
  shows "(\<exists>c. a = Complete c \<and> in_flight s' = in_flight s @ [c] \<and> obj s' = obj s)
    \<or> (\<exists>c. run c (obj s) = Inr (obj s') \<and> in_flight s = c # in_flight s')
    \<or> in_flight s' = in_flight s \<and> obj s' = obj s"
proof (cases a)
  case Engine_step
  then show ?thesis using assms
    by (auto simp: Engine_RunOnce_def in_flight_def in_engine_def queue_act_waiting
      split: engine_pc.splits list.splits option.splits simp del: queue_step.simps)
next
  case Executor_step
  show ?thesis
  proof (cases "xpc s")
    case X_Wait
    then obtain q where q: "queue_step QTake (ev_queue s) = Some q" using assms Executor_step
      by (auto simp: Executor_RunOnce_def split: option.splits simp del: queue_step.simps)
    then show ?thesis using assms X_Wait Executor_step queue_act_waiting(4) [OF q]
      by (auto simp: Executor_RunOnce_def in_flight_def in_executor_def split: option.splits simp del: queue_step.simps)
  qed (use assms Executor_step in \<open>auto simp: Executor_RunOnce_def in_flight_def in_executor_def queue_act_waiting
      split: option.splits if_splits sum.splits simp del: queue_step.simps\<close>)
qed (use assms in \<open>auto simp: in_flight_def TimerCallBack_def split: if_splits timer_state.splits\<close>)

lemma posted_step:
  assumes "engine_do (Run_completion env data) a s = Some s'" "windows_ok a s" "posted_inv env s0 s"
  shows "posted_inv env s0 s'"
  using in_flight_step [OF assms(1)]
proof (elim disjE exE conjE)
  fix c assume "Run_completion env data c (obj s) = Inr (obj s')" and f: "in_flight s = c # in_flight s'"
  then have "session_step env (obj s) (obj s') \<and> reads (s_socket (obj s)) \<le> reads (s_socket (obj s')) + of_bool (c_ev c = EV_READ)
    \<and> connecting (obj s) \<le> connecting (obj s') + of_bool (c_ev c = EV_CONNECT)"
    using assms(3) by (intro Run_completion_step) (auto simp: posted_inv_def)
  then show ?thesis using assms(3) f by (auto simp: posted_inv_def intro: rtranclp.rtrancl_into_rtrancl)
next
  fix c assume "a = Complete c" "in_flight s' = in_flight s @ [c]" "obj s' = obj s"
  then show ?thesis using assms(2,3) by (auto simp: posted_inv_def)
qed (use assms(3) in \<open>simp add: posted_inv_def\<close>)

lemma posted_run:
  "run_acts (engine_do (Run_completion env data)) as s = Some s' \<Longrightarrow> windows_run (Run_completion env data) as s \<Longrightarrow>
    posted_inv env s0 s \<Longrightarrow> posted_inv env s0 s'"
  by (induction as arbitrary: s) (auto split: option.splits dest: posted_step)

section \<open>Properties\<close>

text \<open>C28. A session under the engine, the executor and the timers of the program, in any order of their steps, as long as Windows completes each
  read and each connect once: the session goes through the transitions of theory \<open>RtspLifetime\<close> only, one for each completion handled,
  and so what holds in every state of a session (its states, its tracks, its media sessions and their ports) holds at every moment
  between the threads.\<close>

theorem session_under_threads:
  assumes "run_acts (engine_do (Run_completion env data)) as (engine_start s0) = Some s"
    and "windows_run (Run_completion env data) as (engine_start s0)" and "session_inv s0"
  shows "(session_step env)\<^sup>*\<^sup>* s0 (obj s) \<and> session_inv (obj s) \<and> run_all (Run_completion env data) (handled s) s0 = Inr (obj s)"
proof -
  have "posted_inv env s0 (engine_start s0)"
    by (simp add: posted_inv_def engine_start_def in_flight_def in_executor_def in_engine_def queue_start_def AsyncQueue_new_def)
  then have steps: "(session_step env)\<^sup>*\<^sup>* s0 (obj s)" using posted_run [OF assms(1,2)] by (simp add: posted_inv_def)
  moreover have "session_inv (obj s)" using steps assms(3) by (induction rule: rtranclp_induct) (auto dest: inv_step)
  moreover have "run_all (Run_completion env data) (handled s) s0 = Inr (obj s)"
    using en.run_sent [OF assms(1), of s0]
    by (simp add: engine_start_def in_flight_def in_executor_def in_engine_def queue_start_def AsyncQueue_new_def)
  ultimately show ?thesis by blast
qed

text \<open>The server refuses the connection.\<close>

theorem session_under_threads_witness:
  "\<exists>s. run_acts (engine_do (Run_completion sample_env (\<lambda>_. [])))
      [Complete \<lparr>c_ovl = 1, c_ev = EV_CONNECT, c_timer = False, c_error = 10061, c_bytes = 0\<rparr>, Engine_step, Engine_step, Engine_step,
       Executor_step, Executor_step, Executor_step, Executor_step, Executor_step] (engine_start (sample_session\<lparr>connecting := 1\<rparr>)) = Some s
    \<and> session_inv (obj s) \<and> connecting (obj s) = 0"
proof -
  let ?run = "Run_completion sample_env (\<lambda>_. [])"
  let ?c = "\<lparr>c_ovl = 1, c_ev = EV_CONNECT, c_timer = False, c_error = 10061, c_bytes = 0\<rparr> :: completion"
  let ?as = "[Complete ?c, Engine_step, Engine_step, Engine_step,
       Executor_step, Executor_step, Executor_step, Executor_step, Executor_step]"
  let ?s0 = "sample_session\<lparr>connecting := 1\<rparr>"
  have r: "?run ?c ?s0 = Inr (Notify EV_NOTIFY (z3_rtsp_errno_code Z3_RTSP_SESSION_ECONNECT) (?s0\<lparr>connecting := 0\<rparr>))"
    by (simp add: Run_completion_def OnConnect_def)
  obtain s where s: "run_acts (engine_do ?run) ?as (engine_start ?s0) = Some s" "connecting (obj s) = 0"
    using r by (simp add: engine_start_def Engine_RunOnce_def Executor_RunOnce_def queue_simps queue_start_def AsyncQueue_new_def Notify_def)
  moreover have "windows_run ?run ?as (engine_start ?s0)"
    using r by (simp add: engine_start_def Engine_RunOnce_def Executor_RunOnce_def queue_simps queue_start_def AsyncQueue_new_def
      in_flight_def in_executor_def in_engine_def)
  moreover have "session_inv ?s0"
    using sample_ports_inv(1) by (simp add: session_inv_def sample_session_def RtspSession_new_def sessions_of_def)
  ultimately show ?thesis using session_under_threads [of sample_env "\<lambda>_. []" ?as ?s0 s] by blast
qed

end
