(* ===== verification/Rtcp.thy ===== *)
theory Rtcp
  imports Sockets
begin

unbundle bit_operations_syntax

text \<open>
  RTCP: the packets of \<open>z3_rtsp_client/z3_rtcp_msg.cpp\<close> (layout in \<open>z3_rtcp.hpp\<close>), the parser and the session of
  \<open>z3_rtcp_udp_session.cpp\<close> and the statistics of \<open>z3_rtp_reception_stats.cpp\<close>. As for RTP, the memory at \<open>pBuf\<close> is
  a list of bytes, a pointer into it an offset. The timing rules of RFC 3550 (\<open>OnReceive\<close> of \<open>rtcp_from_spec.c\<close>, over functions
  that the session does not define) are a parameter; theory \<open>RtcpRules\<close> has them.
\<close>

section \<open>Packets\<close>

text \<open>The bit fields and the length of \<open>RTCP_COMM_HEADER\<close>; \<open>RTCP_PKT_LENGTH\<close> has the type \<open>int\<close>.\<close>

definition RTCP_PKT_RC :: "u8 list \<Rightarrow> nat outcome" where
  "RTCP_PKT_RC mem = bindE (byte_at mem 0) (\<lambda>b. Inr (unat (b AND 0x1F)))"

definition RTCP_PKT_PT :: "u8 list \<Rightarrow> u8 outcome" where
  "RTCP_PKT_PT mem = byte_at mem 1"

definition RTCP_PKT_LENGTH :: "u8 list \<Rightarrow> nat \<Rightarrow> nat outcome" where
  "RTCP_PKT_LENGTH mem off = bindE (be16 mem (off + 2)) (\<lambda>n. Inr ((unat n + 1) * 4))"

record RTCPPacket =
  m_pRtcp :: "u8 list option"
  m_nRtcpSize :: u32

definition RTCPPacket_new :: RTCPPacket where
  "RTCPPacket_new = \<lparr>m_pRtcp = None, m_nRtcpSize = 0\<rparr>"

text \<open>\<open>InitPacket\<close> copies the \<open>nBufSize\<close> bytes at \<open>off\<close>. When there is no memory for them the size stays what it was.\<close>

definition RTCPPacket_InitPacket :: "alloc \<Rightarrow> u8 list \<Rightarrow> nat \<Rightarrow> nat \<Rightarrow> ('a RTCPPacket_scheme) \<Rightarrow> ('a RTCPPacket_scheme) outcome" where
  "RTCPPacket_InitPacket mok mem off nBufSize p =
     (if \<not> mok nBufSize then Inr (p\<lparr>m_pRtcp := None\<rparr>)
      else if off + nBufSize \<le> length mem
        then Inr (p\<lparr>m_pRtcp := Some (take nBufSize (drop off mem)), m_nRtcpSize := of_nat nBufSize\<rparr>)
      else Inl OutOfBounds)"

definition rtcp_mem :: "('a RTCPPacket_scheme) \<Rightarrow> u8 list outcome" where
  "rtcp_mem p = (case m_pRtcp p of None \<Rightarrow> Inl AssertFailed | Some m \<Rightarrow> Inr m)"

definition GetPayloadType :: "('a RTCPPacket_scheme) \<Rightarrow> u8 outcome" where
  "GetPayloadType p = bindE (rtcp_mem p) RTCP_PKT_PT"

definition GetPacketLength :: "('a RTCPPacket_scheme) \<Rightarrow> u16 outcome" where
  "GetPacketLength p =
     bindE (rtcp_mem p) (\<lambda>mem. bindE (RTCP_PKT_LENGTH mem 0) (\<lambda>n.
     bindE (assertE (n \<le> unat (m_nRtcpSize p))) (\<lambda>_. Inr (of_nat n))))"

text \<open>The number of report blocks or of chunks.\<close>

definition GetRC :: "('a RTCPPacket_scheme) \<Rightarrow> nat outcome" where
  "GetRC p = bindE (rtcp_mem p) RTCP_PKT_RC"

section \<open>Report blocks\<close>

text \<open>A report block is a pointer into the buffer from which the packet was made, not into the copy the packet has. Its fields
  are read without \<open>ntohl\<close>.\<close>

record RB =
  m_pBlock :: "nat option"
  m_nBlockSize :: u32

definition RB_new :: RB where "RB_new = \<lparr>m_pBlock = None, m_nBlockSize = 0\<rparr>"

definition InitBlock :: "nat \<Rightarrow> nat \<Rightarrow> RB \<Rightarrow> RB outcome" where
  "InitBlock pBlock nBlockSize b =
     bindE (assertE (nBlockSize \<ge> 24)) (\<lambda>_. Inr (b\<lparr>m_pBlock := Some pBlock, m_nBlockSize := of_nat nBlockSize\<rparr>))"

definition le32 :: "u8 list \<Rightarrow> nat \<Rightarrow> u32 outcome" where
  "le32 mem i =
     (if i + 4 \<le> length mem
      then Inr (push_bit 24 (ucast (mem ! (i + 3))) OR push_bit 16 (ucast (mem ! (i + 2)))
                OR push_bit 8 (ucast (mem ! (i + 1))) OR ucast (mem ! i))
      else Inl OutOfBounds)"

definition block_field :: "nat \<Rightarrow> u8 list \<Rightarrow> RB \<Rightarrow> u32 outcome" where
  "block_field i mem b = (case m_pBlock b of None \<Rightarrow> Inl AssertFailed | Some off \<Rightarrow> le32 mem (off + i))"

definition GetSSRC :: "u8 list \<Rightarrow> RB \<Rightarrow> u32 outcome" where "GetSSRC = block_field 0"
definition GetLostRate :: "u8 list \<Rightarrow> RB \<Rightarrow> u32 outcome" where
  "GetLostRate mem b = bindE (block_field 4 mem b) (\<lambda>x. Inr (x AND 0xFF))"
definition GetLost :: "u8 list \<Rightarrow> RB \<Rightarrow> u32 outcome" where
  "GetLost mem b = bindE (block_field 4 mem b) (\<lambda>x. Inr (drop_bit 8 x))"
definition GetJitter :: "u8 list \<Rightarrow> RB \<Rightarrow> u32 outcome" where "GetJitter = block_field 12"
definition GetLSR :: "u8 list \<Rightarrow> RB \<Rightarrow> u32 outcome" where "GetLSR = block_field 16"
definition GetDLSR :: "u8 list \<Rightarrow> RB \<Rightarrow> u32 outcome" where "GetDLSR = block_field 20"

section \<open>Sender and receiver reports\<close>

record Report = RTCPPacket +
  m_vectorRBs :: "RB list"

definition Report_new :: Report where
  "Report_new = \<lparr>m_pRtcp = None, m_nRtcpSize = 0, m_vectorRBs = []\<rparr>"

text \<open>The loop over the report blocks counts down; \<open>off\<close> is \<open>pBuf\<close>.\<close>

fun report_blocks :: "nat \<Rightarrow> nat \<Rightarrow> RB \<Rightarrow> RB list \<Rightarrow> RB list outcome" where
  "report_blocks off 0 b rbs = Inr rbs"
| "report_blocks off (Suc nCount) b rbs =
     bindE (InitBlock (off + (28 + nCount * 24)) 24 b) (\<lambda>b'. report_blocks off nCount b' (rbs @ [b']))"

text \<open>\<open>SR::InitPacket\<close> and \<open>RR::InitPacket\<close> are the same text, with 28 bytes in front of the first block in both.\<close>

definition SR_InitPacket :: "alloc \<Rightarrow> u8 list \<Rightarrow> nat \<Rightarrow> nat \<Rightarrow> Report \<Rightarrow> Report outcome" where
  "SR_InitPacket mok mem off nBufSize p =
     bindE (RTCPPacket_InitPacket mok mem off nBufSize p) (\<lambda>p1.
     bindE (GetRC p1) (\<lambda>nCount.
       if nCount > 0 then
         bindE (GetPacketLength p1) (\<lambda>nPktLength.
         bindE (assertE (unat nPktLength \<ge> nCount * 24 + 28)) (\<lambda>_.
         bindE (report_blocks off nCount RB_new (m_vectorRBs p1)) (\<lambda>rbs. Inr (p1\<lparr>m_vectorRBs := rbs\<rparr>))))
       else Inr p1))"

definition RR_InitPacket :: "alloc \<Rightarrow> u8 list \<Rightarrow> nat \<Rightarrow> nat \<Rightarrow> Report \<Rightarrow> Report outcome" where
  "RR_InitPacket mok mem off nBufSize p =
     bindE (RTCPPacket_InitPacket mok mem off nBufSize p) (\<lambda>p1.
     bindE (GetRC p1) (\<lambda>nCount.
       if nCount > 0 then
         bindE (GetPacketLength p1) (\<lambda>nPktLength.
         bindE (assertE (unat nPktLength \<ge> nCount * 24 + 28)) (\<lambda>_.
         bindE (report_blocks off nCount RB_new (m_vectorRBs p1)) (\<lambda>rbs. Inr (p1\<lparr>m_vectorRBs := rbs\<rparr>))))
       else Inr p1))"

definition GetRBCount :: "Report \<Rightarrow> u32" where "GetRBCount p = of_nat (length (m_vectorRBs p))"

definition GetRB :: "nat \<Rightarrow> Report \<Rightarrow> RB option" where
  "GetRB nIndex p = (if nIndex < length (m_vectorRBs p) then Some (m_vectorRBs p ! nIndex) else None)"

text \<open>The fields of a sender report. \<open>sizeof (RTCP_SR_HEADER)\<close> is 52: the structure ends with an array of one report
  block.\<close>

definition sr_field :: "nat \<Rightarrow> Report \<Rightarrow> u32 outcome" where
  "sr_field i p =
     bindE (assertE (m_nRtcpSize p \<ge> 52)) (\<lambda>_.
       case m_pRtcp p of None \<Rightarrow> Inl NullDeref | Some mem \<Rightarrow> be32 mem i)"

definition SR_GetSSRC :: "Report \<Rightarrow> u32 outcome" where "SR_GetSSRC = sr_field 4"

definition GetNTPTimestamp :: "Report \<Rightarrow> u64 outcome" where
  "GetNTPTimestamp p =
     bindE (sr_field 8 p) (\<lambda>hi. bindE (sr_field 12 p) (\<lambda>lo. Inr (push_bit 32 (ucast hi) OR ucast lo)))"

definition GetRTPTimestamp :: "Report \<Rightarrow> u32 outcome" where "GetRTPTimestamp = sr_field 16"
definition GetSenderPktCount :: "Report \<Rightarrow> u32 outcome" where "GetSenderPktCount = sr_field 20"
definition GetSenderBytes :: "Report \<Rightarrow> u32 outcome" where "GetSenderBytes = sr_field 24"

section \<open>Source descriptions\<close>

record SrcDesc =
  m_pChunk :: "nat option"
  m_nChunkSize :: u32

definition SrcDesc_new :: SrcDesc where "SrcDesc_new = \<lparr>m_pChunk = None, m_nChunkSize = 0\<rparr>"

definition InitChunk :: "nat \<Rightarrow> u32 \<Rightarrow> SrcDesc \<Rightarrow> SrcDesc outcome" where
  "InitChunk pChunk nChunkSize d =
     bindE (assertE (nChunkSize \<ge> 6)) (\<lambda>_. Inr (d\<lparr>m_pChunk := Some pChunk, m_nChunkSize := nChunkSize\<rparr>))"

definition chunk :: "SrcDesc \<Rightarrow> nat outcome" where
  "chunk d = (case m_pChunk d of None \<Rightarrow> Inl AssertFailed | Some off \<Rightarrow> Inr off)"

definition SrcDesc_GetSSRC :: "u8 list \<Rightarrow> SrcDesc \<Rightarrow> u32 outcome" where
  "SrcDesc_GetSSRC mem d = bindE (chunk d) (be32 mem)"

definition GetType :: "u8 list \<Rightarrow> SrcDesc \<Rightarrow> u8 outcome" where
  "GetType mem d = bindE (chunk d) (byte_at mem)"

definition GetLength :: "u8 list \<Rightarrow> SrcDesc \<Rightarrow> u8 outcome" where
  "GetLength mem d = bindE (chunk d) (\<lambda>off. byte_at mem (off + 1))"

text \<open>The text of an item, as \<open>strncpy_s\<close> copies it into a buffer of \<open>nBufSize\<close> bytes: up to the length or a zero byte.\<close>

definition GetItemName :: "u8 list \<Rightarrow> nat \<Rightarrow> SrcDesc \<Rightarrow> (u8 \<times> u8 list) outcome" where
  "GetItemName mem nBufSize d =
     bindE (chunk d) (\<lambda>off. bindE (GetLength mem d) (\<lambda>nLen.
     bindE (assertE (unat nLen < nBufSize)) (\<lambda>_.
       let s = takeWhile (\<lambda>b. b \<noteq> 0) (take (unat nLen) (drop (off + 2) mem)) in
       if off + 2 + length s < length mem \<or> length s = unat nLen then Inr (nLen, s @ [0]) else Inl OutOfBounds)))"

record SDES = RTCPPacket +
  m_vectorDESCs :: "SrcDesc list"

definition SDES_new :: SDES where "SDES_new = \<lparr>m_pRtcp = None, m_nRtcpSize = 0, m_vectorDESCs = []\<rparr>"

fun sdes_chunks :: "u8 list \<Rightarrow> nat \<Rightarrow> u32 \<Rightarrow> nat \<Rightarrow> u32 \<Rightarrow> SrcDesc \<Rightarrow> SrcDesc list \<Rightarrow> SrcDesc list outcome" where
  "sdes_chunks mem off nBufSize 0 nOffset d ds = Inr ds"
| "sdes_chunks mem off nBufSize (Suc nCount) nOffset d ds =
     (let n1 = nOffset + 4 in
      bindE (InitChunk (off + unat n1) (nBufSize - n1) d) (\<lambda>d'.
      bindE (GetLength mem d') (\<lambda>len.
        let n2 = n1 + 2 + ucast len;
            n3 = (if n2 mod 4 \<noteq> 0 then ((n2 + 4) div 4) * 4 else n2)
        in sdes_chunks mem off nBufSize nCount n3 d' (ds @ [d']))))"

definition SDES_InitPacket :: "alloc \<Rightarrow> u8 list \<Rightarrow> nat \<Rightarrow> nat \<Rightarrow> SDES \<Rightarrow> SDES outcome" where
  "SDES_InitPacket mok mem off nBufSize p =
     bindE (RTCPPacket_InitPacket mok mem off nBufSize p) (\<lambda>p1.
     bindE (GetRC p1) (\<lambda>nCount.
       if nCount > 0 then
         bindE (GetPacketLength p1) (\<lambda>nPktLength.
         bindE (assertE (nPktLength > 4)) (\<lambda>_.
         bindE (sdes_chunks mem off (of_nat nBufSize) nCount 0 SrcDesc_new (m_vectorDESCs p1))
           (\<lambda>ds. Inr (p1\<lparr>m_vectorDESCs := ds\<rparr>))))
       else Inr p1))"

section \<open>The parser\<close>

text \<open>An object of the list is a plain packet or one of a derived class, which \<open>dynamic_cast\<close> tells apart.\<close>

datatype rtcp_object = Plain RTCPPacket | Sender Report

definition Push :: "rtcp_object \<Rightarrow> rtcp_object list \<Rightarrow> nat \<times> rtcp_object list" where
  "Push p l = (length l + 1, l @ [p])"

definition Pop :: "rtcp_object list \<Rightarrow> rtcp_object option \<times> rtcp_object list" where
  "Pop l = (case l of [] \<Rightarrow> (None, []) | p # l' \<Rightarrow> (Some p, l'))"

text \<open>\<open>nLength\<close> and \<open>nOffset\<close> are \<open>uint16_t\<close>, into which the length of a packet is cut. The header behind the last packet is read before
  the loop ends.\<close>

fun rtcp_parse_loop :: "nat \<Rightarrow> alloc \<Rightarrow> u8 list \<Rightarrow> u32 \<Rightarrow> u16 \<Rightarrow> u16 \<Rightarrow> rtcp_object list \<Rightarrow> rtcp_object list outcome" where
  "rtcp_parse_loop 0 mok pBuf nLen nOffset nLength pList = Inl OutOfFuel"
| "rtcp_parse_loop (Suc n) mok pBuf nLen nOffset nLength pList =
     (if ucast nLength \<le> nLen - ucast nOffset then
        bindE (RTCPPacket_InitPacket mok pBuf (unat nOffset) (unat nLength) RTCPPacket_new) (\<lambda>p.
        let nOffset' = nOffset + nLength in
        bindE (RTCP_PKT_LENGTH pBuf (unat nOffset')) (\<lambda>len.
          rtcp_parse_loop n mok pBuf nLen nOffset' (of_nat len) (snd (Push (Plain p) pList))))
      else Inr pList)"

definition RTCPUDPParser_Parse :: "nat \<Rightarrow> alloc \<Rightarrow> u8 list \<Rightarrow> u32 \<Rightarrow> (result \<times> rtcp_object list option) outcome" where
  "RTCPUDPParser_Parse fuel mok pBuf nLen =
     bindE (RTCP_PKT_LENGTH pBuf 0) (\<lambda>len.
     bindE (rtcp_parse_loop fuel mok pBuf nLen 0 (of_nat len) []) (\<lambda>pList.
       Inr (if pList = [] then (Z3 Z3_ERROR, None) else (EOK, Some pList))))"

text \<open>Every packet of a buffer of 4096 bytes has at least 4 bytes, unless its length is cut to 0.\<close>

definition rtcp_fuel :: nat where "rtcp_fuel = 1026"

section \<open>Reception statistics\<close>

text \<open>\<open>struct timeval\<close> of Windows has two \<open>long\<close>s of 32 bits.\<close>

record timeval = tv_sec :: u32 tv_usec :: u32

record RTPReceptionStats =
  m_nLastReceivedSR_NTP :: u64
  m_nLastReceivedSR_time :: timeval
  m_nLastRTPTimestamp :: u32
  m_SyncTime :: timeval
  m_bSynchronized :: bool

definition RTPReceptionStats_new :: RTPReceptionStats where
  "RTPReceptionStats_new = \<lparr>m_nLastReceivedSR_NTP = 0, m_nLastReceivedSR_time = \<lparr>tv_sec = 0, tv_usec = 0\<rparr>,
     m_nLastRTPTimestamp = 0, m_SyncTime = \<lparr>tv_sec = 0, tv_usec = 0\<rparr>, m_bSynchronized = False\<rparr>"

text \<open>The microseconds are computed with \<open>double\<close>s: \<open>(low * 15625.0) / 0x04000000 + 0.5\<close>, cut to an integer. Each step is
  exact, since the product has less than 46 bits and the divisor is a power of two.\<close>

definition sync_usec :: "u32 \<Rightarrow> nat" where
  "sync_usec low = (unat low * 15625 + 0x02000000) div 0x04000000"

definition ProcessIncomingSR :: "timeval \<Rightarrow> Report \<Rightarrow> RTPReceptionStats \<Rightarrow> RTPReceptionStats outcome" where
  "ProcessIncomingSR now pRTCPSR s =
     bindE (GetNTPTimestamp pRTCPSR) (\<lambda>ntp. bindE (GetRTPTimestamp pRTCPSR) (\<lambda>ts.
       Inr (s\<lparr>m_nLastReceivedSR_NTP := ntp, m_nLastRTPTimestamp := ts, m_nLastReceivedSR_time := now,
         m_SyncTime := \<lparr>tv_sec = ucast (drop_bit 32 ntp) - 0x83AA7E80, tv_usec = of_nat (sync_usec (ucast ntp))\<rparr>\<rparr>)))"

type_synonym stats_db = "u32 \<rightharpoonup> RTPReceptionStats"

text \<open>\<open>insert\<close> of a map does not replace.\<close>

definition stats_Add :: "u32 \<Rightarrow> RTPReceptionStats \<Rightarrow> stats_db \<Rightarrow> stats_db" where
  "stats_Add nSSRC pStats db = (if db nSSRC = None then db(nSSRC \<mapsto> pStats) else db)"

definition stats_Lookup :: "u32 \<Rightarrow> stats_db \<Rightarrow> RTPReceptionStats option" where
  "stats_Lookup nSSRC db = db nSSRC"

definition db_ProcessIncomingSR :: "timeval \<Rightarrow> Report \<Rightarrow> stats_db \<Rightarrow> stats_db outcome" where
  "db_ProcessIncomingSR now pRTCPSR db =
     bindE (SR_GetSSRC pRTCPSR) (\<lambda>nSSRC.
       let (db', pStats) = (case stats_Lookup nSSRC db of
             None \<Rightarrow> (stats_Add nSSRC RTPReceptionStats_new db, RTPReceptionStats_new)
           | Some s \<Rightarrow> (db, s))
       in bindE (ProcessIncomingSR now pRTCPSR pStats) (\<lambda>s'. Inr (db'(nSSRC \<mapsto> s'))))"

section \<open>Members\<close>

text \<open>The map is ordered by its keys: an association list that is kept sorted.\<close>

record RTCPMemberDB =
  m_nNumMembers :: u32
  m_map :: "(u32 \<times> u32) list"

definition RTCPMemberDB_new :: RTCPMemberDB where "RTCPMemberDB_new = \<lparr>m_nNumMembers = 1, m_map = []\<rparr>"

fun map_put :: "u32 \<Rightarrow> u32 \<Rightarrow> (u32 \<times> u32) list \<Rightarrow> (u32 \<times> u32) list" where
  "map_put k v [] = [(k, v)]"
| "map_put k v ((k', v') # xs) =
     (if k < k' then (k, v) # (k', v') # xs else if k = k' then (k, v) # xs else (k', v') # map_put k v xs)"

definition map_erase :: "u32 \<Rightarrow> (u32 \<times> u32) list \<Rightarrow> (u32 \<times> u32) list" where
  "map_erase k xs = [x \<leftarrow> xs. fst x \<noteq> k]"

definition IsMember :: "u32 \<Rightarrow> RTCPMemberDB \<Rightarrow> bool" where
  "IsMember ssrc db = (map_of (m_map db) ssrc \<noteq> None)"

definition NoteMembership :: "u32 \<Rightarrow> u32 \<Rightarrow> RTCPMemberDB \<Rightarrow> bool \<times> RTCPMemberDB" where
  "NoteMembership ssrc curTimeCount db =
     (let isNew = \<not> IsMember ssrc db;
          db' = db\<lparr>m_map := map_put ssrc curTimeCount (m_map db)\<rparr>
      in (isNew, if isNew then db'\<lparr>m_nNumMembers := m_nNumMembers db + 1\<rparr> else db'))"

definition member_Remove :: "u32 \<Rightarrow> RTCPMemberDB \<Rightarrow> bool \<times> RTCPMemberDB" where
  "member_Remove ssrc db =
     (let n = IsMember ssrc db; db' = db\<lparr>m_map := map_erase ssrc (m_map db)\<rparr>
      in (n, if n then db'\<lparr>m_nNumMembers := m_nNumMembers db - 1\<rparr> else db'))"

section \<open>The session\<close>

record RTCPUDPSession =
  m_bParser :: bool
  m_pStatsDB :: "stats_db option"
  m_pKnownMembers :: "RTCPMemberDB option"
  m_nLastReceivedSSRC :: u32
  m_nLastReceivedSize :: u32
  m_nPayloadType :: u8
  m_nOutgoingReportCount :: u32

definition RTCPUDPSession_new :: RTCPUDPSession where
  "RTCPUDPSession_new = \<lparr>m_bParser = False, m_pStatsDB = None, m_pKnownMembers = None, m_nLastReceivedSSRC = 0,
     m_nLastReceivedSize = 0, m_nPayloadType = 0, m_nOutgoingReportCount = 0\<rparr>"

definition RTCPUDPSession_GetProtoParser :: "RTCPUDPSession \<Rightarrow> RTCPUDPSession outcome" where
  "RTCPUDPSession_GetProtoParser s =
     (if m_bParser s then Inr s
      else bindE (assertE (m_pStatsDB s = None)) (\<lambda>_. bindE (assertE (m_pKnownMembers s = None)) (\<lambda>_.
        Inr (s\<lparr>m_bParser := True, m_pStatsDB := Some Map.empty, m_pKnownMembers := Some RTCPMemberDB_new\<rparr>))))"

text \<open>\<open>CheckNewSSRC\<close> and \<open>RemoveSSRC\<close>, which asserts false when the statistics are to be removed.\<close>

definition CheckNewSSRC :: "RTCPUDPSession \<Rightarrow> (bool \<times> RTCPUDPSession) outcome" where
  "CheckNewSSRC s =
     (case m_pKnownMembers s of
        None \<Rightarrow> Inl NullDeref
      | Some db \<Rightarrow> let (b, db') = NoteMembership (m_nLastReceivedSSRC s) (m_nOutgoingReportCount s) db
                   in Inr (b, s\<lparr>m_pKnownMembers := Some db'\<rparr>))"

definition RemoveSSRC :: "u32 \<Rightarrow> bool \<Rightarrow> RTCPUDPSession \<Rightarrow> RTCPUDPSession outcome" where
  "RemoveSSRC nSSRC bRemoveStats s =
     (case m_pKnownMembers s of
        None \<Rightarrow> Inl NullDeref
      | Some db \<Rightarrow> bindE (assertE (\<not> bRemoveStats)) (\<lambda>_. Inr (s\<lparr>m_pKnownMembers := Some (snd (member_Remove nSSRC db))\<rparr>)))"

definition NumMembers :: "RTCPUDPSession \<Rightarrow> u32" where
  "NumMembers s = (case m_pKnownMembers s of None \<Rightarrow> 0 | Some db \<Rightarrow> m_nNumMembers db)"

text \<open>\<open>ReapOldMembers\<close> of the members of a session removes the first that is older, for as long as there is one. One unit of
  fuel is enough, because the first removal fails.\<close>

fun ReapOldMembers :: "nat \<Rightarrow> u32 \<Rightarrow> RTCPUDPSession \<Rightarrow> RTCPUDPSession outcome" where
  "ReapOldMembers 0 threshold s = Inl OutOfFuel"
| "ReapOldMembers (Suc n) threshold s =
     (case m_pKnownMembers s of
        None \<Rightarrow> Inl NullDeref
      | Some db \<Rightarrow> (case List.find (\<lambda>(_, timeCount). timeCount < threshold) (m_map db) of
          None \<Rightarrow> Inr s
        | Some (oldSSRC, _) \<Rightarrow> bindE (RemoveSSRC oldSSRC True s) (ReapOldMembers n threshold)))"

definition IP_UDP_HDR_SIZE :: u32 where "IP_UDP_HDR_SIZE = 28"

text \<open>\<open>rfc\<close> is \<open>OnReceive\<close> of \<open>rtcp_from_spec.c\<close> with the number of members, on the session.\<close>

definition RTCPUDPSession_OnReceive ::
    "(u32 \<Rightarrow> RTCPUDPSession \<Rightarrow> RTCPUDPSession outcome) \<Rightarrow> u8 \<Rightarrow> u32 \<Rightarrow> u32 \<Rightarrow> RTCPUDPSession \<Rightarrow> RTCPUDPSession outcome" where
  "RTCPUDPSession_OnReceive rfc nPayloadType nTotalBytes nSSRC s =
     (let s' = s\<lparr>m_nPayloadType := nPayloadType, m_nLastReceivedSize := nTotalBytes, m_nLastReceivedSSRC := nSSRC\<rparr>
      in rfc (NumMembers s') s')"

definition base_packet :: "rtcp_object \<Rightarrow> RTCPPacket" where
  "base_packet p = (case p of Plain q \<Rightarrow> q | Sender r \<Rightarrow> RTCPPacket.truncate r)"

text \<open>What the \<open>switch\<close> of \<open>Dispatch\<close> does with the packet \<open>p\<close>: all types but 200 only write a trace. The loop then calls
  \<open>OnReceive\<close> for the packet that \<open>Pop\<close> returns next, whose members it reads even if that is NULL.\<close>

definition handle_packet :: "timeval \<Rightarrow> rtcp_object \<Rightarrow> u32 \<Rightarrow> RTCPUDPSession \<Rightarrow> (u32 \<times> RTCPUDPSession) outcome" where
  "handle_packet now p nSSRC s =
     bindE (GetPayloadType (base_packet p)) (\<lambda>pt.
       if pt = 200 then
         (case p of
            Plain _ \<Rightarrow> Inl AssertFailed
          | Sender pSR \<Rightarrow> bindE (SR_GetSSRC pSR) (\<lambda>ssrc.
              case m_pStatsDB s of
                None \<Rightarrow> Inl NullDeref
              | Some db \<Rightarrow> bindE (db_ProcessIncomingSR now pSR db) (\<lambda>db'. Inr (ssrc, s\<lparr>m_pStatsDB := Some db'\<rparr>))))
       else Inr (nSSRC, s))"

fun rtcp_dispatch_loop ::
    "(u32 \<Rightarrow> RTCPUDPSession \<Rightarrow> RTCPUDPSession outcome) \<Rightarrow> timeval \<Rightarrow> rtcp_object option \<Rightarrow> rtcp_object list \<Rightarrow> u32
       \<Rightarrow> RTCPUDPSession \<Rightarrow> RTCPUDPSession outcome" where
  "rtcp_dispatch_loop rfc now None pList nSSRC s = Inr s"
| "rtcp_dispatch_loop rfc now (Some p) [] nSSRC s = bindE (handle_packet now p nSSRC s) (\<lambda>_. Inl NullDeref)"
| "rtcp_dispatch_loop rfc now (Some p) (q # pList) nSSRC s =
     bindE (handle_packet now p nSSRC s) (\<lambda>(nSSRC', s1).
     bindE (GetPacketLength (base_packet q)) (\<lambda>n.
     bindE (GetPayloadType (base_packet q)) (\<lambda>pt.
     bindE (RTCPUDPSession_OnReceive rfc pt (IP_UDP_HDR_SIZE + ucast n) nSSRC' s1) (\<lambda>s2.
       rtcp_dispatch_loop rfc now (Some q) pList nSSRC' s2))))"

definition RTCPUDPSession_Dispatch ::
    "(u32 \<Rightarrow> RTCPUDPSession \<Rightarrow> RTCPUDPSession outcome) \<Rightarrow> timeval \<Rightarrow> rtcp_object list option \<Rightarrow> RTCPUDPSession
       \<Rightarrow> (result \<times> RTCPUDPSession) outcome" where
  "RTCPUDPSession_Dispatch rfc now pMsg s =
     (case pMsg of
        None \<Rightarrow> Inl AssertFailed
      | Some l \<Rightarrow> bindE (assertE (m_pStatsDB s \<noteq> None)) (\<lambda>_.
          let (pPacket, pList) = Pop l in
          bindE (rtcp_dispatch_loop rfc now pPacket pList 0 s) (\<lambda>s'. Inr (EOK, s'))))"

text \<open>\<open>OnEvRead\<close> of an RTCP session.\<close>

definition RTCPUDPSession_OnEvRead ::
    "(u32 \<Rightarrow> RTCPUDPSession \<Rightarrow> RTCPUDPSession outcome) \<Rightarrow> timeval \<Rightarrow> alloc \<Rightarrow> winsock \<Rightarrow> u8 list \<Rightarrow> u32 \<Rightarrow> u32 \<Rightarrow> RTCPUDPSession
       \<Rightarrow> UDPSession \<Rightarrow> (result \<times> rtcp_object list option \<times> RTCPUDPSession \<times> UDPSession) outcome" where
  "RTCPUDPSession_OnEvRead rfc now mok =
     UDPSession_OnEvRead
       (\<lambda>mem nLen s. bindE (RTCPUDPSession_GetProtoParser s) (\<lambda>s'.
          bindE (RTCPUDPParser_Parse rtcp_fuel mok mem nLen) (\<lambda>(res, msg). Inr (res, msg, s', mem))))
       (RTCPUDPSession_Dispatch rfc now)"

end
