(* ===== verification/RtcpPackets.thy ===== *)
theory RtcpPackets
  imports Rtcp
begin

text \<open>
  Properties of RTCP: what the parser makes of a datagram, what the session does with it, and what reports, statistics and members
  hold. The code is in \<open>Rtcp\<close>.
\<close>

section \<open>Splitting a datagram\<close>

definition rtcp_wf :: "u8 list \<Rightarrow> bool" where
  "rtcp_wf p \<longleftrightarrow> length p < 65536 \<and> RTCP_PKT_LENGTH p 0 = Inr (length p)"

definition plain_of :: "alloc \<Rightarrow> u8 list \<Rightarrow> RTCPPacket" where
  "plain_of mok p = (if mok (length p) then \<lparr>m_pRtcp = Some p, m_nRtcpSize = of_nat (length p)\<rparr> else RTCPPacket_new)"

abbreviation packet_of :: "alloc \<Rightarrow> u8 list \<Rightarrow> rtcp_object" where
  "packet_of mok p \<equiv> Plain (plain_of mok p)"

lemma InitPacket_new:
  "off + n \<le> length mem \<Longrightarrow> RTCPPacket_InitPacket mok mem off n RTCPPacket_new = Inr (plain_of mok (take n (drop off mem)))"
  by (simp add: RTCPPacket_InitPacket_def plain_of_def RTCPPacket_new_def)

text \<open>The length that \<open>Parse\<close> takes from a header, cut to 16 bits.\<close>

definition cut_length :: "u8 list \<Rightarrow> nat" where
  "cut_length p = (case RTCP_PKT_LENGTH p 0 of Inr n \<Rightarrow> n mod 65536 | Inl _ \<Rightarrow> 0)"

lemma be16_append: "be16 (pre @ p) (length pre + i) = be16 p i"
  by (simp add: be16_def nth_append)

lemma be16_prefix: "i + 2 \<le> length p \<Longrightarrow> be16 (p @ rest) i = be16 p i"
  by (simp add: be16_def nth_append)

lemma length_at: "RTCP_PKT_LENGTH (pre @ p) (length pre) = RTCP_PKT_LENGTH p 0"
  by (simp only: RTCP_PKT_LENGTH_def be16_append add_0)

lemma length_prefix: "4 \<le> length p \<Longrightarrow> RTCP_PKT_LENGTH (p @ rest) 0 = RTCP_PKT_LENGTH p 0"
  by (simp add: RTCP_PKT_LENGTH_def be16_prefix)

lemma length_short: "length p < 4 \<Longrightarrow> RTCP_PKT_LENGTH p 0 = Inl OutOfBounds"
  by (simp add: RTCP_PKT_LENGTH_def be16_def)

lemma length_Inr: "4 \<le> length p \<Longrightarrow> \<exists>n. RTCP_PKT_LENGTH p 0 = Inr n"
  by (simp add: RTCP_PKT_LENGTH_def be16_def)

lemma rtcp_wf_length: "rtcp_wf p \<Longrightarrow> 4 \<le> length p"
  using length_short [of p] by (force simp: rtcp_wf_def not_less)

text \<open>The loop from the header at an offset on, which it has yet to read.\<close>

definition parse_from :: "nat \<Rightarrow> alloc \<Rightarrow> u8 list \<Rightarrow> nat \<Rightarrow> nat \<Rightarrow> rtcp_object list \<Rightarrow> rtcp_object list outcome" where
  "parse_from fuel mok mem total_len off acc =
     bindE (RTCP_PKT_LENGTH mem off) (\<lambda>len. rtcp_parse_loop fuel mok mem (of_nat total_len) (of_nat off) (of_nat len) acc)"

lemma Parse_from:
  "RTCPUDPParser_Parse fuel mok mem (of_nat n) =
    bindE (parse_from fuel mok mem n 0 []) (\<lambda>l. Inr (if l = [] then (Z3 Z3_ERROR, None) else (EOK, Some l)))"
  by (cases "RTCP_PKT_LENGTH mem 0") (simp_all add: RTCPUDPParser_Parse_def parse_from_def)

lemma unat_ucast_u16: "unat (ucast (w :: u16) :: u32) = unat w"
proof -
  have "unat w < 2 ^ LENGTH(16)" by (rule unsigned_less)
  then show ?thesis by (simp add: unsigned_ucast_eq take_bit_nat_eq_self)
qed

lemma guard_u16:
  assumes "off \<le> total_len" "total_len < 65536"
  shows "ucast (of_nat len :: u16) \<le> (of_nat total_len - ucast (of_nat off :: u16) :: u32) \<longleftrightarrow> len mod 65536 \<le> total_len - off"
proof -
  have "unat (of_nat off :: u16) = off" using assms by (intro unat_of_nat_u16) simp
  then have "(ucast (of_nat off :: u16) :: u32) = of_nat off"
    using assms by (simp add: word_unat_eq_iff unat_ucast_u16 unat_of_nat_u32)
  moreover have "(of_nat total_len - of_nat off :: u32) = of_nat (total_len - off)" using assms(1) by (simp add: of_nat_diff)
  moreover have "unat (of_nat (total_len - off) :: u32) = total_len - off" using assms by (intro unat_of_nat_u32) simp
  moreover have "unat (ucast (of_nat len :: u16) :: u32) = len mod 65536"
    by (simp add: unat_ucast_u16 unat_of_nat)
  ultimately show ?thesis by (simp add: word_le_nat_alt)
qed

lemma parse_step:
  assumes "off \<le> total_len" "total_len < 65536" "total_len \<le> length mem" "RTCP_PKT_LENGTH mem off = Inr len"
  shows "parse_from (Suc n) mok mem total_len off acc =
    (if len mod 65536 \<le> total_len - off
     then parse_from n mok mem total_len (off + len mod 65536) (acc @ [packet_of mok (take (len mod 65536) (drop off mem))])
     else Inr acc)"
proof -
  have off: "unat (of_nat off :: u16) = off" using assms by (intro unat_of_nat_u16) simp
  have len: "unat (of_nat len :: u16) = len mod 65536" by (simp add: unat_of_nat)
  have sum: "(of_nat off + of_nat len :: u16) = of_nat (off + len mod 65536)"
    by (simp only: of_nat_add len [symmetric] of_nat_unat ucast_id)
  have off': "unat (of_nat off + of_nat len :: u16) = off + len mod 65536" if "len mod 65536 \<le> total_len - off"
    unfolding sum by (rule unat_of_nat_u16) (use that assms in linarith)
  have init: "RTCPPacket_InitPacket mok mem off (len mod 65536) RTCPPacket_new =
      Inr (plain_of mok (take (len mod 65536) (drop off mem)))" if "len mod 65536 \<le> total_len - off"
    by (rule InitPacket_new) (use that assms in linarith)
  show ?thesis
    unfolding parse_from_def assms(4) bindE.simps rtcp_parse_loop.simps guard_u16 [OF assms(1,2)] Let_def off len sum
    by (cases "len mod 65536 \<le> total_len - off") (simp_all only: init off' [unfolded sum] Push_def bindE.simps snd_conv if_True if_False)
qed

lemma parse_stuck:
  assumes "off \<le> total_len" "total_len < 65536" "total_len \<le> length mem" "RTCP_PKT_LENGTH mem off = Inr len" "len mod 65536 = 0"
  shows "parse_from n mok mem total_len off acc = Inl OutOfFuel"
proof (induction n arbitrary: acc)
  case 0
  then show ?case by (simp add: parse_from_def assms(4))
next
  case (Suc n)
  show ?case unfolding parse_step [OF assms(1-4)] by (simp add: assms(5) Suc)
qed

text \<open>A loop for which \<open>fuel\<close> units are enough by the number of bytes it still has, and that uses them up all the same, does not end.\<close>

lemma parse_from_endless:
  assumes "total_len < 65536" "total_len \<le> length mem"
    and "parse_from fuel mok mem total_len off acc = Inl OutOfFuel" "off \<le> total_len" "total_len - off < 4 * fuel"
  shows "parse_from k mok mem total_len off acc = Inl OutOfFuel"
  using assms(3-5)
proof (induction fuel arbitrary: off acc k)
  case (Suc fuel)
  obtain len where len: "RTCP_PKT_LENGTH mem off = Inr len" "4 dvd len"
    using Suc.prems(1) by (cases "be16 mem (off + 2)") (auto simp: parse_from_def RTCP_PKT_LENGTH_def be16_def split: if_splits)
  note step = parse_step [OF Suc.prems(2) assms(1,2) len(1)]
  show ?case
  proof (cases "len mod 65536 = 0")
    case True
    then show ?thesis by (rule parse_stuck [OF Suc.prems(2) assms(1,2) len(1)])
  next
    case False
    have "4 dvd len mod 65536" using len(2) by (simp add: dvd_mod)
    with False have four: "4 \<le> len mod 65536" by (auto dest: dvd_imp_le)
    from Suc.prems(1) step have fits: "len mod 65536 \<le> total_len - off"
      and rest: "parse_from fuel mok mem total_len (off + len mod 65536) (acc @ [packet_of mok (take (len mod 65536) (drop off mem))]) = Inl OutOfFuel"
      by (auto split: if_splits)
    have "off + len mod 65536 \<le> total_len" "total_len - (off + len mod 65536) < 4 * fuel" using fits four Suc.prems(2) Suc.prems(3) [unfolded mult_Suc_right] by linarith+
    note ends = Suc.IH [OF rest this]
    show ?thesis
    proof (cases k)
      case 0
      then show ?thesis by (simp add: parse_from_def len(1))
    qed (use step fits ends in simp)
  qed
qed simp

lemma parse_loop_extends: "rtcp_parse_loop fuel mok mem n off len acc = Inr l \<Longrightarrow> \<exists>l'. l = acc @ l'"
proof (induction fuel arbitrary: off len acc)
  case (Suc fuel)
  then show ?case by (fastforce simp: bindE_Inr_iff Let_def Push_def split: if_splits)
qed simp

lemma parse_from_packets:
  assumes "mem = pre @ concat pkts @ rest" "\<forall>p \<in> set pkts. rtcp_wf p" "r \<le> length rest"
    and "total_len = length pre + length (concat pkts) + r" "total_len < 65536" "length pkts < fuel"
    and "cut_length rest = 0 \<or> r < cut_length rest"
  shows "parse_from fuel mok mem total_len (length pre) acc =
    (if length rest < 4 then Inl OutOfBounds else if cut_length rest = 0 then Inl OutOfFuel
     else Inr (acc @ map (packet_of mok) pkts))"
  using assms
proof (induction pkts arbitrary: pre acc fuel)
  case Nil
  have mem: "RTCP_PKT_LENGTH mem (length pre) = RTCP_PKT_LENGTH rest 0" using Nil.prems(1) length_at [of pre rest] by simp
  show ?case
  proof (cases "length rest < 4")
    case True
    then show ?thesis by (simp add: parse_from_def mem length_short)
  next
    case False
    then obtain len where len: "RTCP_PKT_LENGTH rest 0 = Inr len" "cut_length rest = len mod 65536"
      using length_Inr [of rest] by (auto simp: cut_length_def)
    have le: "length pre \<le> total_len" "total_len \<le> length mem" using Nil.prems by auto
    obtain n where n: "fuel = Suc n" using Nil.prems(6) by (cases fuel) auto
    show ?thesis
      using parse_stuck [OF le(1) Nil.prems(5) le(2), of len fuel mok acc] parse_step [OF le(1) Nil.prems(5) le(2), of len n mok acc] 
        False len Nil.prems(4,7) mem n by auto
  qed
next
  case (Cons p ps)
  obtain n where n: "fuel = Suc n" using Cons.prems(6) by (cases fuel) auto
  have p: "rtcp_wf p" "4 \<le> length p" using Cons.prems(2) rtcp_wf_length [of p] by auto
  have mem: "RTCP_PKT_LENGTH mem (length pre) = Inr (length p)"
    using Cons.prems(1) length_at [of pre "p @ concat ps @ rest"] length_prefix [OF p(2)] p(1) by (simp add: rtcp_wf_def)
  have le: "length pre \<le> total_len" "total_len \<le> length mem" "length p < 65536" using Cons.prems p(1) by (auto simp: rtcp_wf_def)
  have here: "take (length p) (drop (length pre) mem) = p" using Cons.prems(1) by simp
  have "parse_from fuel mok mem total_len (length pre) acc = parse_from n mok mem total_len (length (pre @ p)) (acc @ [packet_of mok p])"
    unfolding n parse_step [OF le(1) Cons.prems(5) le(2) mem] using le(3) Cons.prems(4) here by simp
  also have "\<dots> = (if length rest < 4 then Inl OutOfBounds else if cut_length rest = 0 then Inl OutOfFuel
     else Inr ((acc @ [packet_of mok p]) @ map (packet_of mok) ps))"
    by (rule Cons.IH) (use Cons.prems n in auto)
  finally show ?case by simp
qed

text \<open>C14. What \<open>Parse\<close> makes of a compound packet \<open>pkts\<close>, followed in the datagram by \<open>r\<close> bytes that are no complete packet, and
  in the buffer by more. It takes the length of one header more than there are packets: if that is outside the buffer
  the access is out of bounds, and if that length is a multiple of 65536 bytes the loop never ends, whatever the datagram held
  in front. Otherwise the packets come out as they are, in order, and a datagram with none is refused.\<close>

theorem RTCP_Parse_split:
  assumes "mem = concat pkts @ rest" and "\<forall>p \<in> set pkts. rtcp_wf p" and "r \<le> length rest"
    and "length (concat pkts) + r < 65536" and "length pkts < fuel" and "cut_length rest = 0 \<or> r < cut_length rest"
  shows "RTCPUDPParser_Parse fuel mok mem (of_nat (length (concat pkts) + r)) =
    (if length rest < 4 then Inl OutOfBounds
     else if cut_length rest = 0 then Inl OutOfFuel
     else if pkts = [] then Inr (Z3 Z3_ERROR, None)
     else Inr (EOK, Some (map (packet_of mok) pkts)))"
  unfolding Parse_from
  using parse_from_packets [of mem "[]" pkts rest r _ fuel mok "[]", OF _ assms(2,3) _ assms(4-6)] assms(1) by simp

theorem RTCP_Parse_split_witness:
  "RTCPUDPParser_Parse 3 alloc_ok ([0x80, 201, 0, 1, 0, 0, 0, 7] @ [0x80, 203, 0, 0] @ [0, 0, 0, 0]) 12 =
     Inr (EOK, Some [packet_of alloc_ok [0x80, 201, 0, 1, 0, 0, 0, 7], packet_of alloc_ok [0x80, 203, 0, 0]])
   \<and> RTCPUDPParser_Parse 3 alloc_ok ([0x80, 203, 0, 0] @ [0x80, 203, 0x3F, 0xFF]) 4 = Inl OutOfFuel"
  using RTCP_Parse_split [of _ "[[0x80, 201, 0, 1, 0, 0, 0, 7], [0x80, 203, 0, 0]]" "[0, 0, 0, 0]" 0 3 alloc_ok]
    RTCP_Parse_split [of _ "[[0x80, 203, 0, 0]]" "[0x80, 203, 0x3F, 0xFF]" 0 3 alloc_ok]
  by (simp add: rtcp_wf_def cut_length_def RTCP_PKT_LENGTH_def be16_def)

section \<open>What becomes of a datagram\<close>

text \<open>\<open>Dispatch\<close> reads the members of the packet behind the last one: it does not return for any list that has a packet.\<close>

lemma dispatch_loop_fails: "rtcp_dispatch_loop rfc now (Some p) l nSSRC s \<noteq> Inr s'"
  by (induction l arbitrary: p nSSRC s) (auto simp: bindE_Inr_iff)

lemma Dispatch_fails: "l \<noteq> [] \<Longrightarrow> RTCPUDPSession_Dispatch rfc now (Some l) s \<noteq> Inr r"
  by (cases l) (auto simp: RTCPUDPSession_Dispatch_def Pop_def bindE_Inr_iff dispatch_loop_fails)

lemma dispatch_loop_plain:
  assumes "\<forall>m s. \<exists>s'. rfc m s = Inr s'" "\<forall>q \<in> set (p # l). GetPayloadType q = Inr 0 \<and> GetPacketLength q = Inr n"
  shows "rtcp_dispatch_loop rfc now (Some (Plain p)) (map Plain l) nSSRC s = Inl NullDeref"
  using assms(2)
proof (induction l arbitrary: p nSSRC s)
  case Nil
  then show ?case by (simp add: handle_packet_def base_packet_def)
next
  case (Cons q l)
  obtain s2 where "RTCPUDPSession_OnReceive rfc 0 (IP_UDP_HDR_SIZE + ucast n) nSSRC s = Inr s2"
    using assms(1) by (auto simp: RTCPUDPSession_OnReceive_def Let_def)
  then show ?case using Cons by (simp add: handle_packet_def base_packet_def)
qed

definition rtcp_ready :: "RTCPUDPSession \<Rightarrow> bool" where
  "rtcp_ready s \<longleftrightarrow> (if m_bParser s then m_pStatsDB s \<noteq> None else m_pStatsDB s = None \<and> m_pKnownMembers s = None)"

lemma GetProtoParser_ready: "rtcp_ready s \<Longrightarrow> \<exists>s'. RTCPUDPSession_GetProtoParser s = Inr s' \<and> m_pStatsDB s' \<noteq> None"
  by (auto simp: rtcp_ready_def RTCPUDPSession_GetProtoParser_def)

lemma cut_length_zeros: "cut_length (replicate k 0) = (if k < 4 then 0 else 4)"
  by (simp add: cut_length_def RTCP_PKT_LENGTH_def be16_def)

lemma Parse_zeros:
  assumes "n \<le> 4096"
  shows "RTCPUDPParser_Parse rtcp_fuel mok (replicate SOCKET_RECV_BUFSIZE 0) (of_nat n) =
    (if n = 4096 then Inl OutOfBounds else if n < 4 then Inr (Z3 Z3_ERROR, None)
     else Inr (EOK, Some (replicate (n div 4) (packet_of mok (replicate 4 0)))))"
proof -
  let ?pkts = "replicate (n div 4) (replicate 4 (0 :: u8))" and ?rest = "replicate (4096 - n div 4 * 4) (0 :: u8)"
  have c: "concat (replicate k (replicate 4 x)) = replicate (k * 4) x" for k and x :: u8
    by (induction k) (simp_all add: replicate_add [symmetric])
  have mem: "replicate SOCKET_RECV_BUFSIZE 0 = concat ?pkts @ ?rest"
    using assms by (simp add: c replicate_add [symmetric] SOCKET_RECV_BUFSIZE_def)
  have wf: "\<forall>p \<in> set ?pkts. rtcp_wf p" by (simp add: rtcp_wf_def RTCP_PKT_LENGTH_def be16_def)
  have n: "n div 4 * 4 + n mod 4 = n" "n div 4 \<le> 1024" using assms by auto
  have le: "n mod 4 \<le> 4096 - n div 4 * 4" by (rule diff_le_mono [of n 4096 "n div 4 * 4", unfolded minus_div_mult_eq_mod, OF assms])
  have "parse_from rtcp_fuel mok (replicate SOCKET_RECV_BUFSIZE 0) n (length ([] :: u8 list)) [] =
    (if length ?rest < 4 then Inl OutOfBounds else if cut_length ?rest = 0 then Inl OutOfFuel else Inr ([] @ map (packet_of mok) ?pkts))"
  proof (rule parse_from_packets)
    show "n mod 4 \<le> length ?rest" "n = length ([] :: u8 list) + length (concat ?pkts) + n mod 4" "n < 65536"
      "length ?pkts < rtcp_fuel" using n assms le by (simp_all add: c rtcp_fuel_def)
    show "cut_length ?rest = 0 \<or> n mod 4 < cut_length ?rest" by (simp add: cut_length_zeros)
  qed (use mem wf in simp_all)
  moreover have "4096 - n div 4 * 4 < 4 \<longleftrightarrow> n = 4096" using assms by presburger
  moreover have "n div 4 = 0 \<longleftrightarrow> n < 4" by (simp add: div_eq_0_iff)
  ultimately show ?thesis by (simp add: Parse_from cut_length_zeros)
qed

text \<open>Any receive buffer: the first length in it decides whether the parser makes a packet.\<close>

lemma Parse_first:
  assumes "n < 65536" "n \<le> length mem" "4 \<le> length mem"
  shows "if n < cut_length mem then RTCPUDPParser_Parse (Suc k) mok mem (of_nat n) = Inr (Z3 Z3_ERROR, None)
    else \<forall>r. RTCPUDPParser_Parse (Suc k) mok mem (of_nat n) = Inr r \<longrightarrow> (\<exists>l. l \<noteq> [] \<and> r = (EOK, Some l))"
proof -
  obtain len where len: "RTCP_PKT_LENGTH mem 0 = Inr len" using length_Inr [OF assms(3)] by blast
  then have cut: "cut_length mem = len mod 65536" by (simp add: cut_length_def)
  note step = parse_step [OF le0 assms(1,2) len, of k mok "[]"]
  show ?thesis
  proof (cases "n < cut_length mem")
    case True
    then show ?thesis using step by (simp add: cut Parse_from)
  next
    case False
    let ?p = "packet_of mok (take (len mod 65536) mem)"
    have "parse_from (Suc k) mok mem n 0 [] = parse_from k mok mem n (len mod 65536) [?p]" using False step by (simp add: cut)
    moreover have "l \<noteq> []" if "parse_from k mok mem n (len mod 65536) [?p] = Inr l" for l
      using that parse_loop_extends [of k mok mem] by (fastforce simp: parse_from_def bindE_Inr_iff)
    ultimately show ?thesis using False by (auto simp: Parse_from bindE_Inr_iff)
  qed
qed

lemma RTCP_OnEvRead_parses:
  assumes "live_session w u" "0 < n" "n \<le> 4096"
  obtains u' where "RTCPUDPSession_OnEvRead rfc now mok w r 0 (of_nat n) s u =
    bindE (RTCPUDPSession_GetProtoParser s) (\<lambda>s'. bindE (RTCPUDPParser_Parse rtcp_fuel mok (buffer_of r) (of_nat n)) (\<lambda>(res, msg).
      if res = EOK then bindE (RTCPUDPSession_Dispatch rfc now msg s') (\<lambda>(res', s''). Inr (res', msg, s'', u')) else Inr (res, None, s', u')))"
proof -
  let ?u = "u\<lparr>u_socket := (u_socket u)\<lparr>reads := reads (u_socket u) - 1 + 1\<rparr>, m_pUdpRecvBuf := buffer_of r\<rparr>"
  have n: "(of_nat n :: u32) \<noteq> 0" using assms(2,3) datagram_size [of n] by (simp add: SOCKET_RECV_BUFSIZE_def)
  show ?thesis
  proof (rule that [of ?u], cases "RTCPUDPSession_GetProtoParser s")
    case (Inr s')
    then show "RTCPUDPSession_OnEvRead rfc now mok w r 0 (of_nat n) s u =
      bindE (RTCPUDPSession_GetProtoParser s) (\<lambda>s'. bindE (RTCPUDPParser_Parse rtcp_fuel mok (buffer_of r) (of_nat n)) (\<lambda>(res, msg).
        if res = EOK then bindE (RTCPUDPSession_Dispatch rfc now msg s') (\<lambda>(res', s''). Inr (res', msg, s'', ?u)) else Inr (res, None, s', ?u)))"
      using n by (cases "RTCPUDPParser_Parse rtcp_fuel mok (buffer_of r) (of_nat n)")
        (auto simp: RTCPUDPSession_OnEvRead_def UDPSession_OnEvRead_def StartRead_live [OF assms(1)] Let_def)
  qed (use n in \<open>simp add: RTCPUDPSession_OnEvRead_def UDPSession_OnEvRead_def StartRead_live [OF assms(1)] Let_def\<close>)
qed

text \<open>C13. What a datagram of \<open>n\<close> bytes does to the RTCP session. As the session of RTP, that of RTCP clears the receive buffer and posts the
  next read before it parses, so that the parser sees \<open>buffer_of r\<close>: a datagram \<open>r\<close> that is in the buffer by then, or
  zeros if there is none (\<open>r = []\<close>). The datagram is survived, with an error, if \<open>n\<close> is less than the first length in that
  buffer. In every other case the program ends or loops for ever: as soon as the parser has one packet, \<open>Dispatch\<close> goes
  on behind the last, whatever \<open>OnReceive\<close> of RFC 3550 does. (\<open>OutOfFuel\<close> is a loop that does not end with any fuel.) With nothing
  waiting the first length is 4: only a datagram of less than four bytes is survived, one of the whole 4096 makes the parser
  read behind the buffer, and the others end at a packet that is NULL. (A datagram of 1 to 4096 bytes; a buffer that Windows changes
  while the parser reads it is not considered.)\<close>

theorem rtcp_datagram_crashes:
  assumes "live_session w u" and "rtcp_ready s" and "0 < n" and "n \<le> 4096"
  shows "(if n < cut_length (buffer_of r)
      then \<exists>s' u'. RTCPUDPSession_OnEvRead rfc now mok w r 0 (of_nat n) s u = Inr (Z3 Z3_ERROR, None, s', u')
      else \<exists>e. RTCPUDPSession_OnEvRead rfc now mok w r 0 (of_nat n) s u = Inl e)
    \<and> (RTCPUDPParser_Parse rtcp_fuel mok (buffer_of r) (of_nat n) = Inl OutOfFuel \<longrightarrow>
        (\<forall>fuel. RTCPUDPParser_Parse fuel mok (buffer_of r) (of_nat n) = Inl OutOfFuel))
    \<and> (r = [] \<longrightarrow> cut_length (buffer_of r) = 4 \<and> (4 \<le> n \<longrightarrow> mok 4 \<longrightarrow> (\<forall>m s. \<exists>s'. rfc m s = Inr s') \<longrightarrow>
        RTCPUDPSession_OnEvRead rfc now mok w r 0 (of_nat n) s u = Inl (if n = 4096 then OutOfBounds else NullDeref)))"
proof (intro conjI impI allI)
  let ?parse = "\<lambda>fuel. RTCPUDPParser_Parse fuel mok (buffer_of r) (of_nat n)"
  have n: "n < 65536" "n \<le> length (buffer_of r)" "4 \<le> length (buffer_of r)" using assms(4) by (simp_all add: SOCKET_RECV_BUFSIZE_def)
  obtain s' where s': "RTCPUDPSession_GetProtoParser s = Inr s'" "m_pStatsDB s' \<noteq> None" using GetProtoParser_ready [OF assms(2)] by blast
  obtain u' where ev: "RTCPUDPSession_OnEvRead rfc now mok w r 0 (of_nat n) s u = bindE (?parse rtcp_fuel) (\<lambda>(res, msg).
      if res = EOK then bindE (RTCPUDPSession_Dispatch rfc now msg s') (\<lambda>(res', s''). Inr (res', msg, s'', u')) else Inr (res, None, s', u'))"
    by (rule RTCP_OnEvRead_parses [OF assms(1,3,4), of rfc now mok r s]) (simp add: s'(1))
  show "if n < cut_length (buffer_of r)
      then \<exists>s' u'. RTCPUDPSession_OnEvRead rfc now mok w r 0 (of_nat n) s u = Inr (Z3 Z3_ERROR, None, s', u')
      else \<exists>e. RTCPUDPSession_OnEvRead rfc now mok w r 0 (of_nat n) s u = Inl e"
  proof (cases "n < cut_length (buffer_of r)")
    case True
    then have "?parse rtcp_fuel = Inr (Z3 Z3_ERROR, None)" using Parse_first [OF n, of 1025 mok] by (simp add: rtcp_fuel_def)
    then show ?thesis using True by (simp add: ev)
  next
    case False
    then have "RTCPUDPSession_OnEvRead rfc now mok w r 0 (of_nat n) s u \<noteq> Inr x" for x
      using Parse_first [OF n, of 1025 mok] unfolding ev by (auto simp: rtcp_fuel_def bindE_Inr_iff Dispatch_fails)
    then show ?thesis using False by (cases "RTCPUDPSession_OnEvRead rfc now mok w r 0 (of_nat n) s u") auto
  qed
  show "?parse fuel = Inl OutOfFuel" if "?parse rtcp_fuel = Inl OutOfFuel" for fuel
  proof -
    have "parse_from rtcp_fuel mok (buffer_of r) n 0 [] = Inl OutOfFuel"
      using that by (cases "parse_from rtcp_fuel mok (buffer_of r) n 0 []") (simp_all add: Parse_from)
    from parse_from_endless [OF n(1,2) this, of fuel] assms(4) show ?thesis by (simp add: Parse_from rtcp_fuel_def)
  qed
  assume r: "r = []"
  show "cut_length (buffer_of r) = 4" by (simp add: r cut_length_zeros SOCKET_RECV_BUFSIZE_def)
  assume four: "4 \<le> n" "mok 4" and rfc: "\<forall>m s. \<exists>s'. rfc m s = Inr s'"
  let ?p = "plain_of mok (replicate 4 0)"
  have plain: "GetPayloadType ?p = Inr 0 \<and> GetPacketLength ?p = Inr 4"
    using four by (simp add: GetPayloadType_def GetPacketLength_def plain_of_def rtcp_mem_def RTCP_PKT_PT_def RTCP_PKT_LENGTH_def
        be16_def byte_at_def)
  have "RTCPUDPSession_Dispatch rfc now (Some (replicate (n div 4) (Plain ?p))) s' = Inl NullDeref"
    using dispatch_loop_plain [OF rfc, of ?p "replicate (n div 4 - 1) ?p" 4 now 0 s'] plain s'(2) four(1)
    by (cases "n div 4") (simp_all add: RTCPUDPSession_Dispatch_def Pop_def)
  then show "RTCPUDPSession_OnEvRead rfc now mok w r 0 (of_nat n) s u = Inl (if n = 4096 then OutOfBounds else NullDeref)"
    using Parse_zeros [OF assms(4), of mok] four(1) unfolding ev by (simp add: r)
qed

text \<open>A datagram of 28 bytes with nothing behind it, one of 28 bytes with a receiver report of 8 bytes behind it, and one of 8 bytes with a sender report
  of 52 bytes behind it.\<close>

theorem rtcp_datagram_crashes_witness:
  "(let read = (\<lambda>r n. RTCPUDPSession_OnEvRead (\<lambda>m s. Inr s) \<lparr>tv_sec = 0, tv_usec = 0\<rparr> alloc_ok ok_winsock r 0 (of_nat n) RTCPUDPSession_new
        (UDPSession_new\<lparr>u_socket := SocketObj_new\<lparr>m_hSocket := True, m_hClosedEvent := True\<rparr>\<rparr>))
    in read [] (28 :: nat) = Inl NullDeref
      \<and> (\<exists>e. read [0x80, 201, 0, 1, 0, 0, 0, 7] 28 = Inl e)
      \<and> (\<exists>s' u'. read ([0x80, 200, 0, 12] @ replicate 48 0) 8 = Inr (Z3 Z3_ERROR, None, s', u')))"
proof -
  let ?u = "UDPSession_new\<lparr>u_socket := SocketObj_new\<lparr>m_hSocket := True, m_hClosedEvent := True\<rparr>\<rparr>"
  have ready: "live_session ok_winsock ?u" "rtcp_ready RTCPUDPSession_new"
    by (simp_all add: live_session_def ok_winsock_def posted_def rtcp_ready_def RTCPUDPSession_new_def)
  have first: "cut_length (buffer_of [0x80, 201, 0, 1, 0, 0, 0, 7]) = 8" "cut_length (buffer_of ([0x80, 200, 0, 12] @ replicate 48 0)) = 52"
    by (simp_all add: buffer_of_def cut_length_def RTCP_PKT_LENGTH_def be16_def SOCKET_RECV_BUFSIZE_def)
  note crash = rtcp_datagram_crashes [OF ready, of _ _ "\<lambda>m s. Inr s" "\<lparr>tv_sec = 0, tv_usec = 0\<rparr>" alloc_ok]
  show ?thesis
    using crash [of 28 "[]"] crash [of 28 "[0x80, 201, 0, 1, 0, 0, 0, 7]"] crash [of 8 "[0x80, 200, 0, 12] @ replicate 48 0"]
    unfolding Let_def first by (simp add: alloc_ok)
qed

section \<open>Reports\<close>

lemma report_blocks_eq:
  "report_blocks off k b rbs = Inr (rbs @ map (\<lambda>i. b\<lparr>m_pBlock := Some (off + (28 + i * 24)), m_nBlockSize := 24\<rparr>) (rev [0..<k]))"
  by (induction k arbitrary: b rbs) (simp_all add: InitBlock_def)

lemma block_field_at:
  assumes "off + i + 4 \<le> length p"
  shows "block_field i (pre @ p @ rest) \<lparr>m_pBlock = Some (length pre + off), m_nBlockSize = n\<rparr> = le32 p (off + i)"
  using assms by (simp add: block_field_def le32_def nth_append add.assoc)

lemma RR_as_SR: "RR_InitPacket = SR_InitPacket"
  by (intro ext) (simp add: SR_InitPacket_def RR_InitPacket_def)

lemma SR_InitPacket_eq:
  assumes "mem = pre @ p @ rest" and "rtcp_wf p" and "mok (length p)" and "RTCP_PKT_RC p = Inr k" and "0 < k"
  shows "SR_InitPacket mok mem (length pre) (length p) Report_new =
      (if length p < 28 + 24 * k then Inl AssertFailed
       else Inr \<lparr>m_pRtcp = Some p, m_nRtcpSize = of_nat (length p),
         m_vectorRBs = map (\<lambda>i. \<lparr>m_pBlock = Some (length pre + (28 + i * 24)), m_nBlockSize = 24\<rparr>) (rev [0..<k])\<rparr>)"
proof -
  have len: "length p < 65536" "RTCP_PKT_LENGTH p 0 = Inr (length p)" using assms(2) by (simp_all add: rtcp_wf_def)
  have init: "RTCPPacket_InitPacket mok mem (length pre) (length p) Report_new =
      Inr \<lparr>m_pRtcp = Some p, m_nRtcpSize = of_nat (length p), m_vectorRBs = []\<rparr>"
    using assms(1,3) by (simp add: RTCPPacket_InitPacket_def Report_new_def)
  show ?thesis
    using assms(4,5) len by (simp add: SR_InitPacket_def init GetRC_def rtcp_mem_def GetPacketLength_def unat_of_nat_u32
        unat_of_nat_u16 report_blocks_eq RB_new_def)
qed

text \<open>C15. The report blocks of a packet \<open>p\<close> that has \<open>k > 0\<close> of them. Both \<open>SR::InitPacket\<close> and \<open>RR::InitPacket\<close> take the first block to
  begin at byte 28, as in a sender report, and fail an assertion when the packet has no room for \<open>k\<close> blocks there: so does every receiver
  report of 8 bytes and its blocks, as RFC 3550 has it. Otherwise \<open>GetRB\<close> gives the blocks in reverse order, and NULL
  behind the last, and the fields of a block are its bytes read in the order of the machine, the lowest first.\<close>

theorem report_blocks_read:
  assumes "mem = pre @ p @ rest" and "rtcp_wf p" and "mok (length p)" and "RTCP_PKT_RC p = Inr k" and "0 < k"
    and "Init = SR_InitPacket \<or> Init = RR_InitPacket"
  shows "if length p < 28 + 24 * k then Init mok mem (length pre) (length p) Report_new = Inl AssertFailed
    else \<exists>r. Init mok mem (length pre) (length p) Report_new = Inr r \<and> GetRBCount r = of_nat k
      \<and> (\<forall>i < k. \<exists>b. GetRB i r = Some b \<and> (let at = 28 + 24 * (k - 1 - i) in
            GetSSRC mem b = le32 p at \<and> GetJitter mem b = le32 p (at + 12) \<and> GetLSR mem b = le32 p (at + 16)
            \<and> GetDLSR mem b = le32 p (at + 20)))
      \<and> (\<forall>i \<ge> k. GetRB i r = None)"
proof -
  let ?r = "\<lparr>m_pRtcp = Some p, m_nRtcpSize = of_nat (length p),
      m_vectorRBs = map (\<lambda>i. \<lparr>m_pBlock = Some (length pre + (28 + i * 24)), m_nBlockSize = 24\<rparr>) (rev [0..<k])\<rparr>"
  let ?at = "\<lambda>i. 28 + 24 * (k - 1 - i)"
  have init: "Init mok mem (length pre) (length p) Report_new = (if length p < 28 + 24 * k then Inl AssertFailed else Inr ?r)"
    using assms(6) SR_InitPacket_eq [of mem pre p rest mok k] assms(1-5) by (auto simp: RR_as_SR)
  have rb: "GetRB i ?r = (if i < k then Some \<lparr>m_pBlock = Some (length pre + ?at i), m_nBlockSize = 24\<rparr> else None)" for i
    by (simp add: GetRB_def rev_nth mult.commute)
  have field: "block_field j mem \<lparr>m_pBlock = Some (length pre + ?at i), m_nBlockSize = 24\<rparr> = le32 p (?at i + j)"
    if "i < k" "28 + 24 * k \<le> length p" "j \<le> 20" for i j
    unfolding assms(1) by (rule block_field_at) (use that in auto)
  show ?thesis
  proof (cases "length p < 28 + 24 * k")
    case False
    have "GetRBCount ?r = of_nat k" by (simp add: GetRBCount_def)
    moreover have "\<exists>b. GetRB i ?r = Some b \<and> (let at = ?at i in GetSSRC mem b = le32 p at \<and> GetJitter mem b = le32 p (at + 12)
        \<and> GetLSR mem b = le32 p (at + 16) \<and> GetDLSR mem b = le32 p (at + 20))" if "i < k" for i
      using field [OF that, of 0] field [OF that, of 12] field [OF that, of 16] field [OF that, of 20] False that
      unfolding rb Let_def GetSSRC_def GetJitter_def GetLSR_def GetDLSR_def by simp
    moreover have "\<forall>i \<ge> k. GetRB i ?r = None" unfolding rb by simp
    ultimately show ?thesis unfolding init using False by (metis (no_types, lifting))
  qed (simp add: init)
qed

text \<open>A sender report with one block, and a receiver report with one block.\<close>

definition sample_sr :: "u8 list" where
  "sample_sr = [0x81, 200, 0, 12] @ [0, 0, 0, 9] @ [0x83, 0xAA, 0x7E, 0x80] @ [0x80, 0, 0, 0] @ [0, 0, 0, 5] @ [0, 0, 0, 0, 0, 0, 0, 0]
     @ [0, 0, 0, 7] @ replicate 20 0"

definition sample_rr :: "u8 list" where "sample_rr = [0x81, 201, 0, 7] @ [0, 0, 0, 9] @ [0, 0, 0, 7] @ replicate 20 0"

theorem report_blocks_read_witness:
  "(\<exists>r b. SR_InitPacket alloc_ok sample_sr 0 52 Report_new = Inr r \<and> GetRB 0 r = Some b \<and> GetSSRC sample_sr b = Inr 0x07000000)
   \<and> RR_InitPacket alloc_ok sample_rr 0 32 Report_new = Inl AssertFailed"
  using report_blocks_read [of sample_sr "[]" sample_sr "[]" alloc_ok 1 SR_InitPacket]
    report_blocks_read [of sample_rr "[]" sample_rr "[]" alloc_ok 1 RR_InitPacket]
  by (auto simp: sample_sr_def sample_rr_def rtcp_wf_def RTCP_PKT_LENGTH_def RTCP_PKT_RC_def be16_def byte_at_def le32_def alloc_ok Let_def)

section \<open>Statistics of a sender\<close>

lemma ntp_halves:
  "ucast (drop_bit 32 (push_bit 32 (ucast hi) OR ucast lo :: u64)) = (hi :: u32)"
  "ucast (push_bit 32 (ucast hi) OR ucast lo :: u64) = (lo :: u32)"
  "ucast (drop_bit 32 (push_bit 32 (ucast hi)) OR drop_bit 32 (ucast lo) :: u64) = hi"
  by ((rule bit_word_eqI, auto simp: bit_simps dest: bit_imp_le_length) [1])+

lemma sync_usec_bounds:
  "\<bar>int (sync_usec low) * 0x04000000 - int (unat low) * 15625\<bar> \<le> 0x02000000"
  "sync_usec low \<le> 1000000" "sync_usec low = 1000000 \<longleftrightarrow> unat low \<ge> 4294965149"
proof -
  have low: "unat low < 2 ^ LENGTH(32)" by (rule unsigned_less)
  let ?x = "unat low * 15625 + 0x02000000"
  have q: "sync_usec low * 0x04000000 + ?x mod 0x04000000 = ?x" "?x mod 0x04000000 < 0x04000000"
    by (simp_all add: sync_usec_def)
  show "\<bar>int (sync_usec low) * 0x04000000 - int (unat low) * 15625\<bar> \<le> 0x02000000" using q by linarith
  show "sync_usec low \<le> 1000000" "sync_usec low = 1000000 \<longleftrightarrow> unat low \<ge> 4294965149" using q low by auto
qed

text \<open>C16. What a sender report \<open>p\<close> leaves in the statistics. One without report blocks, of 28 bytes, fails an assertion, since the
  structure it is compared with has room for one. Otherwise the entry of its source becomes the NTP time, with the
  seconds counted from 1970 and the fraction \<open>lo\<close> rounded to the nearest microsecond; in the last half microsecond of a second these are
  1000000 of them, with the second not counted on. The entries of other sources stay as they were.\<close>

theorem sender_report_time:
  assumes "m_pRtcp sr = Some p" and "m_nRtcpSize sr = of_nat (length p)" and "length p < 65536"
    and "be32 p 4 = Inr ssrc" and "be32 p 8 = Inr hi" and "be32 p 12 = Inr lo" and "be32 p 16 = Inr ts"
  shows "if length p < 52 then db_ProcessIncomingSR now sr db = Inl AssertFailed
    else \<exists>st us. db_ProcessIncomingSR now sr db = Inr (db(ssrc \<mapsto> st))
      \<and> m_SyncTime st = \<lparr>tv_sec = hi - 2208988800, tv_usec = of_nat us\<rparr> \<and> m_nLastRTPTimestamp st = ts \<and> m_nLastReceivedSR_time st = now
      \<and> \<bar>int us * 2 ^ 32 - int (unat lo) * 1000000\<bar> \<le> 2 ^ 31 \<and> us \<le> 1000000 \<and> (us = 1000000 \<longleftrightarrow> unat lo \<ge> 2 ^ 32 - 2147)"
proof (cases "length p < 52")
  case True
  then show ?thesis using assms(2,3) by (simp add: db_ProcessIncomingSR_def SR_GetSSRC_def sr_field_def word_le_nat_alt unat_of_nat_u32)
next
  case False
  then have "\<not> unat (m_nRtcpSize sr) < 52" using assms(2,3) by (simp add: unat_of_nat_u32)
  then have field: "sr_field i sr = be32 p i" for i using assms(1) by (simp add: sr_field_def word_le_nat_alt)
  have "\<exists>st. db_ProcessIncomingSR now sr db = Inr (db(ssrc \<mapsto> st))
      \<and> m_SyncTime st = \<lparr>tv_sec = hi - 2208988800, tv_usec = of_nat (sync_usec lo)\<rparr> \<and> m_nLastRTPTimestamp st = ts \<and> m_nLastReceivedSR_time st = now"
    unfolding db_ProcessIncomingSR_def
    by (cases "db ssrc") (simp_all add: SR_GetSSRC_def field assms stats_Lookup_def stats_Add_def
      ProcessIncomingSR_def GetNTPTimestamp_def GetRTPTimestamp_def ntp_halves Let_def, (rule exI conjI refl | simp)+)
  moreover have "\<bar>int (sync_usec lo) * 2 ^ 32 - int (unat lo) * 1000000\<bar> \<le> 2 ^ 31" using sync_usec_bounds(1) [of lo] by simp
  ultimately show ?thesis using False sync_usec_bounds(2,3) [of lo] by (simp) blast
qed

theorem sender_report_time_witness:
  "\<exists>st us. db_ProcessIncomingSR \<lparr>tv_sec = 1, tv_usec = 2\<rparr> (Report_new\<lparr>m_pRtcp := Some sample_sr, m_nRtcpSize := 52\<rparr>) Map.empty = Inr [9 \<mapsto> st]
    \<and> m_SyncTime st = \<lparr>tv_sec = 0, tv_usec = of_nat us\<rparr> \<and> \<bar>int us * 2 ^ 32 - 2147483648 * 1000000\<bar> \<le> 2 ^ 31"
  using sender_report_time [of "Report_new\<lparr>m_pRtcp := Some sample_sr, m_nRtcpSize := 52\<rparr>" sample_sr 9 "0x83AA7E80" "0x80000000" 5 "\<lparr>tv_sec = 1, tv_usec = 2\<rparr>" Map.empty]
  by (auto simp: sample_sr_def be32_def)

section \<open>Members\<close>

abbreviation keys_sorted :: "(u32 \<times> u32) list \<Rightarrow> bool" where
  "keys_sorted xs \<equiv> sorted_wrt (<) (map fst xs)"

lemma map_put_sorted: "keys_sorted xs \<Longrightarrow> keys_sorted (map_put k v xs)"
proof (induction k v xs rule: map_put.induct)
  case (2 k v k' v' xs)
  have "set (map fst (map_put k v xs)) = insert k (set (map fst xs))" for xs
    by (induction k v xs rule: map_put.induct) auto
  then show ?case using 2 by (auto simp: order.strict_iff_not dest: order.strict_trans)
qed simp

lemma map_put_get: "keys_sorted xs \<Longrightarrow> map_of (map_put k v xs) = (map_of xs)(k \<mapsto> v)"
proof (induction k v xs rule: map_put.induct)
  case (2 k v k' v' xs)
  then show ?case by (auto simp: fun_eq_iff)
qed simp

lemma map_erase_get: "map_of (map_erase k xs) = (map_of xs)(k := None)"
  by (induction xs) (auto simp: map_erase_def fun_eq_iff)

lemma map_erase_sorted: "keys_sorted xs \<Longrightarrow> keys_sorted (map_erase k xs)"
  by (induction xs) (auto simp: map_erase_def)

text \<open>A run of the operations: \<open>NoteMembership\<close> with a time, or \<open>Remove\<close>.\<close>

definition member_op :: "u32 \<times> u32 option \<Rightarrow> RTCPMemberDB \<Rightarrow> RTCPMemberDB" where
  "member_op op db = (case op of (k, Some t) \<Rightarrow> snd (NoteMembership k t db) | (k, None) \<Rightarrow> snd (member_Remove k db))"

definition members_inv :: "RTCPMemberDB \<Rightarrow> bool" where
  "members_inv db \<longleftrightarrow> keys_sorted (m_map db) \<and> m_nNumMembers db = 1 + of_nat (card (dom (map_of (m_map db))))"

lemma member_op_map: "members_inv db \<Longrightarrow> map_of (m_map (member_op (k, v) db)) = (map_of (m_map db))(k := v)"
  by (auto simp: member_op_def members_inv_def NoteMembership_def member_Remove_def Let_def map_put_get map_erase_get split: option.splits)

lemma member_op_inv:
  assumes "members_inv db"
  shows "members_inv (member_op (k, v) db)"
proof -
  let ?m = "map_of (m_map db)"
  have fin: "finite (dom ?m)" by (rule finite_dom_map_of)
  have "card (dom (?m(k := v))) =
      (if v = None then card (dom ?m) - (if ?m k = None then 0 else 1) else card (dom ?m) + (if ?m k = None then 1 else 0))"
    using fin by (auto simp: domIff card_insert_if insert_absorb)
  moreover have "0 < card (dom ?m)" if "?m k \<noteq> None" using that fin by (auto simp: card_gt_0_iff)
  moreover have "m_nNumMembers (member_op (k, v) db) = m_nNumMembers db
      + (if v = None then (if ?m k = None then 0 else - 1) else (if ?m k = None then 1 else 0))"
    by (auto simp: member_op_def NoteMembership_def member_Remove_def IsMember_def Let_def split: option.splits)
  moreover have "keys_sorted (m_map (member_op (k, v) db))"
    using assms by (auto simp: members_inv_def member_op_def NoteMembership_def member_Remove_def Let_def map_put_sorted
        map_erase_sorted split: option.splits)
  ultimately show ?thesis using assms member_op_map [OF assms, of k v] by (auto simp: members_inv_def of_nat_diff)
qed

lemma member_ops:
  "members_inv db \<Longrightarrow> members_inv (fold member_op ops db)
    \<and> map_of (m_map (fold member_op ops db)) = fold (\<lambda>(k, v) m. m(k := v)) ops (map_of (m_map db))"
  by (induction ops arbitrary: db) (auto simp: member_op_map member_op_inv)

lemma ReapOldMembers_eq:
  assumes "members_inv db" "m_pKnownMembers s = Some db"
  shows "ReapOldMembers (Suc n) threshold s =
    (if \<exists>k t. map_of (m_map db) k = Some t \<and> t < threshold then Inl AssertFailed else Inr s)"
proof -
  let ?old = "\<lambda>(_ :: u32, t). t < threshold"
  have "distinct (map fst (m_map db))" using assms(1) by (simp add: members_inv_def strict_sorted_iff)
  then have "(\<exists>k t. map_of (m_map db) k = Some t \<and> t < threshold) \<longleftrightarrow> (\<exists>x \<in> set (m_map db). ?old x)"
    by (force simp: map_of_eq_Some_iff)
  moreover have "(\<exists>x \<in> set (m_map db). ?old x) \<longleftrightarrow> List.find ?old (m_map db) \<noteq> None" by (auto simp: find_None_iff)
  ultimately show ?thesis
    using assms(2) by (cases "List.find ?old (m_map db)") (simp_all add: RemoveSSRC_def case_prod_beta)
qed

text \<open>The members after some operations, and what was noted last of each source.\<close>

definition members_after :: "(u32 \<times> u32 option) list \<Rightarrow> RTCPMemberDB" where
  "members_after ops = fold member_op ops RTCPMemberDB_new"

definition noted :: "(u32 \<times> u32 option) list \<Rightarrow> u32 \<rightharpoonup> u32" where
  "noted ops = fold (\<lambda>(k, v) m. m(k := v)) ops Map.empty"

text \<open>C17. The members of a session, after any operations: the map holds what was noted last and not removed, the number of members is
  theirs and one for the session itself, and \<open>IsMember\<close> answers for them. \<open>ReapOldMembers\<close> is of use only when there is
  nothing to do: where a member is older than the threshold, the assertion of \<open>RemoveSSRC\<close> fails.\<close>

theorem members_counted:
  "map_of (m_map (members_after ops)) = noted ops \<and> m_nNumMembers (members_after ops) = 1 + of_nat (card (dom (noted ops)))
    \<and> IsMember ssrc (members_after ops) = (noted ops ssrc \<noteq> None)
    \<and> ReapOldMembers (Suc n) threshold (s\<lparr>m_pKnownMembers := Some (members_after ops)\<rparr>) =
        (if \<exists>k t. noted ops k = Some t \<and> t < threshold then Inl AssertFailed else Inr (s\<lparr>m_pKnownMembers := Some (members_after ops)\<rparr>))"
proof -
  have "members_inv RTCPMemberDB_new" by (simp add: members_inv_def RTCPMemberDB_new_def)
  from member_ops [OF this, of ops] have db: "members_inv (members_after ops)" "map_of (m_map (members_after ops)) = noted ops"
    by (simp_all add: members_after_def noted_def RTCPMemberDB_new_def)
  then show ?thesis using ReapOldMembers_eq [OF db(1), of "s\<lparr>m_pKnownMembers := Some (members_after ops)\<rparr>"]
    by (simp add: members_inv_def IsMember_def)
qed

end
