(* ===== verification/RtcpRules.thy ===== *)
theory RtcpRules
  imports RtcpPackets Complex_Main
begin

text \<open>
  The timing rules of RFC 3550: \<open>rtcp_from_spec.c\<close> and the functions of \<open>z3_rtcp_udp_session.cpp\<close> that it calls. The arithmetic of \<open>double\<close> is a
  parameter (\<open>fp\<close>), so what is shown of counters and events holds for every rounding; intervals and times are shown for rational numbers.
  A pointer to a variable is a pair of a read and a write of the state (\<open>cell\<close>), so that two arguments may point to the same variable. The functions that
  the rules assume are a record (\<open>rfc_functions\<close>); \<open>session_functions\<close> is what the session gives for them, over members that no class declares.
  The counters of members and senders, \<open>int\<close> in C, are integers without bound: 2147483647 members are not reached. Division by 0 gives 0 for
  rational numbers, where a \<open>double\<close> becomes infinite or no number: what is shown of times says nothing of the code for a bandwidth of 0.
\<close>

section \<open>Numbers\<close>

text \<open>The type \<open>double\<close>: its operations, its comparisons, the conversions from and to integers, and the number nearest to a literal.\<close>

record 'd fp =
  fp_add :: "'d \<Rightarrow> 'd \<Rightarrow> 'd"
  fp_sub :: "'d \<Rightarrow> 'd \<Rightarrow> 'd"
  fp_mul :: "'d \<Rightarrow> 'd \<Rightarrow> 'd"
  fp_div :: "'d \<Rightarrow> 'd \<Rightarrow> 'd"
  fp_less :: "'d \<Rightarrow> 'd \<Rightarrow> bool"
  fp_le :: "'d \<Rightarrow> 'd \<Rightarrow> bool"
  fp_int :: "int \<Rightarrow> 'd"
  fp_u32 :: "'d \<Rightarrow> u32"
  fp_lit :: "rat \<Rightarrow> 'd"

text \<open>Arithmetic on rational numbers, each result rounded by \<open>r\<close>.\<close>

definition rounded :: "(rat \<Rightarrow> rat) \<Rightarrow> rat fp" where
  "rounded r = \<lparr>fp_add = (\<lambda>x y. r (x + y)), fp_sub = (\<lambda>x y. r (x - y)), fp_mul = (\<lambda>x y. r (x * y)), fp_div = (\<lambda>x y. r (x / y)),
     fp_less = (<), fp_le = (\<le>), fp_int = (\<lambda>i. r (of_int i)), fp_u32 = (\<lambda>x. of_int \<lfloor>x\<rfloor>), fp_lit = r\<rparr>"

abbreviation exact :: "rat fp" where "exact \<equiv> rounded (\<lambda>x. x)"

section \<open>The rules of RFC 3550\<close>

definition RTCP_SENDER_BW_FRACTION :: rat where "RTCP_SENDER_BW_FRACTION = 1 / 4"

definition COMPENSATION :: "'d fp \<Rightarrow> 'd" where
  "COMPENSATION fp = fp_sub fp (fp_lit fp (271828 / 100000)) (fp_lit fp (3 / 2))"

text \<open>The bandwidth and the number of members among which it is shared.\<close>

definition bandwidth_share :: "'d fp \<Rightarrow> int \<Rightarrow> int \<Rightarrow> 'd \<Rightarrow> bool \<Rightarrow> 'd \<times> int" where
  "bandwidth_share fp members senders rtcp_bw we_sent =
     (let fraction = fp_lit fp RTCP_SENDER_BW_FRACTION in
      if senders > 0 \<and> fp_less fp (fp_int fp senders) (fp_mul fp (fp_int fp members) fraction)
      then if we_sent then (fp_mul fp rtcp_bw fraction, senders)
           else (fp_mul fp rtcp_bw (fp_sub fp (fp_int fp 1) fraction), members - senders)
      else (rtcp_bw, members))"

text \<open>\<open>drand48\<close> is what the call of \<open>drand48\<close> returns.\<close>

definition rtcp_interval :: "'d fp \<Rightarrow> 'd \<Rightarrow> int \<Rightarrow> int \<Rightarrow> 'd \<Rightarrow> bool \<Rightarrow> 'd \<Rightarrow> bool \<Rightarrow> 'd" where
  "rtcp_interval fp drand48 members senders rtcp_bw we_sent avg_rtcp_size initial =
     (let rtcp_min_time = (if initial then fp_div fp (fp_lit fp 5) (fp_int fp 2) else fp_lit fp 5);
          (rtcp_bw', n) = bandwidth_share fp members senders rtcp_bw we_sent;
          t = fp_div fp (fp_mul fp avg_rtcp_size (fp_int fp n)) rtcp_bw';
          t1 = (if fp_less fp t rtcp_min_time then rtcp_min_time else t);
          t2 = fp_mul fp t1 (fp_add fp drand48 (fp_lit fp (1 / 2)))
      in fp_div fp t2 (COMPENSATION fp))"

text \<open>A pointer to a variable of a state \<open>'w\<close>.\<close>

record ('w, 'a) cell =
  deref :: "'w \<Rightarrow> 'a"
  assign :: "'a \<Rightarrow> 'w \<Rightarrow> 'w"

text \<open>The functions that the rules assume, for packets \<open>'p\<close> and events \<open>'e\<close>.\<close>

record ('p, 'e, 'd, 'w) rfc_functions =
  f_drand48 :: "'w \<Rightarrow> 'd \<times> 'w"
  f_Schedule :: "'d \<Rightarrow> 'e \<Rightarrow> 'w \<Rightarrow> 'w outcome"
  f_Reschedule :: "'d \<Rightarrow> 'e \<Rightarrow> 'w \<Rightarrow> 'w outcome"
  f_SendRTCPReport :: "'e \<Rightarrow> 'w \<Rightarrow> 'w outcome"
  f_SendBYEPacket :: "'e \<Rightarrow> 'w \<Rightarrow> 'w outcome"
  f_TypeOfEvent :: "'e \<Rightarrow> 'w \<Rightarrow> int"
  f_SentPacketSize :: "'e \<Rightarrow> 'w \<Rightarrow> int"
  f_PacketType :: "'p \<Rightarrow> 'w \<Rightarrow> int"
  f_ReceivedPacketSize :: "'p \<Rightarrow> 'w \<Rightarrow> int"
  f_NewMember :: "'p \<Rightarrow> 'w \<Rightarrow> (int \<times> 'w) outcome"
  f_NewSender :: "'p \<Rightarrow> 'w \<Rightarrow> (int \<times> 'w) outcome"
  f_AddMember :: "'p \<Rightarrow> 'w \<Rightarrow> 'w outcome"
  f_AddSender :: "'p \<Rightarrow> 'w \<Rightarrow> 'w outcome"
  f_RemoveMember :: "'p \<Rightarrow> 'w \<Rightarrow> 'w outcome"
  f_RemoveSender :: "'p \<Rightarrow> 'w \<Rightarrow> 'w outcome"

definition EVENT_UNKNOWN :: int where "EVENT_UNKNOWN = 0"
definition EVENT_REPORT :: int where "EVENT_REPORT = 1"
definition EVENT_BYE :: int where "EVENT_BYE = 2"

definition PACKET_UNKNOWN_TYPE :: int where "PACKET_UNKNOWN_TYPE = 0"
definition PACKET_RTP :: int where "PACKET_RTP = 1"
definition PACKET_RTCP_REPORT :: int where "PACKET_RTCP_REPORT = 2"
definition PACKET_BYE :: int where "PACKET_BYE = 3"

lemmas rfc_codes = EVENT_UNKNOWN_def EVENT_REPORT_def EVENT_BYE_def PACKET_UNKNOWN_TYPE_def PACKET_RTP_def PACKET_RTCP_REPORT_def
  PACKET_BYE_def

text \<open>\<open>*avg_rtcp_size = (1./16.) * size + (15./16.) * (*avg_rtcp_size)\<close>.\<close>

definition average_size :: "'d fp \<Rightarrow> int \<Rightarrow> ('w, 'd) cell \<Rightarrow> 'w \<Rightarrow> 'w" where
  "average_size fp octets avg_rtcp_size w =
     assign avg_rtcp_size (fp_add fp (fp_mul fp (fp_lit fp (1 / 16)) (fp_int fp octets))
       (fp_mul fp (fp_lit fp (15 / 16)) (deref avg_rtcp_size w))) w"

text \<open>\<open>exit\<close> is defined as nothing in \<open>rtcp_from_spec.h\<close>.\<close>

definition OnExpire ::
    "'d fp \<Rightarrow> ('p, 'e, 'd, 'w) rfc_functions \<Rightarrow> 'e \<Rightarrow> int \<Rightarrow> int \<Rightarrow> 'd \<Rightarrow> bool \<Rightarrow> ('w, 'd) cell \<Rightarrow> ('w, int) cell \<Rightarrow> 'd \<Rightarrow> ('w, 'd) cell
       \<Rightarrow> ('w, int) cell \<Rightarrow> 'w \<Rightarrow> 'w outcome" where
  "OnExpire fp f e members senders rtcp_bw we_sent avg_rtcp_size initial tc tp pmembers w =
     (let interval = (\<lambda>u w. rtcp_interval fp u members senders rtcp_bw we_sent (deref avg_rtcp_size w) (deref initial w \<noteq> 0)) in
      if f_TypeOfEvent f e w = EVENT_BYE then
        let (u, w1) = f_drand48 f w; tn = fp_add fp (deref tp w1) (interval u w1) in
        if fp_le fp tn tc then f_SendBYEPacket f e w1 else f_Schedule f tn e w1
      else if f_TypeOfEvent f e w = EVENT_REPORT then
        let (u, w1) = f_drand48 f w; tn = fp_add fp (deref tp w1) (interval u w1) in
        bindE (if fp_le fp tn tc then
            bindE (f_SendRTCPReport f e w1) (\<lambda>w2.
              let w3 = assign tp tc (average_size fp (f_SentPacketSize f e w2) avg_rtcp_size w2);
                  (u', w4) = f_drand48 f w3
              in bindE (f_Schedule f (fp_add fp (interval u' w4) tc) e w4) (\<lambda>w5. Inr (assign initial 0 w5)))
          else f_Schedule f tn e w1) (\<lambda>w6. Inr (assign pmembers members w6))
      else Inr w)"

text \<open>\<open>if (NewX(p) && TypeOfEvent(e) == EVENT_REPORT) \<lbrace> AddX(p); *count += 1; \<rbrace>\<close> and
  \<open>if (NewX(p) == FALSE) \<lbrace> RemoveX(p); *count -= 1; \<rbrace>\<close>.\<close>

definition count_in :: "('w \<Rightarrow> (int \<times> 'w) outcome) \<Rightarrow> ('w \<Rightarrow> 'w outcome) \<Rightarrow> ('w \<Rightarrow> bool) \<Rightarrow> ('w, int) cell \<Rightarrow> 'w \<Rightarrow> 'w outcome" where
  "count_in is_new add_it reporting n w =
     bindE (is_new w) (\<lambda>(b, w1).
       if b \<noteq> 0 \<and> reporting w1 then bindE (add_it w1) (\<lambda>w2. Inr (assign n (deref n w2 + 1) w2)) else Inr w1)"

definition count_out :: "('w \<Rightarrow> (int \<times> 'w) outcome) \<Rightarrow> ('w \<Rightarrow> 'w outcome) \<Rightarrow> ('w, int) cell \<Rightarrow> 'w \<Rightarrow> 'w outcome" where
  "count_out is_new remove_it n w =
     bindE (is_new w) (\<lambda>(b, w1).
       if b = 0 then bindE (remove_it w1) (\<lambda>w2. Inr (assign n (deref n w2 - 1) w2)) else Inr w1)"

text \<open>Reverse reconsideration, when members have left.\<close>

definition reconsider ::
    "'d fp \<Rightarrow> ('p, 'e, 'd, 'w) rfc_functions \<Rightarrow> 'e \<Rightarrow> ('w, int) cell \<Rightarrow> ('w, int) cell \<Rightarrow> ('w, 'd) cell \<Rightarrow> 'd \<Rightarrow> 'd \<Rightarrow> 'w \<Rightarrow> 'w outcome" where
  "reconsider fp f e members pmembers tp tc tn w =
     (if deref members w < deref pmembers w then
        let q = fp_div fp (fp_int fp (deref members w)) (fp_int fp (deref pmembers w));
            tn' = fp_add fp tc (fp_mul fp q (fp_sub fp tn tc));
            w1 = assign tp (fp_sub fp tc (fp_mul fp q (fp_sub fp tc (deref tp w)))) w
        in bindE (f_Reschedule f tn' e w1) (\<lambda>w2. Inr (assign pmembers (deref members w2) w2))
      else Inr w)"

definition OnReceive ::
    "'d fp \<Rightarrow> ('p, 'e, 'd, 'w) rfc_functions \<Rightarrow> 'p \<Rightarrow> 'e \<Rightarrow> ('w, int) cell \<Rightarrow> ('w, int) cell \<Rightarrow> ('w, int) cell \<Rightarrow> ('w, 'd) cell
       \<Rightarrow> ('w, 'd) cell \<Rightarrow> 'd \<Rightarrow> 'd \<Rightarrow> 'w \<Rightarrow> 'w outcome" where
  "OnReceive fp f p e members pmembers senders avg_rtcp_size tp tc tn w =
     (let reporting = (\<lambda>w. f_TypeOfEvent f e w = EVENT_REPORT) in
      if f_PacketType f p w = PACKET_RTCP_REPORT then
        bindE (count_in (f_NewMember f p) (f_AddMember f p) reporting members w) (\<lambda>w1.
          Inr (average_size fp (f_ReceivedPacketSize f p w1) avg_rtcp_size w1))
      else if f_PacketType f p w = PACKET_RTP then
        bindE (count_in (f_NewMember f p) (f_AddMember f p) reporting members w)
          (count_in (f_NewSender f p) (f_AddSender f p) reporting senders)
      else if f_PacketType f p w = PACKET_BYE then
        let w1 = average_size fp (f_ReceivedPacketSize f p w) avg_rtcp_size w in
        if reporting w1 then
          bindE (count_out (f_NewSender f p) (f_RemoveSender f p) senders w1) (\<lambda>w2.
          bindE (count_out (f_NewMember f p) (f_RemoveMember f p) members w2)
            (reconsider fp f e members pmembers tp tc tn))
        else if f_TypeOfEvent f e w1 = EVENT_BYE then Inr (assign members (deref members w1 + 1) w1)
        else Inr w1
      else Inr w)"

section \<open>Properties of the interval\<close>

lemma rounded_simps:
  "fp_add (rounded r) x y = r (x + y)" "fp_sub (rounded r) x y = r (x - y)" "fp_mul (rounded r) x y = r (x * y)"
  "fp_div (rounded r) x y = r (x / y)" "fp_less (rounded r) x y = (x < y)" "fp_le (rounded r) x y = (x \<le> y)"
  "fp_int (rounded r) i = r (of_int i)" "fp_lit (rounded r) x = r x"
  by (simp_all add: rounded_def)

lemma interval_rounded:
  "rtcp_interval (rounded r) u members senders rtcp_bw we_sent avg initial =
    (let (bw, n) = bandwidth_share (rounded r) members senders rtcp_bw we_sent
     in r (r (max (if initial then r (r 5 / r 2) else r 5) (r (r (avg * r (of_int n)) / bw)) * r (u + r (1 / 2))) / COMPENSATION (rounded r)))"
  by (auto simp: rtcp_interval_def rounded_simps Let_def max_def split: prod.splits)

text \<open>With any rounding that keeps the order and does not change the few small numbers that occur: the interval is between a half and one and a half
  times the larger of the minimum (5 seconds, or 2.5 for the first report) and the time in which the members that share the bandwidth send one
  packet each, divided by the compensation.\<close>

theorem rtcp_interval_bounds:
  assumes "mono r" and r: "r (1 / 2) = 1 / 2" "r (3 / 2) = 3 / 2" "r 2 = 2" "r 5 = 5" "r (5 / 2) = 5 / 2"
    and "0 < COMPENSATION (rounded r)" and "0 \<le> u" "u < 1" and share: "bandwidth_share (rounded r) members senders rtcp_bw we_sent = (bw, n)"
    and t0: "t0 = max (if initial then 5 / 2 else 5) (r (r (avg * r (of_int n)) / bw))"
    and t: "t = rtcp_interval (rounded r) u members senders rtcp_bw we_sent avg initial"
  shows "r (r (t0 * (1 / 2)) / COMPENSATION (rounded r)) \<le> t \<and> t \<le> r (r (t0 * (3 / 2)) / COMPENSATION (rounded r))"
proof -
  have "t = r (r (t0 * r (u + 1 / 2)) / COMPENSATION (rounded r))" unfolding t interval_rounded share t0 r by simp
  moreover have "1 / 2 \<le> r (u + 1 / 2)" "r (u + 1 / 2) \<le> 3 / 2"
    using monoD [OF assms(1), of "1 / 2" "u + 1 / 2"] monoD [OF assms(1), of "u + 1 / 2" "3 / 2"] r(1,2) assms(8,9) by simp_all
  moreover have "0 \<le> t0" using t0 by (simp add: max_def)
  moreover have "0 \<le> COMPENSATION (rounded r)" using assms(7) by simp
  ultimately show ?thesis by (metis monoD [OF assms(1)] divide_right_mono mult_left_mono)
qed

text \<open>A session of ten receivers, with the 5 percent of 64 kbit/s and packets of 100 bytes.\<close>

theorem rtcp_interval_bounds_witness:
  "250000 / 121828 \<le> rtcp_interval exact (1 / 4) 10 0 400 False 100 False \<and> rtcp_interval exact (1 / 4) 10 0 400 False 100 False \<le> 750000 / 121828"
  using rtcp_interval_bounds [of "\<lambda>x. x" "1 / 4" 10 0 400 False 400 10 5 False 100 "rtcp_interval exact (1 / 4) 10 0 400 False 100 False"]
  by (simp add: COMPENSATION_def rounded_simps bandwidth_share_def mono_def)

section \<open>Members and senders as sets\<close>

text \<open>The contract of the rules: a participant that keeps the sets of members and senders, and a packet with its source, type and size.\<close>

record 'd group =
  g_members :: "u32 set"
  g_senders :: "u32 set"
  n_members :: int
  n_senders :: int
  n_pmembers :: int
  n_avg :: 'd
  n_tp :: 'd
  g_rescheduled :: "'d list"

type_synonym rfc_packet = "u32 \<times> int \<times> int"

definition group_functions :: "(rfc_packet, unit, 'd, 'd group) rfc_functions" where
  "group_functions = \<lparr>f_drand48 = (\<lambda>w. (n_tp w, w)), f_Schedule = (\<lambda>t e w. Inr w),
     f_Reschedule = (\<lambda>t e w. Inr (w\<lparr>g_rescheduled := g_rescheduled w @ [t]\<rparr>)), f_SendRTCPReport = (\<lambda>e w. Inr w),
     f_SendBYEPacket = (\<lambda>e w. Inr w), f_TypeOfEvent = (\<lambda>e w. EVENT_REPORT), f_SentPacketSize = (\<lambda>e w. 0),
     f_PacketType = (\<lambda>(i, k, n) w. k), f_ReceivedPacketSize = (\<lambda>(i, k, n) w. n),
     f_NewMember = (\<lambda>(i, k, n) w. Inr (of_bool (i \<notin> g_members w), w)),
     f_NewSender = (\<lambda>(i, k, n) w. Inr (of_bool (i \<notin> g_senders w), w)),
     f_AddMember = (\<lambda>(i, k, n) w. Inr (w\<lparr>g_members := insert i (g_members w)\<rparr>)),
     f_AddSender = (\<lambda>(i, k, n) w. Inr (w\<lparr>g_senders := insert i (g_senders w)\<rparr>)),
     f_RemoveMember = (\<lambda>(i, k, n) w. Inr (w\<lparr>g_members := g_members w - {i}\<rparr>)),
     f_RemoveSender = (\<lambda>(i, k, n) w. Inr (w\<lparr>g_senders := g_senders w - {i}\<rparr>))\<rparr>"

definition group_receive :: "'d fp \<Rightarrow> 'd \<Rightarrow> 'd \<Rightarrow> rfc_packet \<Rightarrow> 'd group \<Rightarrow> 'd group outcome" where
  "group_receive fp tc tn p =
     OnReceive fp group_functions p () \<lparr>deref = n_members, assign = (\<lambda>x. n_members_update (\<lambda>_. x))\<rparr>
       \<lparr>deref = n_pmembers, assign = (\<lambda>x. n_pmembers_update (\<lambda>_. x))\<rparr> \<lparr>deref = n_senders, assign = (\<lambda>x. n_senders_update (\<lambda>_. x))\<rparr>
       \<lparr>deref = n_avg, assign = (\<lambda>x. n_avg_update (\<lambda>_. x))\<rparr> \<lparr>deref = n_tp, assign = (\<lambda>x. n_tp_update (\<lambda>_. x))\<rparr> tc tn"

fun group_receive_all :: "'d fp \<Rightarrow> ('d \<times> 'd \<times> rfc_packet) list \<Rightarrow> 'd group \<Rightarrow> 'd group outcome" where
  "group_receive_all fp [] w = Inr w"
| "group_receive_all fp ((tc, tn, p) # ps) w = bindE (group_receive fp tc tn p w) (group_receive_all fp ps)"

text \<open>The sets after a packet.\<close>

fun sets_after :: "rfc_packet \<Rightarrow> u32 set \<times> u32 set \<Rightarrow> u32 set \<times> u32 set" where
  "sets_after (i, k, n) (ms, ss) =
     (if k = PACKET_RTP then (insert i ms, insert i ss)
      else if k = PACKET_RTCP_REPORT then (insert i ms, ss)
      else if k = PACKET_BYE then (ms - {i}, ss - {i})
      else (ms, ss))"

definition group_inv :: "'d group \<Rightarrow> bool" where
  "group_inv w \<longleftrightarrow> finite (g_members w) \<and> g_senders w \<subseteq> g_members w \<and> n_members w = int (card (g_members w))
     \<and> n_senders w = int (card (g_senders w)) \<and> n_pmembers w \<le> n_members w"

lemma group_step:
  assumes "group_inv w"
  shows "\<exists>w'. group_receive fp tc tn p w = Inr w' \<and> group_inv w'
    \<and> (g_members w', g_senders w') = sets_after p (g_members w, g_senders w)"
proof -
  obtain i k n where p: "p = (i, k, n)" by (cases p)
  have f: "finite (g_senders w)" using assms finite_subset by (auto simp: group_inv_def)
  have c: "i \<in> g_members w \<Longrightarrow> int (card (g_members w - {i})) = int (card (g_members w)) - 1"
    "i \<in> g_senders w \<Longrightarrow> int (card (g_senders w - {i})) = int (card (g_senders w)) - 1"
    using assms f card_Suc_Diff1 [of "g_members w" i] card_Suc_Diff1 [of "g_senders w" i] unfolding group_inv_def by linarith+
  show ?thesis using assms f c
    by (auto simp: p group_receive_def OnReceive_def group_functions_def count_in_def count_out_def average_size_def reconsider_def
      group_inv_def rfc_codes Let_def insert_absorb)
qed

text \<open>C19. The rules keep their counters right: whatever packets arrive, of members, of senders, of strangers and with BYE, in any order, the number of members and the
  number of senders are those of the sets of the participants heard of and not gone, every sender is a member, and the number of members at the
  last reconsideration is not above the present one.\<close>

theorem rules_count:
  assumes "group_inv w"
  shows "\<exists>w'. group_receive_all fp ps w = Inr w' \<and> group_inv w'
    \<and> (g_members w', g_senders w') = fold (\<lambda>(tc, tn, p). sets_after p) ps (g_members w, g_senders w)"
  using assms
proof (induction ps arbitrary: w)
  case (Cons a ps)
  obtain tc tn p where a: "a = (tc, tn, p)" by (cases a)
  obtain w1 where "group_receive fp tc tn p w = Inr w1" "group_inv w1"
      "(g_members w1, g_senders w1) = sets_after p (g_members w, g_senders w)"
    using group_step [OF Cons.prems] by blast
  then show ?case using Cons.IH [of w1] by (simp add: a)
qed simp

theorem rules_count_witness:
  "\<exists>w'. group_receive_all exact [(1, 2, 7, PACKET_RTP, 100), (1, 2, 8, PACKET_RTCP_REPORT, 90), (3, 4, 7, PACKET_BYE, 50)]
      \<lparr>g_members = {5}, g_senders = {}, n_members = 1, n_senders = 0, n_pmembers = 1, n_avg = 100, n_tp = 0, g_rescheduled = []\<rparr> = Inr w'
    \<and> n_members w' = 2 \<and> n_senders w' = 0"
proof -
  let ?w = "\<lparr>g_members = {5}, g_senders = {}, n_members = 1, n_senders = 0, n_pmembers = 1, n_avg = 100, n_tp = 0, g_rescheduled = []\<rparr> :: rat group"
  have "group_inv ?w" by (simp add: group_inv_def)
  then obtain w' where w': "group_receive_all exact [(1, 2, 7, PACKET_RTP, 100), (1, 2, 8, PACKET_RTCP_REPORT, 90), (3, 4, 7, PACKET_BYE, 50)] ?w = Inr w'"
      "group_inv w'" "g_members w' = {8, 5}" "g_senders w' = {}"
    using rules_count [of ?w exact "[(1, 2, 7, PACKET_RTP, 100), (1, 2, 8, PACKET_RTCP_REPORT, 90), (3, 4, 7, PACKET_BYE, 50)]"]
    by (auto simp: rfc_codes insert_Diff_if simp del: group_receive_all.simps)
  then show ?thesis by (simp add: group_inv_def)
qed

section \<open>When reports are sent\<close>

text \<open>A participant that counts what it sends and keeps the times for which it has asked to be called.\<close>

record 'd participant =
  x_type :: int
  x_avg :: 'd
  x_tp :: 'd
  x_initial :: int
  x_pmembers :: int
  x_draws :: "nat \<Rightarrow> 'd"
  x_drawn :: nat
  x_reports :: nat
  x_byes :: nat
  x_timers :: "'d list"

definition participant_functions :: "int \<Rightarrow> (unit, unit, 'd, 'd participant) rfc_functions" where
  "participant_functions octets = \<lparr>f_drand48 = (\<lambda>w. (x_draws w (x_drawn w), w\<lparr>x_drawn := Suc (x_drawn w)\<rparr>)),
     f_Schedule = (\<lambda>t e w. Inr (w\<lparr>x_timers := x_timers w @ [t]\<rparr>)), f_Reschedule = (\<lambda>t e w. Inr (w\<lparr>x_timers := x_timers w @ [t]\<rparr>)),
     f_SendRTCPReport = (\<lambda>e w. Inr (w\<lparr>x_reports := Suc (x_reports w)\<rparr>)), f_SendBYEPacket = (\<lambda>e w. Inr (w\<lparr>x_byes := Suc (x_byes w)\<rparr>)),
     f_TypeOfEvent = (\<lambda>e. x_type), f_SentPacketSize = (\<lambda>e w. octets), f_PacketType = (\<lambda>p w. PACKET_UNKNOWN_TYPE),
     f_ReceivedPacketSize = (\<lambda>p w. 0), f_NewMember = (\<lambda>p w. Inr (0, w)), f_NewSender = (\<lambda>p w. Inr (0, w)), f_AddMember = (\<lambda>p. Inr),
     f_AddSender = (\<lambda>p. Inr), f_RemoveMember = (\<lambda>p. Inr), f_RemoveSender = (\<lambda>p. Inr)\<rparr>"

definition participant_expire :: "'d fp \<Rightarrow> int \<Rightarrow> int \<Rightarrow> int \<Rightarrow> 'd \<Rightarrow> bool \<Rightarrow> 'd \<Rightarrow> 'd participant \<Rightarrow> 'd participant outcome" where
  "participant_expire fp octets members senders bw we_sent tc =
     OnExpire fp (participant_functions octets) () members senders bw we_sent \<lparr>deref = x_avg, assign = (\<lambda>x. x_avg_update (\<lambda>_. x))\<rparr>
       \<lparr>deref = x_initial, assign = (\<lambda>x. x_initial_update (\<lambda>_. x))\<rparr> tc \<lparr>deref = x_tp, assign = (\<lambda>x. x_tp_update (\<lambda>_. x))\<rparr>
       \<lparr>deref = x_pmembers, assign = (\<lambda>x. x_pmembers_update (\<lambda>_. x))\<rparr>"

lemma interval_exact_ge:
  assumes "0 \<le> u"
  shows "(if initial then 125000 else 250000) / 121828 \<le> rtcp_interval exact u members senders bw we_sent avg initial"
proof -
  obtain bw' n where s: "bandwidth_share exact members senders bw we_sent = (bw', n)" by fastforce
  let ?x = "avg * of_int n / bw'"
  have x: "rtcp_interval exact u members senders bw we_sent avg initial =
      max (if initial then 5 / 2 else 5) ?x * (u + 1 / 2) / (121828 / 100000)"
    by (simp add: interval_rounded COMPENSATION_def rounded_simps s)
  have "(if initial then 5 / 2 else 5) * (1 / 2) \<le> max (if initial then 5 / 2 else 5) ?x * (u + 1 / 2)"
    using assms by (intro mult_mono) auto
  from divide_right_mono [OF this, of "121828 / 100000"] show ?thesis unfolding x by (auto split: if_splits)
qed

lemmas participant_defs = participant_expire_def OnExpire_def participant_functions_def rounded_simps rfc_codes

text \<open>C20. When the timer of a report is over, with exact arithmetic: another timer is set, for later, so reports never cease, whatever \<open>drand48\<close> draws. A report is sent
  now if the interval drawn has passed since the last one, which is at least 2.05 seconds (half of that before the first), and otherwise put off to
  that moment. The timer of a BYE sends the BYE and sets no timer any more, or is put off in the same way. (For a
  bandwidth other than 0.)\<close>

theorem expiry_schedules:
  assumes "\<forall>k. 0 \<le> x_draws w k"
    and "t = rtcp_interval exact (x_draws w (x_drawn w)) members senders bw we_sent (x_avg w) (x_initial w \<noteq> 0)"
  shows "\<exists>w'. participant_expire exact octets members senders bw we_sent tc w = Inr w'
    \<and> (x_type w = EVENT_REPORT \<longrightarrow> x_pmembers w' = members \<and> (\<exists>t'. x_timers w' = x_timers w @ [t'] \<and> tc < t')
        \<and> (if x_tp w + t \<le> tc
           then x_reports w' = Suc (x_reports w) \<and> x_tp w' = tc \<and> x_initial w' = 0
             \<and> x_tp w + (if x_initial w = 0 then 250000 else 125000) / 121828 \<le> tc
           else x_reports w' = x_reports w \<and> x_tp w' = x_tp w \<and> x_initial w' = x_initial w \<and> x_timers w' = x_timers w @ [x_tp w + t]))
    \<and> (x_type w = EVENT_BYE \<longrightarrow> x_byes w' = x_byes w + of_bool (x_tp w + t \<le> tc)
        \<and> x_timers w' = (if x_tp w + t \<le> tc then x_timers w else x_timers w @ [x_tp w + t]))"
proof -
  have i: "(if b then 125000 else 250000) / 121828 \<le> rtcp_interval exact (x_draws w k) members senders bw we_sent avg b" for k avg b
    using assms(1) interval_exact_ge by blast
  then have pos: "0 < rtcp_interval exact (x_draws w k) members senders bw we_sent avg b" for k avg b
    by (rule less_le_trans [rotated]) simp
  show ?thesis using i [of "x_initial w \<noteq> 0" "x_drawn w" "x_avg w"] pos assms(2)
    by (auto simp: participant_defs average_size_def Let_def)
qed

theorem expiry_schedules_witness:
  "\<exists>w'. participant_expire exact 80 10 0 400 False 10 \<lparr>x_type = EVENT_REPORT, x_avg = 100, x_tp = 0, x_initial = 1, x_pmembers = 1,
      x_draws = (\<lambda>k. 1 / 4), x_drawn = 0, x_reports = 0, x_byes = 0, x_timers = []\<rparr> = Inr w'
    \<and> x_reports w' = 1 \<and> x_tp w' = 10 \<and> length (x_timers w') = 1"
proof -
  let ?w = "\<lparr>x_type = EVENT_REPORT, x_avg = 100, x_tp = 0, x_initial = 1, x_pmembers = 1,
      x_draws = (\<lambda>k. 1 / 4), x_drawn = 0, x_reports = 0, x_byes = 0, x_timers = []\<rparr> :: rat participant"
  let ?t = "rtcp_interval exact (x_draws ?w (x_drawn ?w)) 10 0 400 False (x_avg ?w) (x_initial ?w \<noteq> 0)"
  have "?t \<le> 10" by (simp add: interval_rounded COMPENSATION_def rounded_simps bandwidth_share_def)
  then show ?thesis using expiry_schedules [of ?w ?t 10 0 400 False 80 10] by (auto simp: rfc_codes)
qed

section \<open>The session behind the rules\<close>

text \<open>The members of \<open>RTCPUDPSession\<close> for the rules.\<close>

record 'd timed_session =
  rtcp :: RTCPUDPSession
  m_nPrevNumMembers :: int
  m_dbAveRTCPSize :: 'd
  m_dbPrevReportTime :: 'd
  m_dbNextReportTime :: 'd

text \<open>The constructor does not initialise \<open>m_nPrevNumMembers\<close>; \<open>junk\<close> is what it holds.\<close>

definition timed_session_new :: "'d fp \<Rightarrow> int \<Rightarrow> 'd timed_session" where
  "timed_session_new fp junk = \<lparr>rtcp = RTCPUDPSession_new, m_nPrevNumMembers = junk, m_dbAveRTCPSize = fp_lit fp 0, m_dbPrevReportTime = fp_lit fp 0,
     m_dbNextReportTime = fp_lit fp 0\<rparr>"

text \<open>Functions that the file calls and nothing declares: members of the session, \<open>AddTimer\<close> with one argument, and \<open>drand30\<close>.\<close>

record 'd undeclared =
  typeOfEvent :: "'d timed_session \<Rightarrow> int"
  packetType :: "'d timed_session \<Rightarrow> int"
  sentPacketSize :: "'d timed_session \<Rightarrow> int"
  receivedPacketSize :: "'d timed_session \<Rightarrow> int"
  checkNewSSRC :: "'d timed_session \<Rightarrow> (int \<times> 'd timed_session) outcome"
  removeLastReceivedSSRC :: "'d timed_session \<Rightarrow> 'd timed_session outcome"
  sendReport :: "'d timed_session \<Rightarrow> 'd timed_session outcome"
  sendBYE :: "'d timed_session \<Rightarrow> 'd timed_session outcome"
  reschedule :: "'d \<Rightarrow> 'd timed_session \<Rightarrow> 'd timed_session outcome"
  u_AddTimer :: "u32 \<Rightarrow> 'd timed_session \<Rightarrow> 'd timed_session outcome"
  drand30 :: "'d timed_session \<Rightarrow> 'd \<times> 'd timed_session"

definition dTimeNow :: "'d fp \<Rightarrow> timeval \<Rightarrow> 'd" where
  "dTimeNow fp now = fp_add fp (fp_int fp (sint (tv_sec now))) (fp_div fp (fp_int fp (sint (tv_usec now))) (fp_lit fp 1000000))"

definition session_Schedule :: "'d fp \<Rightarrow> 'd undeclared \<Rightarrow> timeval \<Rightarrow> 'd \<Rightarrow> 'd timed_session \<Rightarrow> 'd timed_session outcome" where
  "session_Schedule fp u now dbNextTime =
     u_AddTimer u (fp_u32 fp (fp_mul fp (fp_sub fp dbNextTime (dTimeNow fp now)) (fp_int fp 1000)))"

text \<open>\<open>packet\<close> and \<open>event\<close> are pointers to the session. The state of the rules is the session and the two variables of the caller.\<close>

datatype session_ptr = NULL_ptr | This_ptr

record 'd receive_frame =
  this :: "'d timed_session"
  nMembers :: int
  nSenders :: int

definition on_this :: "('d timed_session \<Rightarrow> 'd timed_session outcome) \<Rightarrow> 'd receive_frame \<Rightarrow> 'd receive_frame outcome" where
  "on_this g w = bindE (g (this w)) (\<lambda>s. Inr (w\<lparr>this := s\<rparr>))"

definition unless_NULL :: "session_ptr \<Rightarrow> 'a \<Rightarrow> 'a \<Rightarrow> 'a" where
  "unless_NULL p dflt x = (case p of NULL_ptr \<Rightarrow> dflt | This_ptr \<Rightarrow> x)"

definition session_functions :: "'d fp \<Rightarrow> 'd undeclared \<Rightarrow> timeval \<Rightarrow> (session_ptr, session_ptr, 'd, 'd receive_frame) rfc_functions" where
  "session_functions fp u now = \<lparr>
     f_drand48 = (\<lambda>w. let (x, s) = drand30 u (this w) in (x, w\<lparr>this := s\<rparr>)),
     f_Schedule = (\<lambda>t e w. unless_NULL e (Inr w) (on_this (session_Schedule fp u now t) w)),
     f_Reschedule = (\<lambda>t e w. unless_NULL e (Inr w) (on_this (reschedule u t) w)),
     f_SendRTCPReport = (\<lambda>e w. unless_NULL e (Inr w) (on_this (sendReport u) w)),
     f_SendBYEPacket = (\<lambda>e w. unless_NULL e (Inr w) (on_this (sendBYE u) w)),
     f_TypeOfEvent = (\<lambda>e w. unless_NULL e EVENT_UNKNOWN (typeOfEvent u (this w))),
     f_SentPacketSize = (\<lambda>e w. unless_NULL e 0 (sentPacketSize u (this w))),
     f_PacketType = (\<lambda>p w. unless_NULL p PACKET_UNKNOWN_TYPE (packetType u (this w))),
     f_ReceivedPacketSize = (\<lambda>p w. unless_NULL p 0 (receivedPacketSize u (this w))),
     f_NewMember = (\<lambda>p w. unless_NULL p (Inr (0, w)) (bindE (checkNewSSRC u (this w)) (\<lambda>(b, s). Inr (b, w\<lparr>this := s\<rparr>)))),
     f_NewSender = (\<lambda>p w. Inr (0, w)),
     f_AddMember = (\<lambda>p w. Inr w),
     f_AddSender = (\<lambda>p w. Inr w),
     f_RemoveMember = (\<lambda>p w. unless_NULL p (Inr w) (on_this (removeLastReceivedSSRC u) w)),
     f_RemoveSender = (\<lambda>p w. Inr w)\<rparr>"

text \<open>\<open>RTCPUDPSession::OnReceive\<close>: the call passes \<open>&nMembers, &nSenders, &m_nPrevNumMembers\<close> for \<open>members, pmembers, senders\<close>.\<close>

definition session_rules :: "'d fp \<Rightarrow> 'd undeclared \<Rightarrow> timeval \<Rightarrow> u32 \<Rightarrow> 'd timed_session \<Rightarrow> 'd timed_session outcome" where
  "session_rules fp u now nNumMembers s =
     bindE (OnReceive fp (session_functions fp u now) This_ptr This_ptr
         \<lparr>deref = nMembers, assign = (\<lambda>x. nMembers_update (\<lambda>_. x))\<rparr>
         \<lparr>deref = nSenders, assign = (\<lambda>x. nSenders_update (\<lambda>_. x))\<rparr>
         \<lparr>deref = \<lambda>w. m_nPrevNumMembers (this w), assign = (\<lambda>x. this_update (m_nPrevNumMembers_update (\<lambda>_. x)))\<rparr>
         \<lparr>deref = \<lambda>w. m_dbAveRTCPSize (this w), assign = (\<lambda>x. this_update (m_dbAveRTCPSize_update (\<lambda>_. x)))\<rparr>
         \<lparr>deref = \<lambda>w. m_dbPrevReportTime (this w), assign = (\<lambda>x. this_update (m_dbPrevReportTime_update (\<lambda>_. x)))\<rparr>
         (dTimeNow fp now) (m_dbNextReportTime s) \<lparr>this = s, nMembers = sint nNumMembers, nSenders = 0\<rparr>)
       (\<lambda>w'. Inr (this w'))"

definition timed_OnReceive :: "'d fp \<Rightarrow> 'd undeclared \<Rightarrow> timeval \<Rightarrow> u8 \<Rightarrow> u32 \<Rightarrow> u32 \<Rightarrow> 'd timed_session \<Rightarrow> 'd timed_session outcome" where
  "timed_OnReceive fp u now nPayloadType nTotalBytes nSSRC s =
     (let s1 = s\<lparr>rtcp := (rtcp s)\<lparr>m_nPayloadType := nPayloadType, m_nLastReceivedSize := nTotalBytes, m_nLastReceivedSSRC := nSSRC\<rparr>\<rparr>
      in session_rules fp u now (NumMembers (rtcp s1)) s1)"

text \<open>What theory \<open>Rtcp\<close> has as a parameter.\<close>

lemma OnReceive_of_Rtcp:
  "RTCPUDPSession_OnReceive (\<lambda>n r. map_sum id rtcp (session_rules fp u now n (s\<lparr>rtcp := r\<rparr>))) pt n i (rtcp s)
    = map_sum id rtcp (timed_OnReceive fp u now pt n i s)"
  by (simp add: RTCPUDPSession_OnReceive_def timed_OnReceive_def Let_def)

text \<open>A session whose \<open>checkNewSSRC\<close> and \<open>removeLastReceivedSSRC\<close> are \<open>CheckNewSSRC\<close> and \<open>RemoveSSRC\<close> of the class, and which waits to send a report.\<close>

definition class_functions :: "'d undeclared \<Rightarrow> bool" where
  "class_functions u \<longleftrightarrow>
     checkNewSSRC u = (\<lambda>s. bindE (CheckNewSSRC (rtcp s)) (\<lambda>(b, r). Inr (of_bool b, s\<lparr>rtcp := r\<rparr>)))
     \<and> removeLastReceivedSSRC u = (\<lambda>s. bindE (RemoveSSRC (m_nLastReceivedSSRC (rtcp s)) False (rtcp s)) (\<lambda>r. Inr (s\<lparr>rtcp := r\<rparr>)))
     \<and> typeOfEvent u = (\<lambda>s. EVENT_REPORT)"

lemmas session_simps = session_functions_def on_this_def unless_NULL_def count_in_def count_out_def average_size_def

lemma functions_without_reschedule [simp]:
  "f_NewMember (session_functions fp (u\<lparr>reschedule := g\<rparr>) now) = f_NewMember (session_functions fp u now)"
  "f_NewSender (session_functions fp (u\<lparr>reschedule := g\<rparr>) now) = f_NewSender (session_functions fp u now)"
  "f_AddMember (session_functions fp (u\<lparr>reschedule := g\<rparr>) now) = f_AddMember (session_functions fp u now)"
  "f_AddSender (session_functions fp (u\<lparr>reschedule := g\<rparr>) now) = f_AddSender (session_functions fp u now)"
  "f_RemoveMember (session_functions fp (u\<lparr>reschedule := g\<rparr>) now) = f_RemoveMember (session_functions fp u now)"
  "f_RemoveSender (session_functions fp (u\<lparr>reschedule := g\<rparr>) now) = f_RemoveSender (session_functions fp u now)"
  "f_TypeOfEvent (session_functions fp (u\<lparr>reschedule := g\<rparr>) now) = f_TypeOfEvent (session_functions fp u now)"
  "f_PacketType (session_functions fp (u\<lparr>reschedule := g\<rparr>) now) = f_PacketType (session_functions fp u now)"
  "f_ReceivedPacketSize (session_functions fp (u\<lparr>reschedule := g\<rparr>) now) = f_ReceivedPacketSize (session_functions fp u now)"
  by (simp_all add: session_functions_def)

lemma members_left:
  assumes "count_out (f_NewMember (session_functions fp u now) p) (f_RemoveMember (session_functions fp u now) p)
      \<lparr>deref = nMembers, assign = (\<lambda>x. nMembers_update (\<lambda>_. x))\<rparr> w = Inr w'"
  shows "nMembers w - 1 \<le> nMembers w' \<and> nSenders w' = nSenders w"
  using assms by (cases p) (auto simp: session_simps bindE_Inr_iff split: if_splits)

lemma senders_left:
  "count_out (f_NewSender (session_functions fp u now) p) (f_RemoveSender (session_functions fp u now) p) c w = Inr (assign c (deref c w - 1) w)"
  by (simp add: session_simps)

lemma put_IsMember: "map_of (map_put k v xs) k = Some v"
  by (induction k v xs rule: map_put.induct) auto

text \<open>C18. The session never takes up its reports earlier because others have left, which is what the rule for BYE is there for: the
  call hands over the variable \<open>nSenders\<close>, which is 0, as the number of members at the last report, and \<open>m_nPrevNumMembers\<close>
  as the number of senders. So whatever \<open>reschedule\<close> would do, the result is the same, and each BYE counts \<open>m_nPrevNumMembers\<close>, which
  nothing has initialised, down by one. A BYE of a member removes it; a BYE of a stranger makes it a member.\<close>

theorem session_never_reconsiders:
  assumes "m_pKnownMembers (rtcp s) = Some db" and "0 < sint (m_nNumMembers db)"
  shows "timed_OnReceive fp (u\<lparr>reschedule := g\<rparr>) now pt n i s = timed_OnReceive fp (u\<lparr>reschedule := h\<rparr>) now pt n i s
    \<and> (class_functions u \<and> (\<forall>s. packetType u s = PACKET_BYE) \<longrightarrow>
      (\<exists>s' db'. timed_OnReceive fp u now pt n i s = Inr s' \<and> m_nPrevNumMembers s' = m_nPrevNumMembers s - 1
        \<and> m_dbPrevReportTime s' = m_dbPrevReportTime s \<and> m_pKnownMembers (rtcp s') = Some db' \<and> IsMember i db' = (\<not> IsMember i db)))"
proof (intro conjI impI)
  show "timed_OnReceive fp (u\<lparr>reschedule := g\<rparr>) now pt n i s = timed_OnReceive fp (u\<lparr>reschedule := h\<rparr>) now pt n i s"
    using assms unfolding timed_OnReceive_def session_rules_def OnReceive_def functions_without_reschedule Let_def senders_left
    by (auto intro!: bindE_cong dest!: members_left simp: reconsider_def NumMembers_def average_size_def)
next
  assume "class_functions u \<and> (\<forall>s. packetType u s = PACKET_BYE)"
  then show "\<exists>s' db'. timed_OnReceive fp u now pt n i s = Inr s' \<and> m_nPrevNumMembers s' = m_nPrevNumMembers s - 1
      \<and> m_dbPrevReportTime s' = m_dbPrevReportTime s \<and> m_pKnownMembers (rtcp s') = Some db' \<and> IsMember i db' = (\<not> IsMember i db)"
    using assms
    by (auto simp: timed_OnReceive_def session_rules_def OnReceive_def class_functions_def session_simps reconsider_def NumMembers_def CheckNewSSRC_def
      RemoveSSRC_def NoteMembership_def member_Remove_def Let_def rfc_codes IsMember_def put_IsMember map_erase_get)
qed

definition sample_undeclared :: "rat undeclared" where
  "sample_undeclared = \<lparr>typeOfEvent = (\<lambda>s. EVENT_REPORT), packetType = (\<lambda>s. PACKET_BYE), sentPacketSize = (\<lambda>s. 0), receivedPacketSize = (\<lambda>s. 36),
     checkNewSSRC = (\<lambda>s. bindE (CheckNewSSRC (rtcp s)) (\<lambda>(b, r). Inr (of_bool b, s\<lparr>rtcp := r\<rparr>))),
     removeLastReceivedSSRC = (\<lambda>s. bindE (RemoveSSRC (m_nLastReceivedSSRC (rtcp s)) False (rtcp s)) (\<lambda>r. Inr (s\<lparr>rtcp := r\<rparr>))),
     sendReport = Inr, sendBYE = Inr, reschedule = (\<lambda>t. Inr), u_AddTimer = (\<lambda>t. Inr), drand30 = (\<lambda>s. (0, s))\<rparr>"

theorem session_never_reconsiders_witness:
  "\<exists>s' db'. timed_OnReceive exact sample_undeclared \<lparr>tv_sec = 9, tv_usec = 0\<rparr> 203 36 5
      ((timed_session_new exact 0)\<lparr>rtcp := RTCPUDPSession_new\<lparr>m_pKnownMembers := Some \<lparr>m_nNumMembers = 2, m_map = [(5, 0)]\<rparr>\<rparr>\<rparr>) = Inr s'
    \<and> m_nPrevNumMembers s' = -1 \<and> m_pKnownMembers (rtcp s') = Some db' \<and> \<not> IsMember 5 db'"
proof -
  let ?s = "(timed_session_new exact 0)\<lparr>rtcp := RTCPUDPSession_new\<lparr>m_pKnownMembers := Some \<lparr>m_nNumMembers = 2, m_map = [(5, 0)]\<rparr>\<rparr>\<rparr>"
  have "class_functions sample_undeclared" "\<forall>s. packetType sample_undeclared s = PACKET_BYE"
    by (simp_all add: class_functions_def sample_undeclared_def)
  moreover have "IsMember 5 \<lparr>m_nNumMembers = 2, m_map = [(5, 0)]\<rparr>" by (simp add: IsMember_def)
  moreover have "m_nPrevNumMembers ?s = 0" by (simp add: timed_session_new_def)
  ultimately show ?thesis
    using session_never_reconsiders [where s = ?s and db = "\<lparr>m_nNumMembers = 2, m_map = [(5, 0)]\<rparr>" and fp = exact and u = sample_undeclared
        and now = "\<lparr>tv_sec = 9, tv_usec = 0\<rparr>" and pt = 203 and n = 36 and i = 5 and g = "\<lambda>t. Inr" and h = "\<lambda>t. Inr"]
    by auto
qed

end
