(* ===== verification/RtpSources.thy ===== *)
theory RtpSources
  imports Rtcp
begin

text \<open>
  \<open>rfc3550/rtp.c\<close> with the types of \<open>rfc3550/rtp.h\<close>: the state of a source of RTP packets and its sequence numbers, and source
  descriptions, written and read. The functions \<open>find_member\<close> and \<open>member_sdes\<close>, which the code calls and does not have, are
  recorded as calls. Memory is a list of bytes and a pointer an offset, as in \<open>Rtcp\<close>.
\<close>

section \<open>Sequence numbers\<close>

record source =
  max_seq :: u16
  cycles :: u32
  base_seq :: u32
  bad_seq :: u32
  probation :: u32
  received :: u32
  expected_prior :: u32
  received_prior :: u32
  transit :: u32
  jitter :: u32

definition RTP_SEQ_MOD :: nat where "RTP_SEQ_MOD = 65536"

definition init_seq :: "source \<Rightarrow> u16 \<Rightarrow> source" where
  "init_seq s seq = s\<lparr>base_seq := ucast seq, max_seq := seq, bad_seq := of_nat RTP_SEQ_MOD + 1, cycles := 0, received := 0,
     received_prior := 0, expected_prior := 0\<rparr>"

text \<open>\<open>seq == s->max_seq + 1\<close> and the comparisons of \<open>udelta\<close> are on \<open>int\<close>, so nothing wraps there; the difference itself is cut to 16
  bits.\<close>

definition update_seq :: "source \<Rightarrow> u16 \<Rightarrow> int \<times> source" where
  "update_seq s seq =
     (let udelta = seq - max_seq s in
      if probation s \<noteq> 0 then
        if unat seq = unat (max_seq s) + 1 then
          let s1 = s\<lparr>probation := probation s - 1, max_seq := seq\<rparr> in
          if probation s1 = 0 then let s2 = init_seq s1 seq in (1, s2\<lparr>received := received s2 + 1\<rparr>)
          else (0, s1)
        else (0, s\<lparr>probation := 2 - 1, max_seq := seq\<rparr>)
      else if unat udelta < 3000 then
        let s1 = (if seq < max_seq s then s\<lparr>cycles := cycles s + of_nat RTP_SEQ_MOD\<rparr> else s);
            s2 = s1\<lparr>max_seq := seq\<rparr>
        in (1, s2\<lparr>received := received s2 + 1\<rparr>)
      else if unat udelta \<le> RTP_SEQ_MOD - 100 then
        if ucast seq = bad_seq s then let s1 = init_seq s seq in (1, s1\<lparr>received := received s1 + 1\<rparr>)
        else (0, s\<lparr>bad_seq := (ucast seq + 1) AND of_nat (RTP_SEQ_MOD - 1)\<rparr>)
      else (1, s\<lparr>received := received s + 1\<rparr>))"

fun update_all :: "source \<Rightarrow> u16 list \<Rightarrow> int list \<times> source" where
  "update_all s [] = ([], s)"
| "update_all s (q # qs) = (let (r, s1) = update_seq s q; (rs, s2) = update_all s1 qs in (r # rs, s2))"

text \<open>The sender counts without bound; \<open>x\<close> arrives while \<open>e\<close> is the highest number so far.\<close>

definition near :: "nat \<Rightarrow> nat \<Rightarrow> bool" where
  "near e x \<longleftrightarrow> e < x + 100 \<and> x < e + 3000"

fun all_near :: "nat \<Rightarrow> nat list \<Rightarrow> bool" where
  "all_near e [] = True"
| "all_near e (x # xs) = (near e x \<and> all_near (max e x) xs)"

definition tracks :: "nat \<Rightarrow> nat \<Rightarrow> nat \<Rightarrow> source \<Rightarrow> bool" where
  "tracks n0 e k s \<longleftrightarrow> probation s = 0 \<and> n0 \<le> e \<and> max_seq s = of_nat e
     \<and> cycles s = of_nat ((e div 65536 - n0 div 65536) * 65536) \<and> base_seq s = of_nat (n0 mod 65536) \<and> received s = of_nat k"

lemma unat_u16: "unat (of_nat n :: u16) = n mod 65536"
  by (simp add: unat_of_nat)

lemma ahead:
  assumes "e \<le> x" "x < e + 3000"
  shows "unat (of_nat x - of_nat e :: u16) = x - e"
    and "(of_nat x :: u16) < of_nat e \<longleftrightarrow> x div 65536 = e div 65536 + 1"
    and "x div 65536 = e div 65536 + of_bool ((of_nat x :: u16) < of_nat e)"
proof -
  have "of_nat x - of_nat e = (of_nat (x - e) :: u16)" using assms by simp
  then show "unat (of_nat x - of_nat e :: u16) = x - e" using assms by (simp only: unat_u16) simp
  define a b c d where defs: "a = x div 65536" "b = x mod 65536" "c = e div 65536" "d = e mod 65536"
  then have eqs: "x = 65536 * a + b" "e = 65536 * c + d" "b < 65536" "d < 65536" by simp_all
  have u: "(of_nat x :: u16) < of_nat e \<longleftrightarrow> b < d" by (simp only: word_less_nat_alt unat_u16 defs)
  have "a = c \<and> d \<le> b \<or> a = c + 1 \<and> b < d" using assms eqs by linarith
  then show "(of_nat x :: u16) < of_nat e \<longleftrightarrow> x div 65536 = e div 65536 + 1"
    "x div 65536 = e div 65536 + of_bool ((of_nat x :: u16) < of_nat e)"
    unfolding u defs(1,3) [symmetric] by auto
qed

lemma behind:
  assumes "x < e" "e < x + 100"
  shows "unat (of_nat x - of_nat e :: u16) = 65536 - (e - x)"
proof -
  have "of_nat x - of_nat e = (of_nat x + of_nat 65536 - of_nat e :: u16)" by simp
  also have "\<dots> = of_nat (65536 - (e - x))" using assms
    by (subst of_nat_add [symmetric], subst of_nat_diff [symmetric]) (auto intro!: arg_cong [of _ _ of_nat])
  finally show ?thesis using assms by (simp only: unat_u16) simp
qed

lemma update_near:
  assumes t: "tracks n0 e k s" and n: "near e x"
  shows "fst (update_seq s (of_nat x)) = 1 \<and> tracks n0 (max e x) (Suc k) (snd (update_seq s (of_nat x)))"
proof (cases "e \<le> x")
  case True
  then have x: "x < e + 3000" "x - e < 3000" using n by (auto simp: near_def)
  have d: "n0 div 65536 \<le> e div 65536" using t by (simp add: tracks_def div_le_mono)
  then show ?thesis using t True x ahead [OF True x(1)]
    by (simp add: tracks_def update_seq_def Let_def RTP_SEQ_MOD_def max_def algebra_simps)
next
  case False
  then have x: "x < e" "e < x + 100" using n by (simp_all add: near_def)
  have "65436 < unat (of_nat x - of_nat e :: u16)" using x unfolding behind [OF x] by linarith
  then show ?thesis using t x(1)
    by (simp add: tracks_def update_seq_def RTP_SEQ_MOD_def max_def)
qed

lemma update_all_near:
  "tracks n0 e k s \<Longrightarrow> all_near e xs \<Longrightarrow>
    fst (update_all s (map of_nat xs)) = replicate (length xs) 1
    \<and> tracks n0 (foldl max e xs) (k + length xs) (snd (update_all s (map of_nat xs)))"
proof (induction xs arbitrary: s e k)
  case (Cons x xs)
  note u = update_near [OF Cons.prems(1), of x]
  have n: "near e x" "all_near (max e x) xs" using Cons.prems(2) by simp_all
  show ?case using Cons.IH [OF _ n(2), of "Suc k" "snd (update_seq s (of_nat x))"] u n(1)
    by (simp add: case_prod_beta)
qed simp

lemma tracks_extended:
  assumes "tracks n0 e k s"
  shows "cycles s + ucast (max_seq s) - base_seq s = of_nat (e - n0)"
proof -
  have "n0 div 65536 \<le> e div 65536" using assms by (simp add: tracks_def div_le_mono)
  then obtain j where j: "e div 65536 = n0 div 65536 + j" using le_Suc_ex by blast
  have "e = 65536 * (n0 div 65536 + j) + e mod 65536" "n0 = 65536 * (n0 div 65536) + n0 mod 65536"
    unfolding j [symmetric] by simp_all
  moreover have "n0 \<le> e" using assms by (simp add: tracks_def)
  moreover have "e - n0 + r = j * 65536 + m" if "e = 65536 * (q + j) + m" "n0 = 65536 * q + r" "n0 \<le> e" for q r m
    using that by (simp add: add_mult_distrib2)
  ultimately have "e - n0 + n0 mod 65536 = j * 65536 + e mod 65536" by blast
  then have "of_nat (e - n0) + of_nat (n0 mod 65536) = (of_nat (j * 65536) + of_nat (e mod 65536) :: u32)"
    by (simp only: of_nat_add [symmetric])
  moreover have "ucast (max_seq s) = (of_nat (e mod 65536) :: u32)"
    using assms by (simp add: tracks_def unsigned_of_nat take_bit_eq_mod)
  ultimately show ?thesis using assms by (simp add: tracks_def j diff_eq_eq)
qed

text \<open>C21. A source that is about to become valid, and the packets that then arrive, each less than 100 numbers behind and less than
  3000 ahead of the highest so far, lost, doubled and in any order: each is accepted and counted, and the
  number of packets that the sender must have sent, which a reception report takes from \<open>cycles\<close>, \<open>max_seq\<close> and \<open>base_seq\<close>, is
  that of a sender who counts without bound, however often the 16 bits of the header wrap around.\<close>

theorem extended_sequence:
  assumes "probation s = 1" and "unat (max_seq s) + 1 = n0" and "n0 < 65536" and "all_near n0 xs"
    and "update_all s (map of_nat (n0 # xs)) = (rs, s')"
  shows "rs = replicate (length xs + 1) 1 \<and> max_seq s' = of_nat (foldl max n0 xs)
    \<and> cycles s' + ucast (max_seq s') - base_seq s' + 1 = of_nat (foldl max n0 xs - n0 + 1) \<and> received s' = of_nat (length xs + 1)"
proof -
  let ?s = "(init_seq (s\<lparr>probation := 0, max_seq := of_nat n0\<rparr>) (of_nat n0))\<lparr>received := 1\<rparr>"
  have "unat (of_nat n0 :: u16) = n0" using assms(3) by (simp add: unat_u16)
  then have u: "update_seq s (of_nat n0) = (1, ?s)" using assms(1,2)
    by (simp add: update_seq_def init_seq_def Let_def)
  have "tracks n0 n0 1 ?s" using assms(3) by (simp add: tracks_def init_seq_def unsigned_of_nat take_bit_eq_mod)
  from update_all_near [OF this assms(4)] have
    a: "fst (update_all ?s (map of_nat xs)) = replicate (length xs) 1" and
    b: "tracks n0 (foldl max n0 xs) (1 + length xs) (snd (update_all ?s (map of_nat xs)))" by auto
  show ?thesis using assms(5) a b tracks_extended [OF b] u by (auto simp: case_prod_beta tracks_def)
qed

theorem extended_sequence_witness:
  "\<exists>rs s'. update_all \<lparr>max_seq = 65533, cycles = 0, base_seq = 0, bad_seq = 0, probation = 1, received = 0, expected_prior = 0,
      received_prior = 0, transit = 0, jitter = 0\<rparr> (map of_nat [65534, 65537, 65535, 65538]) = (rs, s')
    \<and> rs = [1, 1, 1, 1] \<and> cycles s' + ucast (max_seq s') - base_seq s' + 1 = 5 \<and> received s' = 4"
proof -
  let ?s = "\<lparr>max_seq = 65533, cycles = 0, base_seq = 0, bad_seq = 0, probation = 1, received = 0, expected_prior = 0,
      received_prior = 0, transit = 0, jitter = 0\<rparr>"
  obtain rs s' where r: "update_all ?s (map of_nat (65534 # [65537, 65535, 65538])) = (rs, s')" by fastforce
  have "all_near 65534 [65537, 65535, 65538]" by (simp add: near_def)
  then have x: "rs = replicate (length [65537, 65535, 65538::nat] + 1) 1
    \<and> max_seq s' = of_nat (foldl max 65534 [65537, 65535, 65538])
    \<and> cycles s' + ucast (max_seq s') - base_seq s' + 1 = of_nat (foldl max 65534 [65537, 65535, 65538] - 65534 + 1)
    \<and> received s' = of_nat (length [65537, 65535, 65538::nat] + 1)"
    by (intro extended_sequence [OF _ _ _ _ r]) simp_all
  have "rs = [1, 1, 1, 1]" "received s' = 4" using x by simp_all
  moreover have "of_nat (foldl max 65534 [65537, 65535, 65538] - 65534 + 1) = (5 :: u32)" by simp
  moreover have "map of_nat (65534 # [65537, 65535, 65538]) = (map of_nat [65534, 65537, 65535, 65538] :: u16 list)" by (simp only:)
  ultimately show ?thesis using r x by metis
qed

lemma next_bad: "(ucast (q :: u16) + 1 :: u32) AND 65535 = ucast (q + 1)"
proof -
  have "(ucast q + 1 :: u32) AND mask 16 = take_bit 16 (ucast q + 1)" by (simp add: take_bit_eq_mask and.commute)
  also have "\<dots> = ucast (q + 1)"
    by transfer (simp add: take_bit_eq_mod mod_mod_cancel mod_add_left_eq)
  finally show ?thesis by (simp add: mask_numeral)
qed

definition jump :: "source \<Rightarrow> u16 \<Rightarrow> bool" where
  "jump s q \<longleftrightarrow> 3000 \<le> unat (q - max_seq s) \<and> unat (q - max_seq s) \<le> 65436"

text \<open>Two packets in sequence. A source in probation whose sequence is broken by the packet \<open>q\<close> becomes valid with the next packet if and only
  if that has the number \<open>q + 1\<close> as integers: the packet 0 does not follow 65535. A valid source that jumps is taken up again at the second packet
  of the new sequence, where the numbers do wrap around, and counts from there.\<close>

theorem two_in_sequence:
  "((probation s = 1 \<or> probation s = 2) \<and> unat q \<noteq> unat (max_seq s) + 1 \<longrightarrow>
     (\<exists>s'. update_all s [q, q'] = ([0, of_bool (unat q' = unat q + 1)], s')
       \<and> (if unat q' = unat q + 1 then probation s' = 0 \<and> base_seq s' = ucast q' \<and> received s' = 1 else probation s' = 1)))
   \<and> (probation s = 0 \<and> jump s q \<and> jump s (q + 1) \<and> ucast q \<noteq> bad_seq s \<longrightarrow>
     (\<exists>s'. update_all s [q, q + 1] = ([0, 1], s') \<and> probation s' = 0 \<and> base_seq s' = ucast (q + 1) \<and> max_seq s' = q + 1
       \<and> cycles s' = 0 \<and> received s' = 1))"
  by (auto simp: update_seq_def init_seq_def Let_def jump_def RTP_SEQ_MOD_def next_bad)

theorem two_in_sequence_witness:
  "\<exists>s' s''. update_all \<lparr>max_seq = 7, cycles = 0, base_seq = 0, bad_seq = 0, probation = 1, received = 0, expected_prior = 0,
      received_prior = 0, transit = 0, jitter = 0\<rparr> [65535, 0] = ([0, 0], s')
    \<and> update_all \<lparr>max_seq = 40000, cycles = 0, base_seq = 0, bad_seq = 0, probation = 0, received = 9, expected_prior = 0,
      received_prior = 0, transit = 0, jitter = 0\<rparr> [65535, 0] = ([0, 1], s'') \<and> base_seq s'' = 0 \<and> received s'' = 1"
proof -
  have z: "(65536 :: u16) = 0" by transfer simp
  show ?thesis using two_in_sequence [of "\<lparr>max_seq = 7, cycles = 0, base_seq = 0, bad_seq = 0, probation = 1, received = 0, expected_prior = 0,
      received_prior = 0, transit = 0, jitter = 0\<rparr>" 65535 0]
    two_in_sequence [of "\<lparr>max_seq = 40000, cycles = 0, base_seq = 0, bad_seq = 0, probation = 0, received = 9, expected_prior = 0,
      received_prior = 0, transit = 0, jitter = 0\<rparr>" 65535 0]
  by (auto simp: jump_def z simp del: update_all.simps)
qed

section \<open>Source descriptions\<close>

text \<open>Stores at an offset of a buffer, and a \<open>u_int32\<close> in the order of the machine.\<close>

definition store :: "nat \<Rightarrow> u8 list \<Rightarrow> u8 list \<Rightarrow> u8 list outcome" where
  "store i bs mem = (if i + length bs \<le> length mem then Inr (take i mem @ bs @ drop (i + length bs) mem) else Inl OutOfBounds)"

definition le32_bytes :: "u32 \<Rightarrow> u8 list" where
  "le32_bytes w = [ucast w, ucast (drop_bit 8 w), ucast (drop_bit 16 w), ucast (drop_bit 24 w)]"

definition RTP_MAX_SDES :: int where "RTP_MAX_SDES = 255"

text \<open>An item is \<open>(type[i], value[i], length[i])\<close>; the list has the first \<open>argc\<close> of them. A negative length is a huge one for
  \<open>memcpy\<close>.\<close>

type_synonym sdes_item = "u8 \<times> u8 list \<times> int"

fun write_items :: "sdes_item list \<Rightarrow> nat \<Rightarrow> u8 list \<Rightarrow> (nat \<times> u8 list) outcome" where
  "write_items [] rsp mem = Inr (rsp, mem)"
| "write_items ((type, value, n) # items) rsp mem =
     (let len = (if n > RTP_MAX_SDES then RTP_MAX_SDES else n) in
      bindE (store rsp [type] mem) (\<lambda>m1.
      bindE (store (rsp + 1) [of_int len] m1) (\<lambda>m2.
      if len < 0 \<or> int (length value) < len then Inl OutOfBounds
      else bindE (store (rsp + 2) (take (nat len) value) m2) (write_items items (rsp + 2 + nat len)))))"

definition rtp_write_sdes :: "nat \<Rightarrow> u32 \<Rightarrow> sdes_item list \<Rightarrow> u8 list \<Rightarrow> (nat \<times> u8 list) outcome" where
  "rtp_write_sdes b src items mem =
     bindE (store b (le32_bytes src) mem) (\<lambda>m.
     bindE (write_items items (b + 4) m) (\<lambda>(rsp, m').
       let pad = 4 - (rsp - b) mod 4 in
       bindE (store rsp (replicate pad 0) m') (\<lambda>m''. Inr (rsp + pad, m''))))"

text \<open>What the reader calls: \<open>find_member\<close>, whose result is the source of the items that follow, and \<open>member_sdes\<close>.\<close>

datatype sdes_call = FindMember u32 | MemberSdes u8 "u8 list"

function read_items :: "u8 list \<Rightarrow> nat \<Rightarrow> nat \<Rightarrow> (sdes_call list \<times> nat) outcome" where
  "read_items mem lim rsp =
     bindE (byte_at mem rsp) (\<lambda>type. if type = 0 then Inr ([], rsp) else
     bindE (byte_at mem (rsp + 1)) (\<lambda>len.
       let rspn = rsp + unat len + 2 in
       if rspn \<ge> lim then Inr ([], rspn)
       else bindE (read_items mem lim rspn) (\<lambda>(cs, rsp'). Inr (MemberSdes type (take (unat len) (drop (rsp + 2) mem)) # cs, rsp'))))"
  by pat_completeness auto
termination by (relation "measure (\<lambda>(mem, lim, rsp). lim - rsp)") auto

declare read_items.simps [simp del]

fun read_chunks :: "u8 list \<Rightarrow> nat \<Rightarrow> nat \<Rightarrow> nat \<Rightarrow> (sdes_call list \<times> bool) outcome" where
  "read_chunks mem lim 0 sd = Inr ([], True)"
| "read_chunks mem lim (Suc count) sd =
     (if sd + 4 \<ge> lim then Inr ([], False)
      else bindE (le32 mem sd) (\<lambda>src.
        bindE (read_items mem lim (sd + 4)) (\<lambda>(cs, rsp).
        bindE (read_chunks mem lim count (sd + ((rsp - sd) div 4 + 1) * 4)) (\<lambda>(cs', valid).
          Inr (FindMember src # cs @ cs', valid)))))"

text \<open>The packet is at \<open>r\<close>; \<open>count\<close> and \<open>len\<close> are the fields of its common header, and \<open>hdr\<close> the offset of the first chunk: where the
  bit fields end depends on the compiler. The flag says that the packet had its chunks.\<close>

definition rtp_read_sdes :: "u8 list \<Rightarrow> nat \<Rightarrow> nat \<Rightarrow> nat \<Rightarrow> u16 \<Rightarrow> (sdes_call list \<times> bool) outcome" where
  "rtp_read_sdes mem r hdr count len = read_chunks mem (r + 4 * (unat len + 1)) count (r + hdr)"

section \<open>What is written is read\<close>

definition item_text :: "sdes_item \<Rightarrow> u8 list" where
  "item_text = (\<lambda>(type, value, n). take (nat (min n RTP_MAX_SDES)) value)"

definition item_ok :: "sdes_item \<Rightarrow> bool" where
  "item_ok = (\<lambda>(type, value, n). type \<noteq> 0 \<and> 0 \<le> n \<and> min n RTP_MAX_SDES \<le> int (length value))"

definition item_bytes :: "sdes_item \<Rightarrow> u8 list" where
  "item_bytes i = fst i # of_nat (length (item_text i)) # item_text i"

definition items_bytes :: "sdes_item list \<Rightarrow> u8 list" where
  "items_bytes items = concat (map item_bytes items)"

definition chunk_bytes :: "u32 \<times> sdes_item list \<Rightarrow> u8 list" where
  "chunk_bytes = (\<lambda>(src, items). le32_bytes src @ items_bytes items @ replicate (4 - length (items_bytes items) mod 4) 0)"

definition chunk_calls :: "u32 \<times> sdes_item list \<Rightarrow> sdes_call list" where
  "chunk_calls = (\<lambda>(src, items). FindMember src # map (\<lambda>i. MemberSdes (fst i) (item_text i)) items)"

fun write_chunks :: "nat \<Rightarrow> (u32 \<times> sdes_item list) list \<Rightarrow> u8 list \<Rightarrow> (nat \<times> u8 list) outcome" where
  "write_chunks b [] mem = Inr (b, mem)"
| "write_chunks b ((src, items) # cs) mem = bindE (rtp_write_sdes b src items mem) (\<lambda>(b', mem'). write_chunks b' cs mem')"

lemma store_at: "length old = length bs \<Longrightarrow> store (length pre) bs (pre @ old @ post) = Inr (pre @ bs @ post)"
  by (simp add: store_def)

lemma store_behind:
  "i = length pre + length a \<Longrightarrow> length old = length bs \<Longrightarrow> store i bs (pre @ a @ old @ post) = Inr (pre @ a @ bs @ post)"
  using store_at [of old bs "pre @ a" post] by simp

lemma bytes_of_u32:
  "push_bit 24 (ucast (ucast (drop_bit 24 w) :: u8)) OR push_bit 16 (ucast (ucast (drop_bit 16 w) :: u8))
    OR push_bit 8 (ucast (ucast (drop_bit 8 w) :: u8)) OR ucast (ucast w :: u8) = (w :: u32)" (is "?x = w")
proof (rule bit_word_eqI)
  fix k assume "k < LENGTH(32)"
  then have k: "k < 32" by simp
  consider "k < 8" | "8 \<le> k" "k < 16" | "16 \<le> k" "k < 24" | "24 \<le> k" by linarith
  then show "bit ?x k = bit w k" using k by cases (auto simp: bit_simps less_diff_conv2)
qed

lemma le32_of_bytes: "le32 (pre @ le32_bytes w @ post) (length pre) = Inr w"
  using bytes_of_u32 [of w] by (simp add: le32_def le32_bytes_def nth_append)

lemma item_length: "item_ok (t, v, n) \<Longrightarrow> length (item_text (t, v, n)) = nat (min n 255)"
  by (auto simp: item_ok_def item_text_def RTP_MAX_SDES_def)

lemma write_items_ok:
  assumes "\<forall>i\<in>set items. item_ok i" "length old = length (items_bytes items)"
  shows "write_items items (length pre) (pre @ old @ post) =
    Inr (length pre + length (items_bytes items), pre @ items_bytes items @ post)"
  using assms
proof (induction items arbitrary: pre old)
  case Nil
  then show ?case by (simp add: items_bytes_def)
next
  case (Cons i items)
  obtain t v n where i: "i = (t, v, n)" by (cases i)
  have ok: "item_ok (t, v, n)" using Cons.prems(1) i by simp
  then obtain l where l: "int l = (if n > RTP_MAX_SDES then RTP_MAX_SDES else n)" "l \<le> length v" "item_text i = take l v"
    using that [of "nat (min n RTP_MAX_SDES)"] by (auto simp: i item_ok_def item_text_def RTP_MAX_SDES_def min_def split: if_splits)
  have bs: "items_bytes (i # items) = [t] @ [of_nat l] @ take l v @ items_bytes items"
    using l(2,3) by (simp add: items_bytes_def item_bytes_def i)
  obtain a b where o1: "old = a # b # drop 2 old" using Cons.prems(2) bs
    by (cases old rule: list.exhaust; cases "tl old" rule: list.exhaust) auto
  define o2 o3 where "o2 = take l (drop 2 old)" and "o3 = drop l (drop 2 old)"
  have "drop 2 old = o2 @ o3" by (simp only: o2_def o3_def append_take_drop_id)
  with o1 have o: "old = [a] @ [b] @ o2 @ o3" by simp
  have o2: "length o2 = length (take l v)" "length o3 = length (items_bytes items)" using Cons.prems(2) bs l(2)
    by (simp_all add: o2_def o3_def)
  have s1: "store (length pre) [t] (pre @ old @ post) = Inr (pre @ [t] @ [b] @ o2 @ o3 @ post)"
    using store_at [of "[a]" "[t]" pre "[b] @ o2 @ o3 @ post"] by (simp add: o)
  have s2: "store (length pre + 1) [of_nat l] (pre @ [t] @ [b] @ o2 @ o3 @ post) = Inr (pre @ [t, of_nat l] @ o2 @ o3 @ post)"
    using store_behind [of _ pre "[t]" "[b]" "[of_nat l]" "o2 @ o3 @ post"] by simp
  have s3: "store (length pre + 2) (take l v) (pre @ [t, of_nat l] @ o2 @ o3 @ post) = Inr (pre @ [t, of_nat l] @ take l v @ o3 @ post)"
    using store_behind [of _ pre "[t, of_nat l]" o2 "take l v" "o3 @ post"] o2 by simp
  have s4: "write_items items (length pre + 2 + l) (pre @ [t, of_nat l] @ take l v @ o3 @ post)
      = Inr (length pre + 2 + l + length (items_bytes items), pre @ [t, of_nat l] @ take l v @ items_bytes items @ post)"
    using Cons.IH [of o3 "pre @ [t, of_nat l] @ take l v"] Cons.prems(1) o2(2) l(2) by simp
  show ?case unfolding i write_items.simps l(1) [symmetric] Let_def s1 bindE.simps of_int_of_nat_eq s2 nat_int s3 s4
    using l(2) bs by (simp add: i s3 s4)
qed

lemma le32_bytes_length [simp]: "length (le32_bytes w) = 4" by (simp add: le32_bytes_def)

lemma round_up: "n + 4 - n mod 4 = ((n + 4) div 4) * (4 :: nat)"
  by presburger

lemma chunk_length: "length (chunk_bytes (src, items)) = ((length (items_bytes items) + 4) div 4 + 1) * 4"
proof -
  have "length (items_bytes items) mod 4 \<le> 4" by (simp add: less_imp_le)
  then show ?thesis using round_up [of "length (items_bytes items)"] by (simp add: chunk_bytes_def)
qed

lemma split_length: "length old = m + n \<Longrightarrow> \<exists>a b. old = a @ b \<and> length a = m \<and> length b = (n :: nat)"
  by (intro exI [of _ "take m old"] exI [of _ "drop m old"]) simp

lemma rtp_write_sdes_ok:
  assumes "\<forall>i\<in>set items. item_ok i" "length old = length (chunk_bytes (src, items))"
  shows "rtp_write_sdes (length pre) src items (pre @ old @ post) =
    Inr (length pre + length (chunk_bytes (src, items)), pre @ chunk_bytes (src, items) @ post)"
proof -
  let ?w = "le32_bytes src" and ?i = "items_bytes items"
  let ?p = "replicate (4 - length ?i mod 4) 0 :: u8 list"
  have "length old = 4 + (length ?i + length ?p)" using assms(2) by (simp add: chunk_bytes_def)
  then obtain o1 o2 o3 where o: "old = o1 @ o2 @ o3" "length o1 = 4" "length o2 = length ?i" "length o3 = length ?p"
    by (metis split_length)
  have "store (length pre) ?w (pre @ old @ post) = Inr (pre @ ?w @ o2 @ o3 @ post)"
    using store_at [of o1 ?w pre "o2 @ o3 @ post"] o by simp
  moreover have "write_items items (length pre + 4) (pre @ ?w @ o2 @ o3 @ post) = Inr (length pre + 4 + length ?i, pre @ ?w @ ?i @ o3 @ post)"
    using write_items_ok [OF assms(1) o(3), of "pre @ ?w" "o3 @ post"] by simp
  moreover have "store (length pre + 4 + length ?i) ?p (pre @ ?w @ ?i @ o3 @ post) = Inr (pre @ ?w @ ?i @ ?p @ post)"
    using store_behind [of _ pre "?w @ ?i" o3 ?p post] o by (simp add: add.assoc)
  moreover have "(4 + length ?i) mod 4 = length ?i mod 4" by simp
  ultimately show ?thesis by (simp add: rtp_write_sdes_def chunk_bytes_def Let_def)
qed

definition chunks_bytes :: "(u32 \<times> sdes_item list) list \<Rightarrow> u8 list" where
  "chunks_bytes cs = concat (map chunk_bytes cs)"

definition chunks_ok :: "(u32 \<times> sdes_item list) list \<Rightarrow> bool" where
  "chunks_ok cs \<longleftrightarrow> (\<forall>c\<in>set cs. \<forall>i\<in>set (snd c). item_ok i)"

lemma write_chunks_ok:
  "chunks_ok cs \<Longrightarrow> length old = length (chunks_bytes cs) \<Longrightarrow>
    write_chunks (length pre) cs (pre @ old @ post) = Inr (length pre + length (chunks_bytes cs), pre @ chunks_bytes cs @ post)"
proof (induction cs arbitrary: pre old)
  case Nil
  then show ?case by (simp add: chunks_bytes_def)
next
  case (Cons c cs)
  obtain src items where c: "c = (src, items)" by (cases c)
  obtain o1 o2 where o: "old = o1 @ o2" "length o1 = length (chunk_bytes c)" "length o2 = length (chunks_bytes cs)"
    using split_length [of old "length (chunk_bytes c)" "length (chunks_bytes cs)"] Cons.prems(2) by (auto simp: chunks_bytes_def)
  have "rtp_write_sdes (length pre) src items (pre @ o1 @ o2 @ post) =
      Inr (length pre + length (chunk_bytes c), pre @ chunk_bytes c @ o2 @ post)"
    using rtp_write_sdes_ok [of items o1 src pre "o2 @ post"] Cons.prems(1) o c by (simp add: chunks_ok_def)
  then show ?case using Cons.IH [of o2 "pre @ chunk_bytes c"] Cons.prems(1) o c by (simp add: chunks_ok_def chunks_bytes_def add.assoc)
qed

lemma read_items_ok:
  assumes "\<forall>i\<in>set items. item_ok i" "length pre + length (items_bytes items) < lim"
  shows "read_items (pre @ items_bytes items @ 0 # post) lim (length pre) =
    Inr (map (\<lambda>i. MemberSdes (fst i) (item_text i)) items, length pre + length (items_bytes items))"
  using assms
proof (induction items arbitrary: pre)
  case Nil
  then show ?case by (subst read_items.simps) (simp add: items_bytes_def byte_at_def)
next
  case (Cons i items)
  let ?tx = "item_text i"
  have i: "fst i \<noteq> 0" "length ?tx \<le> 255" using Cons.prems(1)
    by (auto simp: item_ok_def item_text_def RTP_MAX_SDES_def split: prod.splits)
  have b: "items_bytes (i # items) = fst i # of_nat (length ?tx) # ?tx @ items_bytes items"
    by (simp add: items_bytes_def item_bytes_def)
  have u: "unat (of_nat (length ?tx) :: u8) = length ?tx" using i(2) by (simp add: unat_of_nat)
  have "read_items ((pre @ [fst i, of_nat (length ?tx)] @ ?tx) @ items_bytes items @ 0 # post) lim (length (pre @ [fst i, of_nat (length ?tx)] @ ?tx)) =
    Inr (map (\<lambda>i. MemberSdes (fst i) (item_text i)) items, length (pre @ [fst i, of_nat (length ?tx)] @ ?tx) + length (items_bytes items))"
    using Cons.prems by (intro Cons.IH) (simp_all add: b)
  moreover have "byte_at (pre @ items_bytes (i # items) @ 0 # post) (length pre) = Inr (fst i)"
    "byte_at (pre @ items_bytes (i # items) @ 0 # post) (length pre + 1) = Inr (of_nat (length ?tx))"
    by (simp_all add: b byte_at_def nth_append)
  moreover have "\<not> lim \<le> length pre + length ?tx + 2" using Cons.prems(2) by (simp add: b)
  ultimately show ?case using i(1) by (subst read_items.simps) (simp add: b u Let_def)
qed

lemma chunk_calls_length: "chunks_bytes (c # cs) = chunk_bytes c @ chunks_bytes cs"
  by (simp add: chunks_bytes_def)

lemma read_chunks_ok:
  "chunks_ok cs \<Longrightarrow> length pre + length (chunks_bytes cs) \<le> lim \<Longrightarrow>
    read_chunks (pre @ chunks_bytes cs @ post) lim (length cs) (length pre) = Inr (concat (map chunk_calls cs), True)"
proof (induction cs arbitrary: pre)
  case Nil
  then show ?case by simp
next
  case (Cons c cs)
  obtain src items where c: "c = (src, items)" by (cases c)
  let ?w = "le32_bytes src" and ?i = "items_bytes items"
  let ?pad = "3 - length ?i mod 4"
  have "4 - length ?i mod 4 = Suc ?pad" using mod_less_divisor [of 4 "length ?i"] by linarith
  then have b: "chunks_bytes (c # cs) = ?w @ ?i @ 0 # replicate ?pad 0 @ chunks_bytes cs"
    by (simp add: c chunks_bytes_def chunk_bytes_def)
  have l: "length pre + 4 + length ?i < lim" using Cons.prems(2) by (simp add: b)
  have "read_items (pre @ chunks_bytes (c # cs) @ post) lim (length pre + 4) =
      Inr (map (\<lambda>i. MemberSdes (fst i) (item_text i)) items, length pre + 4 + length ?i)"
    using read_items_ok [of items "pre @ ?w" lim "replicate ?pad 0 @ chunks_bytes cs @ post"] Cons.prems(1) l
    unfolding b by (simp add: chunks_ok_def c)
  moreover have "le32 (pre @ chunks_bytes (c # cs) @ post) (length pre) = Inr src"
    unfolding b by (simp add: le32_of_bytes)
  moreover have "read_chunks ((pre @ chunk_bytes c) @ chunks_bytes cs @ post) lim (length cs) (length (pre @ chunk_bytes c))
      = Inr (concat (map chunk_calls cs), True)"
    using Cons.prems by (intro Cons.IH) (simp_all add: chunks_ok_def chunk_calls_length)
  moreover have "length pre + ((length pre + 4 + length ?i - length pre) div 4 + 1) * 4 = length (pre @ chunk_bytes c)"
    using chunk_length [of src items] by (simp add: c add.commute)
  ultimately show ?case using l by (simp add: c chunk_calls_def chunk_calls_length)
qed

text \<open>C22. A source description with any number of chunks, written one behind the other by \<open>rtp_write_sdes\<close> where there is memory for them: \<open>rtp_read_sdes\<close>
  finds each source with its identifier and hands over each item with its type and its text, cut to 255 bytes, and finds the packet
  valid, whatever is behind it.\<close>

theorem sdes_roundtrip:
  assumes "chunks_ok cs" and "r + hdr + length (chunks_bytes cs) \<le> length mem"
    and "hdr + length (chunks_bytes cs) \<le> 4 * (unat len + 1)"
  shows "\<exists>mem'. write_chunks (r + hdr) cs mem = Inr (r + hdr + length (chunks_bytes cs), mem')
    \<and> rtp_read_sdes mem' r hdr (length cs) len = Inr (concat (map chunk_calls cs), True)"
proof -
  let ?pre = "take (r + hdr) mem" and ?n = "length (chunks_bytes cs)"
  let ?old = "take ?n (drop (r + hdr) mem)" and ?post = "drop ?n (drop (r + hdr) mem)"
  have m: "mem = ?pre @ ?old @ ?post" by (simp only: append_take_drop_id)
  have p: "length ?pre = r + hdr" "length ?old = ?n" using assms(2) by simp_all
  have "write_chunks (r + hdr) cs mem = Inr (r + hdr + ?n, ?pre @ chunks_bytes cs @ ?post)"
    using write_chunks_ok [OF assms(1) p(2), of ?pre ?post] p(1) m by metis
  moreover have "rtp_read_sdes (?pre @ chunks_bytes cs @ ?post) r hdr (length cs) len = Inr (concat (map chunk_calls cs), True)"
    using read_chunks_ok [OF assms(1), of ?pre "r + 4 * (unat len + 1)" ?post] p(1) assms(3) by (simp add: rtp_read_sdes_def)
  ultimately show ?thesis by blast
qed

lemma read_items_total:
  "rsp < lim \<Longrightarrow> lim < length mem \<Longrightarrow> \<exists>cs rsp'. read_items mem lim rsp = Inr (cs, rsp') \<and> rsp \<le> rsp'"
proof (induction mem lim rsp rule: read_items.induct)
  case (1 mem lim rsp)
  have b: "byte_at mem rsp = Inr (mem ! rsp)" "byte_at mem (rsp + 1) = Inr (mem ! (rsp + 1))"
    using "1.prems" by (simp_all add: byte_at_def)
  show ?case
  proof (cases "mem ! rsp = 0 \<or> lim \<le> rsp + unat (mem ! (rsp + 1)) + 2")
    case True
    then show ?thesis using b by (subst read_items.simps) (auto simp: Let_def)
  next
    case False
    then obtain cs rsp' where "read_items mem lim (rsp + unat (mem ! (rsp + 1)) + 2) = Inr (cs, rsp')"
        "rsp + unat (mem ! (rsp + 1)) + 2 \<le> rsp'"
      using "1.IH" [OF b(1) _ b(2) refl] "1.prems" by auto
    then show ?thesis using b False by (subst read_items.simps) (auto simp: Let_def)
  qed
qed

lemma read_chunks_total:
  "lim < length mem \<Longrightarrow> \<exists>cs v. read_chunks mem lim count sd = Inr (cs, v)"
proof (induction count arbitrary: sd)
  case (Suc count)
  show ?case
  proof (cases "lim \<le> sd + 4")
    case False
    then obtain src where "le32 mem sd = Inr src" using Suc.prems by (simp add: le32_def)
    moreover obtain cs rsp where "read_items mem lim (sd + 4) = Inr (cs, rsp)"
      using read_items_total [of "sd + 4" lim mem] False Suc.prems by auto
    moreover obtain cs' v where "read_chunks mem lim count (sd + ((rsp - sd) div 4 + 1) * 4) = Inr (cs', v)"
      using Suc.IH [OF Suc.prems] by blast
    ultimately show ?thesis using False by simp
  qed auto
qed auto

text \<open>C23. The reader and the end of the packet: whatever the bytes, the count and the length in the header are, it ends, and it reads at
  most one byte behind the packet, the length of an item whose type is the last byte. That byte it does read: such a packet at the end of the memory
  makes it leave the memory.\<close>

theorem rtp_read_sdes_bounds:
  "(r + 4 * (unat len + 1) < length mem \<longrightarrow> (\<exists>cs valid. rtp_read_sdes mem r hdr count len = Inr (cs, valid)))
    \<and> (length header = 4 \<and> t \<noteq> 0 \<and> t' \<noteq> 0 \<longrightarrow>
        rtp_read_sdes (header @ le32_bytes src @ [t, 1, x, t']) 0 4 (Suc count) 2 = Inl OutOfBounds)"
proof (intro conjI impI)
  assume "r + 4 * (unat len + 1) < length mem"
  then show "\<exists>cs valid. rtp_read_sdes mem r hdr count len = Inr (cs, valid)"
    using read_chunks_total [of _ mem] unfolding rtp_read_sdes_def by blast
next
  let ?mem = "header @ le32_bytes src @ [t, 1, x, t']"
  assume a: "length header = 4 \<and> t \<noteq> 0 \<and> t' \<noteq> 0"
  then have b: "byte_at ?mem 8 = Inr t" "byte_at ?mem 9 = Inr 1" "byte_at ?mem 11 = Inr t'" "byte_at ?mem 12 = Inl OutOfBounds"
    by (simp_all add: byte_at_def nth_append le32_bytes_def)
  have "read_items ?mem 12 11 = Inl OutOfBounds" using a b by (subst read_items.simps) simp
  then have "read_items ?mem 12 8 = Inl OutOfBounds" using a b by (subst read_items.simps) (simp add: Let_def)
  then show "rtp_read_sdes ?mem 0 4 (Suc count) 2 = Inl OutOfBounds"
    using a le32_of_bytes [of header src "[t, 1, x, t']"] by (simp add: rtp_read_sdes_def)
qed

definition sample_chunks :: "(u32 \<times> sdes_item list) list" where
  "sample_chunks = [(7, [(1, [97, 64, 98], 3), (6, [122, 51], 1)]), (8, [])]"

theorem sdes_roundtrip_witness:
  "\<exists>mem'. rtp_read_sdes mem' 0 4 2 6 = Inr ([FindMember 7, MemberSdes 1 [97, 64, 98], MemberSdes 6 [122], FindMember 8], True)"
proof -
  have ok: "chunks_ok sample_chunks" by (simp add: chunks_ok_def sample_chunks_def item_ok_def RTP_MAX_SDES_def)
  have n: "length (chunks_bytes sample_chunks) = 24"
    by (simp add: sample_chunks_def chunks_bytes_def chunk_bytes_def items_bytes_def item_bytes_def item_text_def RTP_MAX_SDES_def)
  have "concat (map chunk_calls sample_chunks) = [FindMember 7, MemberSdes 1 [97, 64, 98], MemberSdes 6 [122], FindMember 8]"
    by (simp add: sample_chunks_def chunk_calls_def item_text_def RTP_MAX_SDES_def)
  moreover obtain mem' where "rtp_read_sdes mem' 0 4 (length sample_chunks) 6 = Inr (concat (map chunk_calls sample_chunks), True)"
    using sdes_roundtrip [OF ok, of 0 4 "replicate 40 0" 6] n by auto
  moreover have "length sample_chunks = 2" by (simp add: sample_chunks_def)
  ultimately show ?thesis by metis
qed

theorem rtp_read_sdes_bounds_witness:
  "(\<exists>cs valid. rtp_read_sdes (replicate 13 255) 0 4 31 2 = Inr (cs, valid))
    \<and> rtp_read_sdes ([0, 0, 0, 0] @ le32_bytes 7 @ [1, 1, 65, 2]) 0 4 1 2 = Inl OutOfBounds"
  using rtp_read_sdes_bounds [of 0 2 "replicate 13 255" 4 31 "[0, 0, 0, 0]" 1 2 7 65]
    rtp_read_sdes_bounds [of 0 2 "replicate 13 255" 4 0 "[0, 0, 0, 0]" 1 2 7 65] by simp

end
