(* ===== verification/LinkedLists.thy ===== *)
theory LinkedLists
  imports Z3Prelude
begin

text \<open>
  The doubly linked lists of \<open>z3_utilib/z3_list.c\<close>, on an explicit store: a list is the address of its first node, NULL being
  \<open>None\<close>, and every operation takes the store and returns it. \<open>calloc\<close> is a parameter, the address it answers. A node that
  was freed is not in the store, and an access to it is a fault. The loops that follow \<open>next\<close> or \<open>prev\<close> carry fuel, since a store
  may hold a circle; \<open>dlist\<close> lists need one unit more than they have nodes.
\<close>

section \<open>Nodes and the store\<close>

type_synonym addr = nat

record z3_list =
  l_data :: addr
  l_next :: "addr option"
  l_prev :: "addr option"
  list_num :: u32

type_synonym store = "addr \<rightharpoonup> z3_list"

definition load :: "store \<Rightarrow> addr option \<Rightarrow> z3_list outcome" where
  "load h p = (case p of None \<Rightarrow> Inl NullDeref | Some a \<Rightarrow> (case h a of None \<Rightarrow> Inl OutOfBounds | Some n \<Rightarrow> Inr n))"

definition modify :: "addr option \<Rightarrow> (z3_list \<Rightarrow> z3_list) \<Rightarrow> store \<Rightarrow> store outcome" where
  "modify p f h = bindE (load h p) (\<lambda>n. Inr (h(the p \<mapsto> f n)))"

text \<open>\<open>if (p) p->... = ...\<close>\<close>

definition modify_if :: "addr option \<Rightarrow> (z3_list \<Rightarrow> z3_list) \<Rightarrow> store \<Rightarrow> store outcome" where
  "modify_if p f h = (if p = None then Inr h else modify p f h)"

definition z3_list_free_1 :: "addr option \<Rightarrow> store \<Rightarrow> store outcome" where
  "z3_list_free_1 p h =
     (case p of None \<Rightarrow> Inr h | Some a \<Rightarrow> if h a = None then Inl OutOfBounds else Inr (h(a := None)))"

section \<open>Walking\<close>

fun z3_list_last :: "nat \<Rightarrow> addr option \<Rightarrow> store \<Rightarrow> addr option outcome" where
  "z3_list_last 0 list h = Inl OutOfFuel"
| "z3_list_last (Suc n) list h =
     (if list = None then Inr None
      else bindE (load h list) (\<lambda>x. if l_next x = None then Inr list else z3_list_last n (l_next x) h))"

fun z3_list_first :: "nat \<Rightarrow> addr option \<Rightarrow> store \<Rightarrow> addr option outcome" where
  "z3_list_first 0 list h = Inl OutOfFuel"
| "z3_list_first (Suc n) list h =
     (if list = None then Inr None
      else bindE (load h list) (\<lambda>x. if l_prev x = None then Inr list else z3_list_first n (l_prev x) h))"

text \<open>\<open>find_custom\<close> stops where the function returns 0; \<open>find\<close> is it with the equality of data.\<close>

fun z3_list_find_custom :: "nat \<Rightarrow> addr option \<Rightarrow> addr \<Rightarrow> (addr \<Rightarrow> addr \<Rightarrow> int) \<Rightarrow> store \<Rightarrow> addr option outcome" where
  "z3_list_find_custom 0 list data func h = Inl OutOfFuel"
| "z3_list_find_custom (Suc n) list data func h =
     (if list = None then Inr None
      else bindE (load h list) (\<lambda>x.
        if func (l_data x) data = 0 then Inr list else z3_list_find_custom n (l_next x) data func h))"

fun z3_list_find :: "nat \<Rightarrow> addr option \<Rightarrow> addr \<Rightarrow> store \<Rightarrow> addr option outcome" where
  "z3_list_find 0 list data h = Inl OutOfFuel"
| "z3_list_find (Suc n) list data h =
     (if list = None then Inr None
      else bindE (load h list) (\<lambda>x. if l_data x = data then Inr list else z3_list_find n (l_next x) data h))"

text \<open>The visitor is called with the data of each node, on a state of its own that is not the list.\<close>

fun z3_list_foreach :: "nat \<Rightarrow> addr option \<Rightarrow> (addr \<Rightarrow> 's \<Rightarrow> 's outcome) \<Rightarrow> store \<Rightarrow> 's \<Rightarrow> 's outcome" where
  "z3_list_foreach 0 list func h s = Inl OutOfFuel"
| "z3_list_foreach (Suc n) list func h s =
     (if list = None then Inr s
      else bindE (load h list) (\<lambda>x. bindE (func (l_data x) s) (\<lambda>s'. z3_list_foreach n (l_next x) func h s')))"

fun z3_list_free :: "nat \<Rightarrow> addr option \<Rightarrow> store \<Rightarrow> store outcome" where
  "z3_list_free 0 list h = Inl OutOfFuel"
| "z3_list_free (Suc n) list h =
     (if list = None then Inr h
      else bindE (load h list) (\<lambda>x. bindE (z3_list_free_1 list h) (\<lambda>h'. z3_list_free n (l_next x) h')))"

definition z3_list_number :: "addr option \<Rightarrow> store \<Rightarrow> u32 outcome" where
  "z3_list_number list h = (if list = None then Inr 0 else bindE (load h list) (\<lambda>x. Inr (list_num x)))"

section \<open>Adding\<close>

definition z3_list_add_head :: "addr option \<Rightarrow> addr option \<Rightarrow> addr \<Rightarrow> store \<Rightarrow> (addr option \<times> store) outcome" where
  "z3_list_add_head new_list list data h =
     (case new_list of
        None \<Rightarrow> Inl AssertFailed
      | Some a \<Rightarrow>
          if list \<noteq> None then
            bindE (load h list) (\<lambda>x.
            bindE (modify list (\<lambda>x. x\<lparr>l_prev := new_list, list_num := 0\<rparr>)
                (h(a \<mapsto> \<lparr>l_data = data, l_next = list, l_prev = None, list_num = list_num x + 1\<rparr>))) (\<lambda>h'.
              Inr (new_list, h')))
          else Inr (new_list, h(a \<mapsto> \<lparr>l_data = data, l_next = None, l_prev = None, list_num = 1\<rparr>)))"

definition z3_list_add_tail :: "nat \<Rightarrow> addr option \<Rightarrow> addr option \<Rightarrow> addr \<Rightarrow> store \<Rightarrow> (addr option \<times> store) outcome" where
  "z3_list_add_tail fuel new_list list data h =
     (case new_list of
        None \<Rightarrow> Inl NullDeref
      | Some a \<Rightarrow>
          let h1 = h(a \<mapsto> \<lparr>l_data = data, l_next = None, l_prev = None, list_num = 0\<rparr>) in
          if list \<noteq> None then
            bindE (z3_list_last fuel list h1) (\<lambda>last.
            bindE (modify new_list (\<lambda>x. x\<lparr>l_prev := last\<rparr>) h1) (\<lambda>h2.
            bindE (modify list (\<lambda>x. x\<lparr>list_num := list_num x + 1\<rparr>) h2) (\<lambda>h3.
            bindE (modify last (\<lambda>x. x\<lparr>l_next := new_list\<rparr>) h3) (\<lambda>h4. Inr (list, h4)))))
          else bindE (modify new_list (\<lambda>x. x\<lparr>list_num := 1\<rparr>) h1) (\<lambda>h2. Inr (new_list, h2)))"

definition z3_list_concat :: "nat \<Rightarrow> addr option \<Rightarrow> addr option \<Rightarrow> store \<Rightarrow> (addr option \<times> store) outcome" where
  "z3_list_concat fuel list1 list2 h =
     (if list2 = None then Inr (list1, h)
      else bindE (z3_list_last fuel list1 h) (\<lambda>last.
        if last \<noteq> None then
          bindE (modify last (\<lambda>x. x\<lparr>l_next := list2\<rparr>) h) (\<lambda>h1.
          bindE (load h1 list2) (\<lambda>y.
          bindE (modify list1 (\<lambda>x. x\<lparr>list_num := list_num x + list_num y\<rparr>) h1) (\<lambda>h2.
          bindE (modify list2 (\<lambda>x. x\<lparr>list_num := 0\<rparr>) h2) (\<lambda>h3.
          bindE (modify list2 (\<lambda>x. x\<lparr>l_prev := last\<rparr>) h3) (\<lambda>h4. Inr (list1, h4))))))
        else bindE (modify list2 (\<lambda>x. x\<lparr>l_prev := None\<rparr>) h) (\<lambda>h1. Inr (list2, h1))))"

section \<open>Removing\<close>

text \<open>The body of \<open>z3_list_remove\<close> for the node \<open>list\<close> that has the data. The number is read from the node before it is freed.\<close>

definition remove_node :: "addr option \<Rightarrow> addr option \<Rightarrow> store \<Rightarrow> (addr option \<times> store) outcome" where
  "remove_node head list h =
     bindE (load h list) (\<lambda>x.
     bindE (modify_if (l_prev x) (\<lambda>y. y\<lparr>l_next := l_next x\<rparr>) h) (\<lambda>h1.
     bindE (modify_if (l_next x) (\<lambda>y. y\<lparr>l_prev := l_prev x\<rparr>) h1) (\<lambda>h2.
       let head' = (if head = list then l_next x else head) in
       bindE (if head = list then modify_if head' (\<lambda>y. y\<lparr>list_num := list_num x\<rparr>) h2 else Inr h2) (\<lambda>h3.
       bindE (z3_list_free_1 list h3) (\<lambda>h4.
       bindE (modify_if head' (\<lambda>y. y\<lparr>list_num := list_num y - 1\<rparr>) h4) (\<lambda>h5. Inr (head', h5)))))))"

text \<open>In a debug build the data must be in the list.\<close>

fun remove_loop :: "nat \<Rightarrow> bool \<Rightarrow> addr option \<Rightarrow> addr option \<Rightarrow> addr \<Rightarrow> store \<Rightarrow> (addr option \<times> store) outcome" where
  "remove_loop 0 debug head list data h = Inl OutOfFuel"
| "remove_loop (Suc n) debug head list data h =
     (if list = None then bindE (assertE (\<not> debug)) (\<lambda>_. Inr (head, h))
      else bindE (load h list) (\<lambda>x.
        if l_data x \<noteq> data then remove_loop n debug head (l_next x) data h else remove_node head list h))"

definition z3_list_remove :: "nat \<Rightarrow> bool \<Rightarrow> addr option \<Rightarrow> addr \<Rightarrow> store \<Rightarrow> (addr option \<times> store) outcome" where
  "z3_list_remove fuel debug list data h = remove_loop fuel debug list list data h"

text \<open>\<open>z3_list_remove_all\<close> tells the first node by its NULL \<open>prev\<close>.\<close>

definition remove_all_node :: "addr option \<Rightarrow> addr option \<Rightarrow> store \<Rightarrow> (addr option \<times> addr option \<times> store) outcome" where
  "remove_all_node head list h =
     bindE (load h list) (\<lambda>x.
     bindE (if l_prev x \<noteq> None then bindE (modify (l_prev x) (\<lambda>y. y\<lparr>l_next := l_next x\<rparr>) h) (\<lambda>h1. Inr (head, h1))
            else if l_next x = None then Inr (None, h)
            else bindE (load h head) (\<lambda>z.
              bindE (modify (l_next x) (\<lambda>y. y\<lparr>list_num := list_num z\<rparr>) h) (\<lambda>h1. Inr (l_next x, h1)))) (\<lambda>(head', h1).
     bindE (modify_if head' (\<lambda>y. y\<lparr>list_num := list_num y - 1\<rparr>) h1) (\<lambda>h2.
     bindE (modify_if (l_next x) (\<lambda>y. y\<lparr>l_prev := l_prev x\<rparr>) h2) (\<lambda>h3.
     bindE (z3_list_free_1 list h3) (\<lambda>h4. Inr (head', l_next x, h4))))))"

fun remove_all_loop :: "nat \<Rightarrow> addr option \<Rightarrow> addr option \<Rightarrow> addr \<Rightarrow> store \<Rightarrow> (addr option \<times> store) outcome" where
  "remove_all_loop 0 head list data h = Inl OutOfFuel"
| "remove_all_loop (Suc n) head list data h =
     (if list = None then Inr (head, h)
      else bindE (load h list) (\<lambda>x.
        if l_data x \<noteq> data then remove_all_loop n head (l_next x) data h
        else bindE (remove_all_node head list h) (\<lambda>(head', list', h'). remove_all_loop n head' list' data h')))"

definition z3_list_remove_all :: "nat \<Rightarrow> addr option \<Rightarrow> addr \<Rightarrow> store \<Rightarrow> (addr option \<times> store) outcome" where
  "z3_list_remove_all fuel list data h = remove_all_loop fuel list list data h"

definition z3_list_remove_link :: "addr option \<Rightarrow> addr option \<Rightarrow> store \<Rightarrow> (addr option \<times> store) outcome" where
  "z3_list_remove_link list link h =
     (if link = None then Inr (list, h)
      else bindE (load h link) (\<lambda>x.
        bindE (modify_if (l_next x) (\<lambda>y. y\<lparr>l_prev := l_prev x\<rparr>) h) (\<lambda>h1.
        bindE (modify_if (l_prev x) (\<lambda>y. y\<lparr>l_next := l_next x\<rparr>) h1) (\<lambda>h2.
        bindE (if link = list then
                 bindE (load h2 list) (\<lambda>y. bindE (modify (l_next y) (\<lambda>z. z\<lparr>list_num := list_num y\<rparr>) h2) (\<lambda>h3. Inr (l_next y, h3)))
               else Inr (list, h2)) (\<lambda>(list', h3).
        bindE (modify_if list' (\<lambda>y. y\<lparr>list_num := list_num y - 1\<rparr>) h3) (\<lambda>h4.
        bindE (modify link (\<lambda>y. y\<lparr>l_next := None, l_prev := None\<rparr>) h4) (\<lambda>h5. Inr (list', h5))))))))"

definition z3_list_delete_link :: "addr option \<Rightarrow> addr option \<Rightarrow> store \<Rightarrow> (addr option \<times> store) outcome" where
  "z3_list_delete_link list link h =
     bindE (z3_list_remove_link list link h) (\<lambda>(list', h'). bindE (z3_list_free_1 link h') (\<lambda>h''. Inr (list', h'')))"

section \<open>Lists in the store\<close>

text \<open>The nodes from \<open>p\<close> to \<open>q\<close>, with their addresses and data; \<open>pv\<close> is in front of the first.\<close>

fun seg :: "store \<Rightarrow> addr option \<Rightarrow> addr option \<Rightarrow> (addr \<times> addr) list \<Rightarrow> addr option \<Rightarrow> bool" where
  "seg h pv p [] q \<longleftrightarrow> p = q"
| "seg h pv p ((a, d) # xs) q \<longleftrightarrow>
     p = Some a \<and> (\<exists>n. h a = Some n \<and> l_data n = d \<and> l_prev n = pv \<and> seg h (Some a) (l_next n) xs q)"

definition tailp :: "addr option \<Rightarrow> (addr \<times> addr) list \<Rightarrow> addr option" where
  "tailp pv xs = (if xs = [] then pv else Some (fst (last xs)))"

lemma tailp_simps [simp]: "tailp pv [] = pv" "tailp pv (xs @ [x]) = Some (fst x)" "tailp pv (x # xs) = tailp (Some (fst x)) xs"
  by (simp_all add: tailp_def)

definition dlist :: "store \<Rightarrow> addr option \<Rightarrow> (addr \<times> addr) list \<Rightarrow> bool" where
  "dlist h p xs \<longleftrightarrow> seg h None p xs None \<and> distinct (map fst xs)
     \<and> (xs \<noteq> [] \<longrightarrow> list_num (the (h (fst (hd xs)))) = of_nat (length xs))"

lemma seg_append: "seg h pv p (xs @ ys) q \<longleftrightarrow> (\<exists>m. seg h pv p xs m \<and> seg h (tailp pv xs) m ys q)"
  by (induction xs arbitrary: pv p) (auto, blast+)

lemma seg_upd [simp]: "a \<notin> fst ` set xs \<Longrightarrow> seg (h(a := v)) pv p xs q = seg h pv p xs q"
  by (induction xs arbitrary: pv p) auto

lemma seg_num [simp]: "h a = Some n \<Longrightarrow> seg (h(a \<mapsto> n\<lparr>list_num := k\<rparr>)) pv p xs q = seg h pv p xs q"
  by (induction xs arbitrary: pv p) (force split: if_splits)+

lemma seg_in: "seg h pv p xs q \<Longrightarrow> (a, d) \<in> set xs \<Longrightarrow> \<exists>n. h a = Some n \<and> l_data n = d"
  by (induction xs arbitrary: pv p) auto

lemma seg_next:
  "seg h pv p (xs @ [(b, e)]) q \<Longrightarrow> b \<notin> fst ` set xs \<Longrightarrow> h b = Some n \<Longrightarrow>
    seg (h(b \<mapsto> n\<lparr>l_next := q'\<rparr>)) pv p (xs @ [(b, e)]) q'"
  by (auto simp: seg_append)

lemma seg_prev:
  "seg h pv p ((b, e) # xs) q \<Longrightarrow> b \<notin> fst ` set xs \<Longrightarrow> h b = Some n \<Longrightarrow>
    seg (h(b \<mapsto> n\<lparr>l_prev := pv'\<rparr>)) pv' p ((b, e) # xs) q"
  by auto

lemma dlist_Nil [simp]: "dlist h p [] \<longleftrightarrow> p = None"
  by (simp add: dlist_def)

lemma dlist_None [simp]: "dlist h None xs \<longleftrightarrow> xs = []"
  by (cases xs) (auto simp: dlist_def)

text \<open>The states outside a list stay as they are.\<close>

definition same_but :: "addr set \<Rightarrow> store \<Rightarrow> store \<Rightarrow> bool" where
  "same_but A h h' \<longleftrightarrow> (\<forall>b. b \<notin> A \<longrightarrow> h' b = h b)"

lemma remove_node_dlist:
  assumes "dlist h p (xs @ (a, d) # ys)"
  shows "\<exists>p' h'. remove_node p (Some a) h = Inr (p', h') \<and> dlist h' p' (xs @ ys)
    \<and> same_but (fst ` set (xs @ (a, d) # ys)) h h' \<and> h' a = None"
proof -
  obtain na where na: "h a = Some na" "l_data na = d" using assms seg_in [of h None p _ None a d] by (force simp: dlist_def)
  show ?thesis
  proof (cases xs rule: rev_cases)
    case Nil
    show ?thesis
    proof (cases ys)
      case (Cons y ys')
      then show ?thesis using assms na Nil
        by (cases y) (auto simp: dlist_def remove_node_def load_def modify_def modify_if_def z3_list_free_1_def Let_def same_but_def image_iff)
    qed (use assms na Nil in \<open>auto simp: dlist_def remove_node_def load_def modify_def modify_if_def z3_list_free_1_def Let_def same_but_def\<close>)
  next
    case (snoc xs' b)
    show ?thesis
    proof (cases ys)
      case Nil': Nil
      then show ?thesis using assms na snoc
        by (cases b; cases xs') (auto simp: dlist_def seg_append remove_node_def load_def modify_def modify_if_def z3_list_free_1_def Let_def same_but_def image_iff)
    next
      case (Cons y ys')
      then show ?thesis using assms na snoc
        by (cases b; cases xs'; cases y) (auto simp: dlist_def seg_append remove_node_def load_def modify_def modify_if_def z3_list_free_1_def Let_def same_but_def image_iff)
    qed
  qed
qed

definition ptr :: "(addr \<times> addr) list \<Rightarrow> addr option" where
  "ptr xs = (case xs of [] \<Rightarrow> None | (a, _) # _ \<Rightarrow> Some a)"

lemma ptr_simps [simp]: "ptr [] = None" "ptr ((a, d) # xs) = Some a"
  by (simp_all add: ptr_def)

lemma seg_ptr: "seg h pv p xs None \<Longrightarrow> p = ptr xs"
  by (cases xs) auto

lemma dlist_ptr: "dlist h p xs \<Longrightarrow> p = ptr xs"
  by (auto simp: dlist_def seg_ptr)

lemma dlist_node:
  assumes "dlist h p (xs @ (a, d) # ys)"
  obtains n where "h a = Some n" "l_data n = d" "l_next n = ptr ys" "l_prev n = tailp None xs"
  using assms by (auto simp: dlist_def seg_append dest: seg_ptr)

lemmas store_simps = load_def modify_def modify_if_def z3_list_free_1_def Let_def same_but_def

lemma last_seg: "seg h pv p xs None \<Longrightarrow> length xs < n \<Longrightarrow> z3_list_last n p h = Inr (tailp None xs)"
proof (induction xs arbitrary: pv p n)
  case Nil
  then show ?case by (cases n) simp_all
next
  case (Cons x xs)
  obtain m where n: "n = Suc m" using Cons.prems(2) by (cases n) auto
  obtain a d where x: "x = (a, d)" by (cases x)
  obtain k where k: "h a = Some k" "seg h (Some a) (l_next k) xs None" "p = Some a" using Cons.prems(1) x by auto
  show ?case
  proof (cases xs)
    case Nil
    then show ?thesis using k x n by (simp add: load_def)
  next
    case (Cons y ys)
    then have "l_next k \<noteq> None" "tailp None (x # xs) = tailp None xs" using k(2) by (cases y, auto simp: tailp_def)
    then show ?thesis using Cons.IH [OF k(2), of m] Cons.prems(2) k n by (auto simp: load_def)
  qed
qed

lemma add_head_dlist:
  assumes "dlist h p xs" "a \<notin> fst ` set xs"
  shows "\<exists>h'. z3_list_add_head (Some a) p d h = Inr (Some a, h') \<and> dlist h' (Some a) ((a, d) # xs) \<and> same_but (insert a (fst ` set xs)) h h'"
  using assms by (cases xs) (auto simp: z3_list_add_head_def dlist_def store_simps)

lemma add_tail_dlist:
  assumes "dlist h p xs" "a \<notin> fst ` set xs" "length xs < n"
  shows "\<exists>h'. z3_list_add_tail n (Some a) p d h = Inr (ptr (xs @ [(a, d)]), h') \<and> dlist h' (ptr (xs @ [(a, d)])) (xs @ [(a, d)])
    \<and> same_but (insert a (fst ` set xs)) h h'"
proof (cases xs rule: rev_cases)
  case Nil
  then show ?thesis using assms by (auto simp: z3_list_add_tail_def dlist_def store_simps)
next
  case (snoc ys b)
  let ?h = "h(a \<mapsto> \<lparr>l_data = d, l_next = None, l_prev = None, list_num = 0\<rparr>)"
  have "z3_list_last n p ?h = Inr (tailp None xs)" using assms by (intro last_seg) (auto simp: dlist_def)
  then show ?thesis using assms snoc
    by (cases b; cases ys) (auto simp: z3_list_add_tail_def dlist_def seg_append store_simps)
qed

lemma concat_dlist:
  assumes "dlist h p xs" "dlist h q ys" "fst ` set xs \<inter> fst ` set ys = {}" "length xs < n"
  shows "\<exists>h'. z3_list_concat n p q h = Inr (ptr (xs @ ys), h') \<and> dlist h' (ptr (xs @ ys)) (xs @ ys) \<and> same_but (fst ` set (xs @ ys)) h h'"
proof (cases ys)
  case Nil
  then show ?thesis using assms by (auto simp: z3_list_concat_def same_but_def dest: dlist_ptr)
next
  case (Cons y ys')
  have last: "z3_list_last n p h = Inr (tailp None xs)" using assms by (intro last_seg) (auto simp: dlist_def)
  show ?thesis
  proof (cases xs rule: rev_cases)
    case Nil
    then show ?thesis using assms Cons last by (cases y) (auto simp: z3_list_concat_def dlist_def store_simps)
  next
    case (snoc xs' b)
    then show ?thesis using assms Cons last
      by (cases b; cases y; cases xs') (auto simp: z3_list_concat_def dlist_def seg_append store_simps)
  qed
qed

subsection \<open>Walking and removing\<close>

lemma find_dlist:
  "dlist h p (xs @ ys) \<Longrightarrow> length ys < n \<Longrightarrow>
    z3_list_find n (ptr ys) d h = Inr (map_option fst (List.find (\<lambda>x. snd x = d) ys))"
proof (induction ys arbitrary: xs n)
  case Nil
  then show ?case by (cases n) simp_all
next
  case (Cons y ys)
  obtain a e where y: "y = (a, e)" by (cases y)
  obtain m where n: "n = Suc m" using Cons.prems(2) by (cases n) auto
  obtain k where "h a = Some k" "l_data k = e" "l_next k = ptr ys"
    using dlist_node [of h p xs a e ys] Cons.prems(1) y by auto
  then show ?case using Cons.IH [of "xs @ [y]" m] Cons.prems y n by (simp add: load_def)
qed

lemma foreach_dlist:
  "dlist h p (xs @ ys) \<Longrightarrow> length ys < n \<Longrightarrow>
    z3_list_foreach n (ptr ys) func h s = fold (\<lambda>x r. bindE r (func (snd x))) ys (Inr s)"
proof (induction ys arbitrary: xs n s)
  case Nil
  then show ?case by (cases n) simp_all
next
  case (Cons y ys)
  obtain a e where y: "y = (a, e)" by (cases y)
  obtain m where n: "n = Suc m" using Cons.prems(2) by (cases n) auto
  obtain k where k: "h a = Some k" "l_data k = e" "l_next k = ptr ys"
    using dlist_node [of h p xs a e ys] Cons.prems(1) y by auto
  have fault: "fold (\<lambda>x r. bindE r (func (snd x))) ys (Inl f) = Inl f" for f by (induction ys) simp_all
  show ?case
    using Cons.IH [of "xs @ [y]" m] Cons.prems y n k by (cases "func e s") (simp_all add: load_def fault)
qed

lemma free_seg:
  "seg h pv p xs None \<Longrightarrow> distinct (map fst xs) \<Longrightarrow> length xs < n \<Longrightarrow>
    z3_list_free n p h = Inr (\<lambda>b. if b \<in> fst ` set xs then None else h b)"
proof (induction xs arbitrary: h pv p n)
  case Nil
  then show ?case by (cases n) simp_all
next
  case (Cons x xs)
  obtain a d where x: "x = (a, d)" by (cases x)
  obtain m where n: "n = Suc m" using Cons.prems(3) by (cases n) auto
  obtain k where k: "h a = Some k" "seg h (Some a) (l_next k) xs None" "p = Some a" using Cons.prems(1) x by auto
  have a: "a \<notin> fst ` set xs" "distinct (map fst xs)" using Cons.prems(2) x by auto
  have "seg (h(a := None)) (Some a) (l_next k) xs None" unfolding seg_upd [OF a(1)] by (rule k(2))
  moreover have "length xs < m" using Cons.prems(3) n by simp
  ultimately have "z3_list_free m (l_next k) (h(a := None)) = Inr (\<lambda>b. if b \<in> fst ` set xs then None else (h(a := None)) b)"
    using a(2) by (intro Cons.IH)
  also have "(\<lambda>b. if b \<in> fst ` set xs then None else (h(a := None)) b) = (\<lambda>b. if b \<in> fst ` set (x # xs) then None else h b)"
    by (rule ext) (simp add: x)
  finally have "z3_list_free m (l_next k) (h(a := None)) = Inr (\<lambda>b. if b \<in> fst ` set (x # xs) then None else h b)" .
  then show ?case unfolding n k(3) by (simp add: load_def z3_list_free_1_def k(1))
qed

fun del_first :: "addr \<Rightarrow> (addr \<times> addr) list \<Rightarrow> (addr \<times> addr) list" where
  "del_first d [] = []"
| "del_first d ((a, e) # xs) = (if e = d then xs else (a, e) # del_first d xs)"

lemma del_first_data [simp]: "map snd (del_first d xs) = remove1 d (map snd xs)"
  by (induction d xs rule: del_first.induct) auto

lemma del_first_subset: "set (del_first d xs) \<subseteq> set xs"
  by (induction d xs rule: del_first.induct) auto

lemma same_but_trans: "same_but A h h1 \<Longrightarrow> same_but B h1 h2 \<Longrightarrow> A \<subseteq> C \<Longrightarrow> B \<subseteq> C \<Longrightarrow> same_but C h h2"
  unfolding same_but_def by (metis subsetD)

lemma remove_loop_dlist:
  "dlist h p (xs @ ys) \<Longrightarrow> length ys < n \<Longrightarrow>
    if d \<in> snd ` set ys
    then \<exists>p' h'. remove_loop n debug p (ptr ys) d h = Inr (p', h') \<and> dlist h' p' (xs @ del_first d ys) \<and> same_but (fst ` set (xs @ ys)) h h'
    else remove_loop n debug p (ptr ys) d h = (if debug then Inl AssertFailed else Inr (p, h))"
proof (induction ys arbitrary: xs n)
  case Nil
  then show ?case by (cases n) simp_all
next
  case (Cons y ys)
  obtain a e where y: "y = (a, e)" by (cases y)
  obtain m where n: "n = Suc m" using Cons.prems(2) by (cases n) auto
  obtain k where k: "h a = Some k" "l_data k = e" "l_next k = ptr ys"
    using dlist_node [of h p xs a e ys] Cons.prems(1) y by auto
  show ?case
  proof (cases "e = d")
    case True
    then show ?thesis using remove_node_dlist [of h p xs a e ys] Cons.prems(1) y n k by (auto simp: load_def)
  next
    case False
    have "if d \<in> snd ` set ys
      then \<exists>p' h'. remove_loop m debug p (ptr ys) d h = Inr (p', h') \<and> dlist h' p' ((xs @ [y]) @ del_first d ys)
        \<and> same_but (fst ` set ((xs @ [y]) @ ys)) h h'
      else remove_loop m debug p (ptr ys) d h = (if debug then Inl AssertFailed else Inr (p, h))"
      by (rule Cons.IH) (use Cons.prems n in simp_all)
    then show ?thesis using False y n k by (cases "d \<in> snd ` set ys") (simp_all add: load_def)
  qed
qed

lemma remove_all_node_dlist:
  assumes "dlist h p (xs @ (a, d) # ys)"
  shows "\<exists>p' h'. remove_all_node p (Some a) h = Inr (p', ptr ys, h') \<and> dlist h' p' (xs @ ys) \<and> same_but (fst ` set (xs @ (a, d) # ys)) h h'"
proof -
  obtain na where na: "h a = Some na" "l_data na = d" "l_next na = ptr ys" by (rule dlist_node [OF assms])
  show ?thesis
  proof (cases xs rule: rev_cases)
    case Nil
    then show ?thesis using assms na
      by (cases ys) (auto simp: dlist_def remove_all_node_def store_simps image_iff)
  next
    case (snoc xs' b)
    show ?thesis
    proof (cases ys)
      case Nil
      then show ?thesis using assms na snoc
        by (cases b; cases xs') (auto simp: dlist_def seg_append remove_all_node_def store_simps image_iff)
    next
      case (Cons y ys')
      then show ?thesis using assms na snoc
        by (cases b; cases xs'; cases y) (auto simp: dlist_def seg_append remove_all_node_def store_simps image_iff)
    qed
  qed
qed

lemma remove_all_loop_dlist:
  "dlist h p (xs @ ys) \<Longrightarrow> length ys < n \<Longrightarrow>
    \<exists>p' h'. remove_all_loop n p (ptr ys) d h = Inr (p', h') \<and> dlist h' p' (xs @ filter (\<lambda>x. snd x \<noteq> d) ys) \<and> same_but (fst ` set (xs @ ys)) h h'"
proof (induction ys arbitrary: xs p h n)
  case Nil
  then show ?case by (cases n) (auto simp: same_but_def)
next
  case (Cons y ys)
  obtain a e where y: "y = (a, e)" by (cases y)
  obtain m where n: "n = Suc m" using Cons.prems(2) by (cases n) auto
  obtain k where k: "h a = Some k" "l_data k = e" "l_next k = ptr ys"
    using dlist_node [of h p xs a e ys] Cons.prems(1) y by auto
  show ?case
  proof (cases "e = d")
    case True
    obtain p1 h1 where r: "remove_all_node p (Some a) h = Inr (p1, ptr ys, h1)" "dlist h1 p1 (xs @ ys)" "same_but (fst ` set (xs @ y # ys)) h h1"
      using remove_all_node_dlist [of h p xs a e ys] Cons.prems(1) y by auto
    obtain p2 h2 where "remove_all_loop m p1 (ptr ys) d h1 = Inr (p2, h2)" "dlist h2 p2 (xs @ filter (\<lambda>x. snd x \<noteq> d) ys)"
      "same_but (fst ` set (xs @ ys)) h1 h2" using Cons.IH [OF r(2), of m] Cons.prems(2) n by auto
    moreover have "same_but (fst ` set (xs @ y # ys)) h h2" by (rule same_but_trans [OF r(3) calculation(3)]) auto
    ultimately show ?thesis using True r y n k by (simp add: load_def)
  next
    case False
    then show ?thesis using Cons.IH [of h p "xs @ [y]" m] Cons.prems y n k by (auto simp: load_def)
  qed
qed

lemma remove_link_dlist:
  assumes "dlist h p (xs @ (a, d) # ys)"
  shows "if xs = [] \<and> ys = [] then z3_list_remove_link p (Some a) h = Inl NullDeref
    else \<exists>p' h'. z3_list_remove_link p (Some a) h = Inr (p', h') \<and> dlist h' p' (xs @ ys) \<and> same_but (fst ` set (xs @ (a, d) # ys)) h h'
      \<and> (\<exists>k. h' a = Some (k\<lparr>l_next := None, l_prev := None\<rparr>) \<and> h a = Some k)"
proof -
  obtain na where na: "h a = Some na" "l_data na = d" "l_next na = ptr ys" by (rule dlist_node [OF assms])
  show ?thesis
  proof (cases xs rule: rev_cases)
    case Nil
    then show ?thesis using assms na
      by (cases ys) (auto simp: dlist_def z3_list_remove_link_def store_simps image_iff)
  next
    case (snoc xs' b)
    show ?thesis
    proof (cases ys)
      case Nil
      then show ?thesis using assms na snoc
        by (cases b; cases xs') (auto simp: dlist_def seg_append z3_list_remove_link_def store_simps image_iff)
    next
      case (Cons y ys')
      then show ?thesis using assms na snoc
        by (cases b; cases xs'; cases y) (auto simp: dlist_def seg_append z3_list_remove_link_def store_simps image_iff)
    qed
  qed
qed

section \<open>The interface\<close>

text \<open>What a list holds, for its clients: the addresses of its nodes, which it owns, and its data in order.\<close>

definition holds :: "store \<Rightarrow> addr option \<Rightarrow> addr set \<Rightarrow> addr list \<Rightarrow> bool" where
  "holds h p A ds \<longleftrightarrow> (\<exists>xs. dlist h p xs \<and> fst ` set xs = A \<and> map snd xs = ds)"

lemma holds_empty [simp]: "holds h None {} []"
  by (simp add: holds_def)

lemma dlist_frame: "dlist h p xs \<Longrightarrow> same_but B h h' \<Longrightarrow> fst ` set xs \<inter> B = {} \<Longrightarrow> dlist h' p xs"
proof -
  assume d: "dlist h p xs" and s: "same_but B h h'" "fst ` set xs \<inter> B = {}"
  have "seg h' pv q ys r" if "seg h pv q ys r" "fst ` set ys \<inter> B = {}" for pv q ys r
    using that by (induction ys arbitrary: pv q) (use s(1) in \<open>auto simp: same_but_def\<close>)
  moreover have "h' (fst (hd xs)) = h (fst (hd xs))" if "xs \<noteq> []"
    using that s by (cases xs) (auto simp: same_but_def)
  ultimately show ?thesis using d s(2) by (auto simp: dlist_def)
qed

lemma holds_frame: "holds h p A ds \<Longrightarrow> same_but B h h' \<Longrightarrow> A \<inter> B = {} \<Longrightarrow> holds h' p A ds"
  unfolding holds_def using dlist_frame by metis

lemma holds_number: "holds h p A ds \<Longrightarrow> z3_list_number p h = Inr (of_nat (length ds))"
proof -
  assume "holds h p A ds"
  then obtain xs where xs: "dlist h p xs" "map snd xs = ds" by (auto simp: holds_def)
  then have "length ds = length xs" by auto
  with xs(1) show ?thesis by (cases xs) (auto simp: z3_list_number_def dlist_def load_def)
qed

lemma holdsE:
  assumes "holds h p A ds"
  obtains xs where "dlist h p xs" "A = fst ` set xs" "ds = map snd xs"
  using assms by (auto simp: holds_def)

lemma holdsI: "dlist h p xs \<Longrightarrow> holds h p (fst ` set xs) (map snd xs)"
  by (auto simp: holds_def)

lemma holds_add_head:
  assumes "holds h p A ds" "a \<notin> A"
  shows "\<exists>p' h'. z3_list_add_head (Some a) p d h = Inr (p', h') \<and> holds h' p' (insert a A) (d # ds) \<and> same_but (insert a A) h h'"
proof -
  obtain xs where xs: "dlist h p xs" "A = fst ` set xs" "ds = map snd xs" by (rule holdsE [OF assms(1)])
  from add_head_dlist [OF xs(1), of a d] assms(2) obtain h' where
    "z3_list_add_head (Some a) p d h = Inr (Some a, h')" "dlist h' (Some a) ((a, d) # xs)" "same_but (insert a A) h h'"
    unfolding xs(2) by blast
  with holdsI [OF this(2)] show ?thesis by (auto simp: xs)
qed

lemma holds_add_tail:
  assumes "holds h p A ds" "a \<notin> A" "length ds < n"
  shows "\<exists>p' h'. z3_list_add_tail n (Some a) p d h = Inr (p', h') \<and> holds h' p' (insert a A) (ds @ [d]) \<and> same_but (insert a A) h h'"
proof -
  obtain xs where xs: "dlist h p xs" "A = fst ` set xs" "ds = map snd xs" by (rule holdsE [OF assms(1)])
  from add_tail_dlist [OF xs(1), of a n d] assms(2,3) obtain h' where
    "z3_list_add_tail n (Some a) p d h = Inr (ptr (xs @ [(a, d)]), h')" "dlist h' (ptr (xs @ [(a, d)])) (xs @ [(a, d)])" "same_but (insert a A) h h'"
    by (auto simp: xs)
  with holdsI [OF this(2)] show ?thesis by (auto simp: xs)
qed

lemma holds_concat:
  assumes "holds h p A ds" "holds h q B es" "A \<inter> B = {}" "length ds < n"
  shows "\<exists>p' h'. z3_list_concat n p q h = Inr (p', h') \<and> holds h' p' (A \<union> B) (ds @ es) \<and> same_but (A \<union> B) h h'"
proof -
  obtain xs where xs: "dlist h p xs" "A = fst ` set xs" "ds = map snd xs" by (rule holdsE [OF assms(1)])
  obtain ys where ys: "dlist h q ys" "B = fst ` set ys" "es = map snd ys" by (rule holdsE [OF assms(2)])
  from concat_dlist [OF xs(1) ys(1), of n] assms(3,4) obtain h' where
    "z3_list_concat n p q h = Inr (ptr (xs @ ys), h')" "dlist h' (ptr (xs @ ys)) (xs @ ys)" "same_but (fst ` set (xs @ ys)) h h'"
    by (auto simp: xs ys)
  with holdsI [OF this(2)] show ?thesis by (auto simp: xs ys image_Un)
qed

lemma holds_remove:
  assumes "holds h p A ds" "length ds < n"
  shows "if d \<in> set ds then \<exists>p' h' A'. z3_list_remove n debug p d h = Inr (p', h') \<and> holds h' p' A' (remove1 d ds) \<and> A' \<subseteq> A \<and> same_but A h h'
    else z3_list_remove n debug p d h = (if debug then Inl AssertFailed else Inr (p, h))"
proof -
  obtain xs where xs: "dlist h p xs" "A = fst ` set xs" "ds = map snd xs" by (rule holdsE [OF assms(1)])
  have p: "ptr xs = p" using dlist_ptr [OF xs(1)] by simp
  note loop = remove_loop_dlist [of h p "[]" xs n d debug, unfolded append_Nil p, OF xs(1)]
  show ?thesis
  proof (cases "d \<in> set ds")
    case True
    with loop assms(2) obtain p' h' where r: "remove_loop n debug p p d h = Inr (p', h')" "dlist h' p' (del_first d xs)" "same_but A h h'"
      by (auto simp: xs)
    have "fst ` set (del_first d xs) \<subseteq> A" unfolding xs(2) using del_first_subset [of d xs] by blast
    with holdsI [OF r(2)] r True show ?thesis by (auto simp: z3_list_remove_def xs(3))
  next
    case False
    then show ?thesis using loop assms(2) by (auto simp: z3_list_remove_def xs)
  qed
qed

lemma holds_remove_all:
  assumes "holds h p A ds" "length ds < n"
  shows "\<exists>p' h' A'. z3_list_remove_all n p d h = Inr (p', h') \<and> holds h' p' A' (filter (\<lambda>e. e \<noteq> d) ds) \<and> A' \<subseteq> A \<and> same_but A h h'"
proof -
  obtain xs where xs: "dlist h p xs" "A = fst ` set xs" "ds = map snd xs" by (rule holdsE [OF assms(1)])
  have p: "ptr xs = p" using dlist_ptr [OF xs(1)] by simp
  from remove_all_loop_dlist [of h p "[]" xs n d, unfolded append_Nil p, OF xs(1)] assms(2) obtain p' h' where
    r: "remove_all_loop n p p d h = Inr (p', h')" "dlist h' p' (filter (\<lambda>x. snd x \<noteq> d) xs)" "same_but A h h'" by (auto simp: xs)
  have "map snd (filter (\<lambda>x. snd x \<noteq> d) xs) = filter (\<lambda>e. e \<noteq> d) ds" by (simp add: xs(3) filter_map o_def)
  moreover have "fst ` set (filter (\<lambda>x. snd x \<noteq> d) xs) \<subseteq> A" unfolding xs(2) by auto
  ultimately show ?thesis using holdsI [OF r(2)] r unfolding z3_list_remove_all_def by auto
qed

lemma holds_foreach:
  assumes "holds h p A ds" "length ds < n"
  shows "z3_list_foreach n p func h s = fold (\<lambda>d r. bindE r (func d)) ds (Inr s)"
proof -
  obtain xs where xs: "dlist h p xs" "A = fst ` set xs" "ds = map snd xs" by (rule holdsE [OF assms(1)])
  have p: "ptr xs = p" using dlist_ptr [OF xs(1)] by simp
  have "z3_list_foreach n p func h s = fold (\<lambda>x r. bindE r (func (snd x))) xs (Inr s)"
    using foreach_dlist [of h p "[]" xs n func s, unfolded append_Nil p, OF xs(1)] assms(2) xs(3) by simp
  then show ?thesis by (simp add: xs(3) fold_map o_def)
qed

text \<open>What a client relies on: an empty list, adding in front, removing data that is there, and that a change outside the nodes of
  a list leaves it as it is.\<close>

locale data_list =
  fixes rep :: "'h \<Rightarrow> 'p \<Rightarrow> addr set \<Rightarrow> addr list \<Rightarrow> bool"
    and none :: 'p
    and add :: "addr \<Rightarrow> 'p \<Rightarrow> addr \<Rightarrow> 'h \<Rightarrow> ('p \<times> 'h) outcome"
    and del :: "nat \<Rightarrow> 'p \<Rightarrow> addr \<Rightarrow> 'h \<Rightarrow> ('p \<times> 'h) outcome"
    and outside :: "addr set \<Rightarrow> 'h \<Rightarrow> 'h \<Rightarrow> bool"
  assumes rep_none: "rep h none {} []"
    and rep_add: "rep h p A ds \<Longrightarrow> a \<notin> A \<Longrightarrow> \<exists>p' h'. add a p d h = Inr (p', h') \<and> rep h' p' (insert a A) (d # ds) \<and> outside (insert a A) h h'"
    and rep_del: "rep h p A ds \<Longrightarrow> length ds < n \<Longrightarrow> d \<in> set ds \<Longrightarrow>
      \<exists>p' h' A'. del n p d h = Inr (p', h') \<and> rep h' p' A' (remove1 d ds) \<and> A' \<subseteq> A \<and> outside A h h'"
    and rep_del_none: "rep h p A ds \<Longrightarrow> length ds < n \<Longrightarrow> d \<notin> set ds \<Longrightarrow> del n p d h = Inl AssertFailed"
    and rep_frame: "rep h p A ds \<Longrightarrow> outside B h h' \<Longrightarrow> A \<inter> B = {} \<Longrightarrow> rep h' p A ds"

interpretation z3l: data_list holds None "\<lambda>a. z3_list_add_head (Some a)" "\<lambda>n. z3_list_remove n True" same_but
proof
  fix h p A ds n d assume a: "holds h p A ds" "length ds < n"
  show "\<exists>p' h' A'. z3_list_remove n True p d h = Inr (p', h') \<and> holds h' p' A' (remove1 d ds) \<and> A' \<subseteq> A \<and> same_but A h h'" if "d \<in> set ds"
    using holds_remove [OF a, of d True] that by simp
  show "z3_list_remove n True p d h = Inl AssertFailed" if "d \<notin> set ds"
    using holds_remove [OF a, of d True] that by simp
qed (use holds_add_head holds_frame in simp_all)

text \<open>C24. The lists of the C library implement lists of data in a store. On a list that holds \<open>ds\<close> and owns the nodes \<open>A\<close>, with
  new nodes outside them, every operation does to the data what its name says, keeps the number of elements in the first node
  (modulo \<open>2^32\<close>), the links in both directions and everything outside the list; removing data that is not in it fails the
  assertion of a debug build. Fuel for one node more than the list has is enough for the loops.\<close>

theorem list_refines:
  assumes "holds h p A ds" and "holds h q B es" and "A \<inter> B = {}" and "a \<notin> A" and "length ds < n"
  shows "z3_list_number p h = Inr (of_nat (length ds))
    \<and> (\<exists>p' h'. z3_list_add_head (Some a) p d h = Inr (p', h') \<and> holds h' p' (insert a A) (d # ds) \<and> same_but (insert a A) h h')
    \<and> (\<exists>p' h'. z3_list_add_tail n (Some a) p d h = Inr (p', h') \<and> holds h' p' (insert a A) (ds @ [d]) \<and> same_but (insert a A) h h')
    \<and> (if d \<in> set ds then \<exists>p' h' A'. z3_list_remove n True p d h = Inr (p', h') \<and> holds h' p' A' (remove1 d ds) \<and> A' \<subseteq> A \<and> same_but A h h'
       else z3_list_remove n True p d h = Inl AssertFailed)
    \<and> (\<exists>p' h' A'. z3_list_remove_all n p d h = Inr (p', h') \<and> holds h' p' A' (filter (\<lambda>e. e \<noteq> d) ds) \<and> A' \<subseteq> A \<and> same_but A h h')
    \<and> (\<exists>p' h'. z3_list_concat n p q h = Inr (p', h') \<and> holds h' p' (A \<union> B) (ds @ es) \<and> same_but (A \<union> B) h h')
    \<and> z3_list_foreach n p func h s = fold (\<lambda>d r. bindE r (func d)) ds (Inr s)"
proof (intro conjI)
  show "if d \<in> set ds then \<exists>p' h' A'. z3_list_remove n True p d h = Inr (p', h') \<and> holds h' p' A' (remove1 d ds) \<and> A' \<subseteq> A \<and> same_but A h h'
      else z3_list_remove n True p d h = Inl AssertFailed"
    using holds_remove [OF assms(1,5), of d True] by (simp only: if_True)
qed (fact holds_number [OF assms(1)] holds_add_head [OF assms(1,4)] holds_add_tail [OF assms(1,4,5)]
    holds_remove_all [OF assms(1,5)] holds_concat [OF assms(1-3,5)] holds_foreach [OF assms(1,5)])+

theorem list_refines_witness:
  "\<exists>p' h'. z3_list_add_tail 3 (Some 6) (Some 5) 8 [5 \<mapsto> \<lparr>l_data = 7, l_next = None, l_prev = None, list_num = 1\<rparr>] = Inr (p', h')
    \<and> holds h' p' {6, 5} [7, 8]"
proof -
  let ?h = "[5 \<mapsto> \<lparr>l_data = 7, l_next = None, l_prev = None, list_num = 1\<rparr>]"
  have h: "holds ?h (Some 5) {5} [7]" by (auto simp: holds_def dlist_def intro!: exI [of _ "[(5, 7)]"])
  from list_refines [where func = "\<lambda>_. Inr" and s = "()", OF h holds_empty, of 6 3 8]
  have "\<exists>p' h'. z3_list_add_tail 3 (Some 6) (Some 5) 8 ?h = Inr (p', h') \<and> holds h' p' {6, 5} ([7] @ [8])" by auto
  then show ?thesis by simp
qed

end
