(* ===== verification/HashTables.thy ===== *)
theory HashTables
  imports LinkedLists "HOL-Library.Multiset"
begin

unbundle bit_operations_syntax

text \<open>
  The hash table of \<open>z3_utilib/z3_hash.c\<close>: an array of 512 lists. What an operation does to one bucket is proved from the
  interface of the lists alone (\<open>data_list\<close>), so that nothing here depends on their links.
\<close>

section \<open>The table\<close>

record z3_hash =
  bucket_size :: u32
  down_shift :: u32
  mask :: u32
  buckets :: "addr option list"   \<comment> \<open>empty if \<open>calloc\<close> had no memory for it\<close>
  available_num :: u32

definition fnv_random_key :: "u32 \<Rightarrow> u32 \<Rightarrow> u32 \<Rightarrow> u32" where
  "fnv_random_key index shift m = drop_bit (unat shift) (index * 1103515245) AND m"

definition hash_pointer_key :: "z3_hash \<Rightarrow> addr \<Rightarrow> u32" where
  "hash_pointer_key t data = fnv_random_key (of_nat data) (down_shift t) (mask t)"

text \<open>The result of the first \<open>calloc\<close> is used unchecked, and so is, later, that of the second.\<close>

definition z3_hash_init :: "bool \<Rightarrow> bool \<Rightarrow> z3_hash outcome" where
  "z3_hash_init ok_table ok_buckets =
     (if \<not> ok_table then Inl NullDeref
      else Inr \<lparr>bucket_size = 512, down_shift = 22, mask = 0x1FF,
                buckets = (if ok_buckets then replicate 512 None else []), available_num = 0\<rparr>)"

definition bucket :: "z3_hash \<Rightarrow> u32 \<Rightarrow> addr option outcome" where
  "bucket t key =
     (if buckets t = [] then Inl NullDeref
      else if unat key < length (buckets t) then Inr (buckets t ! unat key) else Inl OutOfBounds)"

definition z3_hash_lookup :: "z3_hash \<Rightarrow> addr \<Rightarrow> u32 outcome" where
  "z3_hash_lookup t data =
     (let key = hash_pointer_key t data in bindE (assertE (key < bucket_size t)) (\<lambda>_. Inr key))"

definition z3_hash_insert :: "addr option \<Rightarrow> z3_hash \<Rightarrow> addr \<Rightarrow> store \<Rightarrow> (u32 \<times> z3_hash \<times> store) outcome" where
  "z3_hash_insert new_list t data h =
     bindE (z3_hash_lookup t data) (\<lambda>key.
     bindE (bucket t key) (\<lambda>list.
     bindE (z3_list_add_head new_list list data h) (\<lambda>(list_node, h').
       Inr (key, t\<lparr>buckets := (buckets t)[unat key := list_node], available_num := available_num t + 1\<rparr>, h'))))"

definition z3_hash_remove :: "nat \<Rightarrow> bool \<Rightarrow> z3_hash \<Rightarrow> addr \<Rightarrow> store \<Rightarrow> (u32 \<times> z3_hash \<times> store) outcome" where
  "z3_hash_remove fuel debug t data h =
     bindE (z3_hash_lookup t data) (\<lambda>key.
     bindE (bucket t key) (\<lambda>list.
     bindE (z3_list_remove fuel debug list data h) (\<lambda>(list_node, h').
       Inr (key, t\<lparr>buckets := (buckets t)[unat key := list_node], available_num := available_num t - 1\<rparr>, h'))))"

definition z3_hash_amount :: "z3_hash option \<Rightarrow> u32" where
  "z3_hash_amount t = (case t of None \<Rightarrow> 0 | Some t \<Rightarrow> available_num t)"

text \<open>\<open>z3_hash_uninit\<close> frees the array and the table and gives back no node of its lists: the store of nodes stays.\<close>

definition z3_hash_uninit :: "z3_hash option \<Rightarrow> store \<Rightarrow> store" where
  "z3_hash_uninit hash_table h = h"

text \<open>\<open>z3_hash_foreach\<close> hands NULL to the visitor, whatever it was given for it.\<close>

definition z3_hash_foreach :: "nat \<Rightarrow> z3_hash \<Rightarrow> (addr \<Rightarrow> 's \<Rightarrow> 's outcome) \<Rightarrow> store \<Rightarrow> 's \<Rightarrow> 's outcome" where
  "z3_hash_foreach fuel t func h s =
     fold (\<lambda>index r. bindE r (\<lambda>s. bindE (bucket t (of_nat index)) (\<lambda>list.
         if list \<noteq> None then z3_list_foreach fuel list func h s else Inr s)))
       [0..<unat (bucket_size t)] (Inr s)"

section \<open>Buckets\<close>

context data_list begin

text \<open>An array of lists that own disjoint nodes.\<close>

definition rep_all :: "'h \<Rightarrow> 'p list \<Rightarrow> (nat \<Rightarrow> addr set) \<Rightarrow> (nat \<Rightarrow> addr list) \<Rightarrow> bool" where
  "rep_all h ps A D \<longleftrightarrow> (\<forall>i < length ps. rep h (ps ! i) (A i) (D i) \<and> (\<forall>j < length ps. i \<noteq> j \<longrightarrow> A i \<inter> A j = {}))"

lemma rep_all_none: "rep_all h (replicate n none) (\<lambda>_. {}) (\<lambda>_. [])"
  by (simp add: rep_all_def rep_none)

lemma rep_all_update:
  assumes "rep_all h ps A D" "k < length ps" "rep h' p' A' ds" "outside B h h'" "A' \<subseteq> B" "\<forall>i < length ps. i \<noteq> k \<longrightarrow> A i \<inter> B = {}"
  shows "rep_all h' (ps[k := p']) (A(k := A')) (D(k := ds))"
  unfolding rep_all_def
proof (intro allI impI conjI)
  fix i assume i: "i < length (ps[k := p'])"
  show "rep h' (ps[k := p'] ! i) ((A(k := A')) i) ((D(k := ds)) i)"
    using assms i rep_frame [of h "ps ! i" "A i" "D i" B h'] by (cases "i = k") (auto simp: rep_all_def)
  fix j assume "j < length (ps[k := p'])" "i \<noteq> j"
  then show "(A(k := A')) i \<inter> (A(k := A')) j = {}" using assms i by (auto simp: rep_all_def) blast+
qed

lemma add_bucket:
  assumes "rep_all h ps A D" "k < length ps" "\<forall>i < length ps. a \<notin> A i"
  shows "\<exists>p' h'. add a (ps ! k) d h = Inr (p', h') \<and> rep_all h' (ps[k := p']) (A(k := insert a (A k))) (D(k := d # D k))"
proof -
  have "rep h (ps ! k) (A k) (D k)" "a \<notin> A k" using assms by (auto simp: rep_all_def)
  from rep_add [OF this, of d] obtain p' h' where r: "add a (ps ! k) d h = Inr (p', h')" "rep h' p' (insert a (A k)) (d # D k)"
    "outside (insert a (A k)) h h'" by blast
  have "rep_all h' (ps[k := p']) (A(k := insert a (A k))) (D(k := d # D k))"
    by (rule rep_all_update [OF assms(1,2) r(2,3)]) (use assms in \<open>auto simp: rep_all_def\<close>)
  with r(1) show ?thesis by blast
qed

lemma del_bucket:
  assumes "rep_all h ps A D" "k < length ps" "length (D k) < n" "d \<in> set (D k)"
  shows "\<exists>p' h' A'. del n (ps ! k) d h = Inr (p', h') \<and> rep_all h' (ps[k := p']) (A(k := A')) (D(k := remove1 d (D k))) \<and> A' \<subseteq> A k"
proof -
  have "rep h (ps ! k) (A k) (D k)" using assms by (auto simp: rep_all_def)
  from rep_del [OF this assms(3,4)] obtain p' h' A' where r: "del n (ps ! k) d h = Inr (p', h')" "rep h' p' A' (remove1 d (D k))"
    "A' \<subseteq> A k" "outside (A k) h h'" by blast
  have "rep_all h' (ps[k := p']) (A(k := A')) (D(k := remove1 d (D k)))"
    by (rule rep_all_update [OF assms(1,2) r(2,4,3)]) (use assms in \<open>auto simp: rep_all_def\<close>)
  with r(1,3) show ?thesis by blast
qed

end

section \<open>What a table holds\<close>

definition key_of :: "addr \<Rightarrow> nat" where
  "key_of d = unat (drop_bit 22 (of_nat d * 1103515245 :: u32) AND 0x1FF)"

definition hash_holds :: "store \<Rightarrow> z3_hash \<Rightarrow> addr set \<Rightarrow> addr multiset \<Rightarrow> bool" where
  "hash_holds h t N M \<longleftrightarrow> bucket_size t = 512 \<and> down_shift t = 22 \<and> mask t = 0x1FF \<and> length (buckets t) = 512
     \<and> available_num t = of_nat (size M)
     \<and> (\<exists>A D. z3l.rep_all h (buckets t) A D \<and> (\<forall>k < 512. \<forall>d \<in> set (D k). key_of d = k)
         \<and> N = (\<Union>k < 512. A k) \<and> M = (\<Sum>k < 512. mset (D k)))"


lemma key_of_less: "key_of d < 512"
proof -
  have "drop_bit 22 (of_nat d * 1103515245 :: u32) AND 0x1FF \<le> 0x1FF" by (rule word_and_le1)
  then show ?thesis by (simp add: key_of_def word_le_nat_alt)
qed

lemma z3_hash_lookup_holds: "hash_holds h t N M \<Longrightarrow> z3_hash_lookup t d = Inr (of_nat (key_of d))"
  using key_of_less [of d]
  by (auto simp: hash_holds_def z3_hash_lookup_def hash_pointer_key_def fnv_random_key_def key_of_def word_less_nat_alt assertE_def Let_def)

lemma bucket_holds: "hash_holds h t N M \<Longrightarrow> k < 512 \<Longrightarrow> bucket t (of_nat k) = Inr (buckets t ! k)"
  by (auto simp: hash_holds_def bucket_def unat_of_nat)

lemma sum_update_add:
  assumes "k < 512"
  shows "(\<Sum>i < (512::nat). mset ((D(k := d # D k)) i)) = add_mset d (\<Sum>i < 512. mset (D i))"
  using assms by (simp add: sum.remove [of "{..<512}" k])

lemma sum_update_del:
  assumes "k < 512" "d \<in> set (D k)"
  shows "(\<Sum>i < (512::nat). mset ((D(k := remove1 d (D k))) i)) = (\<Sum>i < 512. mset (D i)) - {#d#}"
  using assms by (simp add: sum.remove [of "{..<512}" k])

lemma in_sum_mset: "d \<in># (\<Sum>i < (n::nat). mset (D i)) \<longleftrightarrow> (\<exists>i < n. d \<in> set (D i))"
  by (induction n) (auto simp: less_Suc_eq)

lemma length_le_sum: "k < n \<Longrightarrow> length (D k) \<le> size (\<Sum>i < (n::nat). mset (D i))"
  by (induction n) (auto simp: less_Suc_eq)

lemma hash_holdsI:
  assumes "hash_holds h t N M" "z3l.rep_all h' ps A D" "length ps = 512" "\<forall>k < 512. \<forall>d \<in> set (D k). key_of d = k"
    "n = of_nat (size (\<Sum>k < (512::nat). mset (D k)))"
  shows "hash_holds h' (t\<lparr>buckets := ps, available_num := n\<rparr>) (\<Union>k < 512. A k) (\<Sum>k < 512. mset (D k))"
  using assms unfolding hash_holds_def by (intro conjI exI [of _ A] exI [of _ D]) simp_all

lemma hash_holdsE:
  assumes "hash_holds h t N M"
  obtains A D where "z3l.rep_all h (buckets t) A D" "\<forall>k < 512. \<forall>d \<in> set (D k). key_of d = k" "N = (\<Union>k < 512. A k)"
    "M = (\<Sum>k < 512. mset (D k))" "length (buckets t) = 512" "available_num t = of_nat (size M)"
  using assms unfolding hash_holds_def by blast

lemma hash_insert_holds:
  assumes "hash_holds h t N M" "a \<notin> N"
  shows "\<exists>t' h'. z3_hash_insert (Some a) t d h = Inr (of_nat (key_of d), t', h') \<and> hash_holds h' t' (insert a N) (add_mset d M)"
proof -
  let ?k = "key_of d"
  obtain A D where AD: "z3l.rep_all h (buckets t) A D" "\<forall>k < 512. \<forall>d \<in> set (D k). key_of d = k"
    "N = (\<Union>k < 512. A k)" "M = (\<Sum>k < 512. mset (D k))" and l: "length (buckets t) = 512" "available_num t = of_nat (size M)"
    by (rule hash_holdsE [OF assms(1)])
  have k: "?k < length (buckets t)" "\<forall>i < length (buckets t). a \<notin> A i" using key_of_less [of d] assms(2) by (auto simp: AD(3) l)
  from z3l.add_bucket [OF AD(1) k] obtain p' h' where r: "z3_list_add_head (Some a) (buckets t ! ?k) d h = Inr (p', h')"
    "z3l.rep_all h' ((buckets t)[?k := p']) (A(?k := insert a (A ?k))) (D(?k := d # D ?k))" by blast
  let ?t = "t\<lparr>buckets := (buckets t)[?k := p'], available_num := available_num t + 1\<rparr>"
  have N: "(\<Union>k < 512. (A(?k := insert a (A ?k))) k) = insert a N"
    using key_of_less [of d] by (auto simp: AD(3) split: if_splits)
  have "hash_holds h' ?t (insert a N) (add_mset d M)"
    unfolding N [symmetric] AD(4) sum_update_add [OF key_of_less, of D d d, symmetric]
  proof (rule hash_holdsI [OF assms(1) r(2)])
    show "\<forall>k < 512. \<forall>e \<in> set ((D(?k := d # D ?k)) k). key_of e = k" using AD(2) by auto
    show "available_num t + 1 = of_nat (size (\<Sum>k < (512::nat). mset ((D(?k := d # D ?k)) k)))"
      unfolding sum_update_add [OF key_of_less] by (simp add: l(2) AD(4))
  qed (simp add: l)
  moreover have "z3_hash_insert (Some a) t d h = Inr (of_nat ?k, ?t, h')"
    using key_of_less [of d] by (simp add: z3_hash_insert_def z3_hash_lookup_holds [OF assms(1)] bucket_holds [OF assms(1) key_of_less] r(1) unat_of_nat)
  ultimately show ?thesis by blast
qed

lemma hash_remove_holds:
  assumes "hash_holds h t N M" "size M < n" "d \<in># M"
  shows "\<exists>t' h' N'. z3_hash_remove n True t d h = Inr (of_nat (key_of d), t', h') \<and> hash_holds h' t' N' (M - {#d#}) \<and> N' \<subseteq> N"
proof -
  let ?k = "key_of d"
  obtain A D where AD: "z3l.rep_all h (buckets t) A D" "\<forall>k < 512. \<forall>d \<in> set (D k). key_of d = k"
    "N = (\<Union>k < 512. A k)" "M = (\<Sum>k < 512. mset (D k))" and l: "length (buckets t) = 512" "available_num t = of_nat (size M)"
    by (rule hash_holdsE [OF assms(1)])
  have k: "?k < length (buckets t)" "length (D ?k) < n" "d \<in> set (D ?k)"
    using key_of_less [of d] assms(2,3) AD(2) length_le_sum [of ?k 512 D] by (auto simp: AD(4) l in_sum_mset)
  from z3l.del_bucket [OF AD(1) k] obtain p' h' A' where r: "z3_list_remove n True (buckets t ! ?k) d h = Inr (p', h')"
    "z3l.rep_all h' ((buckets t)[?k := p']) (A(?k := A')) (D(?k := remove1 d (D ?k)))" "A' \<subseteq> A ?k" by blast
  let ?t = "t\<lparr>buckets := (buckets t)[?k := p'], available_num := available_num t - 1\<rparr>"
  have N: "(\<Union>k < 512. (A(?k := A')) k) \<subseteq> N" using r(3) key_of_less [of d] by (auto simp: AD(3) split: if_splits)
  have "1 \<le> size M" using assms(3) by (cases M) auto
  then have one: "available_num t - 1 = of_nat (size (M - {#d#}))" using assms(3) l(2) by (simp add: size_Diff_singleton of_nat_diff)
  have "hash_holds h' ?t (\<Union>k < 512. (A(?k := A')) k) (M - {#d#})"
    unfolding AD(4) sum_update_del [where k = ?k and d = d and D = D, OF key_of_less k(3), symmetric]
  proof (rule hash_holdsI [OF assms(1) r(2)])
    show "\<forall>k < 512. \<forall>e \<in> set ((D(?k := remove1 d (D ?k))) k). key_of e = k" using AD(2) by (auto dest: set_mp [OF set_remove1_subset])
    show "available_num t - 1 = of_nat (size (\<Sum>k < (512::nat). mset ((D(?k := remove1 d (D ?k))) k)))"
      unfolding sum_update_del [where k = ?k and d = d and D = D, OF key_of_less k(3)] using one by (simp only: AD(4))
  qed (simp add: l)
  moreover have "z3_hash_remove n True t d h = Inr (of_nat ?k, ?t, h')"
    using key_of_less [of d] by (simp add: z3_hash_remove_def z3_hash_lookup_holds [OF assms(1)] bucket_holds [OF assms(1) key_of_less] r(1) unat_of_nat)
  ultimately show ?thesis using N by blast
qed

lemma hash_remove_absent:
  assumes "hash_holds h t N M" "size M < n" "d \<notin># M"
  shows "z3_hash_remove n True t d h = Inl AssertFailed"
proof -
  obtain A D where AD: "z3l.rep_all h (buckets t) A D" "M = (\<Sum>k < 512. mset (D k))" and l: "length (buckets t) = 512"
    by (rule hash_holdsE [OF assms(1)])
  let ?k = "key_of d"
  have "holds h (buckets t ! ?k) (A ?k) (D ?k)" using AD(1) key_of_less [of d] by (auto simp: z3l.rep_all_def l)
  moreover have "length (D ?k) < n" "d \<notin> set (D ?k)"
    using length_le_sum [OF key_of_less, of D d] assms(2,3) key_of_less [of d] by (auto simp: AD(2) in_sum_mset)
  ultimately have "z3_list_remove n True (buckets t ! ?k) d h = Inl AssertFailed" by (rule z3l.rep_del_none)
  then show ?thesis by (simp add: z3_hash_remove_def z3_hash_lookup_holds [OF assms(1)] bucket_holds [OF assms(1) key_of_less])
qed

lemma hash_init_holds: "\<exists>t. z3_hash_init True True = Inr t \<and> hash_holds h t {} {#}"
  unfolding z3_hash_init_def hash_holds_def
  by (auto intro!: exI [of _ "\<lambda>_. {}"] exI [of _ "\<lambda>_. []"] simp: z3l.rep_all_none)

lemma fold_concat_map: "fold (\<lambda>k. fold f (D k)) ks s = fold f (concat (map D ks)) s"
  by (induction ks arbitrary: s) auto

lemma hash_foreach_holds:
  assumes "hash_holds h t N M" "size M < n"
  shows "\<exists>ds. mset ds = M \<and> z3_hash_foreach n t func h s = fold (\<lambda>d r. bindE r (func d)) ds (Inr s)"
proof -
  obtain A D where AD: "z3l.rep_all h (buckets t) A D" "M = (\<Sum>k < 512. mset (D k))" and l: "length (buckets t) = 512"
    by (rule hash_holdsE [OF assms(1)])
  let ?f = "\<lambda>d r. bindE r (func d)"
  have inl: "fold ?f ds (Inl e) = Inl e" for ds e by (induction ds) auto
  have b: "(if buckets t ! k \<noteq> None then z3_list_foreach n (buckets t ! k) func h s else Inr s) = fold ?f (D k) (Inr s)" if "k < 512" for k s
  proof -
    have h: "holds h (buckets t ! k) (A k) (D k)" using AD(1) that by (auto simp: z3l.rep_all_def l)
    have "length (D k) < n" using length_le_sum [OF that, of D] assms(2) by (simp add: AD(2))
    from holds_foreach [OF h this] h show ?thesis by (auto simp: holds_def)
  qed
  have size: "[0..<unat (bucket_size t)] = [0..<512]" using assms(1) by (simp add: hash_holds_def)
  have "z3_hash_foreach n t func h s = fold (\<lambda>k. fold ?f (D k)) [0..<512] (Inr s)"
    unfolding z3_hash_foreach_def size
  proof (rule fold_cong)
    fix k assume "k \<in> set [0..<512]"
    then have k: "k < 512" by simp
    show "(\<lambda>r. bindE r (\<lambda>s. bindE (bucket t (of_nat k)) (\<lambda>list. if list \<noteq> None then z3_list_foreach n list func h s else Inr s)))
      = fold ?f (D k)"
    proof (rule ext)
      fix r show "bindE r (\<lambda>s. bindE (bucket t (of_nat k)) (\<lambda>list. if list \<noteq> None then z3_list_foreach n list func h s else Inr s))
        = fold ?f (D k) r"
        using b [OF k] by (cases r) (simp_all add: inl bucket_holds [OF assms(1) k])
    qed
  qed simp_all
  then have "z3_hash_foreach n t func h s = fold ?f (concat (map D [0..<512])) (Inr s)" by (simp add: fold_concat_map)
  moreover have "mset (concat (map D [0..<512])) = M"
    by (simp add: AD(2) mset_concat sum_list_distinct_conv_sum_set o_def atLeast0LessThan)
  ultimately show ?thesis by blast
qed

text \<open>C25. The hash table implements a multiset of data. A new one is empty; adding puts the data in with one node that is new and
  counts it, removing takes one occurrence out, or fails the assertion of a debug build if there is none; the amount is the size
  (modulo \<open>2^32\<close>), and the visitor sees each element as often as it is there.\<close>

theorem hash_refines:
  assumes "hash_holds h t N M" and "a \<notin> N" and "size M < n"
  shows "(\<exists>t\<^sub>0. z3_hash_init True True = Inr t\<^sub>0 \<and> hash_holds h t\<^sub>0 {} {#})
    \<and> (\<exists>t' h'. z3_hash_insert (Some a) t d h = Inr (of_nat (key_of d), t', h') \<and> hash_holds h' t' (insert a N) (add_mset d M))
    \<and> (if d \<in># M then \<exists>t' h' N'. z3_hash_remove n True t d h = Inr (of_nat (key_of d), t', h') \<and> hash_holds h' t' N' (M - {#d#}) \<and> N' \<subseteq> N
       else z3_hash_remove n True t d h = Inl AssertFailed)
    \<and> z3_hash_amount (Some t) = of_nat (size M)
    \<and> (\<exists>ds. mset ds = M \<and> z3_hash_foreach n t func h s = fold (\<lambda>d r. bindE r (func d)) ds (Inr s))"
proof (intro conjI)
  show "if d \<in># M then \<exists>t' h' N'. z3_hash_remove n True t d h = Inr (of_nat (key_of d), t', h') \<and> hash_holds h' t' N' (M - {#d#}) \<and> N' \<subseteq> N
      else z3_hash_remove n True t d h = Inl AssertFailed"
    using hash_remove_holds [OF assms(1,3)] hash_remove_absent [OF assms(1,3)] by (simp split: if_split)
  show "z3_hash_amount (Some t) = of_nat (size M)" using assms(1) by (simp add: z3_hash_amount_def hash_holds_def)
qed (fact hash_init_holds hash_insert_holds [OF assms(1,2)] hash_foreach_holds [OF assms(1,3)])+

theorem hash_refines_witness:
  "\<exists>t t' h' ds. z3_hash_init True True = Inr t \<and> z3_hash_insert (Some 9) t 5 Map.empty = Inr (of_nat (key_of 5), t', h') \<and> hash_holds h' t' {9} {#5#}"
proof -
  obtain t where t: "z3_hash_init True True = Inr t" "hash_holds Map.empty t {} {#}" using hash_init_holds by blast
  from hash_refines [where func = "\<lambda>_. Inr" and s = "()", OF t(2), of 9 1 5] t(1) show ?thesis by auto
qed

end
