(* ===== verification/DebugAlloc.thy ===== *)
theory DebugAlloc
  imports LinkedLists
begin

unbundle bit_operations_syntax

text \<open>
  The allocator of a debug build (\<open>z3_utilib/z3_alloc.c\<close>), in the variant of the project files: Windows, 32 bits, the blocks on a
  list and not in the hash table. \<open>malloc\<close>, \<open>calloc\<close> and \<open>realloc\<close> of the C library are parameters, the address they answer;
  a block that was freed is not in the heap, and an access to it is a fault. The mutex is there from the first call to the last,
  and an operation holds it while it moves the statistics, so that the operations below are what threads interleave;
  only the trace at level DETAIL reads the list outside the mutex (\<open>detail_alloc\<close>), which is taken as part of its operation.
\<close>

section \<open>Blocks\<close>

text \<open>A chunk of memory is the head, and behind it the bytes of the client and the four of the tail.\<close>

record alloc_head =
  magic :: u32
  filename :: string
  line :: u32
  hlength :: u32
  body :: "u8 list"

record alloc_statistic =
  memblock_list :: "addr option"
  total_allocated_bytes :: u32
  total_free_bytes :: u32
  maximum_memory_bytes :: u32
  total_allocated_times :: u32
  total_free_times :: u32

text \<open>The global pointer to the statistics, which \<open>_z3_alloc_uninit\<close> frees and does not set to NULL.\<close>

datatype stat_ptr = NoStat | FreedStat | Stat alloc_statistic

record heap =
  chunks :: "addr \<rightharpoonup> alloc_head"
  nodes :: store
  alloc_stat :: stat_ptr

definition ALIGN :: "u32 \<Rightarrow> u32 \<Rightarrow> u32" where
  "ALIGN len alignment = (len + alignment - 1) AND NOT (alignment - 1)"

abbreviation MAGIC :: u32 where "MAGIC \<equiv> 0x000399B6"

text \<open>The tail as it lies in memory.\<close>

abbreviation (input) MAGIC_bytes :: "u8 list" where "MAGIC_bytes \<equiv> [0xB6, 0x99, 0x03, 0x00]"

abbreviation (input) sizeof_head :: nat where "sizeof_head \<equiv> 272"
abbreviation (input) sizeof_tail :: nat where "sizeof_tail \<equiv> 4"

text \<open>A name that does not fit loses two characters more than it has to: 255 are copied, and the last of them is overwritten.\<close>

definition head_filename :: "string option \<Rightarrow> string" where
  "head_filename name =
     (let str_len = (case name of None \<Rightarrow> 0 | Some s \<Rightarrow> length s) in
      if 0 < str_len \<and> str_len < 256 then the name
      else if 0 < str_len then take 254 (the name) else [])"

definition real_size :: "u32 \<Rightarrow> u32" where
  "real_size len = len + of_nat sizeof_head + of_nat sizeof_tail"

text \<open>If the sum wraps around, the head or the tail is written outside the chunk.\<close>

definition fits :: "u32 \<Rightarrow> bool" where
  "fits len \<longleftrightarrow> unat len + sizeof_head + sizeof_tail \<le> unat (real_size len)"

section \<open>Statistics\<close>

definition z3_alloc_init :: "bool \<Rightarrow> heap \<Rightarrow> heap" where
  "z3_alloc_init ok h =
     (if alloc_stat h = NoStat \<and> ok then
        h\<lparr>alloc_stat := Stat \<lparr>memblock_list = None, total_allocated_bytes = 0, total_free_bytes = 0, maximum_memory_bytes = 0,
          total_allocated_times = 0, total_free_times = 0\<rparr>\<rparr>
      else h)"

text \<open>\<open>if (alloc_stat != NULL) ...\<close> of the three functions that allocate.\<close>

definition note_alloc :: "addr option \<Rightarrow> addr \<Rightarrow> u32 \<Rightarrow> heap \<Rightarrow> heap outcome" where
  "note_alloc node head len h =
     (case alloc_stat h of
        NoStat \<Rightarrow> Inr h
      | FreedStat \<Rightarrow> Inl OutOfBounds
      | Stat st \<Rightarrow>
          bindE (z3_list_add_head node (memblock_list st) head (nodes h)) (\<lambda>(l, ns).
            let st1 = st\<lparr>memblock_list := l, total_allocated_times := total_allocated_times st + 1,
                  total_allocated_bytes := total_allocated_bytes st + len\<rparr>;
                bytes = total_allocated_bytes st1 - total_free_bytes st1;
                st2 = (if bytes > maximum_memory_bytes st1 then st1\<lparr>maximum_memory_bytes := bytes\<rparr> else st1)
            in Inr (h\<lparr>nodes := ns, alloc_stat := Stat st2\<rparr>)))"

definition note_free :: "nat \<Rightarrow> addr \<Rightarrow> u32 \<Rightarrow> heap \<Rightarrow> heap outcome" where
  "note_free fuel head len h =
     (case alloc_stat h of
        NoStat \<Rightarrow> Inr h
      | FreedStat \<Rightarrow> Inl OutOfBounds
      | Stat st \<Rightarrow>
          bindE (z3_list_remove fuel True (memblock_list st) head (nodes h)) (\<lambda>(l, ns).
            Inr (h\<lparr>nodes := ns, alloc_stat := Stat (st\<lparr>memblock_list := l, total_free_bytes := total_free_bytes st + len,
              total_free_times := total_free_times st + 1\<rparr>)\<rparr>)))"

text \<open>The arguments of \<open>TRACE_DETAIL\<close> are evaluated whatever the level of the trace is, and behind the check for NULL.\<close>

definition detail_alloc :: "heap \<Rightarrow> unit outcome" where
  "detail_alloc h =
     (case alloc_stat h of
        NoStat \<Rightarrow> Inl NullDeref
      | FreedStat \<Rightarrow> Inl OutOfBounds
      | Stat st \<Rightarrow> bindE (load (nodes h) (memblock_list st)) (\<lambda>_. Inr ()))"

definition detail_free :: "heap \<Rightarrow> unit outcome" where
  "detail_free h =
     (case alloc_stat h of
        NoStat \<Rightarrow> Inl NullDeref
      | FreedStat \<Rightarrow> Inl OutOfBounds
      | Stat st \<Rightarrow> if memblock_list st \<noteq> None then bindE (load (nodes h) (memblock_list st)) (\<lambda>_. Inr ()) else Inr ())"

section \<open>Operations\<close>

text \<open>The pointer of the client is the one behind the head.\<close>

definition finish_alloc :: "addr option \<Rightarrow> addr \<Rightarrow> alloc_head \<Rightarrow> heap \<Rightarrow> (addr option \<times> heap) outcome" where
  "finish_alloc node a c h =
     bindE (note_alloc node a (hlength c) (h\<lparr>chunks := (chunks h)(a \<mapsto> c)\<rparr>)) (\<lambda>h'.
     bindE (detail_alloc h') (\<lambda>_. Inr (Some (a + sizeof_head), h')))"

definition z3_malloc :: "addr option \<Rightarrow> (nat \<Rightarrow> u8) \<Rightarrow> addr option \<Rightarrow> u32 \<Rightarrow> string option \<Rightarrow> u32 \<Rightarrow> heap \<Rightarrow> (addr option \<times> heap) outcome" where
  "z3_malloc raw fresh node sz name ln h =
     (let len = ALIGN sz 4 in
      case raw of
        None \<Rightarrow> Inr (None, h)
      | Some a \<Rightarrow>
          if \<not> fits len then Inl OutOfBounds
          else finish_alloc node a \<lparr>magic = MAGIC, filename = head_filename name, line = ln, hlength = len,
                 body = map fresh [0..<unat len] @ MAGIC_bytes\<rparr> h)"

definition z3_calloc :: "addr option \<Rightarrow> addr option \<Rightarrow> u32 \<Rightarrow> u32 \<Rightarrow> string option \<Rightarrow> u32 \<Rightarrow> heap \<Rightarrow> (addr option \<times> heap) outcome" where
  "z3_calloc raw node num sz name ln h =
     (let len = ALIGN (num * sz) 4 in
      case raw of
        None \<Rightarrow> Inr (None, h)
      | Some a \<Rightarrow>
          if \<not> fits len then Inl OutOfBounds
          else finish_alloc node a \<lparr>magic = MAGIC, filename = head_filename name, line = ln, hlength = len,
                 body = replicate (unat len) 0 @ MAGIC_bytes\<rparr> h)"

text \<open>Head and tail of the block a client pointer belongs to.\<close>

definition check_block :: "addr \<Rightarrow> heap \<Rightarrow> alloc_head outcome" where
  "check_block p h =
     (if p < sizeof_head then Inl OutOfBounds
      else case chunks h (p - sizeof_head) of
        None \<Rightarrow> Inl OutOfBounds
      | Some c \<Rightarrow>
          if magic c \<noteq> MAGIC then Inl AssertFailed
          else if length (body c) < unat (hlength c) + sizeof_tail then Inl OutOfBounds
          else if take sizeof_tail (drop (unat (hlength c)) (body c)) \<noteq> MAGIC_bytes then Inl AssertFailed
          else Inr c)"

text \<open>A block that cannot grow is not freed, but it is on the list no more.\<close>

definition z3_realloc :: "nat \<Rightarrow> addr option \<Rightarrow> (nat \<Rightarrow> u8) \<Rightarrow> addr option \<Rightarrow> addr option \<Rightarrow> u32 \<Rightarrow> string option \<Rightarrow> u32 \<Rightarrow> heap \<Rightarrow>
    (addr option \<times> heap) outcome" where
  "z3_realloc fuel raw fresh node old sz name ln h =
     (case old of
        None \<Rightarrow> z3_malloc raw fresh node sz name ln h
      | Some p \<Rightarrow>
          bindE (check_block p h) (\<lambda>c.
          bindE (note_free fuel (p - sizeof_head) (hlength c) h) (\<lambda>h1.
            let len = ALIGN sz 4 in
            case raw of
              None \<Rightarrow> Inr (None, h1)
            | Some a \<Rightarrow>
                if \<not> fits len then Inl OutOfBounds
                else finish_alloc node a (c\<lparr>filename := head_filename name, line := ln, hlength := len,
                       body := map (\<lambda>i. if i < length (body c) then body c ! i else fresh i) [0..<unat len] @ MAGIC_bytes\<rparr>)
                       (h1\<lparr>chunks := (chunks h1)(p - sizeof_head := None)\<rparr>))))"

definition z3_free :: "nat \<Rightarrow> addr option \<Rightarrow> heap \<Rightarrow> heap outcome" where
  "z3_free fuel memblock h =
     (case memblock of
        None \<Rightarrow> Inr h
      | Some p \<Rightarrow>
          bindE (check_block p h) (\<lambda>c.
          bindE (note_free fuel (p - sizeof_head) (hlength c) h) (\<lambda>h1.
          bindE (detail_free h1) (\<lambda>_.
            Inr (h1\<lparr>chunks := (chunks h1)(p - sizeof_head := None)\<rparr>)))))"

text \<open>What \<open>alloc_visit_func\<close> writes: address, length, file and line.\<close>

type_synonym leak = "addr \<times> u32 \<times> string \<times> u32"

definition alloc_visit_func :: "addr \<Rightarrow> (addr \<rightharpoonup> alloc_head) \<times> leak list \<Rightarrow> ((addr \<rightharpoonup> alloc_head) \<times> leak list) outcome" where
  "alloc_visit_func d s =
     (case fst s d of
        None \<Rightarrow> Inl OutOfBounds
      | Some c \<Rightarrow> Inr ((fst s)(d := None), snd s @ [(d + sizeof_head, hlength c, filename c, line c)]))"

definition z3_alloc_uninit :: "nat \<Rightarrow> heap \<Rightarrow> (leak list \<times> heap) outcome" where
  "z3_alloc_uninit fuel h =
     (case alloc_stat h of
        NoStat \<Rightarrow> Inr ([], h)
      | FreedStat \<Rightarrow> Inl OutOfBounds
      | Stat st \<Rightarrow>
          bindE (if memblock_list st = None then Inr False
                 else bindE (load (nodes h) (memblock_list st)) (\<lambda>x. Inr (l_next x \<noteq> None))) (\<lambda>more.
          bindE (if more then
                   bindE (z3_list_foreach fuel (memblock_list st) alloc_visit_func (nodes h) (chunks h, [])) (\<lambda>(cs, out).
                   bindE (z3_list_free fuel (memblock_list st) (nodes h)) (\<lambda>ns. Inr (out, h\<lparr>chunks := cs, nodes := ns\<rparr>)))
                 else Inr ([], h)) (\<lambda>(out, h').
            Inr (out, h'\<lparr>alloc_stat := FreedStat\<rparr>))))"


section \<open>Sizes\<close>

lemma and_not_3: "(x :: u32) AND NOT 3 = x - take_bit 2 x"
proof -
  have "(3 :: u32) = mask 2" by (simp add: mask_eq_exp_minus_1)
  then have "x AND NOT 3 = push_bit 2 (drop_bit 2 x)"
    by (auto intro!: bit_eqI simp only: bit_and_iff bit_not_iff bit_mask_iff bit_push_bit_iff bit_drop_bit_eq o_def)
      (auto simp: not_less dest!: le_Suc_ex)
  then show ?thesis using bits_ident [of 2 x] by (simp add: eq_diff_eq)
qed

lemma unat_ALIGN: "unat (ALIGN sz 4) = unat (sz + 3) div 4 * 4"
proof -
  have t: "unat (take_bit 2 (sz + 3)) = unat (sz + 3) mod 4" unfolding unsigned_take_bit_eq by (simp add: take_bit_eq_mod)
  have "ALIGN sz 4 = sz + 3 - take_bit 2 (sz + 3)" 
  proof -
    have "sz + 4 - 1 = sz + 3" "(4 :: u32) - 1 = 3" by simp_all
    then show ?thesis by (simp only: ALIGN_def and_not_3)
  qed
  moreover have "take_bit 2 (sz + 3) \<le> sz + 3" using t by (simp add: word_le_nat_alt)
  ultimately have "unat (ALIGN sz 4) = unat (sz + 3) - unat (sz + 3) mod 4" using t by (simp only: unat_sub)
  then show ?thesis by (simp add: minus_mod_eq_div_mult)
qed

lemma unat_less_u32: "unat (x :: u32) < 4294967296"
  using unsigned_less [of x] by simp

lemma ALIGN_small: "unat sz \<le> 0xFFFFFFFC \<Longrightarrow> unat (ALIGN sz 4) = (unat sz + 3) div 4 * 4"
  by (simp add: unat_ALIGN unat_word_ariths)

lemma ALIGN_large: "0xFFFFFFFC < unat sz \<Longrightarrow> ALIGN sz 4 = 0"
proof -
  assume a: "0xFFFFFFFC < unat sz"
  have "unat (sz + 3) = (unat sz + 3) mod 4294967296" by (simp add: unat_word_ariths)
  also have "\<dots> = unat sz + 3 - 4294967296" using a unat_less_u32 [of sz] by (simp add: le_mod_geq)
  finally have "unat (ALIGN sz 4) = 0" using unat_less_u32 [of sz] by (simp add: unat_ALIGN)
  then show ?thesis by (simp add: unat_eq_0)
qed

lemma fits_iff: "fits len \<longleftrightarrow> unat len \<le> 0xFFFFFEEB"
proof -
  have "unat (real_size len) = (unat len + 276) mod 4294967296" 
  proof -
    have "real_size len = len + 276" by (simp add: real_size_def)
    then show ?thesis by (simp only: unat_word_ariths) simp
  qed
  also have "\<dots> = (if unat len + 276 < 4294967296 then unat len + 276 else unat len + 276 - 4294967296)"
    using unat_less_u32 [of len] by (simp add: le_mod_geq)
  finally show ?thesis unfolding fits_def using unat_less_u32 [of len] by (simp split: if_splits)
qed


section \<open>What the statistics say\<close>

text \<open>The blocks on the list: each is in the heap with the length its head says, and the totals are about them.\<close>

definition tracked :: "heap \<Rightarrow> addr list \<Rightarrow> bool" where
  "tracked h ds \<longleftrightarrow> (\<exists>st A. alloc_stat h = Stat st \<and> holds (nodes h) (memblock_list st) A ds \<and> distinct ds
     \<and> (\<forall>d \<in> set ds. \<exists>c. chunks h d = Some c \<and> length (body c) = unat (hlength c) + sizeof_tail)
     \<and> total_allocated_bytes st - total_free_bytes st = (\<Sum>d\<leftarrow>ds. hlength (the (chunks h d)))
     \<and> total_allocated_times st - total_free_times st = of_nat (length ds))"

lemma trackedE:
  assumes "tracked h ds"
  obtains st A where "alloc_stat h = Stat st" "holds (nodes h) (memblock_list st) A ds" "distinct ds"
    "\<forall>d \<in> set ds. \<exists>c. chunks h d = Some c \<and> length (body c) = unat (hlength c) + sizeof_tail"
    "total_allocated_bytes st - total_free_bytes st = (\<Sum>d\<leftarrow>ds. hlength (the (chunks h d)))"
    "total_allocated_times st - total_free_times st = of_nat (length ds)"
  using assms unfolding tracked_def by blast

lemma holds_dom: "holds h p A ds \<Longrightarrow> A \<subseteq> dom h"
  by (auto simp: holds_def dlist_def dest!: seg_in)

lemma holds_load: "holds h p A ds \<Longrightarrow> if ds = [] then p = None else p \<noteq> None \<and> (\<exists>x. load h p = Inr x \<and> (l_next x = None \<longleftrightarrow> length ds = 1))"
proof -
  assume "holds h p A ds"
  then obtain xs where xs: "dlist h p xs" "ds = map snd xs" by (auto simp: holds_def)
  show ?thesis
  proof (cases xs)
    case (Cons x ys)
    then show ?thesis using xs by (cases x; cases ys) (auto simp: dlist_def load_def)
  qed (use xs in simp)
qed

lemma tracked_init: "alloc_stat h = NoStat \<Longrightarrow> tracked (z3_alloc_init True h) []"
  by (auto simp: tracked_def z3_alloc_init_def intro!: exI [of _ "{}"])

lemma sum_hlength_upd: "a \<notin> set ds \<Longrightarrow> (\<Sum>d\<leftarrow>ds. hlength (the (if d = a then x else f d))) = (\<Sum>d\<leftarrow>ds. hlength (the (f d)))"
  by (rule arg_cong [where f = sum_list], rule map_cong) auto

lemma finish_alloc_tracked:
  assumes t: "tracked h ds" and a: "a \<notin> set ds" and m: "nodes h m = None" and c: "length (body c) = unat (hlength c) + sizeof_tail"
  shows "\<exists>h'. finish_alloc (Some m) a c h = Inr (Some (a + sizeof_head), h') \<and> tracked h' (a # ds) \<and> chunks h' = (chunks h)(a \<mapsto> c)
    \<and> (\<forall>b. b \<noteq> m \<longrightarrow> nodes h b = None \<longrightarrow> nodes h' b = None)"
proof -
  obtain st A where st: "alloc_stat h = Stat st" "holds (nodes h) (memblock_list st) A ds" "distinct ds"
    "\<forall>d \<in> set ds. \<exists>c. chunks h d = Some c \<and> length (body c) = unat (hlength c) + sizeof_tail"
    "total_allocated_bytes st - total_free_bytes st = (\<Sum>d\<leftarrow>ds. hlength (the (chunks h d)))"
    "total_allocated_times st - total_free_times st = of_nat (length ds)" by (rule trackedE [OF t])
  have "m \<notin> A" using holds_dom [OF st(2)] m by auto
  from holds_add_head [OF st(2) this, of a] obtain l ns where l: "z3_list_add_head (Some m) (memblock_list st) a (nodes h) = Inr (l, ns)"
    "holds ns l (insert m A) (a # ds)" "same_but (insert m A) (nodes h) ns" by blast
  have new: "\<forall>b. b \<noteq> m \<longrightarrow> nodes h b = None \<longrightarrow> ns b = None"
    using l(3) holds_dom [OF st(2)] unfolding same_but_def by (metis domIff insertE subsetD)
  let ?h = "h\<lparr>chunks := (chunks h)(a \<mapsto> c)\<rparr>"
  obtain st2 where n: "note_alloc (Some m) a (hlength c) ?h = Inr (?h\<lparr>nodes := ns, alloc_stat := Stat st2\<rparr>)"
    and st2: "memblock_list st2 = l" "total_allocated_bytes st2 = total_allocated_bytes st + hlength c"
      "total_free_bytes st2 = total_free_bytes st" "total_allocated_times st2 = total_allocated_times st + 1"
      "total_free_times st2 = total_free_times st"
    by (auto simp: note_alloc_def st(1) l(1) Let_def)
  let ?h' = "?h\<lparr>nodes := ns, alloc_stat := Stat st2\<rparr>"
  have "detail_alloc ?h' = Inr ()"
    using holds_load [OF l(2)] by (auto simp: detail_alloc_def st2(1))
  then have "finish_alloc (Some m) a c h = Inr (Some (a + sizeof_head), ?h')" by (simp add: finish_alloc_def n)
  moreover have "tracked ?h' (a # ds)"
    unfolding tracked_def
    using st st2 l(2) a c by (auto simp: sum_hlength_upd diff_add_eq [symmetric] add.commute)
  ultimately show ?thesis using new by auto
qed

lemma finish_alloc_no_node: "tracked h ds \<Longrightarrow> finish_alloc None a c h = Inl AssertFailed"
  by (auto simp: tracked_def finish_alloc_def note_alloc_def z3_list_add_head_def)

lemma note_free_tracked:
  assumes t: "tracked h ds" and a: "a \<in> set ds" and n: "length ds < n" and c: "chunks h a = Some c"
  shows "\<exists>h1. note_free n a (hlength c) h = Inr h1 \<and> chunks h1 = chunks h \<and> tracked h1 (remove1 a ds)
    \<and> (\<forall>m. nodes h m = None \<longrightarrow> nodes h1 m = None)"
proof -
  obtain st A where st: "alloc_stat h = Stat st" "holds (nodes h) (memblock_list st) A ds" "distinct ds"
    "\<forall>d \<in> set ds. \<exists>c. chunks h d = Some c \<and> length (body c) = unat (hlength c) + sizeof_tail"
    "total_allocated_bytes st - total_free_bytes st = (\<Sum>d\<leftarrow>ds. hlength (the (chunks h d)))"
    "total_allocated_times st - total_free_times st = of_nat (length ds)" by (rule trackedE [OF t])
  from z3l.rep_del [OF st(2) n a] obtain l ns A' where l: "z3_list_remove n True (memblock_list st) a (nodes h) = Inr (l, ns)"
    "holds ns l A' (remove1 a ds)" "same_but A (nodes h) ns" by blast
  have "\<forall>m. nodes h m = None \<longrightarrow> ns m = None" using l(3) holds_dom [OF st(2)] unfolding same_but_def by (metis domIff subsetD)
  moreover have "(\<Sum>d\<leftarrow>ds. hlength (the (chunks h d))) = hlength c + (\<Sum>d\<leftarrow>remove1 a ds. hlength (the (chunks h d)))"
    using sum_list_map_remove1 [OF a, of "\<lambda>d. hlength (the (chunks h d))"] c by simp
  moreover have "Suc (length (remove1 a ds)) = length ds" using a length_pos_if_in_set [OF a] by (simp add: length_remove1)
  ultimately show ?thesis
    using st l(1,2) by (auto simp: note_free_def tracked_def algebra_simps dest: set_mp [OF set_remove1_subset] simp flip: of_nat_Suc)
qed

lemma note_free_untracked: "tracked h ds \<Longrightarrow> a \<notin> set ds \<Longrightarrow> length ds < n \<Longrightarrow> note_free n a len h = Inl AssertFailed"
  by (erule trackedE) (simp add: note_free_def z3l.rep_del_none)

lemma tracked_detail_free: "tracked h ds \<Longrightarrow> detail_free h = Inr ()"
  by (erule trackedE, drule holds_load) (auto simp: detail_free_def split: if_splits)

lemma tracked_chunk_upd: "tracked h ds \<Longrightarrow> a \<notin> set ds \<Longrightarrow> tracked (h\<lparr>chunks := (chunks h)(a := x)\<rparr>) ds"
  by (auto simp: tracked_def sum_hlength_upd)


section \<open>Operations on tracked blocks\<close>

lemma z3_malloc_Some: "fits (ALIGN sz 4) \<Longrightarrow> z3_malloc (Some a) fresh node sz name ln h =
    finish_alloc node a \<lparr>magic = MAGIC, filename = head_filename name, line = ln, hlength = ALIGN sz 4,
      body = map fresh [0..<unat (ALIGN sz 4)] @ MAGIC_bytes\<rparr> h"
  by (simp add: z3_malloc_def Let_def)

text \<open>The checks of a block with a whole head and a tail in it.\<close>

lemma check_block_tracked:
  assumes "tracked h ds" "a \<in> set ds" "chunks h a = Some c"
  shows "check_block (a + sizeof_head) h =
    (if magic c = MAGIC \<and> drop (unat (hlength c)) (body c) = MAGIC_bytes then Inr c else Inl AssertFailed)"
proof -
  have "length (body c) = unat (hlength c) + sizeof_tail" using assms by (auto simp: tracked_def)
  then show ?thesis using assms(3) by (simp add: check_block_def)
qed

text \<open>What a program does to the heap: the four functions, with addresses that are new, and writes to memory behind a head and
  to the head itself.\<close>

definition new_chunk :: "heap \<Rightarrow> addr option \<Rightarrow> bool" where
  "new_chunk h raw \<longleftrightarrow> (\<forall>a. raw = Some a \<longrightarrow> chunks h a = None)"

definition new_node :: "heap \<Rightarrow> addr option \<Rightarrow> bool" where
  "new_node h node \<longleftrightarrow> (\<forall>m. node = Some m \<longrightarrow> nodes h m = None)"

inductive alloc_step :: "heap \<Rightarrow> heap \<Rightarrow> bool" where
  malloc: "z3_malloc raw fresh node sz name ln h = Inr (p, h') \<Longrightarrow> new_chunk h raw \<Longrightarrow> new_node h node \<Longrightarrow> alloc_step h h'"
| calloc: "z3_calloc raw node num sz name ln h = Inr (p, h') \<Longrightarrow> new_chunk h raw \<Longrightarrow> new_node h node \<Longrightarrow> alloc_step h h'"
| realloc: "z3_realloc n raw fresh node (Some p) sz name ln h = Inr (q, h') \<Longrightarrow>
    new_chunk h raw \<or> raw = Some (p - sizeof_head) \<Longrightarrow> new_node h node \<Longrightarrow> alloc_step h h'"
| free: "z3_free n (Some p) h = Inr h' \<Longrightarrow> alloc_step h h'"
| wr: "chunks h a = Some c \<Longrightarrow> i < length (body c) \<Longrightarrow> alloc_step h (h\<lparr>chunks := (chunks h)(a \<mapsto> c\<lparr>body := (body c)[i := x]\<rparr>)\<rparr>)"
| wr_head: "chunks h a = Some c \<Longrightarrow> alloc_step h (h\<lparr>chunks := (chunks h)(a \<mapsto> c\<lparr>magic := x\<rparr>)\<rparr>)"


lemma remove_loop_mono: "remove_loop n b p l d h = Inr r \<Longrightarrow> n \<le> m \<Longrightarrow> remove_loop m b p l d h = Inr r"
proof (induction n arbitrary: l m)
  case (Suc n)
  then obtain k where k: "m = Suc k" "n \<le> k" by (cases m) auto
  show ?case
  proof (cases "l = None")
    case False
    then obtain x where "load h l = Inr x" using Suc.prems(1) by (cases "load h l") auto
    then show ?thesis using Suc.prems(1) Suc.IH [OF _ k(2)] k(1) by (auto split: if_splits)
  qed (use Suc.prems(1) k in simp)
qed simp

lemma note_free_mono: "note_free n a len h = Inr h' \<Longrightarrow> n \<le> m \<Longrightarrow> note_free m a len h = Inr h'"
proof (cases "alloc_stat h")
  case (Stat st)
  assume "note_free n a len h = Inr h'" "n \<le> m"
  moreover from this obtain l ns where r: "z3_list_remove n True (memblock_list st) a (nodes h) = Inr (l, ns)"
    by (auto simp: note_free_def Stat bindE_Inr_iff)
  moreover have "z3_list_remove m True (memblock_list st) a (nodes h) = Inr (l, ns)"
    using r \<open>n \<le> m\<close> unfolding z3_list_remove_def by (rule remove_loop_mono)
  ultimately show ?thesis by (simp add: note_free_def Stat)
qed (simp_all add: note_free_def)

lemma note_free_inv:
  assumes r: "note_free n a (hlength c) h = Inr h1" and t: "tracked h ds" and c: "chunks h a = Some c"
  shows "a \<in> set ds \<and> chunks h1 = chunks h \<and> tracked h1 (remove1 a ds) \<and> (\<forall>m. nodes h m = None \<longrightarrow> nodes h1 m = None)"
proof -
  let ?m = "max n (Suc (length ds))"
  have r': "note_free ?m a (hlength c) h = Inr h1" by (rule note_free_mono [OF r]) simp
  have "length ds < ?m" by simp
  then have "a \<in> set ds" using note_free_untracked [OF t _ \<open>length ds < ?m\<close>] r' by fastforce
  then show ?thesis using note_free_tracked [OF t _ \<open>length ds < ?m\<close> c] r' by auto
qed

lemma finish_alloc_inv:
  assumes "finish_alloc node a c h = Inr (p, h')" "tracked h ds" "a \<notin> set ds" "new_node h node"
    "length (body c) = unat (hlength c) + sizeof_tail"
  shows "tracked h' (a # ds)"
proof (cases node)
  case (Some m)
  then show ?thesis using finish_alloc_tracked [OF assms(2,3) _ assms(5), of m] assms(1,4) by (auto simp: new_node_def)
qed (use assms(1) finish_alloc_no_node [OF assms(2)] in simp)

lemma tracked_new_chunk: "tracked h ds \<Longrightarrow> chunks h a = None \<Longrightarrow> a \<notin> set ds"
  by (auto simp: tracked_def)

lemma check_block_Inr: "check_block p h = Inr c \<Longrightarrow> sizeof_head \<le> p \<and> chunks h (p - sizeof_head) = Some c"
  by (auto simp: check_block_def split: if_splits option.splits)

lemma malloc_tracked:
  assumes "z3_malloc raw fresh node sz name ln h = Inr (p, h')" "new_chunk h raw" "new_node h node" "tracked h ds"
  shows "\<exists>ds'. tracked h' ds'"
proof (cases raw)
  case (Some a)
  then show ?thesis using assms
    by (auto simp: z3_malloc_def Let_def new_chunk_def split: if_splits dest!: finish_alloc_inv dest: tracked_new_chunk)
qed (use assms in \<open>auto simp: z3_malloc_def Let_def\<close>)

lemma calloc_tracked:
  assumes "z3_calloc raw node num sz name ln h = Inr (p, h')" "new_chunk h raw" "new_node h node" "tracked h ds"
  shows "\<exists>ds'. tracked h' ds'"
proof (cases raw)
  case (Some a)
  then show ?thesis using assms
    by (auto simp: z3_calloc_def Let_def new_chunk_def split: if_splits dest!: finish_alloc_inv dest: tracked_new_chunk)
qed (use assms in \<open>auto simp: z3_calloc_def Let_def\<close>)

lemma free_tracked:
  assumes "z3_free n (Some p) h = Inr h'" "tracked h ds"
  shows "\<exists>ds'. tracked h' ds'"
proof -
  let ?a = "p - sizeof_head"
  obtain c h1 where c: "check_block p h = Inr c" and h1: "note_free n ?a (hlength c) h = Inr h1"
    and h': "h' = h1\<lparr>chunks := (chunks h1)(?a := None)\<rparr>"
    using assms(1) by (auto simp: z3_free_def bindE_Inr_iff)
  from note_free_inv [OF h1 assms(2)] check_block_Inr [OF c] have t: "tracked h1 (remove1 ?a ds)" "distinct ds"
    using assms(2) by (auto simp: tracked_def)
  have "tracked h' (remove1 ?a ds)" unfolding h' using t by (intro tracked_chunk_upd) auto
  then show ?thesis ..
qed

lemma realloc_tracked:
  assumes r: "z3_realloc n raw fresh node (Some p) sz name ln h = Inr (q, h')" and t: "tracked h ds"
    and raw: "new_chunk h raw \<or> raw = Some (p - sizeof_head)" and node: "new_node h node"
  shows "\<exists>ds'. tracked h' ds'"
proof -
  let ?a = "p - sizeof_head"
  obtain c h1 where c: "check_block p h = Inr c" and h1: "note_free n ?a (hlength c) h = Inr h1"
    using r by (auto simp: z3_realloc_def bindE_Inr_iff)
  note c' = check_block_Inr [OF c]
  from note_free_inv [OF h1 t] c' have a: "?a \<in> set ds" "chunks h1 = chunks h" "tracked h1 (remove1 ?a ds)" "new_node h1 node"
    using node by (auto simp: new_node_def)
  have "distinct ds" using t by (auto simp: tracked_def)
  then have t2: "tracked (h1\<lparr>chunks := (chunks h1)(?a := None)\<rparr>) (remove1 ?a ds)" using a by (intro tracked_chunk_upd) auto
  show ?thesis
  proof (cases raw)
    case None
    then show ?thesis using r a(3) c h1 by (auto simp: z3_realloc_def Let_def)
  next
    case (Some b)
    have b: "b \<notin> set (remove1 ?a ds)" using raw t \<open>distinct ds\<close> tracked_new_chunk [OF t, of b] by (auto simp: new_chunk_def Some)
    show ?thesis
      using r a(4) t2 b unfolding z3_realloc_def Some by (auto simp: c h1 Let_def new_node_def split: if_splits dest!: finish_alloc_inv)
  qed
qed


lemma tracked_same_length:
  assumes "tracked h ds" "chunks h a = Some c" "hlength c' = hlength c" "length (body c') = length (body c)"
  shows "tracked (h\<lparr>chunks := (chunks h)(a \<mapsto> c')\<rparr>) ds"
proof -
  have eq: "map (\<lambda>d. hlength (the (((chunks h)(a \<mapsto> c')) d))) ds = map (\<lambda>d. hlength (the (chunks h d))) ds"
    using assms(2,3) by (intro map_cong) auto
  have "\<exists>e. ((chunks h)(a \<mapsto> c')) d = Some e \<and> length (body e) = unat (hlength e) + sizeof_tail" if "d \<in> set ds" for d
    using assms that by (auto simp: tracked_def)
  then show ?thesis using assms(1) unfolding tracked_def by (auto simp del: fun_upd_apply map_eq_conv simp: eq)
qed

lemma alloc_step_tracked: "alloc_step h h' \<Longrightarrow> tracked h ds \<Longrightarrow> \<exists>ds'. tracked h' ds'"
proof (induction rule: alloc_step.induct)
  case (wr h a c i x)
  from tracked_same_length [OF wr(3,1), of "c\<lparr>body := (body c)[i := x]\<rparr>"] show ?case by auto
next
  case (wr_head h a c x)
  from tracked_same_length [OF wr_head(2,1), of "c\<lparr>magic := x\<rparr>"] show ?case by auto
qed (rule malloc_tracked calloc_tracked realloc_tracked free_tracked; assumption)+


lemma tracked_fresh: "tracked (z3_alloc_init True \<lparr>chunks = Map.empty, nodes = Map.empty, alloc_stat = NoStat\<rparr>) []"
  by (rule tracked_init) simp

abbreviation (input) new_heap :: heap where
  "new_heap \<equiv> z3_alloc_init True \<lparr>chunks = Map.empty, nodes = Map.empty, alloc_stat = NoStat\<rparr>"

lemma new_heap_maps: "chunks new_heap = Map.empty" "nodes new_heap = Map.empty" "alloc_stat new_heap \<noteq> FreedStat"
  by (simp_all add: z3_alloc_init_def)

lemma two_blocks: "\<exists>h. tracked h [2000, 1000]"
proof -
  let ?c = "\<lparr>magic = MAGIC, filename = [], line = 1, hlength = 0, body = MAGIC_bytes\<rparr>"
  have c: "length (body ?c) = unat (hlength ?c) + sizeof_tail" by simp
  obtain h where h: "tracked h [1000]" "\<forall>b. b \<noteq> 50 \<longrightarrow> nodes h b = None"
    using finish_alloc_tracked [OF tracked_fresh _ _ c, of 1000 50] by (auto simp: new_heap_maps)
  then have "nodes h 60 = None" by simp
  from finish_alloc_tracked [OF h(1) _ this c, of 2000] show ?thesis by auto
qed

section \<open>Properties\<close>

text \<open>C26. Whatever a program does to the heap with the allocator (allocating, growing and freeing blocks, writing to them, over
  their tails and over the marks of their heads), as long as it does not die, the list names distinct blocks of the heap, each with
  the length its head says, bytes allocated less bytes freed are the sum of those lengths, and the times allocated less the times
  freed are their number, all modulo \<open>2^32\<close>.\<close>

theorem alloc_accounting:
  assumes "alloc_stat h\<^sub>0 = NoStat" and "alloc_step\<^sup>*\<^sup>* (z3_alloc_init True h\<^sub>0) h"
  shows "\<exists>ds st A. tracked h ds \<and> alloc_stat h = Stat st \<and> holds (nodes h) (memblock_list st) A ds
    \<and> set ds \<subseteq> dom (chunks h) \<and> total_allocated_bytes st = total_free_bytes st + (\<Sum>d\<leftarrow>ds. hlength (the (chunks h d)))"
proof -
  have "\<exists>ds. tracked h ds"
    using assms(2) by (induction rule: rtranclp_induct) (use tracked_init [OF assms(1)] alloc_step_tracked in blast)+
  then obtain ds where t: "tracked h ds" ..
  then obtain st A where st: "alloc_stat h = Stat st" "holds (nodes h) (memblock_list st) A ds"
    "total_allocated_bytes st - total_free_bytes st = (\<Sum>d\<leftarrow>ds. hlength (the (chunks h d)))"
    by (rule trackedE)
  moreover have "set ds \<subseteq> dom (chunks h)" using t by (auto simp: tracked_def)
  ultimately show ?thesis using t by (intro exI [of _ ds] exI [of _ st] exI [of _ A]) (auto simp: diff_eq_eq add.commute)
qed

lemma free_block:
  assumes t: "tracked h ds" and a: "a \<in> set ds" and n: "length ds < n" and c: "chunks h a = Some c"
  shows "if magic c = MAGIC \<and> drop (unat (hlength c)) (body c) = MAGIC_bytes
    then \<exists>h'. z3_free n (Some (a + sizeof_head)) h = Inr h' \<and> chunks h' = (chunks h)(a := None) \<and> tracked h' (remove1 a ds)
    else z3_free n (Some (a + sizeof_head)) h = Inl AssertFailed"
proof (cases "magic c = MAGIC \<and> drop (unat (hlength c)) (body c) = MAGIC_bytes")
  case True
  then have ok: "check_block (a + sizeof_head) h = Inr c" using check_block_tracked [OF t a c] by simp
  obtain h1 where h1: "note_free n a (hlength c) h = Inr h1" "chunks h1 = chunks h" "tracked h1 (remove1 a ds)"
    using note_free_tracked [OF t a n c] by blast
  have "distinct ds" using t by (auto simp: tracked_def)
  then have "tracked (h1\<lparr>chunks := (chunks h1)(a := None)\<rparr>) (remove1 a ds)" by (intro tracked_chunk_upd h1(3)) simp
  then show ?thesis using True by (simp add: z3_free_def ok h1(1,2) tracked_detail_free [OF h1(3)])
next
  case False
  then have "check_block (a + sizeof_head) h = Inl AssertFailed" using check_block_tracked [OF t a c] by simp
  then show ?thesis using False by (simp add: z3_free_def)
qed

text \<open>A block of \<open>sz\<close> bytes into which a program writes one byte, at any place in the block or in the tail, and which it then
  frees. The size is rounded up to a multiple of four. Freeing fails its assertion exactly when the byte is behind the rounded size and
  changes the tail: a write behind the size asked for, but before the next multiple of four, is not noticed. Otherwise the block is gone
  and the list is as before.\<close>

theorem overrun_detected:
  assumes "tracked h ds" and "chunks h a = None" and "nodes h m = None" and "unat sz \<le> 0xFFFFFEE8" and "Suc (length ds) < n"
    and "i < (unat sz + 3) div 4 * 4 + 4"
  shows "\<exists>h' c. z3_malloc (Some a) fresh (Some m) sz name ln h = Inr (Some (a + sizeof_head), h') \<and> chunks h' a = Some c
    \<and> unat (hlength c) = (unat sz + 3) div 4 * 4
    \<and> (let r = z3_free n (Some (a + sizeof_head)) (h'\<lparr>chunks := (chunks h')(a \<mapsto> c\<lparr>body := (body c)[i := x]\<rparr>)\<rparr>)
       in if i < (unat sz + 3) div 4 * 4 \<or> x = MAGIC_bytes ! (i - (unat sz + 3) div 4 * 4)
          then \<exists>h''. r = Inr h'' \<and> chunks h'' = (chunks h)(a := None) \<and> tracked h'' ds
          else r = Inl AssertFailed)"
proof -
  define l where "l = (unat sz + 3) div 4 * 4"
  have l: "unat (ALIGN sz 4) = l" using assms(4) by (simp add: l_def ALIGN_small)
  have "l \<le> unat sz + 3" by (simp add: l_def)
  then have fits: "fits (ALIGN sz 4)" using assms(4) by (simp add: fits_iff l)
  define c where "c = \<lparr>magic = MAGIC, filename = head_filename name, line = ln, hlength = ALIGN sz 4, body = map fresh [0..<l] @ MAGIC_bytes\<rparr>"
  have a: "a \<notin> set ds" by (rule tracked_new_chunk [OF assms(1,2)])
  have "length (body c) = unat (hlength c) + sizeof_tail" by (simp add: c_def l)
  from finish_alloc_tracked [OF assms(1) a assms(3) this] obtain h' where
    h': "finish_alloc (Some m) a c h = Inr (Some (a + sizeof_head), h')" "tracked h' (a # ds)" "chunks h' = (chunks h)(a \<mapsto> c)" by blast
  let ?c = "c\<lparr>body := (body c)[i := x]\<rparr>"
  let ?h = "h'\<lparr>chunks := (chunks h')(a \<mapsto> ?c)\<rparr>"
  have t: "tracked ?h (a # ds)" by (rule tracked_same_length [OF h'(2), of a c]) (simp_all add: h'(3))
  have drop: "drop (unat (hlength ?c)) (body ?c) = (if i < l then MAGIC_bytes else MAGIC_bytes[i - l := x])"
    using assms(6) by (auto simp: c_def l list_update_append drop_update_swap)
  have upd: "(MAGIC_bytes[i - l := x] = MAGIC_bytes) = (MAGIC_bytes ! (i - l) = x)" if "\<not> i < l"
    using assms(6) that unfolding l_def [symmetric] by (intro list_update_same_conv) simp
  have ok: "(magic ?c = MAGIC \<and> drop (unat (hlength ?c)) (body ?c) = MAGIC_bytes) = (i < l \<or> x = MAGIC_bytes ! (i - l))"
    unfolding drop using upd by (auto simp: c_def)
  have c: "chunks ?h a = Some ?c" by simp
  let ?r = "z3_free n (Some (a + sizeof_head)) ?h"
  have eq: "remove1 a (a # ds) = ds" "(chunks ?h)(a := None) = (chunks h)(a := None)" by (simp_all add: h'(3))
  have "length (a # ds) < n" using assms(5) by simp
  from free_block [OF t list.set_intros(1) this c] have
    "if i < l \<or> x = MAGIC_bytes ! (i - l) then \<exists>h''. ?r = Inr h'' \<and> chunks h'' = (chunks h)(a := None) \<and> tracked h'' ds
     else ?r = Inl AssertFailed"
    unfolding ok eq .
  moreover have "z3_malloc (Some a) fresh (Some m) sz name ln h = Inr (Some (a + sizeof_head), h')"
    unfolding z3_malloc_Some [OF fits] l c_def [symmetric] by (rule h'(1))
  moreover have "chunks h' a = Some c" "unat (hlength c) = l" by (simp_all add: h'(3) c_def l)
  ultimately show ?thesis unfolding l_def [symmetric] Let_def by blast
qed

text \<open>What a debug build makes of a number and a size. The product and the rounding are taken modulo \<open>2^32\<close>: the block has as many
  bytes as that says, whatever was asked for. So 65536 times 65536 bytes are a block of none, and so is one of 4294967293.\<close>

theorem calloc_length:
  assumes "z3_calloc (Some a) node num sz name ln h = Inr (p, h')" and "alloc_stat h \<noteq> FreedStat"
  shows "\<exists>c. p = Some (a + sizeof_head) \<and> chunks h' a = Some c
    \<and> length (body c) = (let k = unat num * unat sz mod 4294967296 in if k \<le> 0xFFFFFFFC then (k + 3) div 4 * 4 else 0) + 4"
proof -
  define k where "k = unat num * unat sz mod 4294967296"
  have k: "unat (num * sz) = k" by (simp add: k_def unat_word_ariths)
  let ?len = "ALIGN (num * sz) 4"
  have len: "unat ?len = (if k \<le> 0xFFFFFFFC then (k + 3) div 4 * 4 else 0)"
    using ALIGN_small [of "num * sz"] ALIGN_large [of "num * sz"] by (simp add: k)
  let ?c = "\<lparr>magic = MAGIC, filename = head_filename name, line = ln, hlength = ?len, body = replicate (unat ?len) 0 @ MAGIC_bytes\<rparr>"
  have f: "finish_alloc node a ?c h = Inr (p, h')" using assms(1) by (simp add: z3_calloc_def Let_def split: if_splits)
  then have "p = Some (a + sizeof_head)" "chunks h' a = Some ?c"
    by (auto simp: finish_alloc_def note_alloc_def bindE_Inr_iff Let_def split: stat_ptr.splits)
  then show ?thesis unfolding k_def [symmetric] Let_def by (intro exI [of _ ?c]) (simp add: len)
qed

text \<open>Ending the allocator reports and frees the blocks that are left, newest first, if there are two or more of them. A single block
  is neither reported nor freed. The statistics are freed and the pointer to them stays: allocating again accesses freed memory.\<close>

theorem leak_report:
  assumes "tracked h ds" and "length ds < n"
  shows "\<exists>h'. z3_alloc_uninit n h = Inr (if 2 \<le> length ds then
        map (\<lambda>d. let c = the (chunks h d) in (d + sizeof_head, hlength c, filename c, line c)) ds else [], h')
    \<and> chunks h' = (\<lambda>b. if 2 \<le> length ds \<and> b \<in> set ds then None else chunks h b)
    \<and> z3_malloc (Some a) fresh node 4 name ln h' = Inl OutOfBounds"
proof -
  obtain st A where st: "alloc_stat h = Stat st" "holds (nodes h) (memblock_list st) A ds" "distinct ds"
    "\<forall>d \<in> set ds. \<exists>c. chunks h d = Some c \<and> length (body c) = unat (hlength c) + sizeof_tail" by (rule trackedE [OF assms(1)])
  let ?rep = "\<lambda>d. let c = the (chunks h d) in (d + sizeof_head, hlength c, filename c, line c)"
  have visit: "fold (\<lambda>d r. bindE r (alloc_visit_func d)) es (Inr (cs, out))
      = Inr ((\<lambda>b. if b \<in> set es then None else cs b), out @ map ?rep es)"
    if "distinct es" "\<forall>d \<in> set es. cs d = chunks h d \<and> chunks h d \<noteq> None" for es cs out
    using that
  proof (induction es arbitrary: cs out)
    case (Cons e es)
    then obtain c where c: "chunks h e = Some c" by auto
    have "alloc_visit_func e (cs, out) = Inr (cs(e := None), out @ [?rep e])"
      using Cons.prems c by (simp add: alloc_visit_func_def)
    moreover have "\<forall>d \<in> set es. (cs(e := None)) d = chunks h d \<and> chunks h d \<noteq> None" using Cons.prems by auto
    note Cons.IH [OF _ this, of "out @ [?rep e]"]
    moreover have "(\<lambda>b. if b \<in> set es then None else (cs(e := None)) b) = (\<lambda>b. if b \<in> set (e # es) then None else cs b)" by auto
    ultimately show ?case using Cons.prems(1) by (simp only: fold_simps bindE.simps distinct.simps append_assoc list.map append_Cons append_Nil)
  qed simp
  have "z3_list_foreach n (memblock_list st) alloc_visit_func (nodes h) (chunks h, [])
      = Inr ((\<lambda>b. if b \<in> set ds then None else chunks h b), map ?rep ds)"
  proof -
    have "\<forall>d \<in> set ds. chunks h d = chunks h d \<and> chunks h d \<noteq> None" using st(4) by auto
    from visit [OF st(3) this, of "[]"] show ?thesis by (simp only: holds_foreach [OF st(2) assms(2)] append_Nil)
  qed
  moreover obtain ns where "z3_list_free n (memblock_list st) (nodes h) = Inr ns"
    using st(2) assms(2) free_seg by (force simp: holds_def dlist_def)
  ultimately have "\<exists>h'. z3_alloc_uninit n h = Inr (if 2 \<le> length ds then map ?rep ds else [], h')
    \<and> chunks h' = (\<lambda>b. if 2 \<le> length ds \<and> b \<in> set ds then None else chunks h b) \<and> alloc_stat h' = FreedStat"
  proof (cases "2 \<le> length ds")
    case True
    then obtain x where "memblock_list st \<noteq> None" "load (nodes h) (memblock_list st) = Inr x" "l_next x \<noteq> None"
      using holds_load [OF st(2)] by (auto split: if_splits)
    moreover assume "z3_list_foreach n (memblock_list st) alloc_visit_func (nodes h) (chunks h, [])
      = Inr ((\<lambda>b. if b \<in> set ds then None else chunks h b), map ?rep ds)" "z3_list_free n (memblock_list st) (nodes h) = Inr ns"
    ultimately show ?thesis using True by (auto simp: z3_alloc_uninit_def st(1))
  next
    case False
    then show ?thesis using holds_load [OF st(2)] by (cases ds) (auto simp: z3_alloc_uninit_def st(1) Suc_le_eq)
  qed
  then obtain h' where "z3_alloc_uninit n h = Inr (if 2 \<le> length ds then map ?rep ds else [], h')"
    "chunks h' = (\<lambda>b. if 2 \<le> length ds \<and> b \<in> set ds then None else chunks h b)" "alloc_stat h' = FreedStat" by blast
  moreover have "fits (ALIGN 4 4)" by (simp add: fits_iff ALIGN_small)
  then have "z3_malloc (Some a) fresh node 4 name ln h' = Inl OutOfBounds"
    using \<open>alloc_stat h' = FreedStat\<close> by (simp add: z3_malloc_Some finish_alloc_def note_alloc_def)
  ultimately show ?thesis by blast
qed


theorem leak_report_witness:
  "\<exists>h h' out. tracked h [2000, 1000] \<and> z3_alloc_uninit 3 h = Inr (out, h') \<and> map fst out = [2272, 1272]
    \<and> chunks h' 1000 = None"
proof -
  obtain h where h: "tracked h [2000, 1000]" using two_blocks by blast
  from leak_report [OF h, of 3 0 "\<lambda>_. 0" None None 0] show ?thesis using h by (auto simp: Let_def)
qed

theorem overrun_detected_witness:
  "\<exists>h h' h''. z3_malloc (Some 1000) (\<lambda>_. 0) (Some 50) 5 None 1 new_heap = Inr (Some 1272, h)
    \<and> z3_free 2 (Some 1272) (h\<lparr>chunks := (chunks h)(1000 \<mapsto> (the (chunks h 1000))\<lparr>body := (body (the (chunks h 1000)))[7 := 255]\<rparr>)\<rparr>) = Inr h'
    \<and> tracked h' []"
  using overrun_detected [OF tracked_fresh, of 1000 50 5 2 7 "\<lambda>_. 0" None 1 255] by (auto simp: new_heap_maps Let_def)

theorem calloc_length_witness:
  "\<exists>h c. z3_calloc (Some 1000) (Some 50) 65536 65536 None 1 new_heap = Inr (Some 1272, h) \<and> chunks h 1000 = Some c \<and> length (body c) = 4"
proof -
  have "fits (ALIGN (65536 * 65536) 4)" by (simp add: fits_iff ALIGN_small)
  then obtain h where "z3_calloc (Some 1000) (Some 50) 65536 65536 None 1 new_heap = Inr (Some 1272, h)"
    using finish_alloc_tracked [OF tracked_fresh, of 1000 50 "\<lparr>magic = MAGIC, filename = head_filename None, line = 1, hlength = ALIGN (65536 * 65536) 4,
      body = replicate (unat (ALIGN (65536 * 65536) 4)) 0 @ MAGIC_bytes\<rparr>"]
    by (auto simp: z3_calloc_def Let_def new_heap_maps)
  from this calloc_length [OF this new_heap_maps(3)] show ?thesis by auto
qed

theorem alloc_accounting_witness:
  "\<exists>h ds. z3_malloc (Some 1000) (\<lambda>_. 0) (Some 50) 5 None 1 new_heap = Inr (Some 1272, h) \<and> tracked h ds"
proof -
  obtain h where h: "z3_malloc (Some 1000) (\<lambda>_. 0) (Some 50) 5 None 1 new_heap = Inr (Some 1272, h)"
    using finish_alloc_tracked [OF tracked_fresh, of 1000 50 "\<lparr>magic = MAGIC, filename = head_filename None, line = 1, hlength = ALIGN 5 4,
      body = map (\<lambda>_. 0) [0..<unat (ALIGN 5 4)] @ MAGIC_bytes\<rparr>"]
    by (auto simp: z3_malloc_def Let_def new_heap_maps fits_iff ALIGN_small)
  have "alloc_step new_heap h" by (rule alloc_step.malloc [OF h]) (simp_all add: new_chunk_def new_node_def new_heap_maps)
  then have "alloc_step\<^sup>*\<^sup>* new_heap h" ..
  from alloc_accounting [OF _ this] h show ?thesis by auto
qed

end
