(* ===== verification/MemoryObjects.thy ===== *)
theory MemoryObjects
  imports DebugAlloc "HOL-Library.Multiset"
begin

text \<open>
  The operators \<open>new\<close> and \<open>delete\<close> of \<open>z3_engine/z3_memory_obj.cpp\<close>: those of \<open>MemoryObject\<close>, which most classes inherit, and the
  global ones with a file and a line. Which allocator they reach depends on two macros of the build: \<open>_DEBUG\<close>, which
  \<open>z3_memory_obj.cpp\<close> tests, and any of \<open>Z3_MEM_DEBUG\<close>, \<open>_DEBUG\<close> and \<open>DEBUG\<close>, which \<open>z3_alloc.h\<close> tests. The memory is the heap of the
  debug allocator and, beside it, the blocks that come straight from the C library.
\<close>

section \<open>Builds and memory\<close>

record build =
  d_DEBUG :: bool
  d_MEM_DEBUG :: bool

text \<open>\<open>#if defined(Z3_MEM_DEBUG) || defined(_DEBUG) || defined(DEBUG)\<close>; \<open>d_MEM_DEBUG\<close> stands for the first and the last.\<close>

definition debug_alloc :: "build \<Rightarrow> bool" where
  "debug_alloc b \<longleftrightarrow> d_MEM_DEBUG b \<or> d_DEBUG b"

record memory =
  dbg :: heap
  plain :: "addr \<rightharpoonup> u32"

text \<open>What the C library answers: the address of the block, what lies in it, and the address of the list's node.\<close>

record answer =
  a_raw :: "addr option"
  a_fresh :: "nat \<Rightarrow> u8"
  a_node :: "addr option"

definition c_malloc :: "answer \<Rightarrow> u32 \<Rightarrow> memory \<Rightarrow> (addr option \<times> memory) outcome" where
  "c_malloc ans sz M =
     Inr (a_raw ans, case a_raw ans of None \<Rightarrow> M | Some a \<Rightarrow> M\<lparr>plain := (plain M)(a \<mapsto> sz)\<rparr>)"

text \<open>\<open>free\<close> of an address that \<open>malloc\<close> did not answer is a fault. The blocks of the debug allocator are its blocks too, at the
  address of their heads.\<close>

definition c_free :: "addr option \<Rightarrow> memory \<Rightarrow> memory outcome" where
  "c_free p M =
     (case p of
        None \<Rightarrow> Inr M
      | Some a \<Rightarrow>
          if plain M a \<noteq> None then Inr (M\<lparr>plain := (plain M)(a := None)\<rparr>)
          else if chunks (dbg M) a \<noteq> None then Inr (M\<lparr>dbg := (dbg M)\<lparr>chunks := (chunks (dbg M))(a := None)\<rparr>\<rparr>)
          else Inl OutOfBounds)"

text \<open>\<open>_z3_malloc (size, file, line)\<close> and \<open>_z3_free (p)\<close>, functions in one build and macros for \<open>malloc\<close> and \<open>free\<close> in the other.\<close>

definition mem_malloc :: "build \<Rightarrow> answer \<Rightarrow> u32 \<Rightarrow> string option \<Rightarrow> u32 \<Rightarrow> memory \<Rightarrow> (addr option \<times> memory) outcome" where
  "mem_malloc b ans sz name ln M =
     (if debug_alloc b then
        bindE (z3_malloc (a_raw ans) (a_fresh ans) (a_node ans) sz name ln (dbg M)) (\<lambda>(p, h). Inr (p, M\<lparr>dbg := h\<rparr>))
      else c_malloc ans sz M)"

definition mem_free :: "build \<Rightarrow> nat \<Rightarrow> addr option \<Rightarrow> memory \<Rightarrow> memory outcome" where
  "mem_free b fuel p M =
     (if debug_alloc b then bindE (z3_free fuel p (dbg M)) (\<lambda>h. Inr (M\<lparr>dbg := h\<rparr>)) else c_free p M)"

section \<open>The operators of MemoryObject\<close>

abbreviation FILE :: "string option" where "FILE \<equiv> Some ''z3_memory_obj.cpp''"

definition mo_new_at :: "build \<Rightarrow> answer \<Rightarrow> u32 \<Rightarrow> string option \<Rightarrow> u32 \<Rightarrow> memory \<Rightarrow> (addr option \<times> memory) outcome" where
  "mo_new_at b ans nSize pszFilename nLine M =
     (if \<not> d_DEBUG b then c_malloc ans nSize M else mem_malloc b ans nSize pszFilename nLine M)"

definition mo_delete :: "build \<Rightarrow> nat \<Rightarrow> addr option \<Rightarrow> memory \<Rightarrow> memory outcome" where
  "mo_delete b fuel p M = (if \<not> d_DEBUG b then c_free p M else mem_free b fuel p M)"

definition mo_delete_at :: "build \<Rightarrow> nat \<Rightarrow> addr option \<Rightarrow> string option \<Rightarrow> u32 \<Rightarrow> memory \<Rightarrow> memory outcome" where
  "mo_delete_at b fuel p pszFilename nLine M = mo_delete b fuel p M"

definition mo_new_array_at :: "build \<Rightarrow> answer \<Rightarrow> u32 \<Rightarrow> string option \<Rightarrow> u32 \<Rightarrow> memory \<Rightarrow> (addr option \<times> memory) outcome" where
  "mo_new_array_at b ans nSize pszFilename nLine M =
     (if \<not> d_DEBUG b then c_malloc ans nSize M else mem_malloc b ans nSize pszFilename nLine M)"

definition mo_delete_array_at :: "build \<Rightarrow> nat \<Rightarrow> addr option \<Rightarrow> string option \<Rightarrow> u32 \<Rightarrow> memory \<Rightarrow> memory outcome" where
  "mo_delete_array_at b fuel p pszFilename nLine M = (if \<not> d_DEBUG b then c_free p M else mem_free b fuel p M)"

definition mo_new :: "build \<Rightarrow> answer \<Rightarrow> u32 \<Rightarrow> memory \<Rightarrow> (addr option \<times> memory) outcome" where
  "mo_new b ans nSize M = (if \<not> d_DEBUG b then c_malloc ans nSize M else mem_malloc b ans nSize FILE 51 M)"

definition mo_new_array :: "build \<Rightarrow> answer \<Rightarrow> u32 \<Rightarrow> memory \<Rightarrow> (addr option \<times> memory) outcome" where
  "mo_new_array b ans nSize M = (if \<not> d_DEBUG b then c_malloc ans nSize M else mem_malloc b ans nSize FILE 69 M)"

definition mo_delete_array :: "build \<Rightarrow> nat \<Rightarrow> addr option \<Rightarrow> memory \<Rightarrow> memory outcome" where
  "mo_delete_array b fuel p M = (if \<not> d_DEBUG b then c_free p M else mem_free b fuel p M)"

section \<open>The global operators\<close>

definition global_new_at :: "build \<Rightarrow> answer \<Rightarrow> u32 \<Rightarrow> string option \<Rightarrow> u32 \<Rightarrow> memory \<Rightarrow> (addr option \<times> memory) outcome" where
  "global_new_at b ans sz name ln M = mem_malloc b ans sz name ln M"

definition global_delete_at :: "build \<Rightarrow> nat \<Rightarrow> addr option \<Rightarrow> string option \<Rightarrow> u32 \<Rightarrow> memory \<Rightarrow> memory outcome" where
  "global_delete_at b fuel p name ln M = mem_free b fuel p M"

definition global_new_array_at :: "build \<Rightarrow> answer \<Rightarrow> u32 \<Rightarrow> string option \<Rightarrow> u32 \<Rightarrow> memory \<Rightarrow> (addr option \<times> memory) outcome" where
  "global_new_array_at b ans sz name ln M = global_new_at b ans sz name ln M"

definition global_delete_array_at :: "build \<Rightarrow> nat \<Rightarrow> addr option \<Rightarrow> string option \<Rightarrow> u32 \<Rightarrow> memory \<Rightarrow> memory outcome" where
  "global_delete_array_at b fuel p name ln M = global_delete_at b fuel p name ln M"

text \<open>The \<open>delete\<close> of an object that is not a \<open>MemoryObject\<close> names no file and no line: it is the library's, which calls \<open>free\<close>.\<close>

definition library_delete :: "addr option \<Rightarrow> memory \<Rightarrow> memory outcome" where
  "library_delete p M = c_free p M"

section \<open>Objects and their blocks\<close>

fun foldE :: "('x \<Rightarrow> 'm \<Rightarrow> 'm outcome) \<Rightarrow> 'x list \<Rightarrow> 'm \<Rightarrow> 'm outcome" where
  "foldE f [] M = Inr M"
| "foldE f (x # xs) M = bindE (f x M) (foldE f xs)"

text \<open>A way to make objects and to release them: \<open>owns M ps\<close> says that \<open>ps\<close> are the pointers that were made and not released,
  \<open>can a M\<close> that the library answers the arguments \<open>a\<close> with memory that is not in use. A form is one of the ways the language has
  to write each of the two.\<close>

locale allocation =
  fixes owns :: "'m \<Rightarrow> 'p multiset \<Rightarrow> bool"
    and can :: "'a \<Rightarrow> 'm \<Rightarrow> bool"
    and make :: "'f \<Rightarrow> 'a \<Rightarrow> 'm \<Rightarrow> ('p option \<times> 'm) outcome"
    and release :: "'g \<Rightarrow> nat \<Rightarrow> 'p option \<Rightarrow> 'm \<Rightarrow> 'm outcome"
  assumes make_owns: "owns M ps \<Longrightarrow> can a M \<Longrightarrow> \<exists>p M'. make f a M = Inr (Some p, M') \<and> p \<notin># ps \<and> owns M' (add_mset p ps)"
    and release_owns: "owns M ps \<Longrightarrow> p \<in># ps \<Longrightarrow> size ps < n \<Longrightarrow> \<exists>M'. release g n (Some p) M = Inr M' \<and> owns M' (ps - {#p#})"
    and release_null: "release g n None M = Inr M"
begin

text \<open>Whatever is released, in any order and by any forms, the rest stays.\<close>

lemma release_several:
  assumes "owns M ps" "mset (map snd qs) \<subseteq># ps" "size ps < n"
  shows "\<exists>M'. foldE (\<lambda>(g, p). release g n (Some p)) qs M = Inr M' \<and> owns M' (ps - mset (map snd qs))"
  using assms
proof (induction qs arbitrary: M ps)
  case (Cons q qs)
  obtain g p where q: "q = (g, p)" by (cases q)
  with Cons.prems have p: "p \<in># ps" "mset (map snd qs) \<subseteq># ps - {#p#}"
    by (auto simp: insert_subset_eq_iff)
  obtain M1 where M1: "release g n (Some p) M = Inr M1" "owns M1 (ps - {#p#})"
    using release_owns [OF Cons.prems(1) p(1) Cons.prems(3)] by blast
  have "size (ps - {#p#}) < n" using Cons.prems(3) by (meson le_less_trans size_Diff1_le)
  from Cons.IH [OF M1(2) p(2) this] show ?case using M1(1) q by simp
qed simp

lemma make_release:
  assumes "owns M ps" "can a M" "Suc (size ps) < n"
  shows "\<exists>p M1 M2. make f a M = Inr (Some p, M1) \<and> release g n (Some p) M1 = Inr M2 \<and> owns M2 ps"
proof -
  obtain p M1 where p: "make f a M = Inr (Some p, M1)" "owns M1 (add_mset p ps)" using make_owns [OF assms(1,2)] by blast
  from release_owns [OF p(2), of p n] show ?thesis using assms(3) p(1) by fastforce
qed

end

text \<open>The blocks of the debug allocator, whole and at the pointers behind their heads, and those of the C library.\<close>

definition owns_dbg :: "memory \<Rightarrow> addr multiset \<Rightarrow> bool" where
  "owns_dbg M ps \<longleftrightarrow> (\<exists>ds. tracked (dbg M) ds \<and> ps = image_mset (\<lambda>d. d + sizeof_head) (mset ds)
     \<and> (\<forall>d \<in> set ds. \<exists>c. chunks (dbg M) d = Some c \<and> magic c = MAGIC \<and> drop (unat (hlength c)) (body c) = MAGIC_bytes))"

definition owns_plain :: "memory \<Rightarrow> addr multiset \<Rightarrow> bool" where
  "owns_plain M ps \<longleftrightarrow> (\<exists>ds. distinct ds \<and> set ds = dom (plain M) \<and> ps = mset ds)"

type_synonym new_args = "answer \<times> u32 \<times> string option \<times> u32"

definition can_new :: "new_args \<Rightarrow> memory \<Rightarrow> bool" where
  "can_new a M = (case a of (ans, sz, name, ln) \<Rightarrow>
     unat sz \<le> 0xFFFFFEE8 \<and> (\<exists>r m. a_raw ans = Some r \<and> a_node ans = Some m
       \<and> chunks (dbg M) r = None \<and> plain M r = None \<and> nodes (dbg M) m = None))"

datatype form = Scalar | Array | Scalar_at | Array_at

text \<open>Which operator the compiler calls: for a \<open>new\<close> with a file and a line, the form that names them. An ordinary \<open>delete\<close> names
  none; the other is for constructors that throw.\<close>

definition object_new :: "build \<Rightarrow> form \<Rightarrow> new_args \<Rightarrow> memory \<Rightarrow> (addr option \<times> memory) outcome" where
  "object_new b f a M = (case a of (ans, sz, name, ln) \<Rightarrow>
     (case f of Scalar \<Rightarrow> mo_new b ans sz M | Array \<Rightarrow> mo_new_array b ans sz M
      | Scalar_at \<Rightarrow> mo_new_at b ans sz name ln M | Array_at \<Rightarrow> mo_new_array_at b ans sz name ln M))"

definition object_delete :: "build \<Rightarrow> form \<Rightarrow> nat \<Rightarrow> addr option \<Rightarrow> memory \<Rightarrow> memory outcome" where
  "object_delete b g n p M =
     (case g of Scalar \<Rightarrow> mo_delete b n p M | Array \<Rightarrow> mo_delete_array b n p M
      | Scalar_at \<Rightarrow> mo_delete_at b n p None 0 M | Array_at \<Rightarrow> mo_delete_array_at b n p None 0 M)"

lemma ALIGN_fits: "unat sz \<le> 0xFFFFFEE8 \<Longrightarrow> fits (ALIGN sz 4)"
  by (simp add: fits_iff ALIGN_small)

lemma new_dbg:
  assumes "owns_dbg M ps" and "can_new (ans, sz, name, ln) M"
  shows "\<exists>p h. z3_malloc (a_raw ans) (a_fresh ans) (a_node ans) sz name' ln' (dbg M) = Inr (Some p, h) \<and> p \<notin># ps
    \<and> owns_dbg (M\<lparr>dbg := h\<rparr>) (add_mset p ps)"
proof -
  obtain r m where r: "a_raw ans = Some r" "a_node ans = Some m" "chunks (dbg M) r = None" "nodes (dbg M) m = None"
    and sz: "unat sz \<le> 0xFFFFFEE8" using assms(2) by (auto simp: can_new_def)
  obtain ds where ds: "tracked (dbg M) ds" "ps = image_mset (\<lambda>d. d + sizeof_head) (mset ds)"
    "\<forall>d \<in> set ds. \<exists>c. chunks (dbg M) d = Some c \<and> magic c = MAGIC \<and> drop (unat (hlength c)) (body c) = MAGIC_bytes"
    using assms(1) by (auto simp: owns_dbg_def)
  have n: "r \<notin> set ds" using tracked_new_chunk [OF ds(1) r(3)] .
  let ?c = "\<lparr>magic = MAGIC, filename = head_filename name', line = ln', hlength = ALIGN sz 4,
    body = map (a_fresh ans) [0..<unat (ALIGN sz 4)] @ MAGIC_bytes\<rparr>"
  obtain h where h: "finish_alloc (Some m) r ?c (dbg M) = Inr (Some (r + sizeof_head), h)" "tracked h (r # ds)"
    "chunks h = (chunks (dbg M))(r \<mapsto> ?c)" using finish_alloc_tracked [OF ds(1) n r(4), of ?c] by auto
  have "owns_dbg (M\<lparr>dbg := h\<rparr>) (add_mset (r + sizeof_head) ps)"
    unfolding owns_dbg_def using h ds(2,3) n by (intro exI [of _ "r # ds"]) auto
  moreover have "r + sizeof_head \<notin># ps" using ds(2) n by auto
  ultimately show ?thesis using h(1) r(1,2) sz by (simp add: z3_malloc_Some ALIGN_fits)
qed

lemma free_dbg:
  assumes "owns_dbg M ps" and "p \<in># ps" and "size ps < n"
  shows "\<exists>h. z3_free n (Some p) (dbg M) = Inr h \<and> owns_dbg (M\<lparr>dbg := h\<rparr>) (ps - {#p#})"
proof -
  obtain ds where ds: "tracked (dbg M) ds" "ps = image_mset (\<lambda>d. d + sizeof_head) (mset ds)"
    "\<forall>d \<in> set ds. \<exists>c. chunks (dbg M) d = Some c \<and> magic c = MAGIC \<and> drop (unat (hlength c)) (body c) = MAGIC_bytes"
    using assms(1) by (auto simp: owns_dbg_def)
  then obtain d where d: "d \<in> set ds" "p = d + sizeof_head" using assms(2) by auto
  then obtain c where c: "chunks (dbg M) d = Some c" "magic c = MAGIC \<and> drop (unat (hlength c)) (body c) = MAGIC_bytes"
    using ds(3) by auto
  obtain h where h: "z3_free n (Some p) (dbg M) = Inr h" "chunks h = (chunks (dbg M))(d := None)" "tracked h (remove1 d ds)"
    using free_block [OF ds(1) d(1) _ c(1), of n] c(2) d(2) ds(2) assms(3) by auto
  have "distinct ds" using ds(1) by (auto simp: tracked_def)
  then have "d \<notin> set (remove1 d ds)" by simp
  moreover have "ps - {#p#} = image_mset (\<lambda>d. d + sizeof_head) (mset (remove1 d ds))"
    using ds(2) d by (simp add: image_mset_Diff)
  ultimately have "owns_dbg (M\<lparr>dbg := h\<rparr>) (ps - {#p#})"
    unfolding owns_dbg_def using h(2,3) ds(3) by (intro exI [of _ "remove1 d ds"]) (auto dest: notin_set_remove1)
  then show ?thesis using h(1) by blast
qed

lemma new_plain:
  assumes "owns_plain M ps" and "can_new (ans, sz, name, ln) M"
  shows "\<exists>p M'. c_malloc ans sz M = Inr (Some p, M') \<and> p \<notin># ps \<and> owns_plain M' (add_mset p ps)"
proof -
  obtain r where r: "a_raw ans = Some r" "plain M r = None" using assms(2) by (auto simp: can_new_def)
  obtain ds where ds: "distinct ds" "set ds = dom (plain M)" "ps = mset ds" using assms(1) by (auto simp: owns_plain_def)
  then have "r \<notin> set ds" using r(2) by auto
  then show ?thesis using r ds by (auto simp: c_malloc_def owns_plain_def intro!: exI [of _ "r # ds"])
qed

lemma free_plain:
  assumes "owns_plain M ps" and "p \<in># ps"
  shows "\<exists>M'. c_free (Some p) M = Inr M' \<and> owns_plain M' (ps - {#p#})"
proof -
  obtain ds where ds: "distinct ds" "set ds = dom (plain M)" "ps = mset ds" using assms(1) by (auto simp: owns_plain_def)
  then have "\<exists>z. plain M p = Some z" using assms(2) by auto
  then show ?thesis using ds by (auto simp: c_free_def owns_plain_def intro!: exI [of _ "remove1 p ds"])
qed

definition owns :: "bool \<Rightarrow> memory \<Rightarrow> addr multiset \<Rightarrow> bool" where
  "owns debug M ps = (if debug then owns_dbg M ps else owns_plain M ps)"

lemma mem_malloc_owns:
  assumes "owns (debug_alloc b) M ps" and "can_new (ans, sz, name, ln) M"
  shows "\<exists>p M'. mem_malloc b ans sz name' ln' M = Inr (Some p, M') \<and> p \<notin># ps \<and> owns (debug_alloc b) M' (add_mset p ps)"
proof (cases "debug_alloc b")
  case True
  then have "owns_dbg M ps" using assms(1) by (simp add: owns_def)
  from new_dbg [OF this assms(2)] obtain p h where
    "z3_malloc (a_raw ans) (a_fresh ans) (a_node ans) sz name' ln' (dbg M) = Inr (Some p, h)"
    "p \<notin># ps" "owns_dbg (M\<lparr>dbg := h\<rparr>) (add_mset p ps)" by blast
  then show ?thesis using True by (simp add: mem_malloc_def owns_def)
next
  case False
  then show ?thesis using new_plain [OF _ assms(2)] assms(1) by (simp add: mem_malloc_def owns_def)
qed

lemma mem_free_owns:
  assumes "owns (debug_alloc b) M ps" and "p \<in># ps" and "size ps < n"
  shows "\<exists>M'. mem_free b n (Some p) M = Inr M' \<and> owns (debug_alloc b) M' (ps - {#p#})"
proof (cases "debug_alloc b")
  case True
  then obtain h where "z3_free n (Some p) (dbg M) = Inr h" "owns_dbg (M\<lparr>dbg := h\<rparr>) (ps - {#p#})"
    using free_dbg [OF _ assms(2,3)] assms(1) by (auto simp: owns_def)
  then show ?thesis using True by (simp add: mem_free_def owns_def)
next
  case False
  then show ?thesis using free_plain [OF _ assms(2)] assms(1) by (simp add: mem_free_def owns_def)
qed

lemma mem_free_null: "mem_free b n None M = Inr M"
  by (simp add: mem_free_def z3_free_def c_free_def)

text \<open>All the forms of an object's \<open>new\<close> are one, and all those of its \<open>delete\<close>, but for the name and the line in the head.\<close>

lemma object_new_eq:
  "\<exists>name' ln'. object_new b f (ans, sz, name, ln) M = (if d_DEBUG b then mem_malloc b ans sz name' ln' M else c_malloc ans sz M)"
  by (cases f) (auto simp: object_new_def mo_new_def mo_new_array_def mo_new_at_def mo_new_array_at_def)

lemma object_delete_eq: "object_delete b g n p M = (if d_DEBUG b then mem_free b n p M else c_free p M)"
  by (cases g) (auto simp: object_delete_def mo_delete_def mo_delete_array_def mo_delete_at_def mo_delete_array_at_def)

lemma DEBUG_debug_alloc: "d_DEBUG b \<Longrightarrow> debug_alloc b"
  by (simp add: debug_alloc_def)

interpretation mo: allocation "owns (d_DEBUG b)" can_new "object_new b" "object_delete b" for b
proof (unfold_locales, goal_cases)
  case (1 M ps a f)
  obtain ans sz name ln where a: "a = (ans, sz, name, ln)" by (cases a)
  obtain name' ln' where e: "object_new b f (ans, sz, name, ln) M = (if d_DEBUG b then mem_malloc b ans sz name' ln' M else c_malloc ans sz M)"
    using object_new_eq by metis
  show ?case
  proof (cases "d_DEBUG b")
    case True
    then show ?thesis using mem_malloc_owns [of b M ps ans sz name ln name' ln'] 1 by (simp add: e a DEBUG_debug_alloc)
  next
    case False
    then show ?thesis using new_plain [of M ps ans sz name ln] 1 by (simp add: e a owns_def)
  qed
next
  case (2 M ps p n g)
  then show ?case using mem_free_owns [of b M ps p n] free_plain [of M ps p]
    by (cases "d_DEBUG b") (simp_all add: object_delete_eq DEBUG_debug_alloc, simp add: owns_def)
next
  case (3 g n M)
  show ?case by (simp add: object_delete_eq mem_free_null) (simp add: c_free_def)
qed

definition global_new :: "build \<Rightarrow> bool \<Rightarrow> new_args \<Rightarrow> memory \<Rightarrow> (addr option \<times> memory) outcome" where
  "global_new b array a M = (case a of (ans, sz, name, ln) \<Rightarrow>
     if array then global_new_array_at b ans sz name ln M else global_new_at b ans sz name ln M)"

definition global_delete :: "build \<Rightarrow> bool \<Rightarrow> nat \<Rightarrow> addr option \<Rightarrow> memory \<Rightarrow> memory outcome" where
  "global_delete b array n p M = (if array then global_delete_array_at b n p None 0 M else global_delete_at b n p None 0 M)"

lemma global_delete_eq: "global_delete b array n p M = mem_free b n p M"
  by (simp add: global_delete_def global_delete_array_at_def global_delete_at_def)

lemma global_new_eq: "global_new b array (ans, sz, name, ln) M = mem_malloc b ans sz name ln M"
  by (simp add: global_new_def global_new_array_at_def global_new_at_def)

interpretation gl: allocation "owns (debug_alloc b)" can_new "global_new b" "global_delete b" for b
proof (unfold_locales, goal_cases)
  case (1 M ps a f)
  then show ?case by (cases a) (simp add: global_new_eq mem_malloc_owns)
qed (simp_all add: global_delete_eq mem_free_owns mem_free_null)

section \<open>Objects come and go\<close>

text \<open>In every build, objects that were made by any form of \<open>new\<close> can be released by any form of the class's \<open>delete\<close>, in any
  order; none is left, and none that was not named is touched.\<close>

theorem objects_released:
  assumes "owns (d_DEBUG b) M ps" and "can_new a M" and "Suc (size ps) < n"
    and "mset (map snd qs) = ps"
  shows "\<exists>p M1 M2. object_new b f a M = Inr (Some p, M1) \<and> p \<notin># ps
    \<and> foldE (\<lambda>(g, p). object_delete b g n (Some p)) qs M1 = Inr M2 \<and> owns (d_DEBUG b) M2 {#p#}"
proof -
  obtain p M1 where p: "object_new b f a M = Inr (Some p, M1)" "p \<notin># ps" "owns (d_DEBUG b) M1 (add_mset p ps)"
    using mo.make_owns [OF assms(1,2)] by blast
  have "mset (map snd qs) \<subseteq># add_mset p ps" "size (add_mset p ps) < n" using assms(3,4) by simp_all
  from mo.release_several [OF p(3) this] show ?thesis using p assms(4) by auto
qed

text \<open>An object without operators of its own, made by the \<open>new\<close> that names a file and a line in a build with the debug allocator:
  its ordinary \<open>delete\<close> hands \<open>free\<close> a pointer into the middle of a block. In a build without it all is well.\<close>

theorem library_delete_faults:
  assumes "owns (debug_alloc b) M ps" and "can_new (ans, sz, name, ln) M" and "a_raw ans = Some r"
    and "plain M (r + sizeof_head) = None" and "chunks (dbg M) (r + sizeof_head) = None"
  shows "\<exists>p M1. global_new_at b ans sz name ln M = Inr (Some p, M1)
    \<and> (if debug_alloc b then library_delete (Some p) M1 = Inl OutOfBounds
       else \<exists>M2. library_delete (Some p) M1 = Inr M2 \<and> owns False M2 ps)"
proof (cases "debug_alloc b")
  case True
  obtain m where m: "a_node ans = Some m" "nodes (dbg M) m = None" "chunks (dbg M) r = None" "unat sz \<le> 0xFFFFFEE8"
    using assms(2,3) by (auto simp: can_new_def)
  obtain ds where ds: "tracked (dbg M) ds" using assms(1) True by (auto simp: owns_def owns_dbg_def)
  let ?c = "\<lparr>magic = MAGIC, filename = head_filename name, line = ln, hlength = ALIGN sz 4,
    body = map (a_fresh ans) [0..<unat (ALIGN sz 4)] @ MAGIC_bytes\<rparr>"
  obtain h where h: "finish_alloc (Some m) r ?c (dbg M) = Inr (Some (r + sizeof_head), h)" "chunks h = (chunks (dbg M))(r \<mapsto> ?c)"
    using finish_alloc_tracked [OF ds tracked_new_chunk [OF ds m(3)] m(2), of ?c] by auto
  then have "global_new_at b ans sz name ln M = Inr (Some (r + sizeof_head), M\<lparr>dbg := h\<rparr>)"
    using True assms(3) m(1,4) by (simp add: global_new_at_def mem_malloc_def z3_malloc_Some ALIGN_fits)
  moreover have "library_delete (Some (r + sizeof_head)) (M\<lparr>dbg := h\<rparr>) = Inl OutOfBounds"
    using assms(4,5) h(2) by (simp add: library_delete_def c_free_def)
  ultimately show ?thesis using True by simp
next
  case False
  then have "owns_plain M ps" using assms(1) by (simp add: owns_def)
  from new_plain [OF this assms(2)] obtain p M1 where p: "c_malloc ans sz M = Inr (Some p, M1)" "owns_plain M1 (add_mset p ps)" by blast
  from free_plain [OF p(2), of p] show ?thesis using False p(1)
    by (auto simp: global_new_at_def mem_malloc_def library_delete_def owns_def)
qed

end
