(* ===== verification/SdpMemory.thy ===== *)
theory SdpMemory
  imports SdpMsg
begin

text \<open>
  What a session description takes from the memory and gives back: the destructors of \<open>z3_rtsp_client/z3_sdp.cpp\<close>, and the blocks
  that \<open>ParseLine\<close> and the setters it calls allocate and free. A block is a string of \<open>z3_strdup\<close>, an object or a vector made by
  \<open>new\<close>; what \<open>std::string\<close> and \<open>std::vector\<close> keep inside is the library's. A destructor is the number of blocks it gives back.
\<close>

section \<open>Destructors\<close>

text \<open>\<open>Z3_FREE_POINTER\<close>, and the loops over a vector with \<open>Z3_DELETE_OBJ\<close> for each element and for the vector.\<close>

definition free_pointer :: "'a option \<Rightarrow> nat" where
  "free_pointer p = (case p of None \<Rightarrow> 0 | Some _ \<Rightarrow> 1)"

definition delete_vector :: "('a \<Rightarrow> nat) \<Rightarrow> 'a list option \<Rightarrow> nat" where
  "delete_vector d v = (case v of None \<Rightarrow> 0 | Some xs \<Rightarrow> (\<Sum>x\<leftarrow>xs. Suc (d x)) + 1)"

definition delete_object :: "('a \<Rightarrow> nat) \<Rightarrow> 'a option \<Rightarrow> nat" where
  "delete_object d p = (case p of None \<Rightarrow> 0 | Some x \<Rightarrow> Suc (d x))"

abbreviation delete_strings :: "string list option \<Rightarrow> nat" where
  "delete_strings v \<equiv> delete_vector (\<lambda>_. 0) v"

definition SDPBandwidth_delete :: "SDPBandwidth \<Rightarrow> nat" where
  "SDPBandwidth_delete b = free_pointer (m_pszBWType b)"

record SDPTime =
  m_pszStart :: "string option"
  m_pszStop :: "string option"
  m_pRepeat :: "string list option"

definition SDPTime_new :: SDPTime where
  "SDPTime_new = \<lparr>m_pszStart = None, m_pszStop = None, m_pRepeat = None\<rparr>"

definition SDPTime_delete :: "SDPTime \<Rightarrow> nat outcome" where
  "SDPTime_delete t =
     (if m_pRepeat t = None then Inl AssertFailed
      else Inr (free_pointer (m_pszStart t) + free_pointer (m_pszStop t) + delete_strings (m_pRepeat t)))"

record SDPZone =
  m_pszTime :: "string option"
  m_pszTypedTime :: "string option"

definition SDPZone_new :: SDPZone where
  "SDPZone_new = \<lparr>m_pszTime = None, m_pszTypedTime = None\<rparr>"

definition SDPZone_delete :: "SDPZone \<Rightarrow> nat" where
  "SDPZone_delete z = free_pointer (m_pszTime z) + free_pointer (m_pszTypedTime z)"

definition SDPOrigin_delete :: "SDPOrigin \<Rightarrow> nat" where
  "SDPOrigin_delete o1 = free_pointer (m_pszUsername o1) + free_pointer (m_pszSessId o1) + free_pointer (m_pszSessVersion o1)
     + free_pointer (o_pszNetType o1) + free_pointer (o_pszAddrType o1) + free_pointer (m_pszAddr o1)"

definition SDPConnection_delete :: "SDPConnection \<Rightarrow> nat" where
  "SDPConnection_delete c = free_pointer (m_pszNetType c) + free_pointer (m_pszAddrType c) + free_pointer (m_pszAddress c)"

record SDPKey =
  m_pszType :: "string option"
  m_pszData :: "string option"

definition SDPKey_new :: SDPKey where
  "SDPKey_new = \<lparr>m_pszType = None, m_pszData = None\<rparr>"

definition SDPKey_delete :: "SDPKey \<Rightarrow> nat" where
  "SDPKey_delete k = free_pointer (m_pszType k) + free_pointer (m_pszData k)"

definition SDPAttribute_delete :: "SDPAttribute \<Rightarrow> nat" where
  "SDPAttribute_delete a = free_pointer (m_pszKey a) + free_pointer (m_pszValue a)"

definition SDPMedia_delete :: "SDPMedia \<Rightarrow> nat" where
  "SDPMedia_delete m = free_pointer (m_pszMedia m) + free_pointer (m_pszProto m) + free_pointer (m_pszMediaInfo m)
     + delete_strings (m_pVectorFmts m) + delete_vector SDPConnection_delete (m_pVectorConnections m)
     + delete_vector SDPBandwidth_delete (m_pVectorMediaBandwidths m) + delete_vector SDPAttribute_delete (m_pVectorMediaAttributes m)"

text \<open>The vectors of times and zones, which no operation ever fills, are arguments. The member \<open>m_origin\<close> is destroyed behind the
  body of the destructor.\<close>

fun delete_times :: "SDPTime list \<Rightarrow> nat outcome" where
  "delete_times [] = Inr 0"
| "delete_times (t # ts) = bindE (SDPTime_delete t) (\<lambda>n. bindE (delete_times ts) (\<lambda>k. Inr (Suc n + k)))"

definition SDPMessage_delete :: "SDPTime list option \<Rightarrow> SDPZone list option \<Rightarrow> SDPMessage \<Rightarrow> nat outcome" where
  "SDPMessage_delete timev zonev m =
     (let n = free_pointer (m_pszVersion m) + free_pointer (m_pszSessionName m) + free_pointer (m_pszInfo m) + free_pointer (m_pszUrl m)
        + delete_strings (m_pVectorEmails m) + delete_strings (m_pVectorPhones m)
        + delete_object SDPConnection_delete (m_pConnection m)
        + delete_vector SDPBandwidth_delete (m_pVectorBandwidths m) in
      bindE (case timev of None \<Rightarrow> Inr 0 | Some ts \<Rightarrow> bindE (delete_times ts) (\<lambda>k. Inr (k + 1))) (\<lambda>t.
        Inr (n + t + delete_vector SDPZone_delete zonev + delete_vector SDPAttribute_delete (m_pVectorAttributes m)
          + delete_vector SDPMedia_delete (m_pVectorMedias m) + SDPOrigin_delete (m_origin m))))"

section \<open>Blocks of a line\<close>

text \<open>\<open>Z3_FREE_POINTER (p); p = z3_strdup (s);\<close>, which every setter is: blocks allocated less blocks freed.\<close>

definition set_blocks :: "bool \<Rightarrow> alloc \<Rightarrow> string option \<Rightarrow> string \<Rightarrow> int" where
  "set_blocks debug mok old s = int (free_pointer (z3_strdup debug mok s)) - int (free_pointer old)"

text \<open>\<open>if (v == NULL) v = new ...\<close>\<close>

definition vector_blocks :: "'a list option \<Rightarrow> int" where
  "vector_blocks v = (if v = None then 1 else 0)"

primrec read_words :: "nat \<Rightarrow> string \<Rightarrow> string list" where
  "read_words 0 p = []"
| "read_words (Suc n) p = fst (read_str p) # read_words n (snd (read_str p))"

definition origin_blocks :: "bool \<Rightarrow> alloc \<Rightarrow> string \<Rightarrow> SDPOrigin \<Rightarrow> int" where
  "origin_blocks debug mok p o0 =
     sum_list (map2 (set_blocks debug mok)
       [m_pszUsername o0, m_pszSessId o0, m_pszSessVersion o0, o_pszNetType o0, o_pszAddrType o0, m_pszAddr o0] (read_words 6 p))"

text \<open>A new object has no strings yet.\<close>

definition connection_blocks :: "bool \<Rightarrow> alloc \<Rightarrow> string \<Rightarrow> int" where
  "connection_blocks debug mok p =
     1 + (\<Sum>s\<leftarrow>read_words 3 (map (\<lambda>c. if c = CHR ''/'' then CHR '' '' else c) p). set_blocks debug mok None s)"

definition bandwidth_blocks :: "bool \<Rightarrow> alloc \<Rightarrow> string \<Rightarrow> int" where
  "bandwidth_blocks debug mok ty = 1 + set_blocks debug mok None ty"

definition attribute_blocks :: "bool \<Rightarrow> alloc \<Rightarrow> string \<times> string \<Rightarrow> int" where
  "attribute_blocks debug mok kv = 1 + set_blocks debug mok None (fst kv) + set_blocks debug mok None (snd kv)"

text \<open>The strings of the media and the protocol, the vector of formats and each of them; the second word is only read.\<close>

definition media_blocks :: "bool \<Rightarrow> alloc \<Rightarrow> string \<Rightarrow> int" where
  "media_blocks debug mok p =
     (let (str1, p1) = read_str p; (str2, p2) = read_str p1; (str3, p3) = read_str p2
      in 1 + set_blocks debug mok None str1 + set_blocks debug mok None str3
         + 1 + int (length (vec (m_pVectorFmts (add_formats p3 SDPMedia_new)))))"

definition the_media :: "SDPContext \<Rightarrow> SDPMedia" where
  "the_media ctx = (case ctx_media ctx of None \<Rightarrow> SDPMedia_new | Some i \<Rightarrow> vec (m_pVectorMedias (ctx_msg ctx)) ! i)"

definition line_blocks :: "bool \<Rightarrow> alloc \<Rightarrow> char \<Rightarrow> string \<Rightarrow> SDPContext \<Rightarrow> int" where
  "line_blocks debug mok ty pszLine ctx =
     (let session = (ctx_state ctx = SDP_SESSION); m = ctx_msg ctx; media = the_media ctx in
      if ty = CHR ''v'' then set_blocks debug mok (m_pszVersion m) pszLine
      else if ty = CHR ''o'' then origin_blocks debug mok pszLine (m_origin m)
      else if ty = CHR ''s'' then set_blocks debug mok (m_pszSessionName m) pszLine
      else if ty = CHR ''i'' then
        (if session then set_blocks debug mok (m_pszInfo m) pszLine else set_blocks debug mok (m_pszMediaInfo media) pszLine)
      else if ty = CHR ''u'' then set_blocks debug mok (m_pszUrl m) pszLine
      else if ty = CHR ''e'' then vector_blocks (m_pVectorEmails m) + 1
      else if ty = CHR ''p'' then vector_blocks (m_pVectorPhones m) + 1
      else if ty = CHR ''c'' then
        connection_blocks debug mok pszLine + (if session then 0 else vector_blocks (m_pVectorConnections media))
      else if ty = CHR ''b'' then
        bandwidth_blocks debug mok (fst (split_colon pszLine))
          + (if session then vector_blocks (m_pVectorBandwidths m) else vector_blocks (m_pVectorMediaBandwidths media))
      else if ty = CHR ''a'' then
        attribute_blocks debug mok (split_colon pszLine)
          + (if session then vector_blocks (m_pVectorAttributes m) else vector_blocks (m_pVectorMediaAttributes media))
      else if ty = CHR ''m'' then media_blocks debug mok pszLine + vector_blocks (m_pVectorMedias m)
      else 0)"

text \<open>What a line makes unreachable: the bandwidth of the session, which is put nowhere, and the connection of the session that a
  second one replaces.\<close>

definition line_lost :: "bool \<Rightarrow> alloc \<Rightarrow> char \<Rightarrow> string \<Rightarrow> SDPContext \<Rightarrow> nat" where
  "line_lost debug mok ty pszLine ctx =
     (if ctx_state ctx = SDP_SESSION then
        (if ty = CHR ''b'' then Suc (SDPBandwidth_delete (snd (SetBandwidth debug mok (fst (split_colon pszLine)) 0 SDPBandwidth_new)))
         else if ty = CHR ''c'' then delete_object SDPConnection_delete (m_pConnection (ctx_msg ctx))
         else 0)
      else 0)"

section \<open>A line balances\<close>

definition owned :: "SDPMessage \<Rightarrow> nat" where
  "owned m = (case SDPMessage_delete None None m of Inl _ \<Rightarrow> 0 | Inr n \<Rightarrow> n)"

lemma owned_eq: "owned m = free_pointer (m_pszVersion m) + free_pointer (m_pszSessionName m) + free_pointer (m_pszInfo m)
    + free_pointer (m_pszUrl m) + delete_strings (m_pVectorEmails m) + delete_strings (m_pVectorPhones m)
    + delete_object SDPConnection_delete (m_pConnection m) + delete_vector SDPBandwidth_delete (m_pVectorBandwidths m)
    + delete_vector SDPAttribute_delete (m_pVectorAttributes m) + delete_vector SDPMedia_delete (m_pVectorMedias m)
    + SDPOrigin_delete (m_origin m)"
  by (simp add: owned_def SDPMessage_delete_def delete_vector_def [of SDPZone_delete])

definition ctx_ok :: "SDPContext \<Rightarrow> bool" where
  "ctx_ok ctx \<longleftrightarrow> (\<forall>i. ctx_media ctx = Some i \<longrightarrow> i < length (vec (m_pVectorMedias (ctx_msg ctx))))"

lemma free_pointer_simps [simp]: "free_pointer None = 0" "free_pointer (Some x) = 1"
  by (simp_all add: free_pointer_def)

lemma push_back_blocks:
  "int (delete_vector d (push_back x v)) = int (delete_vector d v) + vector_blocks v + 1 + int (d x)"
  by (cases v) (simp_all add: delete_vector_def push_back_def vec_def vector_blocks_def)

lemma vec_push_back: "vec (push_back x v) = vec v @ [x]"
  by (simp add: push_back_def vec_def)

lemma vec_blocks: "int (delete_vector d (Some (vec v))) = int (delete_vector d v) + vector_blocks v"
  by (cases v) (simp_all add: delete_vector_def vec_def vector_blocks_def)

lemma update_blocks:
  assumes "i < length (vec v)"
  shows "int (delete_vector d (Some ((vec v)[i := x]))) = int (delete_vector d v) + int (d x) - int (d (vec v ! i))"
proof -
  obtain xs where xs: "v = Some xs" using assms by (cases v) (auto simp: vec_def)
  then have i: "i < length xs" using assms by (simp add: vec_def)
  have "(\<Sum>y\<leftarrow>xs[i := x]. Suc (d y)) + d (xs ! i) = (\<Sum>y\<leftarrow>xs. Suc (d y)) + d x"
    using i by (induction xs arbitrary: i) (auto split: nat.split simp: nth_Cons)
  then show ?thesis by (simp add: xs vec_def delete_vector_def)
qed

text \<open>\<open>b\<close> blocks were taken and \<open>k\<close> lost.\<close>

definition balanced :: "int \<Rightarrow> nat \<Rightarrow> SDPContext \<Rightarrow> SDPContext \<Rightarrow> bool" where
  "balanced b k ctx ctx' \<longleftrightarrow> ctx_ok ctx' \<and> int (owned (ctx_msg ctx')) + int k = int (owned (ctx_msg ctx)) + b"

lemma on_msg_balanced:
  assumes "on_msg f ctx = Inr ctx'" "ctx_ok ctx"
    and "\<And>m. f (ctx_msg ctx) = Inr m \<Longrightarrow>
      m_pVectorMedias m = m_pVectorMedias (ctx_msg ctx) \<and> int (owned m) + int k = int (owned (ctx_msg ctx)) + b"
  shows "balanced b k ctx ctx'"
proof -
  obtain m where "f (ctx_msg ctx) = Inr m" "ctx' = ctx\<lparr>ctx_msg := m\<rparr>"
    using assms(1) by (auto simp: on_msg_def bindE_Inr_iff)
  then show ?thesis using assms(2,3) by (auto simp: balanced_def ctx_ok_def)
qed

lemma on_media_balanced:
  assumes "on_media f ctx = Inr ctx'" "ctx_ok ctx"
    and "\<And>m. f (the_media ctx) = Inr m \<Longrightarrow>
      int (SDPMedia_delete m) = int (SDPMedia_delete (the_media ctx)) + b"
  shows "balanced b 0 ctx ctx'"
proof -
  obtain i m where i: "ctx_media ctx = Some i" and m: "f (vec (m_pVectorMedias (ctx_msg ctx)) ! i) = Inr m"
    "ctx' = ctx\<lparr>ctx_msg := (ctx_msg ctx)\<lparr>m_pVectorMedias := Some ((vec (m_pVectorMedias (ctx_msg ctx)))[i := m])\<rparr>\<rparr>"
    using assms(1) by (auto simp: on_media_def bindE_Inr_iff split: option.splits)
  have "i < length (vec (m_pVectorMedias (ctx_msg ctx)))" using assms(2) i by (simp add: ctx_ok_def)
  from update_blocks [OF this, of SDPMedia_delete m] show ?thesis
    using assms(3) i m \<open>i < _\<close> by (auto simp: the_media_def balanced_def ctx_ok_def owned_eq vec_def)
qed

text \<open>The setters.\<close>

lemma dup_len_Inr: "dup_len debug mok s = Inr (n, f) \<longleftrightarrow> (\<exists>t. z3_strdup debug mok s = Some t \<and> n = int (length t) \<and> f = Some t)"
  by (auto simp: dup_len_def split: option.splits)

lemmas setters = sdp_SetVersion_def SetSessionName_def SetInfo_def SetUrl_def media_SetInfo_def SetUsername_def SetSessId_def
  SetSessVersion_def origin_SetNetType_def origin_SetAddrType_def SetAddr_def SetField_def SetNetType_def SetAddrType_def SetAddress_def

lemma parse_origin_blocks:
  assumes "parse_origin debug mok p o0 = Inr o1"
  shows "int (SDPOrigin_delete o1) = int (SDPOrigin_delete o0) + origin_blocks debug mok p o0"
  using assms
  by (auto simp: parse_origin_def origin_blocks_def setters ignore_def bindE_Inr_iff dup_len_Inr Let_def case_prod_beta numeral_eq_Suc
    SDPOrigin_delete_def set_blocks_def)

lemma parse_connection_blocks:
  assumes "parse_connection debug mok p = Inr c"
  shows "1 + int (SDPConnection_delete c) = connection_blocks debug mok p"
  using assms
  by (auto simp: parse_connection_def connection_blocks_def setters ignore_def bindE_Inr_iff dup_len_Inr Let_def case_prod_beta
    numeral_eq_Suc SDPConnection_delete_def set_blocks_def SetAddrNum_def split: if_splits)

lemma SetBandwidth_blocks: "1 + int (SDPBandwidth_delete (snd (SetBandwidth debug mok ty n SDPBandwidth_new))) = bandwidth_blocks debug mok ty"
  by (simp add: SetBandwidth_def SDPBandwidth_delete_def bandwidth_blocks_def set_blocks_def split: option.split)

lemma SetAttribute_blocks: "1 + int (SDPAttribute_delete (snd (SetAttribute debug mok k v))) = attribute_blocks debug mok (k, v)"
  by (simp add: SetAttribute_def SDPAttribute_delete_def attribute_blocks_def set_blocks_def Let_def)

lemma add_formats_vector: "\<exists>fs. fs \<noteq> [] \<and> (\<forall>m. add_formats p m = m\<lparr>m_pVectorFmts := Some (vec (m_pVectorFmts m) @ fs)\<rparr>)"
proof (induction "length p" arbitrary: p rule: less_induct)
  case less
  show ?case
  proof (cases "snd (read_str p) = []")
    case True
    then have "\<forall>m. add_formats p m = AddFormat (fst (read_str p)) m"
      by (intro allI, subst add_formats.simps) (simp add: Let_def case_prod_beta)
    then show ?thesis by (intro exI [of _ "[fst (read_str p)]"]) (simp add: AddFormat_def push_back_def)
  next
    case False
    then obtain fs where fs: "fs \<noteq> []" "\<forall>m. add_formats (snd (read_str p)) m = m\<lparr>m_pVectorFmts := Some (vec (m_pVectorFmts m) @ fs)\<rparr>"
      using less [of "snd (read_str p)"] read_str_shorter by blast
    have "\<forall>m. add_formats p m = add_formats (snd (read_str p)) (AddFormat (fst (read_str p)) m)"
      using False by (intro allI, subst add_formats.simps) (simp add: Let_def case_prod_beta)
    then show ?thesis using fs(2) by (intro exI [of _ "fst (read_str p) # fs"]) (simp add: AddFormat_def push_back_def vec_def)
  qed
qed

lemma parse_media_blocks: "1 + int (SDPMedia_delete (parse_media debug mok p)) = media_blocks debug mok p"
proof -
  let ?p3 = "snd (read_str (snd (read_str (snd (read_str p)))))"
  obtain fs where fs: "\<And>m. add_formats ?p3 m = m\<lparr>m_pVectorFmts := Some (vec (m_pVectorFmts m) @ fs)\<rparr>"
    using add_formats_vector by blast
  show ?thesis
    by (simp add: parse_media_def media_blocks_def Let_def case_prod_beta fs SDPMedia_delete_def SetMedia_def SetProtocol_def
      SetPortNum_def SetSDPort_def SDPMedia_new_def delete_vector_def vec_def set_blocks_def sum_list_triv split: option.split)
qed

lemma session_line_balanced:
  assumes s: "ctx_state ctx = SDP_SESSION" and r: "sdp_ParseLine debug mok ty pszLine ctx = Inr ctx'" and ok: "ctx_ok ctx"
    and ty: "ty \<in> {CHR ''i'', CHR ''c'', CHR ''b'', CHR ''a''}"
  shows "balanced (line_blocks debug mok ty pszLine ctx) (line_lost debug mok ty pszLine ctx) ctx ctx'"
proof -
  note defs = line_blocks_def line_lost_def Let_def s
  consider "ty = CHR ''i''" | "ty = CHR ''c''" | "ty = CHR ''b''" | "ty = CHR ''a''" using ty by blast
  then show ?thesis
  proof cases
    case 1
    with r s have "on_msg (\<lambda>m. ignore (SetInfo debug mok pszLine m)) ctx = Inr ctx'" by (simp add: sdp_ParseLine_def)
    then show ?thesis
      by (rule on_msg_balanced [OF _ ok]) (auto simp: 1 defs setters ignore_def bindE_Inr_iff dup_len_Inr owned_eq set_blocks_def)
  next
    case 2
    with r s obtain c where c: "parse_connection debug mok pszLine = Inr c" "on_msg (\<lambda>m. Inr (SetConnection (Some c) m)) ctx = Inr ctx'"
      by (auto simp: sdp_ParseLine_def bindE_Inr_iff)
    show ?thesis using c(2)
      by (rule on_msg_balanced [OF _ ok])
        (auto simp: 2 defs SetConnection_def owned_eq delete_object_def simp flip: parse_connection_blocks [OF c(1)])
  next
    case 3
    with r s have "on_msg (\<lambda>m. Inr (snd (AddBandwidth debug mok (fst (split_colon pszLine))
        (fst (read_str (snd (split_colon pszLine)))) m))) ctx = Inr ctx'"
      by (simp add: sdp_ParseLine_def Let_def case_prod_beta)
    then show ?thesis
      by (rule on_msg_balanced [OF _ ok])
        (auto simp: 3 defs AddBandwidth_def vec_blocks owned_eq simp flip: SetBandwidth_blocks [where n = 0])
  next
    case 4
    with r s have "on_msg (\<lambda>m. Inr (snd (AddAttribute debug mok (fst (split_colon pszLine)) (snd (split_colon pszLine)) m))) ctx = Inr ctx'"
      by (simp add: sdp_ParseLine_def case_prod_beta)
    then show ?thesis
      by (rule on_msg_balanced [OF _ ok])
        (auto simp: 4 defs case_prod_beta AddAttribute_def push_back_blocks owned_eq SetAttribute_blocks)
  qed
qed

lemma media_line_balanced:
  assumes s: "ctx_state ctx = SDP_MEDIA" and r: "sdp_ParseLine debug mok ty pszLine ctx = Inr ctx'" and ok: "ctx_ok ctx"
    and ty: "ty \<in> {CHR ''i'', CHR ''c'', CHR ''b'', CHR ''a''}"
  shows "balanced (line_blocks debug mok ty pszLine ctx) (line_lost debug mok ty pszLine ctx) ctx ctx'"
proof -
  have lost: "line_lost debug mok ty pszLine ctx = 0" using s by (simp add: line_lost_def)
  note defs = line_blocks_def Let_def s SDPMedia_delete_def
  consider "ty = CHR ''i''" | "ty = CHR ''c''" | "ty = CHR ''b''" | "ty = CHR ''a''" using ty by blast
  then show ?thesis unfolding lost
  proof cases
    case 1
    with r s have "on_media (\<lambda>m. ignore (media_SetInfo debug mok pszLine m)) ctx = Inr ctx'" by (simp add: sdp_ParseLine_def)
    then show "balanced (line_blocks debug mok ty pszLine ctx) 0 ctx ctx'"
      by (rule on_media_balanced [OF _ ok]) (auto simp: 1 defs setters ignore_def bindE_Inr_iff dup_len_Inr set_blocks_def)
  next
    case 2
    with r s obtain c where c: "parse_connection debug mok pszLine = Inr c" "on_media (\<lambda>m. Inr (AddConnection c m)) ctx = Inr ctx'"
      by (auto simp: sdp_ParseLine_def bindE_Inr_iff)
    show "balanced (line_blocks debug mok ty pszLine ctx) 0 ctx ctx'" using c(2)
      by (rule on_media_balanced [OF _ ok])
        (auto simp: 2 defs AddConnection_def push_back_blocks simp flip: parse_connection_blocks [OF c(1)])
  next
    case 3
    with r s have "on_media (\<lambda>m. Inr (snd (media_AddBandwidth debug mok (fst (split_colon pszLine))
        (fst (read_str (snd (split_colon pszLine)))) m))) ctx = Inr ctx'"
      by (simp add: sdp_ParseLine_def Let_def case_prod_beta)
    then show "balanced (line_blocks debug mok ty pszLine ctx) 0 ctx ctx'"
      by (rule on_media_balanced [OF _ ok])
        (auto simp: 3 defs case_prod_beta media_AddBandwidth_def push_back_blocks SetBandwidth_blocks)
  next
    case 4
    with r s have "on_media (\<lambda>m. Inr (snd (media_AddAttribute debug mok (fst (split_colon pszLine)) (snd (split_colon pszLine)) m))) ctx
        = Inr ctx'"
      by (simp add: sdp_ParseLine_def case_prod_beta)
    then show "balanced (line_blocks debug mok ty pszLine ctx) 0 ctx ctx'"
      by (rule on_media_balanced [OF _ ok])
        (auto simp: 4 defs case_prod_beta media_AddAttribute_def push_back_blocks SetAttribute_blocks)
  qed
qed

lemma other_line_balanced:
  assumes r: "sdp_ParseLine debug mok ty pszLine ctx = Inr ctx'" and ok: "ctx_ok ctx"
    and ty: "ty \<notin> {CHR ''i'', CHR ''c'', CHR ''b'', CHR ''a''}"
  shows "balanced (line_blocks debug mok ty pszLine ctx) (line_lost debug mok ty pszLine ctx) ctx ctx'"
proof -
  have lost: "line_lost debug mok ty pszLine ctx = 0" using ty by (simp add: line_lost_def)
  note defs = line_blocks_def Let_def
  consider "ty = CHR ''v''" | "ty = CHR ''o''" | "ty = CHR ''s''" | "ty = CHR ''u''" | "ty = CHR ''e''" | "ty = CHR ''p''" | "ty = CHR ''m''"
    | "ty \<notin> {CHR ''v'', CHR ''o'', CHR ''s'', CHR ''u'', CHR ''e'', CHR ''p'', CHR ''m''}" by blast
  then show ?thesis unfolding lost
  proof cases
    case 1
    with r have "on_msg (\<lambda>m. ignore (sdp_SetVersion debug mok pszLine m)) ctx = Inr ctx'" by (simp add: sdp_ParseLine_def)
    then show "balanced (line_blocks debug mok ty pszLine ctx) 0 ctx ctx'"
      by (rule on_msg_balanced [OF _ ok]) (auto simp: 1 defs owned_eq setters ignore_def bindE_Inr_iff dup_len_Inr set_blocks_def)
  next
    case 2
    with r have "on_msg (\<lambda>m. bindE (parse_origin debug mok pszLine (m_origin m)) (\<lambda>o1. Inr (m\<lparr>m_origin := o1\<rparr>))) ctx = Inr ctx'" by (simp add: sdp_ParseLine_def)
    then show "balanced (line_blocks debug mok ty pszLine ctx) 0 ctx ctx'"
      by (rule on_msg_balanced [OF _ ok]) (auto simp: 2 defs owned_eq bindE_Inr_iff parse_origin_blocks)
  next
    case 3
    with r have "on_msg (\<lambda>m. ignore (SetSessionName debug mok pszLine m)) ctx = Inr ctx'" by (simp add: sdp_ParseLine_def)
    then show "balanced (line_blocks debug mok ty pszLine ctx) 0 ctx ctx'"
      by (rule on_msg_balanced [OF _ ok]) (auto simp: 3 defs owned_eq setters ignore_def bindE_Inr_iff dup_len_Inr set_blocks_def)
  next
    case 4
    with r have "on_msg (\<lambda>m. ignore (SetUrl debug mok pszLine m)) ctx = Inr ctx'" by (simp add: sdp_ParseLine_def)
    then show "balanced (line_blocks debug mok ty pszLine ctx) 0 ctx ctx'"
      by (rule on_msg_balanced [OF _ ok]) (auto simp: 4 defs owned_eq setters ignore_def bindE_Inr_iff dup_len_Inr set_blocks_def)
  next
    case 5
    with r have "on_msg (\<lambda>m. Inr (snd (AddMail pszLine m))) ctx = Inr ctx'" by (simp add: sdp_ParseLine_def)
    then show "balanced (line_blocks debug mok ty pszLine ctx) 0 ctx ctx'"
      by (rule on_msg_balanced [OF _ ok]) (auto simp: 5 defs owned_eq AddMail_def AddItemIntoVector_def push_back_blocks [unfolded push_back_def])
  next
    case 6
    with r have "on_msg (\<lambda>m. Inr (snd (AddPhone pszLine m))) ctx = Inr ctx'" by (simp add: sdp_ParseLine_def)
    then show "balanced (line_blocks debug mok ty pszLine ctx) 0 ctx ctx'"
      by (rule on_msg_balanced [OF _ ok]) (auto simp: 6 defs owned_eq AddPhone_def AddItemIntoVector_def push_back_blocks [unfolded push_back_def])
  next
    case 7
    then have "ctx' = \<lparr>ctx_state = SDP_MEDIA, ctx_msg = snd (AddMedia (parse_media debug mok pszLine) (ctx_msg ctx)),
        ctx_media = Some (GetMediaCount (ctx_msg ctx))\<rparr>" using r by (simp add: sdp_ParseLine_def)
    moreover have "GetMediaCount (ctx_msg ctx) = length (vec (m_pVectorMedias (ctx_msg ctx)))"
      by (simp add: GetMediaCount_def vec_def split: option.split)
    ultimately show "balanced (line_blocks debug mok ty pszLine ctx) 0 ctx ctx'"
      by (simp add: 7 defs AddMedia_def balanced_def ctx_ok_def owned_eq push_back_blocks vec_push_back flip: parse_media_blocks)
  next
    case 8
    then show "balanced (line_blocks debug mok ty pszLine ctx) 0 ctx ctx'" using r ok ty by (simp add: sdp_ParseLine_def defs balanced_def)
  qed
qed

lemma line_balanced:
  assumes "sdp_ParseLine debug mok ty pszLine ctx = Inr ctx'" and "ctx_ok ctx"
  shows "balanced (line_blocks debug mok ty pszLine ctx) (line_lost debug mok ty pszLine ctx) ctx ctx'"
  using session_line_balanced [OF _ assms] media_line_balanced [OF _ assms] other_line_balanced [OF assms]
  by (cases "ctx_state ctx") blast+

section \<open>The lines of a text\<close>

function sdp_steps :: "string \<Rightarrow> sdp_line list" where
  "sdp_steps s =
     (case dropWhile is_space s of
        [] \<Rightarrow> []
      | ty # pos \<Rightarrow>
          if pos = [] \<or> hd pos \<noteq> CHR ''='' then sdp_steps (skip_line pos)
          else (ty, take (STR_SIZE - 1) (takeWhile not_eol (tl pos))) # sdp_steps (skip_line (dropWhile not_eol (tl pos))))"
  by auto
termination
proof (relation "measure length", goal_cases)
  case (2 s ty pos)
  then have "Suc (length pos) \<le> length s" using length_dropWhile_le [of is_space s] by simp
  then show ?case using skip_line_le [of pos] by simp
next
  case (3 s ty pos)
  then have "Suc (length pos) \<le> length s" using length_dropWhile_le [of is_space s] by simp
  moreover have "length (skip_line (dropWhile not_eol (tl pos))) \<le> length pos"
    using skip_line_le [of "dropWhile not_eol (tl pos)"] length_dropWhile_le [of not_eol "tl pos"] by simp
  ultimately show ?case by simp
qed simp

declare sdp_steps.simps [simp del]

lemma ParseString_steps: "ParseString_lines debug mok s ctx = run_lines debug mok (sdp_steps s) ctx"
proof (induction debug mok s ctx rule: ParseString_lines.induct)
  case (1 debug mok s ctx)
  show ?case
  proof (cases "dropWhile is_space s")
    case Nil
    then show ?thesis by (subst ParseString_lines.simps, subst sdp_steps.simps) (simp only: Nil list.case run_lines.simps)
  next
    case (Cons ty pos)
    then show ?thesis using 1
      by (subst ParseString_lines.simps, subst sdp_steps.simps)
        (cases "sdp_ParseLine debug mok ty (take (STR_SIZE - 1) (takeWhile not_eol (tl pos))) ctx"; simp)
  qed
qed

fun lines_blocks :: "bool \<Rightarrow> alloc \<Rightarrow> sdp_line list \<Rightarrow> SDPContext \<Rightarrow> int" where
  "lines_blocks debug mok [] ctx = 0"
| "lines_blocks debug mok (l # ls) ctx = line_blocks debug mok (fst l) (snd l) ctx
     + (case sdp_ParseLine debug mok (fst l) (snd l) ctx of Inl _ \<Rightarrow> 0 | Inr ctx' \<Rightarrow> lines_blocks debug mok ls ctx')"

fun lines_lost :: "bool \<Rightarrow> alloc \<Rightarrow> sdp_line list \<Rightarrow> SDPContext \<Rightarrow> nat" where
  "lines_lost debug mok [] ctx = 0"
| "lines_lost debug mok (l # ls) ctx = line_lost debug mok (fst l) (snd l) ctx
     + (case sdp_ParseLine debug mok (fst l) (snd l) ctx of Inl _ \<Rightarrow> 0 | Inr ctx' \<Rightarrow> lines_lost debug mok ls ctx')"

lemma lines_balanced:
  "run_lines debug mok ls ctx = Inr ctx' \<Longrightarrow> ctx_ok ctx \<Longrightarrow>
    balanced (lines_blocks debug mok ls ctx) (lines_lost debug mok ls ctx) ctx ctx'"
proof (induction ls arbitrary: ctx)
  case Nil
  then show ?case by (simp add: balanced_def)
next
  case (Cons l ls)
  then obtain ctx1 where ctx1: "sdp_ParseLine debug mok (fst l) (snd l) ctx = Inr ctx1" "run_lines debug mok ls ctx1 = Inr ctx'"
    by (auto simp: bindE_Inr_iff)
  have b: "balanced (line_blocks debug mok (fst l) (snd l) ctx) (line_lost debug mok (fst l) (snd l) ctx) ctx ctx1"
    by (rule line_balanced [OF ctx1(1) Cons.prems(2)])
  then have "ctx_ok ctx1" by (simp add: balanced_def)
  from Cons.IH [OF ctx1(2) this] show ?case using b ctx1(1) by (simp add: balanced_def)
qed

section \<open>What is lost\<close>

lemma on_msg_state: "on_msg f ctx = Inr ctx' \<Longrightarrow> ctx_state ctx' = ctx_state ctx"
  by (auto simp: on_msg_def bindE_Inr_iff)

lemma on_media_state: "on_media f ctx = Inr ctx' \<Longrightarrow> ctx_state ctx' = ctx_state ctx \<and> m_pConnection (ctx_msg ctx') = m_pConnection (ctx_msg ctx)"
  by (auto simp: on_media_def bindE_Inr_iff split: option.splits)

lemma line_state:
  assumes "sdp_ParseLine debug mok ty pszLine ctx = Inr ctx'"
  shows "ctx_state ctx' = (if ty = CHR ''m'' then SDP_MEDIA else ctx_state ctx)"
  using assms unfolding sdp_ParseLine_def
  by (auto simp: Let_def bindE_Inr_iff case_prod_beta split: if_splits dest: on_msg_state on_media_state)

lemma session_connection:
  assumes "sdp_ParseLine debug mok ty pszLine ctx = Inr ctx'" and "ctx_state ctx = SDP_SESSION"
  shows "if ty = CHR ''c'' then \<exists>c. m_pConnection (ctx_msg ctx') = Some c \<and> SDPConnection_delete c = 3
    else m_pConnection (ctx_msg ctx') = m_pConnection (ctx_msg ctx)"
  using assms unfolding sdp_ParseLine_def
  by (auto simp: Let_def bindE_Inr_iff case_prod_beta on_msg_def setters ignore_def AddMail_def AddPhone_def AddBandwidth_def
    AddAttribute_def AddMedia_def SetConnection_def parse_connection_def SetAddrNum_def dup_len_Inr SDPConnection_delete_def split: if_splits)

lemma lost_media: "ctx_state ctx = SDP_MEDIA \<Longrightarrow> lines_lost debug mok ls ctx = 0"
proof (induction ls arbitrary: ctx)
  case (Cons l ls)
  then have "line_lost debug mok (fst l) (snd l) ctx = 0" by (simp add: line_lost_def)
  moreover have "lines_lost debug mok ls ctx' = 0" if "sdp_ParseLine debug mok (fst l) (snd l) ctx = Inr ctx'" for ctx'
    using line_state [OF that] Cons by (simp split: if_splits)
  ultimately show ?case by (simp split: sum.split)
qed simp

text \<open>The lines before the first \<open>m=\<close>.\<close>

definition session_lines :: "sdp_line list \<Rightarrow> sdp_line list" where
  "session_lines ls = takeWhile (\<lambda>l. fst l \<noteq> CHR ''m'') ls"

definition lines_of :: "char \<Rightarrow> sdp_line list \<Rightarrow> string list" where
  "lines_of ty ls = map snd (filter (\<lambda>l. fst l = ty) ls)"

definition bandwidth_lost :: "bool \<Rightarrow> alloc \<Rightarrow> string \<Rightarrow> nat" where
  "bandwidth_lost debug mok pszLine = 1 + free_pointer (z3_strdup debug mok (fst (split_colon pszLine)))"

definition session_lost :: "bool \<Rightarrow> alloc \<Rightarrow> sdp_line list \<Rightarrow> nat" where
  "session_lost debug mok ls =
     (\<Sum>s\<leftarrow>lines_of (CHR ''b'') (session_lines ls). bandwidth_lost debug mok s) + 4 * (length (lines_of (CHR ''c'') (session_lines ls)) - 1)"

lemma lost_session:
  assumes "run_lines debug mok ls ctx = Inr ctx'" and "ctx_state ctx = SDP_SESSION"
    and "\<And>c. m_pConnection (ctx_msg ctx) = Some c \<Longrightarrow> SDPConnection_delete c = 3"
  shows "lines_lost debug mok ls ctx =
    (\<Sum>s\<leftarrow>lines_of (CHR ''b'') (session_lines ls). bandwidth_lost debug mok s)
    + 4 * (length (lines_of (CHR ''c'') (session_lines ls)) - (if m_pConnection (ctx_msg ctx) = None then 1 else 0))"
  using assms
proof (induction ls arbitrary: ctx)
  case Nil
  then show ?case by (simp add: lines_of_def session_lines_def)
next
  case (Cons l ls)
  obtain ty p where l: "l = (ty, p)" by (cases l)
  from Cons.prems(1) obtain ctx1 where ctx1: "sdp_ParseLine debug mok ty p ctx = Inr ctx1" "run_lines debug mok ls ctx1 = Inr ctx'"
    by (auto simp: bindE_Inr_iff l)
  note conn = session_connection [OF ctx1(1) Cons.prems(2)]
  show ?case
  proof (cases "ty = CHR ''m''")
    case True
    then have "ctx_state ctx1 = SDP_MEDIA" using line_state [OF ctx1(1)] by simp
    from lost_media [OF this, of debug mok ls] show ?thesis using True ctx1(1) Cons.prems(2)
      by (simp add: l line_lost_def session_lines_def lines_of_def)
  next
    case False
    then have s1: "ctx_state ctx1 = SDP_SESSION" using line_state [OF ctx1(1)] Cons.prems(2) by simp
    have c1: "SDPConnection_delete c = 3" if "m_pConnection (ctx_msg ctx1) = Some c" for c
      using that conn Cons.prems(3) by (auto split: if_splits)
    from Cons.IH [OF ctx1(2) s1 c1] ctx1(1) Cons.prems(2) Cons.prems(3) conn False show ?thesis
      by (cases "m_pConnection (ctx_msg ctx)")
        (auto simp: l line_lost_def session_lines_def lines_of_def bandwidth_lost_def SetBandwidth_def SDPBandwidth_delete_def delete_object_def
          split: option.splits if_splits)
  qed
qed

text \<open>C27. From a new message to its destruction: whatever the text, the destructor gives back every block that parsing it left allocated,
  but for the bandwidths of the session, with their types, and for all its connections but the last, four blocks each. It never fails,
  since parsing makes no time entry.\<close>

theorem description_released:
  assumes "SDPMessage_ParseString debug mok (Some mem) n SDPMessage_new = Inr (EOK, m)"
  defines "ls \<equiv> sdp_steps (cstr mem)"
  shows "\<exists>k. SDPMessage_delete None None m = Inr k
    \<and> int k + int (session_lost debug mok ls)
      = lines_blocks debug mok ls \<lparr>ctx_state = SDP_SESSION, ctx_msg = SDPMessage_new, ctx_media = None\<rparr>"
proof -
  let ?c = "\<lparr>ctx_state = SDP_SESSION, ctx_msg = SDPMessage_new, ctx_media = None\<rparr>"
  obtain ctx where ctx: "run_lines debug mok ls ?c = Inr ctx" "m = ctx_msg ctx"
    using assms(1) by (auto simp: SDPMessage_ParseString_def ParseString_steps ls_def bindE_Inr_iff split: if_splits)
  have "balanced (lines_blocks debug mok ls ?c) (lines_lost debug mok ls ?c) ?c ctx"
    by (rule lines_balanced [OF ctx(1)]) (simp add: ctx_ok_def)
  moreover have "lines_lost debug mok ls ?c = session_lost debug mok ls"
    by (subst lost_session [OF ctx(1)]) (simp_all add: SDPMessage_new_def session_lost_def)
  moreover have "owned SDPMessage_new = 0"
    by (simp add: owned_eq SDPMessage_new_def SDPOrigin_new_def SDPOrigin_delete_def delete_vector_def delete_object_def)
  moreover have "SDPMessage_delete None None m = Inr (owned m)"
    by (simp add: owned_def SDPMessage_delete_def)
  ultimately show ?thesis by (simp add: balanced_def ctx(2))
qed

text \<open>A message with a time entry as the constructor makes it cannot be destroyed.\<close>

lemma time_entry_faults: "SDPMessage_delete (Some (SDPTime_new # ts)) zs m = Inl AssertFailed"
  by (simp add: SDPMessage_delete_def SDPTime_delete_def SDPTime_new_def Let_def)

text \<open>A description with two connections and a bandwidth before its media: 17 blocks are taken, 11 given back, 6 lost.\<close>

definition lossy_text :: string where
  "lossy_text = ''c=IN IP4 h'' @ [LF] @ ''c=IN IP4 g'' @ [LF] @ ''b=AS:5'' @ [LF] @ ''m=video 0 RTP 96'' @ [NUL]"

definition is_EOK :: "(result \<times> SDPMessage) outcome \<Rightarrow> bool" where
  "is_EOK r = (case r of Inl _ \<Rightarrow> False | Inr (e, _) \<Rightarrow> e = EOK)"

theorem description_released_witness:
  "\<exists>m. SDPMessage_ParseString False alloc_ok (Some lossy_text) 1 SDPMessage_new = Inr (EOK, m)
    \<and> SDPMessage_delete None None m = Inr 11 \<and> session_lost False alloc_ok (sdp_steps (cstr lossy_text)) = 6"
proof -
  have "is_EOK (SDPMessage_ParseString False alloc_ok (Some lossy_text) 1 SDPMessage_new)" by code_simp
  then obtain m where m: "SDPMessage_ParseString False alloc_ok (Some lossy_text) 1 SDPMessage_new = Inr (EOK, m)"
    by (auto simp: is_EOK_def split: sum.splits)
  have "session_lost False alloc_ok (sdp_steps (cstr lossy_text)) = 6" by code_simp
  moreover have "lines_blocks False alloc_ok (sdp_steps (cstr lossy_text))
      \<lparr>ctx_state = SDP_SESSION, ctx_msg = SDPMessage_new, ctx_media = None\<rparr> = 17" by code_simp
  ultimately show ?thesis using description_released [OF m] m by auto
qed

end
