(* ===== verification/Trace.thy ===== *)
theory Trace
  imports RtspDef
begin

text \<open>
  The log of \<open>z3_utilib/z3_trace.c\<close>: the line in front of every message, the nine functions that write one, the dump of a buffer, and
  the clock. The time a prefix shows and the number of the thread are parameters, and so is the text that \<open>vsnprintf\<close> makes of a
  format and its arguments. What is written goes to the end of a list of messages, which another thread empties (theory \<open>Truck\<close>).
\<close>

section \<open>Levels and prefixes\<close>

abbreviation (input) LOG_FATAL :: int where "LOG_FATAL \<equiv> 0"
abbreviation (input) LOG_ALERT :: int where "LOG_ALERT \<equiv> 1"
abbreviation (input) LOG_CRIT :: int where "LOG_CRIT \<equiv> 2"
abbreviation (input) LOG_ERROR :: int where "LOG_ERROR \<equiv> 3"
abbreviation (input) LOG_WARN :: int where "LOG_WARN \<equiv> 4"
abbreviation (input) LOG_NOTICE :: int where "LOG_NOTICE \<equiv> 5"
abbreviation (input) LOG_INFO :: int where "LOG_INFO \<equiv> 6"
abbreviation (input) LOG_DEBUG :: int where "LOG_DEBUG \<equiv> 7"
abbreviation (input) LOG_DETAIL :: int where "LOG_DETAIL \<equiv> 8"

abbreviation (input) MAX_DUMP_SIZE :: nat where "MAX_DUMP_SIZE \<equiv> 512"
abbreviation (input) MAX_LINE_LENGTH :: nat where "MAX_LINE_LENGTH \<equiv> 1024"

record stamp =
  t_hour :: nat
  t_min :: nat
  t_sec :: nat
  t_usec :: nat
  t_thread :: u32

definition stamp_ok :: "stamp \<Rightarrow> bool" where
  "stamp_ok t \<longleftrightarrow> t_hour t < 24 \<and> t_min t < 60 \<and> t_sec t < 62 \<and> t_usec t < 1000000"

text \<open>\<open>%02X\<close>, \<open>%08X\<close> and \<open>%6s\<close>.\<close>

fun hexw :: "nat \<Rightarrow> nat \<Rightarrow> string" where
  "hexw 0 x = []"
| "hexw (Suc w) x = hexw w (x div 16) @ [''0123456789ABCDEF'' ! (x mod 16)]"

definition right6 :: "string \<Rightarrow> string" where
  "right6 s = replicate (6 - length s) CHR '' '' @ s"

definition prefix_text :: "stamp \<Rightarrow> string \<Rightarrow> string" where
  "prefix_text t token = ''['' @ pad0 2 (t_hour t) @ '':'' @ pad0 2 (t_min t) @ '':'' @ pad0 2 (t_sec t) @ ''.'' @ pad0 6 (t_usec t)
     @ ''] Thread:0x'' @ hexw 8 (unat (t_thread t)) @ '', '' @ right6 token @ '': ''"

definition output_prefix :: "nat \<Rightarrow> stamp \<Rightarrow> string \<Rightarrow> string outcome" where
  "output_prefix buf_size t token =
     bindE (assertE (64 \<le> buf_size)) (\<lambda>_.
     bindE (assertE (0 < length (prefix_text t token) \<and> length (prefix_text t token) < buf_size)) (\<lambda>_. Inr (prefix_text t token)))"

section \<open>Messages\<close>

text \<open>\<open>shipping\<close> copies the text to the end of the list, with the lock of the list held.\<close>

definition shipping :: "string \<Rightarrow> string list \<Rightarrow> nat \<times> string list" where
  "shipping s out = (length s + 1, out @ [s])"

text \<open>Both kinds of \<open>vsnprintf\<close> fail the assertion for a text that does not fit, one with -1 and one with the length it would have.\<close>

definition trace :: "int \<Rightarrow> stamp \<Rightarrow> int \<Rightarrow> string \<Rightarrow> string \<Rightarrow> string list \<Rightarrow> (nat \<times> string list) outcome" where
  "trace current t level token s out =
     (if current \<ge> level then
        bindE (output_prefix MAX_LINE_LENGTH t token) (\<lambda>p.
        bindE (assertE (0 < length p)) (\<lambda>_.
        bindE (assertE (0 < length s \<and> length s < MAX_LINE_LENGTH - length p)) (\<lambda>_.
          let (bytes, out') = shipping (p @ s) out in
          bindE (assertE (bytes = length p + length s + 1)) (\<lambda>_. Inr (bytes, out')))))
      else Inr (0, out))"

definition TRACE_DETAIL :: "int \<Rightarrow> stamp \<Rightarrow> string \<Rightarrow> string list \<Rightarrow> (nat \<times> string list) outcome" where
  "TRACE_DETAIL current t = trace current t LOG_DETAIL ''DETAIL''"
definition TRACE_DEBUG :: "int \<Rightarrow> stamp \<Rightarrow> string \<Rightarrow> string list \<Rightarrow> (nat \<times> string list) outcome" where
  "TRACE_DEBUG current t = trace current t LOG_DEBUG ''DEBUG''"
definition TRACE_INFO :: "int \<Rightarrow> stamp \<Rightarrow> string \<Rightarrow> string list \<Rightarrow> (nat \<times> string list) outcome" where
  "TRACE_INFO current t = trace current t LOG_INFO ''INFO''"
definition TRACE_NOTICE :: "int \<Rightarrow> stamp \<Rightarrow> string \<Rightarrow> string list \<Rightarrow> (nat \<times> string list) outcome" where
  "TRACE_NOTICE current t = trace current t LOG_NOTICE ''NOTICE''"
definition TRACE_WARN :: "int \<Rightarrow> stamp \<Rightarrow> string \<Rightarrow> string list \<Rightarrow> (nat \<times> string list) outcome" where
  "TRACE_WARN current t = trace current t LOG_WARN ''WARN''"
definition TRACE_ERROR :: "int \<Rightarrow> stamp \<Rightarrow> string \<Rightarrow> string list \<Rightarrow> (nat \<times> string list) outcome" where
  "TRACE_ERROR current t = trace current t LOG_ERROR ''ERROR''"
definition TRACE_CRIT :: "int \<Rightarrow> stamp \<Rightarrow> string \<Rightarrow> string list \<Rightarrow> (nat \<times> string list) outcome" where
  "TRACE_CRIT current t = trace current t LOG_CRIT ''CRIT''"
definition TRACE_ALERT :: "int \<Rightarrow> stamp \<Rightarrow> string \<Rightarrow> string list \<Rightarrow> (nat \<times> string list) outcome" where
  "TRACE_ALERT current t = trace current t LOG_ALERT ''ALERT''"
definition TRACE_FATAL :: "int \<Rightarrow> stamp \<Rightarrow> string \<Rightarrow> string list \<Rightarrow> (nat \<times> string list) outcome" where
  "TRACE_FATAL current t = trace current t LOG_FATAL ''FATAL''"

section \<open>Dump of a buffer\<close>

text \<open>\<open>bytes += snprintf (line + bytes, sizeof (line) - bytes, ...)\<close>: a text that does not fit moves \<open>bytes\<close> behind the array.\<close>

definition put :: "string \<Rightarrow> string \<Rightarrow> string outcome" where
  "put line s = (if length line + length s < MAX_LINE_LENGTH then Inr (line @ s) else Inl OutOfBounds)"

text \<open>\<open>while (i++ % 16)\<close>\<close>

function dump_fill :: "nat \<Rightarrow> string \<Rightarrow> (nat \<times> string) outcome" where
  "dump_fill i line =
     (if i mod 16 \<noteq> 0 then bindE (put line ''__ '') (\<lambda>line. dump_fill (i + 1) line) else Inr (i + 1, line))"
  by pat_completeness auto
termination
  by (relation "measure (\<lambda>(i, _). (16 - i mod 16) mod 16)") (auto simp: mod_Suc)

declare dump_fill.simps [simp del]

definition show_char :: "u8 \<Rightarrow> char" where
  "show_char ch = (if ch < 33 \<or> ch = 255 then CHR ''.'' else char_of (unat ch))"

text \<open>\<open>while (pos < buf)\<close>, the first argument being the distance.\<close>

fun dump_chars :: "nat \<Rightarrow> u8 list \<Rightarrow> nat \<Rightarrow> string \<Rightarrow> string outcome" where
  "dump_chars 0 data pos line = Inr line"
| "dump_chars (Suc n) data pos line =
     (if pos < length data then bindE (put line [show_char (data ! pos)]) (\<lambda>line. dump_chars n data (pos + 1) line)
      else Inl OutOfBounds)"

definition address_text :: "u32 \<Rightarrow> nat \<Rightarrow> string" where
  "address_text base k = hexw 8 (unat (base + of_nat k)) @ '' | ''"

definition CRLF2 :: string where "CRLF2 = [CR, LF]"

text \<open>The memory the pointer points to is \<open>data\<close>, at the address \<open>base\<close>; \<open>buf\<close> and \<open>pos\<close> are offsets into it.\<close>

fun dump_loop :: "u32 \<Rightarrow> u8 list \<Rightarrow> nat \<Rightarrow> nat \<Rightarrow> nat \<Rightarrow> nat \<Rightarrow> string \<Rightarrow> string list \<Rightarrow> (string \<times> string list) outcome" where
  "dump_loop base data 0 buf pos i line list = Inr (line, list)"
| "dump_loop base data (Suc n) buf pos i line list =
     (if \<not> buf < length data then Inl OutOfBounds
      else bindE (put line (hexw 2 (unat (data ! buf)) @ '' '')) (\<lambda>line.
        if (i + 1) mod 16 = 0 \<or> (n = 0 \<and> (i + 1) mod 16 \<noteq> 0) then
          bindE (if n = 0 then dump_fill (i + 1) line else Inr (i + 1, line)) (\<lambda>(i, line).
          bindE (put line ''| '') (\<lambda>line.
          bindE (dump_chars (buf + 1 - pos) data pos line) (\<lambda>line.
            if n > 0 then
              bindE (put line CRLF2) (\<lambda>line.
              bindE (put [] (address_text base (buf + 1))) (\<lambda>line'.
                dump_loop base data n (buf + 1) (buf + 1) i line' (list @ [line])))
            else dump_loop base data n (buf + 1) (buf + 1) i line list)))
        else dump_loop base data n (buf + 1) pos (i + 1) line list))"

definition too_big_text :: "nat \<Rightarrow> string" where
  "too_big_text sz = ''buffer size is too big('' @ dec_int (sint (of_nat sz :: u32))
     @ '' bytes), now only display first 512 bytes.'' @ CRLF2"

text \<open>\<open>strcat_s\<close> ends the program if there is no room.\<close>

definition strcat_s :: "nat \<Rightarrow> string \<Rightarrow> string \<Rightarrow> string outcome" where
  "strcat_s buf_size buf s = bindE (assertE (length buf + length s < buf_size)) (\<lambda>_. Inr (buf @ s))"

text \<open>Each line gets a prefix of its own; the times are taken from a list that is long enough.\<close>

definition trace_each_line :: "string \<Rightarrow> string \<Rightarrow> string \<times> stamp list \<Rightarrow> (string \<times> stamp list) outcome" where
  "trace_each_line token s ctx =
     (case ctx of (buf, ts) \<Rightarrow>
        bindE (assertE (length s \<le> MAX_LINE_LENGTH)) (\<lambda>_.
        bindE (output_prefix MAX_LINE_LENGTH (hd ts) token) (\<lambda>p.
        bindE (strcat_s 8192 buf p) (\<lambda>buf.
        bindE (strcat_s 8192 buf s) (\<lambda>buf. Inr (buf, tl ts))))))"

definition trace_string_list :: "string \<Rightarrow> string list \<Rightarrow> stamp list \<Rightarrow> string list \<Rightarrow> (nat \<times> string list) outcome" where
  "trace_string_list token lines ts out =
     bindE (fold (\<lambda>s r. bindE r (trace_each_line token s)) lines (Inr ([], ts))) (\<lambda>(buf, _). Inr (shipping buf out))"

definition dump :: "int \<Rightarrow> stamp list \<Rightarrow> int \<Rightarrow> string \<Rightarrow> u32 \<Rightarrow> u8 list \<Rightarrow> nat \<Rightarrow> string list \<Rightarrow> (nat \<times> string list) outcome" where
  "dump current ts level token base data sz out =
     (if current < level then Inr (0, out)
      else
        bindE (if sz > MAX_DUMP_SIZE then bindE (put [] (too_big_text sz)) (\<lambda>line. Inr (MAX_DUMP_SIZE, [line])) else Inr (sz, []))
          (\<lambda>(sz, list).
        bindE (put [] (address_text base 0)) (\<lambda>line.
        bindE (dump_loop base data sz 0 0 0 line (list @ [''Dump Binary:'' @ CRLF2])) (\<lambda>(line, list).
        bindE (put line CRLF2) (\<lambda>line. trace_string_list token (list @ [line]) ts out)))))"

definition dump_token :: "int \<Rightarrow> string outcome" where
  "dump_token level =
     (if level = LOG_DETAIL then Inr ''DETAIL'' else if level = LOG_DEBUG then Inr ''DEBUG'' else if level = LOG_INFO then Inr ''INFO''
      else if level = LOG_NOTICE then Inr ''NOTICE'' else if level = LOG_WARN then Inr ''WARN'' else if level = LOG_ERROR then Inr ''ERROR''
      else if level = LOG_CRIT then Inr ''CRIT'' else if level = LOG_ALERT then Inr ''ALERT'' else if level = LOG_FATAL then Inr ''FATAL''
      else Inl AssertFailed)"

definition TRACE_DUMP :: "int \<Rightarrow> stamp list \<Rightarrow> int \<Rightarrow> u32 \<Rightarrow> u8 list \<Rightarrow> nat \<Rightarrow> string list \<Rightarrow> (nat \<times> string list) outcome" where
  "TRACE_DUMP current ts level base data sz out =
     bindE (dump_token level) (\<lambda>token. dump current ts level token base data sz out)"


section \<open>What a dump looks like\<close>

text \<open>A row: its address, sixteen places, and its characters.\<close>

definition row_open :: "u32 \<Rightarrow> nat \<Rightarrow> u8 list \<Rightarrow> string" where
  "row_open base k xs = address_text base k @ concat (map (\<lambda>x. hexw 2 (unat x) @ '' '') xs)"

definition row_text :: "u32 \<Rightarrow> nat \<Rightarrow> u8 list \<Rightarrow> string" where
  "row_text base k xs = row_open base k xs @ concat (replicate (16 - length xs) ''__ '') @ ''| '' @ map show_char xs"

function dump_rows :: "u32 \<Rightarrow> nat \<Rightarrow> u8 list \<Rightarrow> string list" where
  "dump_rows base k xs =
     (if length xs \<le> 16 then [row_text base k xs] else row_text base k (take 16 xs) # dump_rows base (k + 16) (drop 16 xs))"
  by pat_completeness auto
termination by (relation "measure (\<lambda>(_, _, xs). length xs)") auto

declare dump_rows.simps [simp del]

lemma length_hexw [simp]: "length (hexw w x) = w"
  by (induction w arbitrary: x) auto

lemma length_address_text [simp]: "length (address_text base k) = 11"
  by (simp add: address_text_def)

lemma length_row_open: "length (row_open base k xs) = 11 + 3 * length xs"
  by (induction xs rule: rev_induct) (auto simp: row_open_def)

lemma length_row_text: "length xs \<le> 16 \<Longrightarrow> length (row_text base k xs) = 61 + length xs"
  by (simp add: row_text_def length_row_open length_concat comp_def sum_list_replicate)

lemma row_open_snoc: "row_open base k (xs @ [x]) = row_open base k xs @ hexw 2 (unat x) @ '' ''"
  by (simp add: row_open_def)

lemma put_ok: "length line + length s < MAX_LINE_LENGTH \<Longrightarrow> put line s = Inr (line @ s)"
  by (simp add: put_def)

lemma dump_fill_ok:
  assumes "i mod 16 \<noteq> 0" "length line + 3 * (16 - i mod 16) < MAX_LINE_LENGTH"
  shows "dump_fill i line = Inr (i + (17 - i mod 16), line @ concat (replicate (16 - i mod 16) ''__ ''))"
  using assms
proof (induction "15 - i mod 16" arbitrary: i line)
  case 0
  then have m: "i mod 16 = 15" using mod_less_divisor [of 16 i] by linarith
  then have "Suc i mod 16 = 0" by (simp add: mod_Suc)
  then show ?case using m 0(3) by (simp add: dump_fill.simps [of i] dump_fill.simps [of "Suc i"] put_ok)
next
  case (Suc k)
  then have m: "Suc i mod 16 = Suc (i mod 16)" by (simp add: mod_Suc)
  have "dump_fill (Suc i) (line @ ''__ '') = Inr (Suc i + (17 - Suc i mod 16), (line @ ''__ '') @ concat (replicate (16 - Suc i mod 16) ''__ ''))"
    by (rule Suc.hyps(1)) (use Suc m in auto)
  moreover have "16 - i mod 16 = Suc (16 - Suc i mod 16)" using Suc(2) m by simp
  moreover have "17 - i mod 16 = Suc (17 - Suc i mod 16)" using Suc(2) m by simp
  ultimately show ?case using Suc.prems m by (simp add: dump_fill.simps [of i] put_ok)
qed

lemma dump_chars_ok: "pos + n \<le> length data \<Longrightarrow> length line + n < MAX_LINE_LENGTH \<Longrightarrow>
    dump_chars n data pos line = Inr (line @ map show_char (take n (drop pos data)))"
proof (induction n arbitrary: pos line)
  case (Suc n)
  then have "take (Suc n) (drop pos data) = data ! pos # take n (drop (Suc pos) data)"
    by (simp add: take_Suc_conv_app_nth Cons_nth_drop_Suc [symmetric])
  then show ?case using Suc.IH [of "pos + 1" "line @ [show_char (data ! pos)]"] Suc.prems by (simp add: put_ok)
qed simp


lemma dump_rows_ne [simp]: "dump_rows base k xs \<noteq> []"
  by (subst dump_rows.simps) simp

lemma dump_loop_rows:
  assumes "i mod 16 = j" "buf = pos + j" "buf + n \<le> length data" "0 < n" "line = row_open base pos (take j (drop pos data))"
  shows "dump_loop base data n buf pos i line list =
    (let rows = dump_rows base pos (take (j + n) (drop pos data)) in Inr (last rows, list @ map (\<lambda>r. r @ CRLF2) (butlast rows)))"
  using assms
proof (induction n arbitrary: buf pos i j line list)
  case (Suc n)
  have j: "j < 16" using Suc.prems(1) by auto
  let ?rem = "take (j + Suc n) (drop pos data)"
  let ?xs = "take (Suc j) (drop pos data)"
  have xs: "?xs = take j (drop pos data) @ [data ! buf]" "length ?xs = Suc j"
    using Suc.prems(2,3) by (simp_all add: take_Suc_conv_app_nth)
  let ?line = "row_open base pos ?xs"
  have len: "length ?line \<le> 59" using j by (simp add: length_row_open xs(2))
  have "length line + 3 < MAX_LINE_LENGTH" using j unfolding Suc.prems(5) by (simp add: length_row_open)
  then have hex: "put line (hexw 2 (unat (data ! buf)) @ '' '') = Inr ?line"
    unfolding xs(1) row_open_snoc Suc.prems(5) by (simp add: put_ok)
  have chars: "dump_chars (buf + 1 - pos) data pos s = Inr (s @ map show_char ?xs)" if "length s + 16 < MAX_LINE_LENGTH" for s
    using dump_chars_ok [of pos "Suc j" data s] Suc.prems(2,3) j that by simp
  have buf: "buf < length data" using Suc.prems(3) by simp
  consider (last) "n = 0" | (full) "0 < n" "Suc j = 16" | (more) "0 < n" "Suc j < 16" using j by linarith
  then show ?case
  proof cases
    case last
    let ?fill = "concat (replicate (16 - Suc j) ''__ '')"
    have row: "row_text base pos ?xs = ?line @ ?fill @ ''| '' @ map show_char ?xs" by (simp only: row_text_def xs(2))
    obtain i' where fill: "dump_fill (i + 1) ?line = Inr (i', ?line @ ?fill)"
    proof (cases "Suc j = 16")
      case True
      then have "(i + 1) mod 16 = 0" using Suc.prems(1) by (simp add: mod_Suc)
      then show ?thesis using True that by (simp add: dump_fill.simps [of "Suc i"])
    next
      case False
      then have "(i + 1) mod 16 = Suc j" using Suc.prems(1) j by (simp add: mod_Suc)
      moreover have "length ?line + 3 * (16 - Suc j) < MAX_LINE_LENGTH" using len by simp
      ultimately show ?thesis using dump_fill_ok [of "i + 1" ?line] that by simp
    qed
    have "length (?line @ ?fill) + 2 + 16 < MAX_LINE_LENGTH" using len by (simp add: length_concat comp_def sum_list_replicate)
    then have "put (?line @ ?fill) ''| '' = Inr (?line @ ?fill @ ''| '')" "length (?line @ ?fill @ ''| '') + 16 < MAX_LINE_LENGTH"
      by (simp_all add: put_ok)
    with chars [OF this(2)] have "dump_loop base data (Suc n) buf pos i line list = Inr (row_text base pos ?xs, list)"
      using last buf hex fill row by (cases "(i + 1) mod 16 = 0") simp_all
    moreover have "dump_rows base pos ?rem = [row_text base pos ?xs]" using last j xs(2) by (subst dump_rows.simps) simp
    ultimately show ?thesis by simp
  next
    case full
    have i16: "(i + 1) mod 16 = 0" using Suc.prems(1) full(2) by (simp add: mod_Suc)
    have buf': "buf + 1 = pos + 16" using Suc.prems(2) full(2) by simp
    have row: "row_text base pos ?xs = ?line @ ''| '' @ map show_char ?xs" using full(2) xs(2) by (simp add: row_text_def)
    have "length (row_text base pos ?xs) = 77" using full(2) xs(2) by (simp add: length_row_text)
    moreover have "dump_chars (buf + 1 - pos) data pos (?line @ ''| '') = Inr (row_text base pos ?xs)"
      using chars [of "?line @ ''| ''"] len by (simp only: row append_assoc length_append) simp
    ultimately have "put ?line ''| '' = Inr (?line @ ''| '')" "dump_chars (buf + 1 - pos) data pos (?line @ ''| '') = Inr (row_text base pos ?xs)"
      "put (row_text base pos ?xs) CRLF2 = Inr (row_text base pos ?xs @ CRLF2)"
      "put [] (address_text base (buf + 1)) = Inr (address_text base (buf + 1))"
      using len by (simp_all add: put_ok CRLF2_def)
    then have "dump_loop base data (Suc n) buf pos i line list
        = dump_loop base data n (buf + 1) (buf + 1) (i + 1) (address_text base (buf + 1)) (list @ [row_text base pos ?xs @ CRLF2])"
      using full(1) i16 buf hex by simp
    also have "\<dots> = (let rows = dump_rows base (buf + 1) (take n (drop (buf + 1) data)) in
        Inr (last rows, (list @ [row_text base pos ?xs @ CRLF2]) @ map (\<lambda>r. r @ CRLF2) (butlast rows)))"
      using Suc.IH [of "i + 1" 0 "buf + 1" "buf + 1"] i16 full(1) Suc.prems(3) by (simp add: row_open_def)
    moreover have "dump_rows base pos ?rem = row_text base pos ?xs # dump_rows base (buf + 1) (take n (drop (buf + 1) data))"
    proof -
      have "length ?rem = 16 + n" using full(2) Suc.prems(2,3) by simp
      moreover have "take 16 ?rem = ?xs" using full(2) by (simp add: min_def)
      moreover have "drop 16 ?rem = take n (drop (buf + 1) data)" using full(2) buf' by (simp add: drop_take add.commute)
      ultimately show ?thesis using full(1) unfolding buf' by (subst dump_rows.simps) simp
    qed
    ultimately show ?thesis by (simp add: Let_def)
  next
    case more
    then have "(i + 1) mod 16 = Suc j" using Suc.prems(1) by (simp add: mod_Suc)
    then show ?thesis using Suc.IH [of "i + 1" "Suc j" "buf + 1" pos ?line list] more Suc.prems(2,3) buf hex by simp
  qed
qed simp


section \<open>Lines and messages\<close>

lemma length_pad0: "0 < w \<Longrightarrow> n < 10 ^ w \<Longrightarrow> length (pad0 w n) = w"
  using length_dec_nat [of n w] by (simp add: pad0_def)

lemma length_prefix_text: "stamp_ok t \<Longrightarrow> length token \<le> 6 \<Longrightarrow> length (prefix_text t token) = 45"
  by (simp add: prefix_text_def stamp_ok_def length_pad0 right6_def)

lemma output_prefix_ok: "stamp_ok t \<Longrightarrow> length token \<le> 6 \<Longrightarrow> output_prefix MAX_LINE_LENGTH t token = Inr (prefix_text t token)"
  using length_prefix_text [of t token] by (simp add: output_prefix_def del: length_greater_0_conv)

lemma dump_token_length: "dump_token level = Inr token \<Longrightarrow> length token \<le> 6"
  by (auto simp: dump_token_def split: if_splits)

lemma trace_each_line_fold:
  assumes "\<forall>t \<in> set ts. stamp_ok t" "length token \<le> 6" "length lines \<le> length ts" "\<forall>l \<in> set lines. length l \<le> 100"
    "length buf + 145 * length lines < 8192"
  shows "fold (\<lambda>s r. bindE r (trace_each_line token s)) lines (Inr (buf, ts))
    = Inr (buf @ concat (map (\<lambda>(t, l). prefix_text t token @ l) (zip ts lines)), drop (length lines) ts)"
  using assms
proof (induction lines arbitrary: buf ts)
  case (Cons l lines)
  then obtain t ts' where ts: "ts = t # ts'" by (cases ts) auto
  have p: "stamp_ok t" using Cons.prems(1) ts by simp
  note len = length_prefix_text [OF p Cons.prems(2)]
  have "trace_each_line token l (buf, ts) = Inr (buf @ prefix_text t token @ l, ts')"
    using Cons.prems(4,5) len by (simp add: ts trace_each_line_def output_prefix_ok [OF p Cons.prems(2)] strcat_s_def)
  moreover have "length (buf @ prefix_text t token @ l) + 145 * length lines < 8192" using Cons.prems(4,5) len by simp
  ultimately show ?case using Cons.IH [of ts' "buf @ prefix_text t token @ l"] Cons.prems(1-4) by (simp add: ts)
qed simp

lemma length_dump_rows: "length (dump_rows base k xs) \<le> length xs div 16 + 1"
proof (induction base k xs rule: dump_rows.induct)
  case (1 base k xs)
  show ?case
  proof (cases "length xs \<le> 16")
    case False
    then have "(length xs - 16) div 16 + 1 = length xs div 16" by (simp add: le_div_geq)
    then show ?thesis using 1 False by (simp add: dump_rows.simps [of base k xs])
  qed (simp add: dump_rows.simps [of base k xs])
qed

lemma dump_rows_lengths: "r \<in> set (dump_rows base k xs) \<Longrightarrow> length r \<le> 77"
proof (induction base k xs rule: dump_rows.induct)
  case (1 base k xs)
  then show ?case by (cases "length xs \<le> 16") (auto simp: dump_rows.simps [of base k xs] length_row_text)
qed

lemma length_too_big: "length (too_big_text sz) \<le> 100"
proof -
  let ?i = "sint (of_nat sz :: u32)"
  have "\<bar>?i\<bar> < 10 ^ 10" using sint_greater_eq [of "of_nat sz :: u32"] sint_less [of "of_nat sz :: u32"] by simp
  then have "nat ?i < 10 ^ 10" "nat (- ?i) < 10 ^ 10" by auto
  then have "length (dec_int ?i) \<le> 11" using length_dec_nat [of "nat ?i" 10] length_dec_nat [of "nat (- ?i)" 10] by (auto simp: dec_int_def)
  then show ?thesis by (simp add: too_big_text_def CRLF2_def)
qed

text \<open>The lines of a dump, before they get their prefixes.\<close>

definition dump_lines :: "u32 \<Rightarrow> u8 list \<Rightarrow> nat \<Rightarrow> string list" where
  "dump_lines base data sz = (if MAX_DUMP_SIZE < sz then [too_big_text sz] else []) @ [''Dump Binary:'' @ CRLF2]
     @ map (\<lambda>r. r @ CRLF2) (if sz = 0 then [address_text base 0] else dump_rows base 0 (take (min sz MAX_DUMP_SIZE) data))"

lemma dump_lines_bounds: "length (dump_lines base data sz) \<le> 35" "l \<in> set (dump_lines base data sz) \<Longrightarrow> length l \<le> 100"
proof -
  have "length (take (min sz 512) data) div 16 \<le> 512 div 16" by (intro div_le_mono) simp
  then have "length (dump_rows base 0 (take (min sz 512) data)) \<le> 33"
    using length_dump_rows [of base 0 "take (min sz 512) data"] by linarith
  then show "length (dump_lines base data sz) \<le> 35" by (cases "512 < sz") (simp_all add: dump_lines_def min_def)
  show "length l \<le> 100" if "l \<in> set (dump_lines base data sz)"
    using that length_too_big [of sz] by (auto simp: dump_lines_def CRLF2_def split: if_splits dest!: dump_rows_lengths)
qed

text \<open>C39. A dump writes one message: a line that says so if there are more than 512 bytes, of which it then shows 512, the word
  \<open>Dump Binary\<close>, and the rows of sixteen bytes with their address, their bytes in hexadecimal (the last row filled up) and their
  characters, each line with a prefix of its own. Neither the line buffer of 1024 bytes nor the message buffer of 8192 is ever full.\<close>

theorem dump_correct:
  assumes "dump_token level = Inr token" and "level \<le> current" and "min sz 512 \<le> length data"
    and "\<forall>t \<in> set ts. stamp_ok t" and "35 \<le> length ts"
  shows "TRACE_DUMP current ts level base data sz out =
    (let s = concat (map (\<lambda>(t, l). prefix_text t token @ l) (zip ts (dump_lines base data sz))) in Inr (length s + 1, out @ [s]))"
proof -
  let ?n = "min sz 512"
  let ?big = "(if MAX_DUMP_SIZE < sz then [too_big_text sz] else []) :: string list"
  have big: "(if sz > 512 then bindE (put [] (too_big_text sz)) (\<lambda>line. Inr (512, [line])) else Inr (sz, [])) = Inr (?n, ?big)"
    using length_too_big [of sz] by (simp add: put_ok)
  let ?rows = "if sz = 0 then [address_text base 0] else dump_rows base 0 (take ?n data)"
  have loop: "dump_loop base data ?n 0 0 0 (address_text base 0) (?big @ [''Dump Binary:'' @ CRLF2])
      = Inr (last ?rows, ?big @ [''Dump Binary:'' @ CRLF2] @ map (\<lambda>r. r @ CRLF2) (butlast ?rows))"
    using dump_loop_rows [of 0 0 0 0 ?n data "address_text base 0" base] assms(3) by (auto simp: row_open_def Let_def)
  have "length (last ?rows) \<le> 77" using dump_rows_lengths [of "last ?rows" base 0 "take ?n data"] by (cases "sz = 0") auto
  then have last: "put (last ?rows) CRLF2 = Inr (last ?rows @ CRLF2)" by (simp add: put_ok CRLF2_def)
  have "dump current ts level token base data sz out = trace_string_list token (dump_lines base data sz) ts out"
  proof -
    have "dump_lines base data sz = (?big @ [''Dump Binary:'' @ CRLF2] @ map (\<lambda>r. r @ CRLF2) (butlast ?rows)) @ [last ?rows @ CRLF2]"
    proof -
      have "map (\<lambda>r. r @ CRLF2) ?rows = map (\<lambda>r. r @ CRLF2) (butlast ?rows @ [last ?rows])" by (subst append_butlast_last_id) auto
      then show ?thesis by (simp only: dump_lines_def map_append list.map append_assoc)
    qed
    moreover have "put [] (address_text base 0) = Inr (address_text base 0)" by (simp add: put_ok)
    ultimately show ?thesis using assms(2) unfolding dump_def big by (simp only: bindE.simps prod.case loop last not_less [symmetric] if_False)
  qed
  also have "\<dots> = (let s = concat (map (\<lambda>(t, l). prefix_text t token @ l) (zip ts (dump_lines base data sz))) in Inr (length s + 1, out @ [s]))"
    using trace_each_line_fold [OF assms(4) dump_token_length [OF assms(1)], of "dump_lines base data sz" "[]"]
      dump_lines_bounds [where base = base and data = data and sz = sz] assms(5) by (simp add: trace_string_list_def shipping_def Let_def)
  finally show ?thesis by (simp add: TRACE_DUMP_def assms(1))
qed


theorem dump_correct_witness:
  "TRACE_DUMP LOG_INFO (replicate 35 \<lparr>t_hour = 1, t_min = 2, t_sec = 3, t_usec = 4, t_thread = 5\<rparr>) LOG_ERROR 0 [65, 66] 2 []
    = (let s = concat (map (\<lambda>(t, l). prefix_text t ''ERROR'' @ l)
        (zip (replicate 35 \<lparr>t_hour = 1, t_min = 2, t_sec = 3, t_usec = 4, t_thread = 5\<rparr>) (dump_lines 0 [65, 66] 2))) in Inr (length s + 1, [s]))"
  using dump_correct [of LOG_ERROR "''ERROR''" LOG_INFO 2 "[65, 66]" "replicate 35 \<lparr>t_hour = 1, t_min = 2, t_sec = 3, t_usec = 4, t_thread = 5\<rparr>" 0 "[]"]
  by (simp add: dump_token_def stamp_ok_def)

text \<open>A message is written, with its prefix, if the level of the log is at least that of the message. The buffer has room for 978
  characters behind the prefix: a longer message, or an empty one, fails an assertion. So a log at the level of errors ends the
  program when the parser, which puts into such a message everything it was sent, gets 950 bytes without an end of line.\<close>

theorem trace_branches:
  assumes "stamp_ok t" and "length token \<le> 6"
  shows "trace current t level token s out =
    (if current < level then Inr (0, out)
     else if s \<noteq> [] \<and> length s \<le> 978 then Inr (46 + length s, out @ [prefix_text t token @ s])
     else Inl AssertFailed)"
proof -
  have "prefix_text t token \<noteq> []" using length_prefix_text [OF assms] by auto
  then show ?thesis using length_prefix_text [OF assms] by (auto simp: trace_def output_prefix_ok [OF assms] shipping_def not_le)
qed

theorem trace_branches_witness:
  "TRACE_ERROR LOG_INFO \<lparr>t_hour = 1, t_min = 2, t_sec = 3, t_usec = 4, t_thread = 5\<rparr>
    (''Incorrect Rtsp Message: '' @ replicate 955 CHR ''x'') [] = Inl AssertFailed"
  using trace_branches [of "\<lparr>t_hour = 1, t_min = 2, t_sec = 3, t_usec = 4, t_thread = 5\<rparr>" "''ERROR''" LOG_INFO LOG_ERROR
    "''Incorrect Rtsp Message: '' @ replicate 955 CHR ''x''" "[]"] by (simp add: TRACE_ERROR_def stamp_ok_def)

section \<open>The clock\<close>

text \<open>\<open>gettimeofday\<close>: the first call asks the system for the time and computes what has to be added to the counter. The products
  are 64 bits wide in the code and stay below \<open>2^63\<close> until the year 2038 for counters of up to 4 GHz; none of
  the numbers is negative there, so that the division of C is \<open>div\<close>.\<close>

record clock =
  is_first_call :: bool
  tick_frequency :: int
  epoch_offset :: int

definition gettimeofday :: "int \<Rightarrow> int \<Rightarrow> int \<Rightarrow> int \<Rightarrow> clock \<Rightarrow> (int \<times> int) \<times> clock" where
  "gettimeofday tickNow time millitm frequency g =
     (if is_first_call g then
        ((time, 1000 * millitm),
         g\<lparr>tick_frequency := frequency, epoch_offset := time * frequency + millitm * frequency div 1000 - tickNow, is_first_call := False\<rparr>)
      else
        let tickNow = tickNow + epoch_offset g in
        ((tickNow div tick_frequency g, (tickNow mod tick_frequency g) * 1000000 div tick_frequency g), g))"

lemma div_scale: "0 < (f::int) \<Longrightarrow> T * c div f = T div f * c + (T mod f) * c div f"
proof -
  assume f: "0 < f"
  have "T * c = (T div f * f + T mod f) * c" by simp
  also have "\<dots> = (T mod f) * c + T div f * c * f" by (simp only: ring_distribs mult.assoc mult.commute mult.left_commute add.commute)
  finally show ?thesis using f by simp
qed

text \<open>Two calls of the clock, the first of all and a later one: the microseconds are below a million (the prefix of a message has
  six places for them), and the later time is the first one and
  the ticks since then, to a microsecond.\<close>

theorem clock_runs:
  assumes "gettimeofday t\<^sub>0 time ms f \<lparr>is_first_call = True, tick_frequency = a, epoch_offset = b\<rparr> = ((s\<^sub>0, u\<^sub>0), g)"
    and "gettimeofday t\<^sub>1 time' ms' f' g = ((s\<^sub>1, u\<^sub>1), g')" and "0 < f" and "0 \<le> ms" and "ms < 1000"
  shows "0 \<le> u\<^sub>0 \<and> u\<^sub>0 < 1000000 \<and> 0 \<le> u\<^sub>1 \<and> u\<^sub>1 < 1000000 \<and> g' = g
    \<and> s\<^sub>1 * 1000000 + u\<^sub>1 = (s\<^sub>0 * f + u\<^sub>0 * f div 1000000 + (t\<^sub>1 - t\<^sub>0)) * 1000000 div f"
proof -
  let ?T = "time * f + ms * f div 1000 + (t\<^sub>1 - t\<^sub>0)"
  have 0: "s\<^sub>0 = time" "u\<^sub>0 = 1000 * ms" and g: "g = \<lparr>is_first_call = False, tick_frequency = f, epoch_offset = time * f + ms * f div 1000 - t\<^sub>0\<rparr>"
    using assms(1) by (auto simp: gettimeofday_def)
  have T: "t\<^sub>1 + epoch_offset g = ?T" and fg: "\<not> is_first_call g" "tick_frequency g = f" by (simp_all add: g)
  have 1: "s\<^sub>1 = ?T div f" "u\<^sub>1 = (?T mod f) * 1000000 div f" "g' = g"
    using assms(2) by (simp_all add: gettimeofday_def Let_def T fg)
  have m: "0 \<le> ?T mod f" "?T mod f < f" using assms(3) by simp_all
  have "?T * 1000000 div f = ?T div f * 1000000 + (?T mod f) * 1000000 div f" by (rule div_scale [OF assms(3)])
  moreover have "u\<^sub>0 * f div 1000000 = ms * f div 1000" using div_mult_mult1 [of 1000 "ms * f" 1000] by (simp add: 0 mult.assoc)
  moreover have "0 \<le> u\<^sub>1" "u\<^sub>1 < 1000000"
  proof -
    show "0 \<le> u\<^sub>1" using m assms(3) by (simp add: 1 pos_imp_zdiv_nonneg_iff)
    have "(?T mod f) * 1000000 < 1000000 * f" using m by simp
    moreover have "f * u\<^sub>1 \<le> (?T mod f) * 1000000" using assms(3) unfolding 1 by (simp add: minus_mod_eq_mult_div [symmetric])
    ultimately have "f * u\<^sub>1 < f * 1000000" by linarith
    then show "u\<^sub>1 < 1000000" using assms(3) by simp
  qed
  moreover have "s\<^sub>0 * f + u\<^sub>0 * f div 1000000 + (t\<^sub>1 - t\<^sub>0) = ?T" using calculation(2) by (simp only: 0)
  moreover have "0 \<le> u\<^sub>0" "u\<^sub>0 < 1000000" using assms(4,5) by (simp_all add: 0)
  ultimately show ?thesis using 1 by (simp only: simp_thms)
qed


theorem clock_runs_witness:
  "\<exists>g. gettimeofday 100 5 250 1000 \<lparr>is_first_call = True, tick_frequency = 0, epoch_offset = 0\<rparr> = ((5, 250000), g)
    \<and> gettimeofday 1600 0 0 0 g = ((6, 750000), g) \<and> 6 * 1000000 + 750000 = ((5 * 1000 + 250000 * 1000 div 1000000 + (1600 - 100)) * 1000000 div 1000 :: int)"
proof -
  let ?g = "\<lparr>is_first_call = False, tick_frequency = 1000, epoch_offset = 5150\<rparr>"
  have "gettimeofday 100 5 250 1000 \<lparr>is_first_call = True, tick_frequency = 0, epoch_offset = 0\<rparr> = ((5, 250000), ?g)"
    "gettimeofday 1600 0 0 0 ?g = ((6, 750000), ?g)" by (simp_all add: gettimeofday_def Let_def)
  with clock_runs [OF this] show ?thesis by auto
qed

end
