(* ===== verification/Truck.thy ===== *)
theory Truck
  imports AsyncQueues Trace
begin

text \<open>
  The thread that writes the log (\<open>z3_utilib/z3_trace.c\<close>, the Windows variant): \<open>shipping\<close> puts messages on a list and sets an event,
  \<open>thread_func\<close> waits for the event and the mutex, writes what is on the list and resets the event, \<open>stop_truck\<close> asks it to end and waits
  for it. Every action is a section of one thread that holds the mutex, or one call of Windows outside of it.
\<close>

section \<open>Threads of the log\<close>

datatype truck_pc = T_Wait | T_Work | T_Release bool | T_Reset bool | T_Final | T_FinalWork | T_Ended | T_Failed

datatype stop_pc = S_Idle | S_Locked | S_Join | S_Done

datatype owner = Truck | Stopper | Logger

record truck =
  msg_mutex :: "owner option"
  msg_event :: bool
  quit :: bool
  string_list :: "string list"
  tpc :: truck_pc
  spc :: stop_pc
  unset :: nat                    \<comment> \<open>loggers that gave the mutex back and have not set the event yet\<close>
  shipped :: "string list"
  printed :: "string list"
  freed :: "string list"          \<comment> \<open>messages that \<open>stop_truck\<close> gives back with the list\<close>

definition start_truck :: truck where
  "start_truck = \<lparr>msg_mutex = None, msg_event = False, quit = False, string_list = [], tpc = T_Wait, spc = S_Idle, unset = 0,
     shipped = [], printed = [], freed = []\<rparr>"

text \<open>\<open>z3_list_foreach\<close> with \<open>for_each\<close>, and \<open>z3_list_free\<close>. An empty message fails the assertion; what was written in front of it in
  the same pass is not noted, since the program ends.\<close>

definition print_all :: "truck_pc \<Rightarrow> truck \<Rightarrow> truck" where
  "print_all pc s =
     (if [] \<in> set (string_list s) then s\<lparr>tpc := T_Failed\<rparr>
      else s\<lparr>printed := printed s @ string_list s, string_list := [], tpc := pc\<rparr>)"

text \<open>\<open>thread_func\<close>. \<open>None\<close>: the thread has to wait.\<close>

definition thread_func :: "truck \<Rightarrow> truck option" where
  "thread_func s =
     (case tpc s of
        T_Wait \<Rightarrow> if msg_event s \<and> msg_mutex s = None then Some (s\<lparr>msg_mutex := Some Truck, tpc := T_Work\<rparr>) else None
      | T_Work \<Rightarrow> Some (print_all (T_Release (quit s)) s)
      | T_Release q \<Rightarrow> Some (s\<lparr>msg_mutex := None, tpc := T_Reset q\<rparr>)
      | T_Reset q \<Rightarrow> Some (s\<lparr>msg_event := False, tpc := (if q then T_Final else T_Wait)\<rparr>)
      | T_Final \<Rightarrow> if msg_mutex s = None then Some (s\<lparr>msg_mutex := Some Truck, tpc := T_FinalWork\<rparr>) else None
      | T_FinalWork \<Rightarrow> Some ((print_all T_Ended s)\<lparr>msg_mutex := None\<rparr>)
      | T_Ended \<Rightarrow> None
      | T_Failed \<Rightarrow> None)"

definition stop_truck :: "truck \<Rightarrow> truck option" where
  "stop_truck s =
     (case spc s of
        S_Idle \<Rightarrow> if msg_mutex s = None then Some (s\<lparr>msg_mutex := Some Stopper, spc := S_Locked\<rparr>) else None
      | S_Locked \<Rightarrow> Some (s\<lparr>quit := True, msg_event := True, msg_mutex := None, spc := S_Join\<rparr>)
      | S_Join \<Rightarrow> if tpc s = T_Ended then Some (s\<lparr>freed := string_list s, string_list := [], spc := S_Done\<rparr>) else None
      | S_Done \<Rightarrow> None)"

datatype truck_act =
    Ship_lock               \<comment> \<open>a logger gets the mutex\<close>
  | Ship_add string         \<comment> \<open>it puts its message on the list and gives the mutex back\<close>
  | Ship_set                \<comment> \<open>it sets the event\<close>
  | Thread                  \<comment> \<open>the next step of \<open>thread_func\<close>\<close>
  | Final_timeout           \<comment> \<open>the last wait for the mutex takes longer than 20 ms\<close>
  | Stop                    \<comment> \<open>the next step of \<open>stop_truck\<close>\<close>

text \<open>Behind the end of \<open>stop_truck\<close> the structure is freed, and nobody may ship.\<close>

fun truck_step :: "truck_act \<Rightarrow> truck \<Rightarrow> truck option" where
  "truck_step Ship_lock s = (if msg_mutex s = None \<and> spc s \<noteq> S_Done then Some (s\<lparr>msg_mutex := Some Logger\<rparr>) else None)"
| "truck_step (Ship_add m) s =
     (if msg_mutex s = Some Logger \<and> spc s \<noteq> S_Done then
        Some (s\<lparr>string_list := snd (shipping m (string_list s)), shipped := shipped s @ [m], msg_mutex := None, unset := unset s + 1\<rparr>)
      else None)"
| "truck_step Ship_set s = (if unset s = 0 \<or> spc s = S_Done then None else Some (s\<lparr>msg_event := True, unset := unset s - 1\<rparr>))"
| "truck_step Thread s = thread_func s"
| "truck_step Final_timeout s = (if tpc s = T_Final \<and> msg_mutex s \<noteq> None then Some (s\<lparr>tpc := T_Failed\<rparr>) else None)"
| "truck_step Stop s = stop_truck s"

section \<open>What is written\<close>

definition truck_waiting :: "truck \<Rightarrow> string list" where
  "truck_waiting s = freed s @ string_list s"

definition truck_valid :: "truck \<Rightarrow> bool" where
  "truck_valid s \<longleftrightarrow> (spc s = S_Done \<longrightarrow> tpc s = T_Ended) \<and> (spc s \<noteq> S_Done \<longrightarrow> freed s = [])"

interpretation tk: mailbox truck_step truck_valid shipped printed truck_waiting
proof
  fix a s s' assume step: "truck_step a s = Some s'" and v: "truck_valid s"
  show "truck_valid s'"
    using step v by (cases a) (auto simp: truck_valid_def thread_func_def stop_truck_def print_all_def split: if_splits truck_pc.splits stop_pc.splits)
  show "shipped s' = printed s' @ truck_waiting s'" if "shipped s = printed s @ truck_waiting s"
    using step v that by (cases a) (auto simp: truck_valid_def truck_waiting_def thread_func_def stop_truck_def print_all_def shipping_def
      split: if_splits truck_pc.splits stop_pc.splits)
qed


text \<open>C35. The log keeps messages in order and loses none while it runs: what was written and what waits, with what \<open>stop_truck\<close> frees unwritten, is
  what was shipped. But wake-ups are lost. The thread gives the mutex back before it resets the event, and an event set in
  between is reset with the old one. So a message may wait, and a request to stop may never be seen, although nobody but the
  thread has anything left to do: both are reached below, and from there only a further message goes on.\<close>

theorem truck_loses_wakeups:
  "(\<forall>as s. run_acts truck_step as start_truck = Some s \<longrightarrow> shipped s = printed s @ freed s @ string_list s)
   \<and> (\<forall>m. m \<noteq> [] \<longrightarrow> (\<exists>as s. run_acts truck_step as start_truck = Some s \<and> string_list s = [m] \<and> unset s = 0
        \<and> (\<forall>a. a \<notin> {Ship_lock, Stop} \<longrightarrow> truck_step a s = None)))
   \<and> (\<exists>as s. run_acts truck_step as start_truck = Some s \<and> quit s \<and> spc s = S_Join \<and> tpc s \<noteq> T_Ended
        \<and> (\<forall>a. a \<noteq> Ship_lock \<longrightarrow> truck_step a s = None))"
proof (intro conjI allI impI)
  fix as s assume "run_acts truck_step as start_truck = Some s"
  from tk.run_sent [OF this] show "shipped s = printed s @ freed s @ string_list s"
    by (simp add: start_truck_def truck_valid_def truck_waiting_def)
next
  fix m :: string assume m: "m \<noteq> []"
  let ?s = "start_truck\<lparr>string_list := [m], shipped := [m, m], printed := [m]\<rparr>"
  have "run_acts truck_step [Ship_lock, Ship_add m, Ship_set, Thread, Thread, Thread, Ship_lock, Ship_add m, Ship_set, Thread] start_truck = Some ?s"
    using m by (simp add: start_truck_def thread_func_def print_all_def shipping_def)
  moreover have "truck_step a ?s = None" if "a \<notin> {Ship_lock, Stop}" for a
    using that by (cases a) (simp_all add: start_truck_def thread_func_def)
  moreover have "string_list ?s = [m]" "unset ?s = 0" by (simp_all add: start_truck_def)
  ultimately show "\<exists>as s. run_acts truck_step as start_truck = Some s \<and> string_list s = [m] \<and> unset s = 0
      \<and> (\<forall>a. a \<notin> {Ship_lock, Stop} \<longrightarrow> truck_step a s = None)" by blast
next
  let ?s = "start_truck\<lparr>quit := True, spc := S_Join, shipped := [''x''], printed := [''x'']\<rparr>"
  have "run_acts truck_step [Ship_lock, Ship_add ''x'', Ship_set, Thread, Thread, Thread, Stop, Stop, Thread] start_truck = Some ?s"
    by (simp add: start_truck_def thread_func_def print_all_def shipping_def stop_truck_def)
  moreover have "truck_step a ?s = None" if "a \<noteq> Ship_lock" for a
    using that by (cases a) (simp_all add: start_truck_def thread_func_def stop_truck_def)
  moreover have "quit ?s" "spc ?s = S_Join" "tpc ?s \<noteq> T_Ended" by (simp_all add: start_truck_def)
  ultimately show "\<exists>as s. run_acts truck_step as start_truck = Some s \<and> quit s \<and> spc s = S_Join \<and> tpc s \<noteq> T_Ended
        \<and> (\<forall>a. a \<noteq> Ship_lock \<longrightarrow> truck_step a s = None)" by blast
qed

theorem truck_loses_wakeups_witness:
  "\<exists>as s. run_acts truck_step as start_truck = Some s \<and> string_list s = [''x''] \<and> unset s = 0 \<and> truck_step Thread s = None"
proof -
  obtain as s where "run_acts truck_step as start_truck = Some s" "string_list s = [''x'']" "unset s = 0"
    "\<forall>a. a \<notin> {Ship_lock, Stop} \<longrightarrow> truck_step a s = None"
    using truck_loses_wakeups by (metis list.distinct(1))
  moreover from this have "truck_step Thread s = None" by (elim allE [of _ Thread]) blast
  ultimately show ?thesis by blast
qed

end
