(* ===== verification/LogThreads.thy ===== *)
theory LogThreads
  imports Truck
begin

text \<open>
  The rest of \<open>z3_utilib/z3_trace.c\<close>: the variant for pthreads of the thread that writes the log, a fourth instance of \<open>mailbox\<close>, and
  \<open>TRACE_INIT\<close> and \<open>TRACE_UNINIT\<close> with the two global pointers they set.
\<close>

section \<open>The thread of the log with pthreads\<close>

text \<open>\<open>pthread_cond_wait\<close> gives the mutex back and waits for a signal that comes while it waits, or wakes up for no reason, and takes the mutex again. The
  thread tests nothing before it waits.\<close>

datatype posix_pc =
    P_Lock | P_CondWait | P_Waiting | P_Reacquire | P_Work | P_Unlock bool | P_Final | P_FinalWork | P_Ended | P_Failed

record posix_truck =
  p_mutex :: "owner option"
  p_quit :: bool
  p_list :: "string list"
  ppc :: posix_pc
  p_stop :: stop_pc
  p_shipped :: "string list"
  p_printed :: "string list"
  p_freed :: "string list"

definition posix_start_truck :: posix_truck where
  "posix_start_truck = \<lparr>p_mutex = None, p_quit = False, p_list = [], ppc = P_Lock, p_stop = S_Idle, p_shipped = [], p_printed = [],
     p_freed = []\<rparr>"

definition pthread_cond_signal :: "posix_truck \<Rightarrow> posix_truck" where
  "pthread_cond_signal s = (if ppc s = P_Waiting then s\<lparr>ppc := P_Reacquire\<rparr> else s)"

definition posix_print_all :: "posix_pc \<Rightarrow> posix_truck \<Rightarrow> posix_truck" where
  "posix_print_all pc s =
     (if [] \<in> set (p_list s) then s\<lparr>ppc := P_Failed\<rparr>
      else s\<lparr>p_printed := p_printed s @ p_list s, p_list := [], ppc := pc\<rparr>)"

text \<open>\<open>thread_func\<close>; here \<open>quit\<close> is read before the messages are written. \<open>None\<close>: the thread has to wait.\<close>

definition posix_thread_func :: "posix_truck \<Rightarrow> posix_truck option" where
  "posix_thread_func s =
     (case ppc s of
        P_Lock \<Rightarrow> if p_mutex s = None then Some (s\<lparr>p_mutex := Some Truck, ppc := P_CondWait\<rparr>) else None
      | P_CondWait \<Rightarrow> Some (s\<lparr>p_mutex := None, ppc := P_Waiting\<rparr>)
      | P_Waiting \<Rightarrow> None
      | P_Reacquire \<Rightarrow> if p_mutex s = None then Some (s\<lparr>p_mutex := Some Truck, ppc := P_Work\<rparr>) else None
      | P_Work \<Rightarrow> Some (posix_print_all (P_Unlock (p_quit s)) s)
      | P_Unlock q \<Rightarrow> Some (s\<lparr>p_mutex := None, ppc := (if q then P_Final else P_Lock)\<rparr>)
      | P_Final \<Rightarrow> if p_mutex s = None then Some (s\<lparr>p_mutex := Some Truck, ppc := P_FinalWork\<rparr>) else None
      | P_FinalWork \<Rightarrow> Some ((posix_print_all P_Ended s)\<lparr>p_mutex := None\<rparr>)
      | P_Ended \<Rightarrow> None
      | P_Failed \<Rightarrow> None)"

definition posix_stop_truck :: "posix_truck \<Rightarrow> posix_truck option" where
  "posix_stop_truck s =
     (case p_stop s of
        S_Idle \<Rightarrow> if p_mutex s = None then Some (s\<lparr>p_mutex := Some Stopper, p_stop := S_Locked\<rparr>) else None
      | S_Locked \<Rightarrow> Some ((pthread_cond_signal (s\<lparr>p_quit := True\<rparr>))\<lparr>p_mutex := None, p_stop := S_Join\<rparr>)
      | S_Join \<Rightarrow> if ppc s = P_Ended then Some (s\<lparr>p_freed := p_list s, p_list := [], p_stop := S_Done\<rparr>) else None
      | S_Done \<Rightarrow> None)"

datatype posix_act = PShip_lock | PShip_add string | PThread | PSpurious | PStop

fun posix_step :: "posix_act \<Rightarrow> posix_truck \<Rightarrow> posix_truck option" where
  "posix_step PShip_lock s = (if p_mutex s = None \<and> p_stop s \<noteq> S_Done then Some (s\<lparr>p_mutex := Some Logger\<rparr>) else None)"
| "posix_step (PShip_add m) s =
     (if p_mutex s = Some Logger \<and> p_stop s \<noteq> S_Done then
        Some ((pthread_cond_signal (s\<lparr>p_list := snd (shipping m (p_list s)), p_shipped := p_shipped s @ [m]\<rparr>))\<lparr>p_mutex := None\<rparr>)
      else None)"
| "posix_step PThread s = posix_thread_func s"
| "posix_step PSpurious s = (if ppc s = P_Waiting then Some (s\<lparr>ppc := P_Reacquire\<rparr>) else None)"
| "posix_step PStop s = posix_stop_truck s"

definition posix_waiting :: "posix_truck \<Rightarrow> string list" where
  "posix_waiting s = p_freed s @ p_list s"

definition posix_valid :: "posix_truck \<Rightarrow> bool" where
  "posix_valid s \<longleftrightarrow> (p_stop s = S_Done \<longrightarrow> ppc s = P_Ended) \<and> (p_stop s \<noteq> S_Done \<longrightarrow> p_freed s = [])"

lemmas posix_defs = posix_thread_func_def posix_stop_truck_def posix_print_all_def pthread_cond_signal_def

interpretation pt: mailbox posix_step posix_valid p_shipped p_printed posix_waiting
proof
  fix a s s' assume step: "posix_step a s = Some s'" and v: "posix_valid s"
  show "posix_valid s'"
    using step v by (cases a) (auto simp: posix_valid_def posix_defs split: if_splits posix_pc.splits stop_pc.splits)
  show "p_shipped s' = p_printed s' @ posix_waiting s'" if "p_shipped s = p_printed s @ posix_waiting s"
    using step v that by (cases a) (auto simp: posix_valid_def posix_waiting_def posix_defs shipping_def
      split: if_splits posix_pc.splits stop_pc.splits)
qed

text \<open>A signal is heard by a thread that waits: once the thread has begun to wait and nothing is on the list, a message that is shipped wakes it. Before that, and
  while the thread writes, signals are lost: a message that comes before the thread waits for the first time stays on the list, and so does
  a request to stop, for which \<open>stop_truck\<close> waits for ever unless the thread wakes up for no reason.\<close>

theorem posix_loses_signals:
  "(\<forall>as s. run_acts posix_step as posix_start_truck = Some s \<longrightarrow> p_shipped s = p_printed s @ p_freed s @ p_list s)
   \<and> (\<forall>s m. m \<noteq> [] \<and> ppc s = P_Waiting \<and> p_mutex s = None \<and> p_stop s = S_Idle \<and> p_list s = [] \<longrightarrow>
        (\<exists>s'. run_acts posix_step [PShip_lock, PShip_add m, PThread, PThread] s = Some s' \<and> p_printed s' = p_printed s @ [m]))
   \<and> (\<forall>m. \<exists>as s. run_acts posix_step as posix_start_truck = Some s \<and> p_list s = [m]
        \<and> (\<forall>a. a \<notin> {PShip_lock, PStop, PSpurious} \<longrightarrow> posix_step a s = None))
   \<and> (\<exists>as s. run_acts posix_step as posix_start_truck = Some s \<and> p_quit s \<and> p_stop s = S_Join
        \<and> (\<forall>a. a \<notin> {PShip_lock, PSpurious} \<longrightarrow> posix_step a s = None))"
proof (intro conjI allI impI)
  fix as s assume "run_acts posix_step as posix_start_truck = Some s"
  from pt.run_sent [OF this] show "p_shipped s = p_printed s @ p_freed s @ p_list s"
    by (simp add: posix_start_truck_def posix_valid_def posix_waiting_def)
next
  fix s :: posix_truck and m :: string
  assume "m \<noteq> [] \<and> ppc s = P_Waiting \<and> p_mutex s = None \<and> p_stop s = S_Idle \<and> p_list s = []"
  then show "\<exists>s'. run_acts posix_step [PShip_lock, PShip_add m, PThread, PThread] s = Some s' \<and> p_printed s' = p_printed s @ [m]"
    by (auto simp: posix_defs shipping_def)
next
  fix m :: string
  let ?s = "posix_start_truck\<lparr>p_list := [m], p_shipped := [m], ppc := P_Waiting\<rparr>"
  have "run_acts posix_step [PShip_lock, PShip_add m, PThread, PThread] posix_start_truck = Some ?s"
    by (simp add: posix_start_truck_def posix_defs shipping_def)
  moreover have "posix_step a ?s = None" if "a \<notin> {PShip_lock, PStop, PSpurious}" for a
    using that by (cases a) (simp_all add: posix_start_truck_def posix_defs)
  moreover have "p_list ?s = [m]" by simp
  ultimately show "\<exists>as s. run_acts posix_step as posix_start_truck = Some s \<and> p_list s = [m]
      \<and> (\<forall>a. a \<notin> {PShip_lock, PStop, PSpurious} \<longrightarrow> posix_step a s = None)" by blast
next
  let ?s = "posix_start_truck\<lparr>p_quit := True, p_stop := S_Join, ppc := P_Waiting\<rparr>"
  have "run_acts posix_step [PStop, PStop, PThread, PThread] posix_start_truck = Some ?s"
    by (simp add: posix_start_truck_def posix_defs)
  moreover have "posix_step a ?s = None" if "a \<notin> {PShip_lock, PSpurious}" for a
    using that by (cases a) (simp_all add: posix_start_truck_def posix_defs)
  moreover have "p_quit ?s" "p_stop ?s = S_Join" by simp_all
  ultimately show "\<exists>as s. run_acts posix_step as posix_start_truck = Some s \<and> p_quit s \<and> p_stop s = S_Join
      \<and> (\<forall>a. a \<notin> {PShip_lock, PSpurious} \<longrightarrow> posix_step a s = None)" by blast
qed

section \<open>Beginning and ending the log\<close>

text \<open>The two global pointers. \<open>Dangling\<close>: what it pointed to was freed, and the pointer was not reset. A \<open>trace_info\<close> holds the level.\<close>

datatype 'a global = Null_global | Live 'a | Dangling

record trace_globals =
  G_TRUCK_INFO :: "unit global"
  G_TRACE_INFO :: "int global"

definition trace_globals_start :: trace_globals where
  "trace_globals_start = \<lparr>G_TRUCK_INFO = Null_global, G_TRACE_INFO = Null_global\<rparr>"

definition deref_global :: "'a global \<Rightarrow> 'a outcome" where
  "deref_global g = (case g of Null_global \<Rightarrow> Inl NullDeref | Live x \<Rightarrow> Inr x | Dangling \<Rightarrow> Inl OutOfBounds)"

definition TRACE_INIT :: "int \<Rightarrow> trace_globals \<Rightarrow> int \<times> trace_globals" where
  "TRACE_INIT nLevel g =
     (let g1 = (if G_TRACE_INFO g = Null_global then g\<lparr>G_TRACE_INFO := Live nLevel\<rparr> else g);
          g2 = (if G_TRUCK_INFO g1 = Null_global then g1\<lparr>G_TRUCK_INFO := Live ()\<rparr> else g1)
      in (0, g2))"

text \<open>\<open>stop_truck\<close> as it returns, and what \<open>TRACE_UNINIT\<close> does behind it.\<close>

definition TRACE_UNINIT :: "trace_globals \<Rightarrow> trace_globals outcome" where
  "TRACE_UNINIT g =
     bindE (assertE (G_TRUCK_INFO g \<noteq> Null_global)) (\<lambda>_.
     bindE (deref_global (G_TRUCK_INFO g)) (\<lambda>_.
       let g1 = g\<lparr>G_TRUCK_INFO := Dangling\<rparr> in
       if G_TRACE_INFO g1 = Null_global then Inr g1
       else bindE (deref_global (G_TRACE_INFO g1)) (\<lambda>_. Inr (g1\<lparr>G_TRACE_INFO := Dangling\<rparr>))))"

definition get_trace_level :: "trace_globals \<Rightarrow> int outcome" where
  "get_trace_level g = deref_global (G_TRACE_INFO g)"

text \<open>The log can be used between one beginning and its end: before, a trace dereferences NULL; after, it uses memory that was freed, also when the log has been begun
  again, which reports success and does nothing. Beginning it twice keeps the first level.\<close>

theorem log_once:
  "\<exists>g1 g2. TRACE_INIT n trace_globals_start = (0, g1) \<and> get_trace_level g1 = Inr n
    \<and> TRACE_INIT n' g1 = (0, g1)
    \<and> TRACE_UNINIT g1 = Inr g2 \<and> TRACE_INIT n' g2 = (0, g2) \<and> get_trace_level g2 = Inl OutOfBounds \<and> TRACE_UNINIT g2 = Inl OutOfBounds
    \<and> get_trace_level trace_globals_start = Inl NullDeref \<and> TRACE_UNINIT trace_globals_start = Inl AssertFailed"
  by (simp add: TRACE_INIT_def TRACE_UNINIT_def get_trace_level_def deref_global_def trace_globals_start_def)

end
