(* ===== verification/Locks.thy ===== *)
theory Locks
  imports Z3Prelude
begin

text \<open>
  The lock of an asynchronous object and the counter it protects: \<open>Lock\<close> and \<open>AsyncObj\<close> of \<open>z3_async_obj.cpp\<close> over \<open>z3_ref_obj.cpp\<close>, one step of a
  thread at a time. Theory \<open>Clients\<close> takes \<open>AddRef\<close> and \<open>Release\<close> as one step each; here is when they are. The counter is a natural
  number without bound, where the code has 32 bits. A thread may go on after \<open>delete this\<close>, with an object that no longer exists: the runs in which
  that happens are those of callers that use an object without a reference to it, and the steps in them mean nothing for the code.
\<close>

section \<open>Threads and one object\<close>

text \<open>What a thread does with an object: \<open>AddRef\<close>, \<open>Release\<close>, \<open>GetRefCount\<close>, and \<open>Lock\<close>, after which it holds the lock until \<open>Unlock\<close>.\<close>

datatype lock_op = Do_AddRef | Do_Release | Do_GetRefCount | Do_Lock

text \<open>Where a thread is: before the test of \<open>m_hMutex\<close> in \<open>Lock::On\<close>, at \<open>CreateMutexA\<close>, at \<open>WaitForSingleObject\<close> before and after its argument
  is read, at the first read of the counter, at the write of it, at the second read, at \<open>ReleaseMutex\<close>, at \<open>delete this\<close>.\<close>

datatype lock_pc =
    L_Idle
  | L_On lock_op
  | L_Create lock_op
  | L_Wait lock_op
  | L_Acquire nat lock_op
  | L_Body lock_op
  | L_Write lock_op nat
  | L_Read
  | L_Off lock_op nat
  | L_Delete

text \<open>Mutexes are numbered in the order of their creation; \<open>owner\<close> has the thread that owns a mutex and how often. The last three are records of what has
  happened: each use of the counter
  with the count it leaves, in the order of the writes; which thread returned which count; and how often the object was deleted.\<close>

record lock_state =
  m_hMutex :: "nat option"
  m_nRefCount :: nat
  created :: nat
  owner :: "nat \<Rightarrow> (nat \<times> nat) option"
  pc :: "nat \<Rightarrow> lock_pc"
  held :: "nat \<Rightarrow> nat"
  log :: "(lock_op \<times> nat) list"
  returned :: "(nat \<times> lock_op \<times> nat) list"
  deletes :: nat

definition lock_new :: "nat \<Rightarrow> lock_state" where
  "lock_new n = \<lparr>m_hMutex = None, m_nRefCount = n, created = 0, owner = Map.empty, pc = (\<lambda>_. L_Idle), held = (\<lambda>_. 0), log = [],
     returned = [], deletes = 0\<rparr>"

text \<open>Windows: a mutex is taken by a thread that finds it free or owns it, and given back by its owner; the call of another thread fails.\<close>

definition mutex_wait :: "nat \<Rightarrow> nat \<Rightarrow> lock_state \<Rightarrow> lock_state option" where
  "mutex_wait t m s =
     (case owner s m of
        None \<Rightarrow> Some (s\<lparr>owner := (owner s)(m \<mapsto> (t, 1))\<rparr>)
      | Some (t', k) \<Rightarrow> if t' = t then Some (s\<lparr>owner := (owner s)(m \<mapsto> (t, k + 1))\<rparr>) else None)"

definition mutex_release :: "nat \<Rightarrow> nat \<Rightarrow> lock_state \<Rightarrow> lock_state" where
  "mutex_release t m s =
     (case owner s m of
        None \<Rightarrow> s
      | Some (t', k) \<Rightarrow> if t' \<noteq> t then s
          else s\<lparr>owner := (owner s)(m := if k \<le> 1 then None else Some (t, k - 1))\<rparr>)"

definition goto :: "nat \<Rightarrow> lock_pc \<Rightarrow> lock_state \<Rightarrow> lock_state" where
  "goto t p s = s\<lparr>pc := (pc s)(t := p)\<rparr>"

text \<open>\<open>Lock::Off\<close>, which asserts that there is a mutex.\<close>

definition Lock_Off :: "nat \<Rightarrow> lock_state \<Rightarrow> lock_state option" where
  "Lock_Off t s = (case m_hMutex s of None \<Rightarrow> None | Some m \<Rightarrow> Some (mutex_release t m s))"

definition count_after :: "lock_op \<Rightarrow> nat \<Rightarrow> nat" where
  "count_after op n = (case op of Do_AddRef \<Rightarrow> n + 1 | Do_Release \<Rightarrow> if n > 0 then n - 1 else n | _ \<Rightarrow> n)"

text \<open>One step of a thread. It is None where the thread waits and where an assertion fails.\<close>

fun thread_step :: "nat \<Rightarrow> lock_pc \<Rightarrow> lock_state \<Rightarrow> lock_state option" where
  "thread_step t L_Idle s = None"
| "thread_step t (L_On op) s = Some (goto t (if m_hMutex s = None then L_Create op else L_Wait op) s)"
| "thread_step t (L_Create op) s = Some (goto t (L_Wait op) (s\<lparr>m_hMutex := Some (created s), created := created s + 1\<rparr>))"
| "thread_step t (L_Wait op) s = (case m_hMutex s of None \<Rightarrow> None | Some m \<Rightarrow> Some (goto t (L_Acquire m op) s))"
| "thread_step t (L_Acquire m op) s = map_option (goto t (L_Body op)) (mutex_wait t m s)"
| "thread_step t (L_Body op) s =
     Some (if op = Do_Lock then goto t L_Idle (s\<lparr>held := (held s)(t := held s t + 1)\<rparr>)
       else if op = Do_GetRefCount then goto t (L_Off op (m_nRefCount s)) (s\<lparr>log := log s @ [(op, m_nRefCount s)]\<rparr>)
       else goto t (L_Write op (m_nRefCount s)) s)"
| "thread_step t (L_Write op n) s =
     Some (goto t (if op = Do_Release then L_Read else L_Off op (count_after op n))
       (s\<lparr>m_nRefCount := count_after op n, log := log s @ [(op, count_after op n)]\<rparr>))"
| "thread_step t L_Read s = Some (goto t (L_Off Do_Release (m_nRefCount s)) s)"
| "thread_step t (L_Off op n) s =
     map_option (\<lambda>s'. goto t (if op = Do_Release \<and> n = 0 then L_Delete else L_Idle) (s'\<lparr>returned := returned s' @ [(t, op, n)]\<rparr>)) (Lock_Off t s)"
| "thread_step t L_Delete s = Some (goto t L_Idle (s\<lparr>deletes := deletes s + 1\<rparr>))"

text \<open>A thread that does nothing may begin an operation, and one that holds the lock may give it back.\<close>

datatype lock_act = Begin nat lock_op | Step nat | Unlock nat

fun lock_do :: "lock_act \<Rightarrow> lock_state \<Rightarrow> lock_state option" where
  "lock_do (Begin t op) s = (if pc s t = L_Idle then Some (goto t (L_On op) s) else None)"
| "lock_do (Step t) s = thread_step t (pc s t) s"
| "lock_do (Unlock t) s =
     (if pc s t = L_Idle \<and> held s t > 0 then map_option (\<lambda>s'. s'\<lparr>held := (held s')(t := held s' t - 1)\<rparr>) (Lock_Off t s) else None)"

fun lock_run :: "lock_act list \<Rightarrow> lock_state \<Rightarrow> lock_state option" where
  "lock_run [] s = Some s"
| "lock_run (a # as) s = (case lock_do a s of None \<Rightarrow> None | Some s' \<Rightarrow> lock_run as s')"

section \<open>Mutual exclusion\<close>

text \<open>How often a thread has the lock.\<close>

fun inside :: "lock_pc \<Rightarrow> bool" where
  "inside (L_Body op) = True"
| "inside (L_Write op n) = True"
| "inside L_Read = True"
| "inside (L_Off op n) = True"
| "inside _ = False"

definition level :: "lock_state \<Rightarrow> nat \<Rightarrow> nat" where
  "level s t = held s t + of_bool (inside (pc s t))"

definition owned :: "(nat \<times> nat) option \<Rightarrow> (nat \<Rightarrow> nat) \<Rightarrow> bool" where
  "owned own lv \<longleftrightarrow> (case own of None \<Rightarrow> lv = (\<lambda>_. 0) | Some (t, k) \<Rightarrow> k > 0 \<and> lv = (\<lambda>_. 0)(t := k))"

text \<open>What holds once there is a mutex and no thread is about to make another.\<close>

fun pc_ok :: "nat \<Rightarrow> nat \<Rightarrow> lock_pc \<Rightarrow> bool" where
  "pc_ok m n (L_Create op) = False"
| "pc_ok m n (L_Acquire m' op) = (m' = m)"
| "pc_ok m n (L_Write op n') = (n' = n \<and> op \<noteq> Do_Lock)"
| "pc_ok m n (L_Off op n') = (n' = n \<and> op \<noteq> Do_Lock)"
| "pc_ok m n _ = True"

text \<open>The counts that one thread alone would get, and the count in the end.\<close>

fun sequential :: "nat \<Rightarrow> (lock_op \<times> nat) list \<Rightarrow> nat \<Rightarrow> bool" where
  "sequential n [] n' = (n' = n)"
| "sequential n ((op, k) # ops) n' = (k = count_after op n \<and> sequential k ops n')"

text \<open>The use of the counter that has been made and not yet returned.\<close>

fun pending :: "nat \<Rightarrow> lock_pc \<Rightarrow> (lock_op \<times> nat) list" where
  "pending n L_Read = [(Do_Release, n)]"
| "pending n (L_Off op k) = [(op, k)]"
| "pending n _ = []"

definition answered :: "lock_state \<Rightarrow> bool" where
  "answered s \<longleftrightarrow> (\<forall>t. inside (pc s t) \<longrightarrow> log s = map snd (returned s) @ pending (m_nRefCount s) (pc s t))
     \<and> ((\<forall>t. \<not> inside (pc s t)) \<longrightarrow> log s = map snd (returned s))"

definition lock_inv :: "nat \<Rightarrow> nat \<Rightarrow> lock_state \<Rightarrow> bool" where
  "lock_inv m n0 s \<longleftrightarrow> m_hMutex s = Some m \<and> (\<forall>t. pc_ok m (m_nRefCount s) (pc s t)) \<and> owned (owner s m) (level s)
     \<and> sequential n0 (log s) (m_nRefCount s) \<and> answered s"

lemma goto_simps [simp]:
  "pc (goto t p s) = (pc s)(t := p)" "m_hMutex (goto t p s) = m_hMutex s" "m_nRefCount (goto t p s) = m_nRefCount s" "owner (goto t p s) = owner s"
  "held (goto t p s) = held s" "log (goto t p s) = log s" "created (goto t p s) = created s" "returned (goto t p s) = returned s" "deletes (goto t p s) = deletes s"
  by (simp_all add: goto_def)

lemma level_goto [simp]: "level (goto t p s) = (level s)(t := held s t + of_bool (inside p))"
  by (auto simp: level_def)

lemma owned_acquire:
  "owned None lv \<Longrightarrow> owned (Some (t, 1)) (lv(t := lv t + 1))"
  "owned (Some (t, k)) lv \<Longrightarrow> owned (Some (t, k + 1)) (lv(t := lv t + 1))"
  by (auto simp: owned_def)

lemma owned_owner: "owned own lv \<Longrightarrow> 0 < lv t \<Longrightarrow> own = Some (t, lv t) \<and> (\<forall>t'. t' \<noteq> t \<longrightarrow> lv t' = 0)"
  by (auto simp: owned_def split: option.splits prod.splits if_splits)

lemma owned_release:
  assumes "owned (owner s m) (level s)" "0 < level s t"
  shows "owned (owner (mutex_release t m s) m) ((level s)(t := level s t - 1))"
  using owned_owner [OF assms] by (auto simp: mutex_release_def owned_def fun_eq_iff)

lemma release_simps [simp]:
  "pc (mutex_release t m s) = pc s" "m_hMutex (mutex_release t m s) = m_hMutex s" "m_nRefCount (mutex_release t m s) = m_nRefCount s"
  "held (mutex_release t m s) = held s" "log (mutex_release t m s) = log s" "returned (mutex_release t m s) = returned s" "level (mutex_release t m s) = level s"
  by (auto simp: mutex_release_def level_def fun_eq_iff split: option.splits)

lemma inside_alone:
  assumes "lock_inv m n0 s" "inside (pc s t)" "t' \<noteq> t"
  shows "\<not> inside (pc s t')"
  using owned_owner [of "owner s m" "level s" t] assms by (auto simp: lock_inv_def level_def)

lemma pc_ok_outside: "pc_ok m n p \<Longrightarrow> \<not> inside p \<Longrightarrow> pc_ok m n' p"
  by (cases p) auto

text \<open>Steps that move one thread and neither the mutex nor the counter.\<close>

lemma sequential_append: "sequential n (ops @ [(op, k)]) k' \<longleftrightarrow> (\<exists>j. sequential n ops j \<and> k = count_after op j \<and> k' = k)"
  by (induction n ops k rule: sequential.induct) auto

lemma answered_inside:
  "inside (pc s t) \<Longrightarrow> \<forall>t'. t' \<noteq> t \<longrightarrow> \<not> inside (pc s t') \<Longrightarrow>
    answered s = (log s = map snd (returned s) @ pending (m_nRefCount s) (pc s t))"
  by (auto simp: answered_def)

lemma answered_outside: "\<forall>t. \<not> inside (pc s t) \<Longrightarrow> answered s = (log s = map snd (returned s))"
  by (auto simp: answered_def)

lemma answered_goto:
  assumes "answered s" "inside p = inside (pc s t)" "pending (m_nRefCount s) p = pending (m_nRefCount s) (pc s t)"
  shows "answered (goto t p s)"
  using assms by (auto simp: answered_def)

lemma inv_goto:
  assumes "lock_inv m n0 s" "pc_ok m (m_nRefCount s) p" "inside p = inside (pc s t)"
    and "pending (m_nRefCount s) p = pending (m_nRefCount s) (pc s t)"
  shows "lock_inv m n0 (goto t p s)"
proof -
  have "level (goto t p s) = level s" using assms(3) by (auto simp: level_def)
  then show ?thesis using assms answered_goto [of s p t] by (simp add: lock_inv_def del: level_goto)
qed

lemma inv_deletes [simp]: "lock_inv m n0 (s\<lparr>deletes := k\<rparr>) = lock_inv m n0 s"
  by (simp add: lock_inv_def level_def [abs_def] answered_def)

lemma level_alone:
  assumes "lock_inv m n0 s" "0 < level s t" "t' \<noteq> t"
  shows "\<not> inside (pc s t')"
proof -
  have "owned (owner s m) (level s)" using assms(1) by (simp add: lock_inv_def)
  then have "level s t' = 0" using owned_owner assms(2,3) by blast
  then show ?thesis by (simp add: level_def)
qed

lemma inv_acquire:
  assumes "lock_inv m n0 s" "mutex_wait t m s = Some s'" "\<not> inside (pc s t)"
  shows "lock_inv m n0 (goto t (L_Body op) s')"
proof -
  have s': "level s' = level s" "held s t + 1 = level s t + 1" "pc s' = pc s" "log s' = log s" "returned s' = returned s" using assms(2,3)
    by (auto simp: mutex_wait_def level_def fun_eq_iff split: option.splits if_splits)
  have "\<not> inside (pc s t')" for t'
  proof (cases "owner s m")
    case None
    then have "level s t' = 0" using assms(1) by (simp add: lock_inv_def owned_def)
    then show ?thesis by (simp add: level_def)
  next
    case (Some own)
    then have "owned (Some (t, snd own)) (level s)" using assms(1,2)
      by (cases own) (auto simp: lock_inv_def mutex_wait_def split: if_splits)
    then have "t' \<noteq> t \<Longrightarrow> level s t' = 0" by (simp add: owned_def)
    then show ?thesis using assms(3) by (cases "t' = t") (auto simp: level_def)
  qed
  then have "answered (goto t (L_Body op) s')" using assms(1) s' by (auto simp: lock_inv_def answered_def)
  then show ?thesis using assms(1,2) s' owned_acquire(1) [of "level s" t] owned_acquire(2) [of t _ "level s"]
    by (auto simp: lock_inv_def mutex_wait_def level_def split: option.splits if_splits)
qed

lemma inv_release:
  assumes "lock_inv m n0 s" "0 < level s t" "level s' = (level s)(t := level s t - 1)" "owner s' = owner (mutex_release t m s)"
    and "m_hMutex s' = m_hMutex s" "m_nRefCount s' = m_nRefCount s" "log s' = log s" "\<forall>t'. pc_ok m (m_nRefCount s) (pc s' t')" "answered s'"
  shows "lock_inv m n0 s'"
  using assms owned_release [of s m t] by (simp add: lock_inv_def)

lemma pc_ok_others:
  assumes "lock_inv m n0 s" "inside (pc s t)" "t' \<noteq> t"
  shows "pc_ok m n (pc s t')"
  using assms level_alone [OF assms(1) _ assms(3)] pc_ok_outside by (fastforce simp: lock_inv_def level_def)

text \<open>A step of the thread inside that stays inside and may use the counter.\<close>

lemma inv_inside:
  assumes "lock_inv m n0 s" "inside (pc s t)" "inside p" "pc_ok m n p" "sequential n0 ops n"
    and "ops = map snd (returned s) @ pending n p"
  shows "lock_inv m n0 (goto t p (s\<lparr>m_nRefCount := n, log := ops\<rparr>))"
proof -
  let ?s = "goto t p (s\<lparr>m_nRefCount := n, log := ops\<rparr>)"
  have "level ?s = level s" using assms(2,3) by (auto simp: level_def)
  moreover have "\<forall>t'. t' \<noteq> t \<longrightarrow> \<not> inside (pc s t')" using level_alone [OF assms(1), of t] assms(2) by (simp add: level_def)
  then have "answered ?s" using assms(3,6) by (auto simp: answered_def)
  ultimately show ?thesis using assms pc_ok_others [OF assms(1,2)] by (simp add: lock_inv_def del: level_goto)
qed

lemma lock_step:
  assumes "lock_inv m n0 s" "lock_do a s = Some s'"
  shows "lock_inv m n0 s'"
proof (cases a)
  case (Begin t op)
  then show ?thesis using assms by (auto split: if_splits intro!: inv_goto)
next
  case (Unlock t)
  then have h: "pc s t = L_Idle" "held s t > 0" "s' = (mutex_release t m s)\<lparr>held := (held s)(t := held s t - 1)\<rparr>"
    using assms by (auto simp: Lock_Off_def lock_inv_def split: if_splits)
  then have "level s' = (level s)(t := level s t - 1)" by (auto simp: level_def)
  moreover have "answered s'" using assms(1) h by (simp add: lock_inv_def answered_def)
  ultimately show ?thesis using assms(1) h by (intro inv_release [OF assms(1), of t]) (auto simp: level_def lock_inv_def)
next
  case (Step t)
  have st: "thread_step t (pc s t) s = Some s'" using assms(2) Step by simp
  have ok: "pc_ok m (m_nRefCount s) (pc s t)" and hm: "m_hMutex s = Some m" and sq: "sequential n0 (log s) (m_nRefCount s)"
    and an: "inside (pc s t) \<Longrightarrow> log s = map snd (returned s) @ pending (m_nRefCount s) (pc s t)"
    using assms(1) by (simp_all add: lock_inv_def answered_def)
  show ?thesis
  proof (cases "pc s t")
    case (L_Acquire m' op)
    then show ?thesis using st assms(1) ok by (auto intro!: inv_acquire)
  next
    case (L_Body op)
    then have "log s = map snd (returned s)" using an by simp
    show ?thesis
    proof (cases "op = Do_Lock")
      case True
      then have "level s' = level s" "s' = goto t L_Idle (s\<lparr>held := (held s)(t := held s t + 1)\<rparr>)"
        using st L_Body by (auto simp: level_def)
      moreover have "\<forall>t'. \<not> inside (pc s' t')" using calculation level_alone [OF assms(1), of t] L_Body by (auto simp: level_def)
      then have "answered s'" using calculation \<open>log s = _\<close> by (simp add: answered_outside)
      ultimately show ?thesis using assms(1) by (simp add: lock_inv_def)
    next
      case False
      then have s': "s' = goto t (if op = Do_GetRefCount then L_Off op (m_nRefCount s) else L_Write op (m_nRefCount s))
          (s\<lparr>m_nRefCount := m_nRefCount s, log := if op = Do_GetRefCount then log s @ [(op, m_nRefCount s)] else log s\<rparr>)"
        using st L_Body by auto
      show ?thesis unfolding s' by (rule inv_inside [OF assms(1)])
          (use L_Body False sq \<open>log s = _\<close> in \<open>auto simp: sequential_append count_after_def\<close>)
    qed
  next
    case (L_Write op n)
    then have "s' = goto t (if op = Do_Release then L_Read else L_Off op (count_after op n))
        (s\<lparr>m_nRefCount := count_after op n, log := log s @ [(op, count_after op n)]\<rparr>)" using st by simp
    then show ?thesis using assms(1) L_Write ok sq an by (auto intro!: inv_inside simp: sequential_append)
  next
    case (L_Off op n)
    then have s': "s' = goto t (if op = Do_Release \<and> n = 0 then L_Delete else L_Idle)
        ((mutex_release t m s)\<lparr>returned := returned s @ [(t, op, n)]\<rparr>)"
      using st hm by (auto simp: Lock_Off_def mutex_release_def split: option.splits)
    then have "level s' = (level s)(t := level s t - 1)" using L_Off by (auto simp: level_def)
    moreover have "\<forall>t'. \<not> inside (pc s' t')" using s' level_alone [OF assms(1), of t] L_Off by (auto simp: level_def)
    then have "answered s'" using s' an L_Off by (simp add: answered_outside)
    ultimately show ?thesis using assms(1) s' L_Off by (intro inv_release [OF assms(1), of t]) (auto simp: level_def lock_inv_def)
  qed (use st assms(1) ok hm in \<open>auto intro!: inv_goto\<close>)
qed

lemma lock_run_inv: "lock_run as s = Some s' \<Longrightarrow> lock_inv m n0 s \<Longrightarrow> lock_inv m n0 s'"
  by (induction as arbitrary: s) (auto split: option.splits dest: lock_step)

lemma lock_run_append: "lock_run (as @ bs) s = (case lock_run as s of None \<Rightarrow> None | Some s' \<Rightarrow> lock_run bs s')"
  by (induction as arbitrary: s) (auto split: option.splits)

text \<open>The first \<open>AddRef\<close> of an object, by the thread that made it, before another thread knows of it.\<close>

definition first_AddRef :: "nat \<Rightarrow> lock_act list" where
  "first_AddRef t = Begin t Do_AddRef # replicate 7 (Step t)"

lemma first_AddRef_inv: "\<exists>s. lock_run (first_AddRef t) (lock_new n0) = Some s \<and> lock_inv 0 n0 s"
  by (auto simp: first_AddRef_def lock_new_def eval_nat_numeral goto_def mutex_wait_def Lock_Off_def mutex_release_def lock_inv_def
    answered_def owned_def level_def count_after_def fun_eq_iff)

text \<open>C36. References between threads. When one thread has used the lock of an object before any other does, then from there on, in every interleaving of the
  steps of any number of threads, the lock is held by one thread at most, however often, and the counts that \<open>AddRef\<close>, \<open>Release\<close>
  and \<open>GetRefCount\<close> return are those of one thread that makes the calls one by one. But \<open>Lock::On\<close> makes the mutex when it is called first, and nothing
  protects that: of two threads each makes its own, both are inside, and of two references one is lost.\<close>

theorem references_atomic:
  "(lock_run (first_AddRef t0 @ as) (lock_new n0) = Some s \<longrightarrow>
      (\<forall>t t'. 0 < level s t \<and> 0 < level s t' \<longrightarrow> t = t')
      \<and> (\<exists>rest. length rest \<le> 1 \<and> sequential n0 (map snd (returned s) @ rest) (m_nRefCount s)))
    \<and> (\<exists>as s. lock_run as (lock_new n0) = Some s \<and> returned s = [(1, Do_AddRef, n0 + 1), (2, Do_AddRef, n0 + 1)] \<and> m_nRefCount s = n0 + 1)"
proof (intro conjI impI)
  assume run: "lock_run (first_AddRef t0 @ as) (lock_new n0) = Some s"
  obtain s0 where "lock_run (first_AddRef t0) (lock_new n0) = Some s0" "lock_inv 0 n0 s0" using first_AddRef_inv by blast
  then have inv: "lock_inv 0 n0 s" using run lock_run_inv by (simp add: lock_run_append)
  show "\<forall>t t'. 0 < level s t \<and> 0 < level s t' \<longrightarrow> t = t'"
    using inv owned_owner unfolding lock_inv_def by (metis less_irrefl)
  have "\<exists>p. log s = map snd (returned s) @ pending (m_nRefCount s) p" using inv
    by (cases "\<forall>t. \<not> inside (pc s t)") (auto simp: lock_inv_def answered_def intro: exI [of _ L_Idle])
  then obtain p where p: "log s = map snd (returned s) @ pending (m_nRefCount s) p" by blast
  moreover have "length (pending (m_nRefCount s) p) \<le> 1" by (cases p) auto
  moreover have "sequential n0 (log s) (m_nRefCount s)" using inv by (simp add: lock_inv_def)
  ultimately show "\<exists>rest. length rest \<le> 1 \<and> sequential n0 (map snd (returned s) @ rest) (m_nRefCount s)" by metis
next
  let ?as = "[Begin 1 Do_AddRef, Begin 2 Do_AddRef, Step 1, Step 2, Step 1, Step 1, Step 2, Step 2, Step 1, Step 2, Step 1, Step 2, Step 1, Step 2, Step 1, Step 2]"
  show "\<exists>as s. lock_run as (lock_new n0) = Some s \<and> returned s = [(1, Do_AddRef, n0 + 1), (2, Do_AddRef, n0 + 1)] \<and> m_nRefCount s = n0 + 1"
    by (rule exI [of _ ?as]) (simp add: lock_new_def goto_def mutex_wait_def Lock_Off_def mutex_release_def count_after_def)
qed

theorem references_atomic_witness:
  "\<exists>s rest. lock_run (first_AddRef 1 @ [Begin 2 Do_AddRef, Begin 1 Do_Release, Step 2, Step 1, Step 2, Step 2, Step 2, Step 2, Step 2]) (lock_new 0) = Some s
    \<and> returned s = [(1, Do_AddRef, 1), (2, Do_AddRef, 2)] \<and> sequential 0 (map snd (returned s) @ rest) 2"
proof -
  let ?as = "[Begin 2 Do_AddRef, Begin 1 Do_Release, Step 2, Step 1, Step 2, Step 2, Step 2, Step 2, Step 2]"
  obtain s where s: "lock_run (first_AddRef 1 @ ?as) (lock_new 0) = Some s" "returned s = [(1, Do_AddRef, 1), (2, Do_AddRef, 2)]" "m_nRefCount s = 2"
    by (simp add: first_AddRef_def eval_nat_numeral lock_new_def goto_def mutex_wait_def Lock_Off_def mutex_release_def count_after_def)
  then show ?thesis using references_atomic [of 1 ?as 0 s] by (metis (no_types, lifting))
qed

end
