(* ===== verification/Clients.thy ===== *)
theory Clients
  imports Executors LinkedLists
begin

text \<open>
  Life of threads and objects: \<open>z3_thread.cpp\<close>, \<open>z3_executor_pool.cpp\<close>, \<open>z3_ref_obj.cpp\<close>, \<open>z3_async_obj.cpp\<close>, \<open>z3_client.cpp\<close> and
  \<open>z3_rtsp_client.cpp\<close>. An object is its address and the number of its references; one that was deleted is not in the store, and
  a call of it is a fault. Each operation on a count is done under the lock of its object and is one action here.
\<close>

section \<open>References\<close>

type_synonym objects = "addr \<rightharpoonup> nat"

definition AddRef :: "addr \<Rightarrow> objects \<Rightarrow> objects outcome" where
  "AddRef p h = (case h p of None \<Rightarrow> Inl OutOfBounds | Some n \<Rightarrow> Inr (h(p \<mapsto> n + 1)))"

text \<open>\<open>RefObj::Release\<close> without \<open>delete\<close>, which \<open>AsyncObj::Release\<close> does when it has given the lock back.\<close>

definition RefObj_Release :: "nat \<Rightarrow> nat" where
  "RefObj_Release n = (if n > 0 then n - 1 else n)"

definition Release :: "addr \<Rightarrow> objects \<Rightarrow> objects outcome" where
  "Release p h =
     (case h p of None \<Rightarrow> Inl OutOfBounds
      | Some n \<Rightarrow> let nCount = RefObj_Release n in Inr (if nCount = 0 then h(p := None) else h(p \<mapsto> nCount)))"

text \<open>The macro \<open>Z3_OBJ_RELEASE\<close> sets the variable to NULL.\<close>

definition OBJ_RELEASE :: "addr option \<Rightarrow> objects \<Rightarrow> (addr option \<times> objects) outcome" where
  "OBJ_RELEASE p h = (case p of None \<Rightarrow> Inr (None, h) | Some a \<Rightarrow> bindE (Release a h) (\<lambda>h'. Inr (None, h')))"

section \<open>The client of RTSP sessions\<close>

record notify_item =
  n_id :: ev_id
  n_nErrorCode :: u32
  n_data :: addr

record RtspClient =
  m_lstSessions :: "addr list"
  m_pMsgQueue :: "notify_item AsyncQueue"
  objects :: objects

definition RtspClient_new :: RtspClient where
  "RtspClient_new = \<lparr>m_lstSessions = [], m_pMsgQueue = AsyncQueue_new, objects = Map.empty\<rparr>"

text \<open>The new session is at \<open>a\<close>. Whether its URL is accepted, and what \<open>Start\<close> answers, are parameters (theory \<open>RtspSession\<close> has them).\<close>

definition AddSession :: "addr \<Rightarrow> result \<Rightarrow> result \<Rightarrow> RtspClient \<Rightarrow> (result \<times> RtspClient) outcome" where
  "AddSession a url start c =
     bindE (AddRef a ((objects c)(a \<mapsto> 0))) (\<lambda>h.
       let c1 = c\<lparr>m_lstSessions := m_lstSessions c @ [a], objects := h\<rparr> in
       if url = EOK then Inr (start, c1) else Inr (url, c1))"

text \<open>\<open>IOCPObj::Notify\<close> of a session that has the queue.\<close>

definition session_Notify :: "addr \<Rightarrow> ev_id \<Rightarrow> u32 \<Rightarrow> RtspClient \<Rightarrow> RtspClient outcome" where
  "session_Notify a ev e c =
     bindE (AddRef a (objects c)) (\<lambda>h.
       Inr (c\<lparr>objects := h,
         m_pMsgQueue := queue_Signal True (queue_Push \<lparr>n_id = ev, n_nErrorCode = e, n_data = a\<rparr> (m_pMsgQueue c))\<rparr>))"

text \<open>\<open>std::list::remove\<close> of a pointer; NULL is not in the list.\<close>

definition RemoveSession :: "addr option \<Rightarrow> RtspClient \<Rightarrow> RtspClient outcome" where
  "RemoveSession pSession c =
     (let c1 = c\<lparr>m_lstSessions := (case pSession of None \<Rightarrow> m_lstSessions c | Some a \<Rightarrow> removeAll a (m_lstSessions c))\<rparr> in
      bindE (OBJ_RELEASE pSession (objects c1)) (\<lambda>(_, h). Inr (c1\<lparr>objects := h\<rparr>)))"

text \<open>\<open>Stop\<close> and \<open>WaitForClosedEvent\<close> need the session to be there. Releasing it sets the variable to NULL, and NULL is what is removed.\<close>

definition OnNotify :: "ev_id \<Rightarrow> u32 \<Rightarrow> addr \<Rightarrow> RtspClient \<Rightarrow> RtspClient outcome" where
  "OnNotify evID nErrorCode pData c =
     (if evID = EV_CONNECT \<and> nErrorCode \<noteq> 0 then
        if objects c pData = None then Inl OutOfBounds
        else bindE (OBJ_RELEASE (Some pData) (objects c)) (\<lambda>(pSession, h). RemoveSession pSession (c\<lparr>objects := h\<rparr>))
      else Inr c)"

definition Client_RunOnce :: "RtspClient \<Rightarrow> RtspClient outcome" where
  "Client_RunOnce c =
     (case WaitForEV (m_pMsgQueue c) of
        (None, q) \<Rightarrow> Inr (c\<lparr>m_pMsgQueue := q\<rparr>)
      | (Some item, q) \<Rightarrow>
          bindE (assertE (n_id item \<noteq> EV_UNKNOWN)) (\<lambda>_.
          bindE (OnNotify (n_id item) (n_nErrorCode item) (n_data item) (c\<lparr>m_pMsgQueue := q\<rparr>)) (\<lambda>c'.
          bindE (OBJ_RELEASE (Some (n_data item)) (objects c')) (\<lambda>(_, h). Inr (c'\<lparr>objects := h\<rparr>)))))"

fun release_sessions :: "addr list \<Rightarrow> objects \<Rightarrow> objects outcome" where
  "release_sessions [] h = Inr h"
| "release_sessions (a # as) h = bindE (OBJ_RELEASE (Some a) h) (\<lambda>(_, h'). release_sessions as h')"

definition OnClientStop :: "RtspClient \<Rightarrow> RtspClient outcome" where
  "OnClientStop c = bindE (release_sessions (m_lstSessions c) (objects c)) (\<lambda>h. Inr (c\<lparr>m_lstSessions := [], objects := h\<rparr>))"

section \<open>Threads\<close>

record Thread =
  m_hThread :: bool
  m_hMutex :: bool
  m_hEvRunning :: bool
  m_bQuit :: bool

definition Thread_new :: Thread where
  "Thread_new = \<lparr>m_hThread = False, m_hMutex = False, m_hEvRunning = False, m_bQuit = False\<rparr>"

text \<open>\<open>Start\<close> waits for an event that the new thread sets in \<open>OnThreadStart\<close>, if that succeeds. If it does not, the event is never set: \<open>None\<close> stands
  for a call that does not return. \<open>Thread\<close> must not be running.\<close>

definition Thread_Start :: "bool \<Rightarrow> Thread \<Rightarrow> Thread outcome option" where
  "Thread_Start started t =
     (if m_hMutex t \<or> m_hEvRunning t \<or> m_hThread t then Some (Inl AssertFailed)
      else if \<not> started then None
      else Some (Inr (t\<lparr>m_hMutex := True, m_hEvRunning := True, m_hThread := True\<rparr>)))"

text \<open>\<open>ThreadFunc\<close> behind \<open>OnThreadStart\<close>: the values of \<open>m_bQuit\<close> it reads, one in each round, and how often it calls \<open>RunOnce\<close>. It ends with the first
  that is true.\<close>

fun ThreadFunc :: "bool list \<Rightarrow> nat \<times> bool" where
  "ThreadFunc [] = (0, False)"
| "ThreadFunc (q # qs) = (if q then (0, True) else (case ThreadFunc qs of (n, ended) \<Rightarrow> (n + 1, ended)))"

definition Thread_Stop :: "Thread \<Rightarrow> Thread outcome" where
  "Thread_Stop t =
     bindE (assertE (m_hMutex t)) (\<lambda>_.
     bindE (assertE (m_hThread t)) (\<lambda>_.
       Inr (t\<lparr>m_bQuit := True, m_hThread := False, m_hMutex := False, m_hEvRunning := False\<rparr>)))"

definition Thread_delete :: "Thread \<Rightarrow> unit outcome" where
  "Thread_delete t = assertE (\<not> m_hThread t \<and> \<not> m_hMutex t \<and> m_bQuit t)"

text \<open>\<open>ExecutorPool\<close>: a list of threads, each started when it is made.\<close>

fun ExecutorPool_Init :: "nat \<Rightarrow> Thread list \<Rightarrow> Thread list outcome option" where
  "ExecutorPool_Init 0 ts = Some (Inr ts)"
| "ExecutorPool_Init (Suc n) ts =
     (case Thread_Start True Thread_new of
        None \<Rightarrow> None | Some (Inl f) \<Rightarrow> Some (Inl f) | Some (Inr t) \<Rightarrow> ExecutorPool_Init n (ts @ [t]))"

fun ExecutorPool_Uninit :: "Thread list \<Rightarrow> Thread list outcome" where
  "ExecutorPool_Uninit [] = Inr []"
| "ExecutorPool_Uninit (t # ts) =
     bindE (Thread_Stop t) (\<lambda>t'. bindE (Thread_delete t') (\<lambda>_. ExecutorPool_Uninit ts))"

record client_threads =
  m_pEngine :: "Thread option"
  m_ExecutorPool :: "Thread list"
  m_bStarted :: bool

text \<open>\<open>Client::OnThreadStart\<close>: the engine first, which needs a completion port, then one executor.\<close>

definition Client_OnThreadStart :: "bool \<Rightarrow> client_threads outcome option" where
  "Client_OnThreadStart iocp =
     (case Thread_Start iocp Thread_new of
        None \<Rightarrow> None
      | Some (Inl f) \<Rightarrow> Some (Inl f)
      | Some (Inr e) \<Rightarrow> (case ExecutorPool_Init 1 [] of
            None \<Rightarrow> None
          | Some (Inl f) \<Rightarrow> Some (Inl f)
          | Some (Inr ts) \<Rightarrow> Some (Inr \<lparr>m_pEngine = Some e, m_ExecutorPool = ts, m_bStarted = True\<rparr>)))"

definition Client_OnThreadStop :: "client_threads \<Rightarrow> client_threads outcome" where
  "Client_OnThreadStop c =
     (case m_pEngine c of
        None \<Rightarrow> Inl AssertFailed
      | Some e \<Rightarrow>
          bindE (ExecutorPool_Uninit (m_ExecutorPool c)) (\<lambda>ts.
          bindE (Thread_Stop e) (\<lambda>e'.
          bindE (Thread_delete e') (\<lambda>_. Inr \<lparr>m_pEngine = None, m_ExecutorPool = ts, m_bStarted = False\<rparr>))))"


section \<open>Balance of references\<close>

datatype client_act = C_Add addr result result | C_Notify addr ev_id u32 | C_Run

text \<open>New sessions are at addresses that are free, and only a session that is there notifies.\<close>

fun client_do :: "client_act \<Rightarrow> RtspClient \<Rightarrow> RtspClient outcome" where
  "client_do (C_Add a url start) c = (if objects c a \<noteq> None then Inr c else bindE (AddSession a url start c) (\<lambda>(_, c'). Inr c'))"
| "client_do (C_Notify a ev e) c = (if objects c a = None then Inr c else session_Notify a ev e c)"
| "client_do C_Run c = Client_RunOnce c"

fun client_run :: "client_act list \<Rightarrow> RtspClient \<Rightarrow> RtspClient outcome" where
  "client_run [] c = Inr c"
| "client_run (a # as) c = bindE (client_do a c) (client_run as)"

fun harmless :: "client_act \<Rightarrow> bool" where
  "harmless (C_Notify a ev e) = (ev \<noteq> EV_UNKNOWN \<and> (ev = EV_CONNECT \<longrightarrow> e = 0))"
| "harmless _ = True"

definition refs :: "nat \<Rightarrow> nat option" where
  "refs n = (if n = 0 then None else Some n)"

definition queued :: "notify_item list \<Rightarrow> addr \<Rightarrow> nat" where
  "queued q a = length (filter (\<lambda>i. n_data i = a) q)"

text \<open>Each session has one reference for the list and one for every item of the queue, and the event is set while there are items.\<close>

definition balanced :: "RtspClient \<Rightarrow> bool" where
  "balanced c \<longleftrightarrow> distinct (m_lstSessions c) \<and> m_hEvent (m_pMsgQueue c) = (m_Queue (m_pMsgQueue c) \<noteq> [])
     \<and> (\<forall>i \<in> set (m_Queue (m_pMsgQueue c)). n_id i \<noteq> EV_UNKNOWN \<and> (n_id i = EV_CONNECT \<longrightarrow> n_nErrorCode i = 0))
     \<and> (\<forall>a. objects c a = refs (of_bool (a \<in> set (m_lstSessions c)) + queued (m_Queue (m_pMsgQueue c)) a))"

lemma queued_simps [simp]: "queued [] a = 0" "queued (i # q) a = of_bool (n_data i = a) + queued q a" "queued (q @ r) a = queued q a + queued r a"
  by (simp_all add: queued_def)

lemma refs_simps [simp]: "refs 0 = None" "refs (Suc n) = Some (Suc n)" "refs n = None \<longleftrightarrow> n = 0" "refs n = Some k \<longleftrightarrow> n = k \<and> 0 < n"
  by (auto simp: refs_def)

lemma Release_refs: "h a = refs (Suc n) \<Longrightarrow> Release a h = Inr (h(a := refs n))"
  by (cases n) (simp_all add: Release_def RefObj_Release_def)

lemma AddRef_refs: "h a = refs n \<Longrightarrow> 0 < n \<Longrightarrow> AddRef a h = Inr (h(a := refs (Suc n)))"
  by (simp add: AddRef_def refs_def)

lemma balanced_do:
  assumes "balanced c" "harmless act"
  shows "\<exists>c'. client_do act c = Inr c' \<and> balanced c'"
proof (cases act)
  case (C_Add a url start)
  show ?thesis
  proof (cases "objects c a")
    case None
    then have "a \<notin> set (m_lstSessions c)" "queued (m_Queue (m_pMsgQueue c)) a = 0" using assms(1) by (auto simp: balanced_def)
    then show ?thesis using None C_Add assms(1)
      by (auto simp: AddSession_def AddRef_def balanced_def Let_def)
  qed (use assms(1) C_Add in simp)
next
  case (C_Notify a ev e)
  show ?thesis
  proof (cases "objects c a")
    case (Some k)
    let ?n = "of_bool (a \<in> set (m_lstSessions c)) + queued (m_Queue (m_pMsgQueue c)) a"
    have n: "objects c a = refs ?n" "0 < ?n" using Some assms(1) by (auto simp: balanced_def)
    from n have r: "AddRef a (objects c) = Inr ((objects c)(a := refs (Suc ?n)))" by (rule AddRef_refs)
    show ?thesis using C_Notify assms Some
      by (auto simp: session_Notify_def r balanced_def queue_Push_def queue_Signal_def)
  qed (use assms(1) C_Notify in simp)
next
  case C_Run
  show ?thesis
  proof (cases "m_Queue (m_pMsgQueue c)")
    case Nil
    then show ?thesis using assms(1) C_Run by (auto simp: Client_RunOnce_def WaitForEV_def balanced_def)
  next
    case (Cons i q)
    have w: "WaitForEV (m_pMsgQueue c) = (Some i, \<lparr>m_Queue = q, m_hEvent = (q \<noteq> [])\<rparr>)"
      using Cons assms(1) by (auto simp: WaitForEV_def queue_simps balanced_def)
    have i: "n_id i \<noteq> EV_UNKNOWN" "n_id i = EV_CONNECT \<longrightarrow> n_nErrorCode i = 0" using Cons assms(1) by (auto simp: balanced_def)
    let ?n = "of_bool (n_data i \<in> set (m_lstSessions c)) + queued q (n_data i)"
    have "objects c (n_data i) = refs (Suc ?n)" using Cons assms(1) by (auto simp: balanced_def)
    then have r: "Release (n_data i) (objects c) = Inr ((objects c)(n_data i := refs ?n))" by (rule Release_refs)
    have "Client_RunOnce c = Inr (c\<lparr>m_pMsgQueue := \<lparr>m_Queue = q, m_hEvent = (q \<noteq> [])\<rparr>, objects := (objects c)(n_data i := refs ?n)\<rparr>)"
      using i by (auto simp: Client_RunOnce_def w OnNotify_def OBJ_RELEASE_def r)
    moreover have "balanced (c\<lparr>m_pMsgQueue := \<lparr>m_Queue = q, m_hEvent = (q \<noteq> [])\<rparr>, objects := (objects c)(n_data i := refs ?n)\<rparr>)"
      using Cons assms(1) by (auto simp: balanced_def)
    ultimately show ?thesis using C_Run by simp
  qed
qed

lemma balanced_run: "balanced c \<Longrightarrow> \<forall>a \<in> set as. harmless a \<Longrightarrow> \<exists>c'. client_run as c = Inr c' \<and> balanced c'"
proof (induction as arbitrary: c)
  case (Cons a as)
  then obtain c' where "client_do a c = Inr c'" "balanced c'" using balanced_do [of c a] by auto
  then show ?case using Cons by auto
qed simp

lemma release_sessions_refs:
  "distinct as \<Longrightarrow> \<forall>a. h a = refs (of_bool (a \<in> set as) + m a) \<Longrightarrow> release_sessions as h = Inr (\<lambda>a. refs (m a))"
proof (induction as arbitrary: h)
  case (Cons a as)
  have "h a = refs (Suc (m a))" using Cons.prems by simp
  then have r: "Release a h = Inr (h(a := refs (m a)))" by (rule Release_refs)
  have "release_sessions as (h(a := refs (m a))) = Inr (\<lambda>a. refs (m a))"
    by (rule Cons.IH) (use Cons.prems in auto)
  then show ?case by (simp add: OBJ_RELEASE_def r)
qed (auto simp: fun_eq_iff)

lemma release_sessions_dead: "a \<in> set as \<Longrightarrow> h a = None \<Longrightarrow> release_sessions as h = Inl OutOfBounds"
proof (induction as arbitrary: h)
  case (Cons b as)
  show ?case
  proof (cases "h b")
    case (Some n)
    then have "a \<in> set as" "(h(b := None)) a = None" "\<And>k. b \<noteq> a \<Longrightarrow> (h(b \<mapsto> k)) a = None" "b \<noteq> a" using Cons.prems by auto
    then show ?thesis using Some Cons.IH by (auto simp: OBJ_RELEASE_def Release_def Let_def)
  qed (simp add: OBJ_RELEASE_def Release_def)
qed simp

lemma balanced_new: "balanced RtspClient_new"
  by (simp add: balanced_def RtspClient_new_def AsyncQueue_new_def)

section \<open>Properties\<close>

text \<open>C37. As long as no failed connection is notified, whatever sessions are added and whatever they notify, the client never touches a session that is
  gone: each has one reference for the list and one for each of its items in the queue. Stopping the client gives the list's references back;
  what is left are the sessions whose items nobody took from the queue, and they are never deleted.\<close>

theorem references_balanced:
  assumes "\<forall>a \<in> set as. harmless a"
  shows "\<exists>c c'. client_run as RtspClient_new = Inr c \<and> balanced c \<and> OnClientStop c = Inr c' \<and> m_lstSessions c' = []
    \<and> (\<forall>a. objects c' a = refs (queued (m_Queue (m_pMsgQueue c)) a))"
proof -
  obtain c where c: "client_run as RtspClient_new = Inr c" "balanced c" using balanced_run [OF balanced_new assms] by blast
  have "release_sessions (m_lstSessions c) (objects c) = Inr (\<lambda>a. refs (queued (m_Queue (m_pMsgQueue c)) a))"
    by (rule release_sessions_refs) (use c(2) in \<open>auto simp: balanced_def\<close>)
  then show ?thesis using c by (auto simp: OnClientStop_def)
qed

theorem references_balanced_witness:
  "\<exists>c c'. client_run [C_Add 7 EOK EOK, C_Notify 7 EV_READ 0] RtspClient_new = Inr c \<and> OnClientStop c = Inr c' \<and> objects c' 7 = Some 1"
proof -
  obtain c c' where "client_run [C_Add 7 EOK EOK, C_Notify 7 EV_READ 0] RtspClient_new = Inr c" "OnClientStop c = Inr c'"
    "\<forall>a. objects c' a = refs (queued (m_Queue (m_pMsgQueue c)) a)"
    using references_balanced [of "[C_Add 7 EOK EOK, C_Notify 7 EV_READ 0]"] by auto
  moreover from this(1) have "m_Queue (m_pMsgQueue c) = [\<lparr>n_id = EV_READ, n_nErrorCode = 0, n_data = 7\<rparr>]"
    by (auto simp: RtspClient_new_def AsyncQueue_new_def AddSession_def AddRef_def session_Notify_def queue_Push_def queue_Signal_def Let_def)
  ultimately show ?thesis by (auto simp: refs_def)
qed

text \<open>C38. What the client does with a failed connection that is notified as such (sessions of RTSP do not, as theory \<open>Notifications\<close> shows; a
  connector would): it releases the session, but the macro sets its variable to NULL, and it is NULL
  that it then removes from the list. When it has released the item it took, the session is deleted and still in the list; stopping the
  client accesses it.\<close>

theorem failed_connection:
  assumes "\<forall>a \<in> set as. harmless a" and "client_run as RtspClient_new = Inr c" and "m_Queue (m_pMsgQueue c) = []" and "a \<in> set (m_lstSessions c)"
    and "e \<noteq> 0"
  shows "\<exists>c'. client_run [C_Notify a EV_CONNECT e, C_Run] c = Inr c' \<and> objects c' a = None \<and> a \<in> set (m_lstSessions c')
    \<and> OnClientStop c' = Inl OutOfBounds"
proof -
  have b: "balanced c" using balanced_run [OF balanced_new assms(1)] assms(2) by auto
  have a: "objects c a = Some 1" using b assms(3,4) by (simp add: balanced_def)
  let ?q = "\<lparr>m_Queue = [], m_hEvent = False\<rparr>"
  have q: "m_pMsgQueue c = ?q" using b assms(3) by (simp add: balanced_def)
  let ?c = "c\<lparr>objects := (objects c)(a := None), m_pMsgQueue := ?q\<rparr>"
  have "client_run [C_Notify a EV_CONNECT e, C_Run] c = Inr ?c"
    using a assms(5) by (simp add: session_Notify_def AddRef_def q queue_Push_def queue_Signal_def Client_RunOnce_def WaitForEV_def queue_simps
      OnNotify_def OBJ_RELEASE_def Release_def RefObj_Release_def RemoveSession_def Let_def)
  moreover have "OnClientStop ?c = Inl OutOfBounds"
    using release_sessions_dead [of a "m_lstSessions c" "(objects c)(a := None)"] assms(4) by (simp add: OnClientStop_def)
  ultimately show ?thesis using assms(4) by (intro exI [of _ ?c]) simp
qed

theorem failed_connection_witness:
  "\<exists>c c'. client_run [C_Add 7 EOK EOK] RtspClient_new = Inr c \<and> client_run [C_Notify 7 EV_CONNECT 5, C_Run] c = Inr c'
    \<and> OnClientStop c' = Inl OutOfBounds"
proof -
  obtain c where c: "client_run [C_Add 7 EOK EOK] RtspClient_new = Inr c" "m_Queue (m_pMsgQueue c) = []" "m_lstSessions c = [7]"
    by (simp add: RtspClient_new_def AsyncQueue_new_def AddSession_def AddRef_def Let_def)
  from failed_connection [OF _ c(1,2), of 7 5] c show ?thesis by auto
qed

text \<open>The client starts and stops its threads. If Windows gives no completion port, the call does not return, since the engine's thread ends without
  setting the event the starter waits for. Otherwise stopping passes every assertion. A thread that ran once is no use after that:
  started again it ends before its first round, because nothing clears \<open>m_bQuit\<close>; and one that never ran fails an assertion when
  it is deleted.\<close>

theorem thread_lives:
  "Client_OnThreadStart False = None
   \<and> (\<exists>c c'. Client_OnThreadStart True = Some (Inr c) \<and> m_bStarted c \<and> length (m_ExecutorPool c) = 1
        \<and> Client_OnThreadStop c = Inr c' \<and> m_ExecutorPool c' = [] \<and> m_pEngine c' = None \<and> \<not> m_bStarted c')
   \<and> (\<exists>t t' t''. Thread_Start True Thread_new = Some (Inr t) \<and> Thread_Stop t = Inr t' \<and> Thread_delete t' = Inr ()
        \<and> Thread_Start True t' = Some (Inr t'') \<and> (\<forall>qs. ThreadFunc (m_bQuit t'' # qs) = (0, True)))
   \<and> Thread_delete Thread_new = Inl AssertFailed
   \<and> (\<forall>n qs. ThreadFunc (replicate n False @ True # qs) = (n, True))"
proof (intro conjI allI)
  fix n qs show "ThreadFunc (replicate n False @ True # qs) = (n, True)" by (induction n) auto
qed (simp_all add: Client_OnThreadStart_def Client_OnThreadStop_def Thread_Start_def Thread_new_def Thread_Stop_def Thread_delete_def)

end
