(* ===== verification/Overlapped.thy ===== *)
theory Overlapped
  imports Executors Clients
begin

text \<open>
  Who owns an overlapped structure: \<open>IOEndpoint::AllocZ3Ovl\<close> makes it (\<open>z3_io_endpoint.cpp\<close>) for an operation of a socket
  (\<open>z3_socket_obj.cpp\<close>) or for the start and the stop of an object (\<open>z3_iocp_obj.cpp\<close>), Windows has it until the operation ends, the
  engine moves it from the port to the queue (\<open>z3_engine.cpp\<close>), an executor frees it, and its timer refers to it all the time.
  Structures and objects are addresses in a store; one that is not in the store was freed, and using it is a fault.
\<close>

section \<open>State\<close>

record io_ovl = Z3_EV_OVL +
  iocp_handle :: bool       \<comment> \<open>whether it is not \<open>INVALID_HANDLE_VALUE\<close>\<close>
  ovl_data :: addr

record io_obj =
  hFileHandle :: bool       \<comment> \<open>whether it is not \<open>INVALID_HANDLE_VALUE\<close>\<close>
  hNotifyQueue :: bool
  pTimerEngine :: bool      \<comment> \<open>whether the object has had a timer\<close>

record io =
  ovls :: "addr \<rightharpoonup> io_ovl"
  io_objs :: "addr \<rightharpoonup> io_obj"
  io_timers :: "addr set"              \<comment> \<open>timers that may still call back, by their parameter\<close>
  timer_users :: "nat option"          \<comment> \<open>references of the timer engine, 0 when it was deleted\<close>
  pending :: "addr set"                \<comment> \<open>operations under way at Windows\<close>
  hIOCP :: bool
  io_port :: "addr list"
  ev_items :: "addr list option"       \<comment> \<open>the queue of the engine, if it is there\<close>
  busy :: "(addr \<times> addr \<times> bool) option"   \<comment> \<open>the structure at the executor, its object, and whether its lock is taken\<close>

definition io_start :: io where
  "io_start = \<lparr>ovls = Map.empty, io_objs = Map.empty, io_timers = {}, timer_users = None, pending = {}, hIOCP = False, io_port = [], ev_items = None, busy = None\<rparr>"

section \<open>Objects\<close>

text \<open>The first timer of an object gets a reference of the timer engine, which is made with the first of all. When the last object that has one is
  deleted, the engine goes with all its timers, and the pointer to it stays.\<close>

definition use_timers :: "addr \<Rightarrow> io_obj \<Rightarrow> io \<Rightarrow> io outcome" where
  "use_timers a ob s =
     (if pTimerEngine ob then Inr s
      else if timer_users s = Some 0 then Inl OutOfBounds
      else Inr (s\<lparr>io_objs := (io_objs s)(a \<mapsto> ob\<lparr>pTimerEngine := True\<rparr>), timer_users := Some (case timer_users s of None \<Rightarrow> 1 | Some n \<Rightarrow> n + 1)\<rparr>))"

definition delete_obj :: "addr \<Rightarrow> io \<Rightarrow> io" where
  "delete_obj a s =
     (case (io_objs s a, timer_users s) of
        (Some ob, Some n) \<Rightarrow>
          if pTimerEngine ob
          then s\<lparr>io_objs := (io_objs s)(a := None), timer_users := Some (n - 1), io_timers := (if n = 1 then {} else io_timers s)\<rparr>
          else s\<lparr>io_objs := (io_objs s)(a := None)\<rparr>
      | _ \<Rightarrow> s\<lparr>io_objs := (io_objs s)(a := None)\<rparr>)"

definition IOEndpoint_AllocZ3Ovl :: "winsock \<Rightarrow> ev_id \<Rightarrow> u32 \<Rightarrow> addr \<Rightarrow> addr \<Rightarrow> io \<Rightarrow> (addr option \<times> io) outcome" where
  "IOEndpoint_AllocZ3Ovl w evID millseconds a p s =
     (case io_objs s a of
        None \<Rightarrow> Inl OutOfBounds
      | Some ob \<Rightarrow> (case AllocZ3Ovl w evID millseconds of
            None \<Rightarrow> Inr (None, s)
          | Some z \<Rightarrow> bindE (if ovl_timer z then use_timers a ob s else Inr s) (\<lambda>s1.
              Inr (Some p, s1\<lparr>ovls := (ovls s)(p \<mapsto> \<lparr>ovl_id = ovl_id z, ovl_timer = ovl_timer z, iocp_handle = hFileHandle ob, ovl_data = a\<rparr>),
                io_timers := (if ovl_timer z then insert p (io_timers s) else io_timers s)\<rparr>))))"

definition FreeZ3Ovl :: "addr \<Rightarrow> io \<Rightarrow> io outcome" where
  "FreeZ3Ovl p s = (if ovls s p = None then Inl OutOfBounds else Inr (s\<lparr>ovls := (ovls s)(p := None)\<rparr>))"

definition SetFileHandle :: "addr \<Rightarrow> io \<Rightarrow> io outcome" where
  "SetFileHandle a s =
     (case io_objs s a of
        None \<Rightarrow> Inl OutOfBounds
      | Some ob \<Rightarrow> bindE (assertE (\<not> hFileHandle ob)) (\<lambda>_. Inr (s\<lparr>io_objs := (io_objs s)(a \<mapsto> ob\<lparr>hFileHandle := True\<rparr>)\<rparr>)))"

text \<open>\<open>e\<close> is the error of \<open>PostQueuedCompletionStatus\<close>; without a port there is one.\<close>

definition PostCompletionStatus :: "u32 \<Rightarrow> addr \<Rightarrow> io \<Rightarrow> result \<times> io" where
  "PostCompletionStatus e p s = (if e = 0 \<and> hIOCP s then (EOK, s\<lparr>io_port := io_port s @ [p]\<rparr>) else (sys_error e, s))"

text \<open>What \<open>Start\<close> and \<open>Stop\<close> share.\<close>

definition post_event :: "winsock \<Rightarrow> u32 \<Rightarrow> ev_id \<Rightarrow> addr \<Rightarrow> addr \<Rightarrow> io \<Rightarrow> (result \<times> io) outcome" where
  "post_event w e evID a p s =
     bindE (IOEndpoint_AllocZ3Ovl w evID 0 a p s) (\<lambda>(pZ3Ovl, s1).
     bindE (assertE (pZ3Ovl \<noteq> None)) (\<lambda>_.
       case PostCompletionStatus e p s1 of (iRet, s2) \<Rightarrow>
         if iRet \<noteq> EOK then bindE (FreeZ3Ovl p s2) (\<lambda>s3. Inr (iRet, s3)) else Inr (iRet, s2)))"

definition IOCPObj_Start :: "winsock \<Rightarrow> u32 \<Rightarrow> bool \<Rightarrow> addr \<Rightarrow> addr \<Rightarrow> io \<Rightarrow> (result \<times> io) outcome" where
  "IOCPObj_Start w e pNotifyQueue a p s =
     (case io_objs s a of
        None \<Rightarrow> Inl OutOfBounds
      | Some ob \<Rightarrow> post_event w e EV_INSTANCE_START a p (s\<lparr>io_objs := (io_objs s)(a \<mapsto> ob\<lparr>hNotifyQueue := pNotifyQueue\<rparr>)\<rparr>))"

definition IOCPObj_Stop :: "winsock \<Rightarrow> u32 \<Rightarrow> addr \<Rightarrow> addr \<Rightarrow> io \<Rightarrow> (result \<times> io) outcome" where
  "IOCPObj_Stop w e a p s = post_event w e EV_INSTANCE_STOP a p s"

text \<open>What \<open>AsyncConnect\<close>, \<open>AsyncTCPRead\<close>, \<open>AsyncTCPWrite\<close> and \<open>AsyncUDPRead\<close> do with the structure, once the socket has been found to be
  open. The answer is that of the call of Windows. When it refuses the operation the structure is neither freed nor is its timer
  cancelled.\<close>

definition AsyncOp :: "winsock \<Rightarrow> u32 \<Rightarrow> ev_id \<Rightarrow> u32 \<Rightarrow> addr \<Rightarrow> addr \<Rightarrow> io \<Rightarrow> (result \<times> io) outcome" where
  "AsyncOp w answer evID millseconds a p s =
     bindE (IOEndpoint_AllocZ3Ovl w evID millseconds a p s) (\<lambda>(pZ3Ovl, s1).
       if pZ3Ovl = None then Inr (Z3 Z3_ENOMEM, s1)
       else if posted answer then Inr (EOK, s1\<lparr>pending := insert p (pending s1)\<rparr>)
       else Inr (wsa_error answer, s1))"

text \<open>\<open>CancelIoEx\<close> may come too late; the operation ends in any case.\<close>

definition CancelIO :: "io_ovl \<Rightarrow> unit outcome" where
  "CancelIO z = assertE (iocp_handle z)"

definition SocketObj_OnTimer :: "io_ovl \<Rightarrow> unit outcome" where
  "SocketObj_OnTimer z = (if ovl_id z \<in> {EV_READ, EV_WRITE, EV_CONNECT} then CancelIO z else Inr ())"

section \<open>Threads\<close>

definition locked :: "addr \<Rightarrow> io \<Rightarrow> bool" where
  "locked a s \<longleftrightarrow> (case busy s of Some (_, b, l) \<Rightarrow> l \<and> b = a | None \<Rightarrow> False)"

text \<open>\<open>TimerEngine::TimerCallBack\<close>, when the lock of the object is free.\<close>

definition timer_call :: "addr \<Rightarrow> io \<Rightarrow> io outcome" where
  "timer_call p s =
     (let s1 = s\<lparr>io_timers := io_timers s - {p}\<rparr> in
      case ovls s p of
        None \<Rightarrow> Inl OutOfBounds
      | Some z \<Rightarrow> if io_objs s (ovl_data z) = None then Inl OutOfBounds else bindE (SocketObj_OnTimer z) (\<lambda>_. Inr s1))"

definition Engine_OnThreadStart :: "bool \<Rightarrow> io \<Rightarrow> io outcome" where
  "Engine_OnThreadStart iocp s =
     bindE (assertE (ev_items s = None)) (\<lambda>_.
     bindE (assertE (\<not> hIOCP s)) (\<lambda>_. Inr (s\<lparr>ev_items := Some [], hIOCP := iocp\<rparr>)))"

text \<open>\<open>Engine::RunOnce\<close> writes the result of the operation into the structure and puts it into the queue.\<close>

definition Engine_Dispatch :: "io \<Rightarrow> io outcome" where
  "Engine_Dispatch s =
     bindE (assertE (hIOCP s)) (\<lambda>_.
       case io_port s of
         [] \<Rightarrow> Inr s
       | p # ps \<Rightarrow>
           if ovls s p = None then Inl OutOfBounds
           else (case ev_items s of None \<Rightarrow> Inl NullDeref | Some is \<Rightarrow> Inr (s\<lparr>io_port := ps, ev_items := Some (is @ [p])\<rparr>)))"

text \<open>\<open>Engine::OnThreadStop\<close>: what the port still has is lost with it, and what the queue has is freed.\<close>

fun free_items :: "addr list \<Rightarrow> io \<Rightarrow> io outcome" where
  "free_items [] s = Inr s"
| "free_items (p # ps) s =
     (case ovls s p of
        None \<Rightarrow> Inl OutOfBounds
      | Some z \<Rightarrow> if io_objs s (ovl_data z) = None then Inl OutOfBounds else bindE (FreeZ3Ovl p s) (free_items ps))"

definition Engine_OnThreadStop :: "io \<Rightarrow> io outcome" where
  "Engine_OnThreadStop s =
     bindE (assertE (hIOCP s)) (\<lambda>_.
       case ev_items s of
         None \<Rightarrow> Inl NullDeref
       | Some is \<Rightarrow> bindE (free_items is (s\<lparr>hIOCP := False, io_port := []\<rparr>)) (\<lambda>s'. Inr (s'\<lparr>ev_items := None\<rparr>)))"

text \<open>\<open>Executor::RunOnce\<close> in three parts: until the handler begins, until the lock is given back, and until the structure is freed. What
  the handler does are the actions of the object in between.\<close>

definition Executor_begin :: "winsock \<Rightarrow> addr \<Rightarrow> io \<Rightarrow> io outcome" where
  "Executor_begin w p s =
     (case ovls s p of
        None \<Rightarrow> Inl OutOfBounds
      | Some z \<Rightarrow>
          if io_objs s (ovl_data z) = None then Inl OutOfBounds
          else let r = CancelTimer w \<lparr>ovl_id = ovl_id z, ovl_timer = ovl_timer z\<rparr> in
            Inr (s\<lparr>ovls := (ovls s)(p \<mapsto> z\<lparr>ovl_timer := ovl_timer (snd r)\<rparr>),
              io_timers := (if fst r = EOK then io_timers s - {p} else io_timers s), busy := Some (p, ovl_data z, True)\<rparr>))"

definition Executor_free :: "addr \<Rightarrow> addr \<Rightarrow> io \<Rightarrow> io outcome" where
  "Executor_free p a s = (if io_objs s a = None then Inl OutOfBounds else FreeZ3Ovl p (s\<lparr>busy := None\<rparr>))"

datatype io_act =
    I_EngineStart bool
  | I_EngineStop
  | I_New addr                         \<comment> \<open>an object is made, which asserts that there is a port\<close>
  | I_Delete addr                      \<comment> \<open>its last reference is given up\<close>
  | I_Handle addr                      \<comment> \<open>\<open>SetFileHandle\<close>\<close>
  | I_Start addr addr u32
  | I_Stop addr addr u32
  | I_Op ev_id u32 addr addr u32       \<comment> \<open>event, timeout, object, structure, answer of Windows\<close>
  | I_Complete addr
  | I_Timer addr
  | I_Engine
  | I_Begin
  | I_Unlock
  | I_Free

definition fresh_ovl :: "addr \<Rightarrow> io \<Rightarrow> bool" where
  "fresh_ovl p s \<longleftrightarrow> ovls s p = None"

definition guarded :: "bool \<Rightarrow> io outcome \<Rightarrow> io outcome option" where
  "guarded b r = (if b then Some r else None)"

text \<open>\<open>None\<close>: the action cannot happen now. Deleting an object takes its lock, as does the callback of a timer. The engine is stopped behind its
  executors, and its thread runs while it has its port.\<close>

fun io_do :: "winsock \<Rightarrow> io_act \<Rightarrow> io \<Rightarrow> io outcome option" where
  "io_do w (I_EngineStart iocp) s = Some (Engine_OnThreadStart iocp s)"
| "io_do w I_EngineStop s = guarded (busy s = None) (Engine_OnThreadStop s)"
| "io_do w (I_New a) s = guarded (io_objs s a = None)
     (bindE (assertE (hIOCP s)) (\<lambda>_. Inr (s\<lparr>io_objs := (io_objs s)(a \<mapsto> \<lparr>hFileHandle = False, hNotifyQueue = False, pTimerEngine = False\<rparr>)\<rparr>)))"
| "io_do w (I_Delete a) s = guarded (\<not> locked a s) (Inr (delete_obj a s))"
| "io_do w (I_Handle a) s = Some (SetFileHandle a s)"
| "io_do w (I_Start a p e) s = guarded (fresh_ovl p s) (map_sum id snd (IOCPObj_Start w e True a p s))"
| "io_do w (I_Stop a p e) s = guarded (fresh_ovl p s) (map_sum id snd (IOCPObj_Stop w e a p s))"
| "io_do w (I_Op ev ms a p e) s = guarded (fresh_ovl p s) (map_sum id snd (AsyncOp w e ev ms a p s))"
| "io_do w (I_Complete p) s = guarded (p \<in> pending s) (Inr (s\<lparr>pending := pending s - {p},
     io_port := (if hIOCP s then io_port s @ [p] else io_port s)\<rparr>))"
| "io_do w (I_Timer p) s = guarded (p \<in> io_timers s \<and> (\<forall>z. ovls s p = Some z \<longrightarrow> \<not> locked (ovl_data z) s)) (timer_call p s)"
| "io_do w I_Engine s = guarded (hIOCP s) (Engine_Dispatch s)"
| "io_do w I_Begin s =
     (case (busy s, ev_items s) of (None, Some (p # is)) \<Rightarrow> Some (Executor_begin w p (s\<lparr>ev_items := Some is\<rparr>)) | _ \<Rightarrow> None)"
| "io_do w I_Unlock s = (case busy s of Some (p, a, True) \<Rightarrow> Some (Inr (s\<lparr>busy := Some (p, a, False)\<rparr>)) | _ \<Rightarrow> None)"
| "io_do w I_Free s = (case busy s of Some (p, a, False) \<Rightarrow> Some (Executor_free p a s) | _ \<Rightarrow> None)"

fun io_run :: "winsock \<Rightarrow> io_act list \<Rightarrow> io \<Rightarrow> io outcome option" where
  "io_run w [] s = Some (Inr s)"
| "io_run w (a # as) s = (case io_do w a s of None \<Rightarrow> None | Some (Inl f) \<Rightarrow> Some (Inl f) | Some (Inr s') \<Rightarrow> io_run w as s')"


section \<open>Ownership\<close>

definition at_executor :: "io \<Rightarrow> addr list" where
  "at_executor s = (case busy s of None \<Rightarrow> [] | Some (p, _, _) \<Rightarrow> [p])"

definition queued_items :: "io \<Rightarrow> addr list" where
  "queued_items s = (case ev_items s of None \<Rightarrow> [] | Some is \<Rightarrow> is)"

definition on_the_way :: "io \<Rightarrow> addr list" where
  "on_the_way s = at_executor s @ queued_items s @ io_port s"

definition io_inv :: "io \<Rightarrow> bool" where
  "io_inv s \<longleftrightarrow> distinct (on_the_way s) \<and> pending s \<inter> set (on_the_way s) = {} \<and> dom (ovls s) = pending s \<union> set (on_the_way s)
     \<and> (\<forall>p z. ovls s p = Some z \<longrightarrow> io_objs s (ovl_data z) \<noteq> None)
     \<and> (\<forall>p \<in> io_timers s. p \<notin> set (at_executor s) \<and> (\<exists>z. ovls s p = Some z \<and> ovl_timer z \<and> iocp_handle z))
     \<and> (\<forall>p a l. busy s = Some (p, a, l) \<longrightarrow> (\<exists>z. ovls s p = Some z \<and> ovl_data z = a))
     \<and> (hIOCP s \<longrightarrow> ev_items s \<noteq> None) \<and> (\<not> hIOCP s \<longrightarrow> pending s = {} \<and> io_port s = [])"

text \<open>What the code would have to take care of.\<close>

fun careful :: "io_act \<Rightarrow> io \<Rightarrow> bool" where
  "careful (I_EngineStart iocp) s \<longleftrightarrow> iocp \<and> ev_items s = None \<and> \<not> hIOCP s"
| "careful I_EngineStop s \<longleftrightarrow> hIOCP s \<and> pending s = {} \<and> io_port s = [] \<and> io_timers s = {}"
| "careful (I_New a) s \<longleftrightarrow> hIOCP s"
| "careful (I_Delete a) s \<longleftrightarrow> (\<forall>p z. ovls s p = Some z \<longrightarrow> ovl_data z \<noteq> a)"
| "careful (I_Handle a) s \<longleftrightarrow> (\<exists>ob. io_objs s a = Some ob \<and> \<not> hFileHandle ob)"
| "careful (I_Start a p e) s \<longleftrightarrow> io_objs s a \<noteq> None"
| "careful (I_Stop a p e) s \<longleftrightarrow> io_objs s a \<noteq> None"
| "careful (I_Op ev ms a p e) s \<longleftrightarrow> hIOCP s \<and> posted e \<and> (\<exists>ob. io_objs s a = Some ob \<and> (0 < ms \<and> ms < INFINITE \<longrightarrow> hFileHandle ob \<and> (pTimerEngine ob \<or> timer_users s \<noteq> Some 0)))"
| "careful _ s \<longleftrightarrow> True"

fun careful_run :: "winsock \<Rightarrow> io_act list \<Rightarrow> io \<Rightarrow> bool" where
  "careful_run w [] s = True"
| "careful_run w (a # as) s = (careful a s \<and> (case io_do w a s of Some (Inr s') \<Rightarrow> careful_run w as s' | _ \<Rightarrow> True))"

lemmas io_places = on_the_way_def at_executor_def queued_items_def

lemma guarded_Some [simp]: "guarded b r = Some x \<longleftrightarrow> b \<and> r = x"
  by (simp add: guarded_def)

lemma io_inv_start: "io_inv io_start"
  by (simp add: io_inv_def io_start_def io_places)

lemma free_items_ok:
  "distinct ps \<Longrightarrow> \<forall>p \<in> set ps. \<exists>z. ovls s p = Some z \<and> io_objs s (ovl_data z) \<noteq> None \<Longrightarrow>
    free_items ps s = Inr (s\<lparr>ovls := (ovls s) |` (- set ps)\<rparr>)"
proof (induction ps arbitrary: s)
  case (Cons p ps)
  then obtain z where z: "ovls s p = Some z" "io_objs s (ovl_data z) \<noteq> None" by auto
  let ?s = "s\<lparr>ovls := (ovls s)(p := None)\<rparr>"
  have "\<exists>z. ovls ?s q = Some z \<and> io_objs ?s (ovl_data z) \<noteq> None" if "q \<in> set ps" for q
  proof -
    have "q \<noteq> p" using Cons.prems(1) that by auto
    then show ?thesis using Cons.prems(2) that by simp
  qed
  then have "free_items ps ?s = Inr (?s\<lparr>ovls := (ovls ?s) |` (- set ps)\<rparr>)" using Cons.prems(1) by (intro Cons.IH) auto
  moreover have "((ovls s)(p := None)) |` (- set ps) = (ovls s) |` (- set (p # ps))" by (auto simp: restrict_map_def fun_eq_iff)
  ultimately show ?case using z by (simp add: FreeZ3Ovl_def)
qed (simp add: restrict_map_def)

lemma use_timers_Inr:
  assumes "use_timers a ob s = Inr s1" "io_objs s a = Some ob"
  shows "ovls s1 = ovls s" "io_timers s1 = io_timers s" "pending s1 = pending s" "busy s1 = busy s" "ev_items s1 = ev_items s" "io_port s1 = io_port s"
    "hIOCP s1 = hIOCP s" "on_the_way s1 = on_the_way s" "at_executor s1 = at_executor s" "io_objs s b = None \<longleftrightarrow> io_objs s1 b = None"
  using assms by (auto simp: use_timers_def io_places split: if_splits)

lemma delete_obj_same:
  "ovls (delete_obj a s) = ovls s" "pending (delete_obj a s) = pending s" "hIOCP (delete_obj a s) = hIOCP s" "busy (delete_obj a s) = busy s"
  "ev_items (delete_obj a s) = ev_items s" "io_port (delete_obj a s) = io_port s"
  "on_the_way (delete_obj a s) = on_the_way s" "at_executor (delete_obj a s) = at_executor s"
  "io_objs (delete_obj a s) = (io_objs s)(a := None)" "io_timers (delete_obj a s) \<subseteq> io_timers s"
  by (auto simp: delete_obj_def io_places split: option.splits)

lemma AllocZ3Ovl_Some:
  "w_calloc w \<Longrightarrow> AllocZ3Ovl w ev ms = Some \<lparr>ovl_id = ev, ovl_timer = (0 < ms \<and> ms < INFINITE)\<rparr>"
  by (simp add: AllocZ3Ovl_def)

text \<open>The results are those of the operations in theory \<open>Sockets\<close>.\<close>

lemma AsyncOp_results:
  assumes "m_hSocket sock" "io_objs s a \<noteq> None" "timer_users s \<noteq> Some 0"
  shows "map_sum id fst (AsyncOp w (w_recv w) EV_READ SOCKET_READ_TIMEOUT a p s) = Inr (fst (AsyncTCPRead w ms sock))"
    "map_sum id fst (AsyncOp w (w_recv w) EV_READ SOCKET_READ_TIMEOUT a p s) = Inr (fst (AsyncUDPRead w ms sock))"
    "buf \<noteq> [] \<Longrightarrow> map_sum id fst (AsyncOp w (w_send w buf) EV_WRITE SOCKET_WRITE_TIMEOUT a p s) = Inr (fst (AsyncTCPWrite w ms buf sock))"
  using assms by (auto simp: AsyncOp_def IOEndpoint_AllocZ3Ovl_def AsyncTCPRead_def AsyncUDPRead_def AsyncTCPWrite_def use_timers_def split: option.splits)

lemma post_event_inv:
  assumes "w_calloc w" "io_inv s" "io_objs s a \<noteq> None" "ovls s p = None"
  shows "\<exists>r s'. post_event w e ev a p s = Inr (r, s') \<and> io_inv s'"
proof -
  obtain ob where ob: "io_objs s a = Some ob" using assms(3) by auto
  have p: "p \<notin> pending s" "p \<notin> set (on_the_way s)" "p \<notin> io_timers s" using assms(2,4) by (auto simp: io_inv_def)
  show ?thesis
  proof (cases "e = 0 \<and> hIOCP s")
    case True
    let ?s = "s\<lparr>ovls := (ovls s)(p \<mapsto> \<lparr>ovl_id = ev, ovl_timer = False, iocp_handle = hFileHandle ob, ovl_data = a\<rparr>), io_port := io_port s @ [p]\<rparr>"
    have "post_event w e ev a p s = Inr (EOK, ?s)"
      using True ob assms(1) by (simp add: post_event_def IOEndpoint_AllocZ3Ovl_def AllocZ3Ovl_Some PostCompletionStatus_def)
    moreover have "io_inv ?s" using assms(2,3) p True by (auto simp: io_inv_def io_places split: option.splits)
    ultimately show ?thesis by blast
  next
    case False
    have "(ovls s)(p := None) = ovls s" using assms(4) by (simp add: fun_upd_idem)
    then have "post_event w e ev a p s = Inr (sys_error e, s)"
      using False ob assms(1) by (auto simp: post_event_def IOEndpoint_AllocZ3Ovl_def AllocZ3Ovl_Some PostCompletionStatus_def FreeZ3Ovl_def sys_error_def)
    then show ?thesis using assms(2) by blast
  qed
qed

lemma AsyncOp_inv:
  assumes "w_calloc w" "io_inv s" "careful (I_Op ev ms a p e) s" "ovls s p = None"
  shows "\<exists>r s'. AsyncOp w e ev ms a p s = Inr (r, s') \<and> io_inv s'"
proof -
  obtain ob where ob: "io_objs s a = Some ob" "0 < ms \<and> ms < INFINITE \<longrightarrow> hFileHandle ob \<and> (pTimerEngine ob \<or> timer_users s \<noteq> Some 0)" "hIOCP s" "posted e" using assms(3) by auto
  have p: "p \<notin> pending s" "p \<notin> set (on_the_way s)" "p \<notin> io_timers s" using assms(2,4) by (auto simp: io_inv_def)
  let ?t = "0 < ms \<and> ms < INFINITE"
  let ?z = "\<lparr>ovl_id = ev, ovl_timer = ?t, iocp_handle = hFileHandle ob, ovl_data = a\<rparr>"
  have "\<exists>s1. (if ?t then use_timers a ob s else Inr s) = Inr s1" using ob by (auto simp: use_timers_def)
  then obtain s1 where s1: "(if ?t then use_timers a ob s else Inr s) = Inr s1" ..
  have eq: "s1 = s \<or> use_timers a ob s = Inr s1" using s1 by (cases ?t) simp_all
  have same: "ovls s1 = ovls s" "io_timers s1 = io_timers s" "pending s1 = pending s" "busy s1 = busy s" "ev_items s1 = ev_items s"
    "io_port s1 = io_port s" "hIOCP s1 = hIOCP s" using eq use_timers_Inr(1-7) [OF _ ob(1)] by blast+
  have objs: "io_objs s b = None \<longleftrightarrow> io_objs s1 b = None" for b using eq use_timers_Inr(10) [OF _ ob(1)] by blast
  let ?s = "s1\<lparr>ovls := (ovls s)(p \<mapsto> ?z), io_timers := (if ?t then insert p (io_timers s) else io_timers s), pending := insert p (pending s)\<rparr>"
  have run: "AsyncOp w e ev ms a p s = Inr (EOK, ?s)"
    using ob s1 by (simp add: AsyncOp_def IOEndpoint_AllocZ3Ovl_def AllocZ3Ovl_Some [OF assms(1)] same)
  have way: "on_the_way ?s = on_the_way s" "at_executor ?s = at_executor s" by (simp_all add: io_places same)
  have "p \<notin> set (at_executor s)" using p by (simp add: on_the_way_def)
  moreover have "io_objs s1 a \<noteq> None" using objs [of a] ob(1) by simp
  ultimately have "io_inv ?s" using assms(2) ob p objs unfolding io_inv_def way by (auto simp: same)
  then show ?thesis using run by blast
qed

lemma io_invD:
  assumes "io_inv s"
  shows "ovls s p = Some z \<Longrightarrow> io_objs s (ovl_data z) \<noteq> None" "p \<in> set (on_the_way s) \<Longrightarrow> ovls s p \<noteq> None"
    "busy s = Some (p, a, l) \<Longrightarrow> \<exists>z. ovls s p = Some z \<and> ovl_data z = a"
    "p \<in> io_timers s \<Longrightarrow> ovls s p \<noteq> None \<and> p \<notin> set (at_executor s)"
  using assms by (auto simp: io_inv_def)

lemma EngineStop_inv:
  assumes i: "io_inv s" and c: "careful I_EngineStop s" "busy s = None"
  shows "\<exists>s'. Engine_OnThreadStop s = Inr s' \<and> io_inv s'"
proof -
  obtain ps where ps: "ev_items s = Some ps" using i c(1) by (auto simp: io_inv_def)
  have way: "on_the_way s = ps" using ps c by (simp add: io_places)
  let ?s = "s\<lparr>hIOCP := False, io_port := []\<rparr>"
  have "\<exists>z. ovls s p = Some z \<and> io_objs s (ovl_data z) \<noteq> None" if "p \<in> set ps" for p
    using io_invD(1,2) [OF i] that way by blast
  moreover have "distinct ps" using i way by (simp add: io_inv_def)
  ultimately have "free_items ps ?s = Inr (?s\<lparr>ovls := (ovls ?s) |` (- set ps)\<rparr>)" by (intro free_items_ok) simp_all
  moreover have "(ovls s) |` (- set ps) = Map.empty" using i c(1) way by (auto simp: io_inv_def restrict_map_def fun_eq_iff)
  ultimately have "Engine_OnThreadStop s = Inr (s\<lparr>hIOCP := False, io_port := [], ovls := Map.empty, ev_items := None\<rparr>)"
    using c(1) ps by (simp add: Engine_OnThreadStop_def)
  moreover have "io_inv (s\<lparr>hIOCP := False, io_port := [], ovls := Map.empty, ev_items := None\<rparr>)"
    using c by (simp add: io_inv_def io_places)
  ultimately show ?thesis by blast
qed

lemma Engine_inv:
  assumes i: "io_inv s" and h: "hIOCP s"
  shows "\<exists>s'. Engine_Dispatch s = Inr s' \<and> io_inv s'"
proof (cases "io_port s")
  case Nil
  then show ?thesis using i h by (simp add: Engine_Dispatch_def)
next
  case (Cons p ps)
  obtain es where es: "ev_items s = Some es" using i h by (auto simp: io_inv_def)
  let ?s = "s\<lparr>io_port := ps, ev_items := Some (es @ [p])\<rparr>"
  have "p \<in> set (on_the_way s)" using Cons by (simp add: on_the_way_def)
  then have "Engine_Dispatch s = Inr ?s" using io_invD(2) [OF i] Cons h es by (simp add: Engine_Dispatch_def)
  moreover have way: "on_the_way ?s = on_the_way s" "at_executor ?s = at_executor s" using Cons es by (simp_all add: io_places)
  have "io_inv ?s" using i h unfolding io_inv_def way by simp
  ultimately show ?thesis by blast
qed

lemma Begin_inv:
  assumes "w_delete_timer w = None" "io_inv s" "busy s = None" "ev_items s = Some (p # ps)"
  shows "\<exists>s'. Executor_begin w p (s\<lparr>ev_items := Some ps\<rparr>) = Inr s' \<and> io_inv s'"
proof -
  have "p \<in> set (on_the_way s)" using assms(4) by (simp add: io_places)
  then obtain z where z: "ovls s p = Some z" "io_objs s (ovl_data z) \<noteq> None" using io_invD(1,2) [OF assms(2)] by blast
  then show ?thesis using assms
    by (auto simp: Executor_begin_def CancelTimer_def io_inv_def io_places split: if_splits)
qed

lemma Timer_inv:
  assumes "io_inv s" "p \<in> io_timers s"
  shows "\<exists>s'. timer_call p s = Inr s' \<and> io_inv s'"
proof -
  let ?s = "s\<lparr>io_timers := io_timers s - {p}\<rparr>"
  obtain z where z: "ovls s p = Some z" "iocp_handle z" using assms by (auto simp: io_inv_def)
  then have "timer_call p s = Inr ?s" using io_invD(1) [OF assms(1) z(1)] by (simp add: timer_call_def SocketObj_OnTimer_def CancelIO_def)
  moreover have way: "on_the_way ?s = on_the_way s" "at_executor ?s = at_executor s" by (simp_all add: io_places)
  have "io_inv ?s" using assms(1) unfolding io_inv_def way by simp
  ultimately show ?thesis by blast
qed

lemma io_do_inv:
  assumes w: "w_calloc w" "w_delete_timer w = None" and i: "io_inv s" and c: "careful act s" and d: "io_do w act s = Some r"
  shows "\<exists>s'. r = Inr s' \<and> io_inv s'"
proof (cases act)
  case (I_Start a p e)
  then obtain ob where ob: "io_objs s a = Some ob" using c by auto
  let ?s = "s\<lparr>io_objs := (io_objs s)(a \<mapsto> ob\<lparr>hNotifyQueue := True\<rparr>)\<rparr>"
  have "io_inv ?s" using i by (simp add: io_inv_def io_places)
  then show ?thesis using post_event_inv [OF w(1), of ?s a p e EV_INSTANCE_START] d ob I_Start
    by (auto simp: IOCPObj_Start_def fresh_ovl_def)
next
  case (I_Stop a p e)
  then show ?thesis using post_event_inv [OF w(1) i, of a p e EV_INSTANCE_STOP] c d by (auto simp: IOCPObj_Stop_def fresh_ovl_def)
next
  case (I_Op ev ms a p e)
  then show ?thesis using AsyncOp_inv [OF w(1) i, of ev ms a p e] c d by (auto simp: fresh_ovl_def)
next
  case I_EngineStop
  then show ?thesis using EngineStop_inv [OF i] c d by auto
next
  case I_Begin
  then show ?thesis using Begin_inv [OF w(2) i] d by (auto split: option.splits list.splits)
next
  case (I_Timer p)
  then show ?thesis using Timer_inv [OF i] d by auto
next
  case I_Free
  then obtain p a where b: "busy s = Some (p, a, False)" and r: "r = Executor_free p a s" using d
    by (auto split: option.splits bool.splits)
  obtain z where z: "ovls s p = Some z" "ovl_data z = a" using io_invD(3) [OF i b] by blast
  then have "r = Inr (s\<lparr>busy := None, ovls := (ovls s)(p := None)\<rparr>)" using io_invD(1) [OF i z(1)] r
    by (simp add: Executor_free_def FreeZ3Ovl_def)
  moreover have "io_inv (s\<lparr>busy := None, ovls := (ovls s)(p := None)\<rparr>)" using i b by (auto simp: io_inv_def io_places)
  ultimately show ?thesis by blast
next
  case I_Unlock
  then obtain p a where "busy s = Some (p, a, True)" "r = Inr (s\<lparr>busy := Some (p, a, False)\<rparr>)" using d
    by (auto split: option.splits bool.splits)
  then show ?thesis using i by (auto simp: io_inv_def io_places)
next
  case I_Engine
  then show ?thesis using Engine_inv [OF i] d by auto
next
  case (I_Complete p)
  then have p: "p \<in> pending s" "hIOCP s" using i d by (auto simp: io_inv_def)
  let ?s = "s\<lparr>pending := pending s - {p}, io_port := io_port s @ [p]\<rparr>"
  have way: "on_the_way ?s = on_the_way s @ [p]" "at_executor ?s = at_executor s" by (simp_all add: io_places)
  have "io_inv ?s" using i p unfolding io_inv_def way by auto
  then show ?thesis using d p I_Complete by auto
next
  case (I_EngineStart b)
  then show ?thesis using i c d by (auto simp: Engine_OnThreadStart_def io_inv_def io_places)
next
  case (I_New a)
  then show ?thesis using i c d by (auto simp: io_inv_def io_places)
next
  case (I_Delete a)
  have d': "r = Inr (delete_obj a s)" "\<And>p z. ovls s p = Some z \<Longrightarrow> ovl_data z \<noteq> a" using c d I_Delete by auto
  have "io_inv (delete_obj a s)" using i d'(2) delete_obj_same(10) [of a s] unfolding io_inv_def delete_obj_same(1-9) by auto
  then show ?thesis using d' by blast
next
  case (I_Handle a)
  then show ?thesis using i c d by (auto simp: SetFileHandle_def io_inv_def io_places split: if_splits)
qed

lemma io_run_inv:
  assumes w: "w_calloc w" "w_delete_timer w = None"
  shows "io_inv s \<Longrightarrow> careful_run w as s \<Longrightarrow> io_run w as s = Some r \<Longrightarrow> \<exists>s'. r = Inr s' \<and> io_inv s'"
proof (induction as arbitrary: s)
  case (Cons act as)
  then obtain x where x: "io_do w act s = Some x" by (auto split: option.splits)
  then obtain s' where "x = Inr s'" "io_inv s'" using io_do_inv [OF w Cons.prems(1) _ x] Cons.prems(2) by auto
  then show ?case using Cons x by auto
qed auto

text \<open>A structure that nobody but a timer refers to.\<close>

definition leaked :: "addr \<Rightarrow> io \<Rightarrow> bool" where
  "leaked p s \<longleftrightarrow> ovls s p \<noteq> None \<and> p \<notin> pending s \<and> p \<notin> set (on_the_way s)"

lemma leaked_free_items: "free_items ps s = Inr s' \<Longrightarrow> p \<notin> set ps \<Longrightarrow> ovls s p \<noteq> None \<Longrightarrow>
    ovls s' p \<noteq> None \<and> pending s' = pending s \<and> busy s' = busy s \<and> io_port s' = io_port s"
proof (induction ps arbitrary: s)
  case (Cons q ps)
  then show ?case using Cons.IH [of "s\<lparr>ovls := (ovls s)(q := None)\<rparr>"] by (auto simp: FreeZ3Ovl_def split: option.splits if_splits)
qed simp

lemma alloc_leaked:
  assumes "IOEndpoint_AllocZ3Ovl w ev ms a q s = Inr (r, s')" "leaked p s" "ovls s q = None"
  shows "leaked p s' \<and> p \<noteq> q \<and> ovls s' p \<noteq> None \<and> pending s' = pending s \<and> on_the_way s' = on_the_way s"
proof -
  have pq: "p \<noteq> q" using assms(2,3) by (auto simp: leaked_def)
  obtain ob where ob: "io_objs s a = Some ob" using assms(1) by (auto simp: IOEndpoint_AllocZ3Ovl_def split: option.splits)
  show ?thesis
  proof (cases "AllocZ3Ovl w ev ms")
    case None
    then have "s' = s" using assms(1) ob by (simp add: IOEndpoint_AllocZ3Ovl_def)
    then show ?thesis using pq assms(2) by (simp add: leaked_def)
  next
    case (Some z)
    let ?z = "\<lparr>ovl_id = ovl_id z, ovl_timer = ovl_timer z, iocp_handle = hFileHandle ob, ovl_data = a\<rparr>"
    have "\<exists>s1. (if ovl_timer z then use_timers a ob s else Inr s) = Inr s1
      \<and> s' = s1\<lparr>ovls := (ovls s)(q \<mapsto> ?z), io_timers := (if ovl_timer z then insert q (io_timers s) else io_timers s)\<rparr>"
      using assms(1) by (cases "ovl_timer z") (auto simp add: IOEndpoint_AllocZ3Ovl_def ob Some bindE_Inr_iff)
    then obtain s1 where s1: "(if ovl_timer z then use_timers a ob s else Inr s) = Inr s1"
      "s' = s1\<lparr>ovls := (ovls s)(q \<mapsto> ?z), io_timers := (if ovl_timer z then insert q (io_timers s) else io_timers s)\<rparr>" by blast
    have "s1 = s \<or> use_timers a ob s = Inr s1" using s1(1) by (cases "ovl_timer z") simp_all
    then have "pending s1 = pending s" "on_the_way s1 = on_the_way s" using use_timers_Inr(3,8) [OF _ ob] by blast+
    moreover have "on_the_way s' = on_the_way s1" using s1(2) by (simp add: io_places)
    ultimately show ?thesis using s1(2) pq assms(2) by (simp add: leaked_def)
  qed
qed

lemma post_event_leaked:
  assumes "post_event w e ev a q s = Inr (r, s')" "leaked p s" "ovls s q = None"
  shows "leaked p s'"
proof -
  obtain o1 s1 where s1: "IOEndpoint_AllocZ3Ovl w ev 0 a q s = Inr (o1, s1)" using assms(1) by (auto simp: post_event_def bindE_Inr_iff)
  have "leaked p s1" "p \<noteq> q" using alloc_leaked [OF s1 assms(2,3)] by auto
  then show ?thesis using assms(1) s1
    by (auto simp: post_event_def PostCompletionStatus_def FreeZ3Ovl_def leaked_def io_places bindE_Inr_iff split: if_splits)
qed

lemma leaked_step:
  assumes "io_do w act s = Some (Inr s')" and l: "leaked p s"
  shows "leaked p s'"
proof (cases act)
  case (I_Start a q e)
  then obtain ob r where "post_event w e EV_INSTANCE_START a q (s\<lparr>io_objs := (io_objs s)(a \<mapsto> ob)\<rparr>) = Inr (r, s')" "ovls s q = None"
    using assms(1) by (auto simp: IOCPObj_Start_def fresh_ovl_def map_sum_Inr_iff split: option.splits)
  moreover have "leaked p (s\<lparr>io_objs := (io_objs s)(a \<mapsto> ob)\<rparr>)" using l by (simp add: leaked_def io_places)
  ultimately show ?thesis using post_event_leaked by fastforce
next
  case (I_Stop a q e)
  then obtain r where "post_event w e EV_INSTANCE_STOP a q s = Inr (r, s')" "ovls s q = None"
    using assms(1) by (auto simp: IOCPObj_Stop_def fresh_ovl_def map_sum_Inr_iff)
  then show ?thesis using post_event_leaked l by blast
next
  case (I_Op ev ms a q e)
  then obtain r where o: "AsyncOp w e ev ms a q s = Inr (r, s')" "ovls s q = None" using assms(1) by (auto simp: fresh_ovl_def map_sum_Inr_iff)
  then obtain o1 s1 where s1: "IOEndpoint_AllocZ3Ovl w ev ms a q s = Inr (o1, s1)" by (auto simp: AsyncOp_def bindE_Inr_iff)
  show ?thesis using alloc_leaked [OF s1 l o(2)] o(1) s1 by (auto simp: AsyncOp_def leaked_def io_places split: if_splits)
next
  case I_EngineStop
  then obtain ps s1 where ps: "ev_items s = Some ps" "free_items ps (s\<lparr>hIOCP := False, io_port := []\<rparr>) = Inr s1" "s' = s1\<lparr>ev_items := None\<rparr>"
    using assms(1) by (auto simp: Engine_OnThreadStop_def bindE_Inr_iff split: option.splits)
  moreover have "p \<notin> set ps" "ovls s p \<noteq> None" using l ps(1) by (auto simp: leaked_def io_places)
  ultimately show ?thesis using leaked_free_items [OF ps(2), of p] l by (auto simp: leaked_def io_places)
next
  case I_Begin
  then show ?thesis using assms by (auto simp: Executor_begin_def leaked_def io_places Let_def split: option.splits list.splits if_splits)
next
  case I_Free
  then show ?thesis using assms by (auto simp: Executor_free_def FreeZ3Ovl_def leaked_def io_places split: option.splits bool.splits if_splits)
next
  case I_Engine
  then show ?thesis using assms by (auto simp: Engine_Dispatch_def leaked_def io_places split: option.splits list.splits if_splits)
next
  case (I_Timer q)
  then show ?thesis using assms by (auto simp: timer_call_def leaked_def io_places bindE_Inr_iff Let_def split: option.splits if_splits)
next
  case I_Unlock
  then show ?thesis using assms by (auto simp: leaked_def io_places split: option.splits bool.splits)
next
  case (I_EngineStart b)
  then show ?thesis using assms by (auto simp: Engine_OnThreadStart_def leaked_def io_places bindE_Inr_iff)
next
  case (I_Delete a)
  then show ?thesis using assms by (auto simp: leaked_def delete_obj_same(1-9) simp del: io_places)
next
  case (I_Handle a)
  then show ?thesis using assms by (auto simp: SetFileHandle_def leaked_def io_places bindE_Inr_iff split: option.splits)
qed (use assms in \<open>auto simp: leaked_def io_places bindE_Inr_iff split: if_splits\<close>)

lemma leaked_run: "io_run w as s = Some (Inr s') \<Longrightarrow> leaked p s \<Longrightarrow> leaked p s'"
  by (induction as arbitrary: s) (auto split: option.splits sum.splits dest: leaked_step)

text \<open>An engine that has nothing to do, and an object that has had a timer.\<close>

definition idle :: "addr \<Rightarrow> io \<Rightarrow> bool" where
  "idle a s \<longleftrightarrow> ovls s = Map.empty \<and> (\<exists>ob. io_objs s a = Some ob \<and> pTimerEngine ob) \<and> (\<exists>n. timer_users s = Some n \<and> 0 < n) \<and> io_timers s = {} \<and> pending s = {} \<and> hIOCP s \<and> io_port s = []
     \<and> ev_items s = Some [] \<and> busy s = None"

lemmas io_defs = use_timers_def delete_obj_def IOEndpoint_AllocZ3Ovl_def FreeZ3Ovl_def PostCompletionStatus_def post_event_def IOCPObj_Start_def IOCPObj_Stop_def AsyncOp_def
  timer_call_def SocketObj_OnTimer_def CancelIO_def Engine_Dispatch_def Engine_OnThreadStart_def Engine_OnThreadStop_def Executor_begin_def
  Executor_free_def CancelTimer_def SetFileHandle_def locked_def fresh_ovl_def guarded_def posted_def WSA_IO_PENDING_def INFINITE_def
  SOCKET_READ_TIMEOUT_def

section \<open>Properties\<close>

text \<open>C30. However objects, engine, executor, timers and Windows take turns, as long as Windows accepts every operation, an object with timers has
  its file handle, an object is deleted only when no structure refers to it, and the engine stops only when nothing but its queue is
  left: nothing dies. Every structure is in one place, at Windows, in the port, in the queue or at the executor, so that none is freed
  twice or lost, no timer calls back for a structure that is gone, and every structure has its object.\<close>

theorem ovls_owned:
  assumes "w_calloc w" and "w_delete_timer w = None" and "careful_run w as io_start" and "io_run w as io_start = Some r"
  shows "\<exists>s. r = Inr s \<and> distinct (on_the_way s) \<and> pending s \<inter> set (on_the_way s) = {}
    \<and> dom (ovls s) = pending s \<union> set (on_the_way s) \<and> io_timers s \<subseteq> dom (ovls s) - set (at_executor s)
    \<and> (\<forall>p z. ovls s p = Some z \<longrightarrow> io_objs s (ovl_data z) \<noteq> None)"
proof -
  obtain s where s: "r = Inr s" "io_inv s" using io_run_inv [OF assms(1,2) io_inv_start assms(3,4)] by blast
  have "io_timers s \<subseteq> dom (ovls s) - set (at_executor s)" using io_invD(4) [OF s(2)] by (auto simp only: dom_def)
  then show ?thesis using s unfolding io_inv_def by blast
qed

theorem ovls_owned_witness:
  "\<exists>s. io_run ok_winsock [I_EngineStart True, I_New 1, I_Handle 1, I_Start 1 10 0, I_Op EV_READ 7000 1 11 997, I_Engine, I_Begin, I_Unlock,
      I_Timer 11, I_Complete 11, I_Engine, I_Free] io_start = Some (Inr s) \<and> dom (ovls s) = {11} \<and> queued_items s = [11]"
proof -
  let ?as = "[I_EngineStart True, I_New 1, I_Handle 1, I_Start 1 10 0, I_Op EV_READ 7000 1 11 997, I_Engine, I_Begin, I_Unlock,
      I_Timer 11, I_Complete 11, I_Engine, I_Free]"
  have w: "w_calloc ok_winsock" "w_delete_timer ok_winsock = None" by (simp_all add: ok_winsock_def)
  obtain s where s: "io_run ok_winsock ?as io_start = Some (Inr s)" "careful_run ok_winsock ?as io_start"
    "pending s = {}" "on_the_way s = [11]" "queued_items s = [11]"
    by (simp add: io_start_def io_defs AllocZ3Ovl_Some w io_places)
  from ovls_owned [OF w s(2,1)] s show ?thesis by auto
qed

text \<open>C31. And what happens when the code does not take care. A read or a connection that Windows refuses at once keeps its structure for
  ever, and its timer: when the object has been deleted by then, and there is another one with timers, the callback uses it. The read of a UDP
  session, which never sets a file handle, fails an assertion when its seven seconds are over. A read that completed and whose structure the
  engine frees when it stops still has its timer, which uses it. An object that is deleted when the executor has given its lock
  back is used once more, to free the structure. And when the last object with a timer is gone, the next one to start a timer uses
  the timer engine that went with it.\<close>

theorem dangling_ovls:
  assumes "idle a s" and "w_calloc w" and "w_delete_timer w = None" and "0 < ms" and "ms < INFINITE"
  shows "(\<not> posted e \<longrightarrow> (\<exists>s1. io_run w [I_Op ev ms a p e] s = Some (Inr s1)
        \<and> (\<forall>as s2. io_run w as s1 = Some (Inr s2) \<longrightarrow> ovls s2 p \<noteq> None)
        \<and> (timer_users s \<noteq> Some 1 \<longrightarrow> io_run w [I_Delete a, I_Timer p] s1 = Some (Inl OutOfBounds))))
    \<and> (\<not> hFileHandle (the (io_objs s a)) \<longrightarrow>
        io_run w [I_Op EV_READ SOCKET_READ_TIMEOUT a p WSA_IO_PENDING, I_Timer p] s = Some (Inl AssertFailed))
    \<and> io_run w [I_Op EV_READ SOCKET_READ_TIMEOUT a p WSA_IO_PENDING, I_Complete p, I_Engine, I_EngineStop, I_Timer p] s = Some (Inl OutOfBounds)
    \<and> io_run w [I_Stop a p 0, I_Engine, I_Begin, I_Unlock, I_Delete a, I_Free] s = Some (Inl OutOfBounds)
    \<and> (timer_users s = Some 1 \<longrightarrow> io_objs s b = None \<longrightarrow>
        io_run w [I_Delete a, I_New b, I_Op ev ms b p WSA_IO_PENDING] s = Some (Inl OutOfBounds))"
proof (intro conjI impI)
  obtain ob n where ob: "io_objs s a = Some ob" "pTimerEngine ob" and n: "timer_users s = Some n" "0 < n" using assms(1) by (auto simp: idle_def)
  have i: "ovls s = Map.empty" "io_timers s = {}" "pending s = {}" "hIOCP s" "io_port s = []" "ev_items s = Some []" "busy s = None"
    using assms(1) by (simp_all add: idle_def)
  note facts = i ob n AllocZ3Ovl_Some [OF assms(2)] assms(3)
  show "io_run w [I_Op EV_READ SOCKET_READ_TIMEOUT a p WSA_IO_PENDING, I_Timer p] s = Some (Inl AssertFailed)"
    if "\<not> hFileHandle (the (io_objs s a))" using facts that by (simp add: io_defs)
  show "io_run w [I_Op EV_READ SOCKET_READ_TIMEOUT a p WSA_IO_PENDING, I_Complete p, I_Engine, I_EngineStop, I_Timer p] s = Some (Inl OutOfBounds)"
    using facts by (simp add: io_defs)
  show "io_run w [I_Stop a p 0, I_Engine, I_Begin, I_Unlock, I_Delete a, I_Free] s = Some (Inl OutOfBounds)"
    using facts by (simp add: io_defs)
  show "io_run w [I_Delete a, I_New b, I_Op ev ms b p WSA_IO_PENDING] s = Some (Inl OutOfBounds)"
    if "timer_users s = Some 1" "io_objs s b = None"
    using facts that assms(4,5) by (auto simp: io_defs)
  assume e: "\<not> posted e"
  let ?s = "s\<lparr>ovls := [p \<mapsto> \<lparr>ovl_id = ev, ovl_timer = True, iocp_handle = hFileHandle ob, ovl_data = a\<rparr>], io_timers := {p}\<rparr>"
  have "io_run w [I_Op ev ms a p e] s = Some (Inr ?s)"
    using facts e assms(4,5) by (simp add: AsyncOp_def IOEndpoint_AllocZ3Ovl_def use_timers_def fresh_ovl_def guarded_def)
  moreover have "leaked p ?s" using i by (simp add: leaked_def io_places)
  then have "\<forall>as s2. io_run w as ?s = Some (Inr s2) \<longrightarrow> ovls s2 p \<noteq> None" using leaked_run by (auto simp: leaked_def)
  moreover have "io_run w [I_Delete a, I_Timer p] ?s = Some (Inl OutOfBounds)" if "timer_users s \<noteq> Some 1"
    using facts that by (simp add: guarded_def locked_def timer_call_def delete_obj_def)
  ultimately show "\<exists>s1. io_run w [I_Op ev ms a p e] s = Some (Inr s1) \<and> (\<forall>as s2. io_run w as s1 = Some (Inr s2) \<longrightarrow> ovls s2 p \<noteq> None)
        \<and> (timer_users s \<noteq> Some 1 \<longrightarrow> io_run w [I_Delete a, I_Timer p] s1 = Some (Inl OutOfBounds))" by blast
qed

theorem dangling_ovls_witness:
  "\<exists>s. io_run ok_winsock [I_EngineStart True, I_New 1, I_Op EV_READ 7000 1 10 0, I_Complete 10, I_Engine, I_Begin, I_Unlock, I_Free] io_start = Some (Inr s)
    \<and> io_run ok_winsock [I_Op EV_READ SOCKET_READ_TIMEOUT 1 10 WSA_IO_PENDING, I_Timer 10] s = Some (Inl AssertFailed)"
proof -
  have w: "w_calloc ok_winsock" "w_delete_timer ok_winsock = None" by (simp_all add: ok_winsock_def)
  obtain s where s: "io_run ok_winsock [I_EngineStart True, I_New 1, I_Op EV_READ 7000 1 10 0, I_Complete 10, I_Engine, I_Begin, I_Unlock, I_Free] io_start
      = Some (Inr s)" "idle 1 s" "\<not> hFileHandle (the (io_objs s 1))"
    by (simp add: io_start_def io_defs AllocZ3Ovl_Some w idle_def)
  from dangling_ovls [OF s(2) w, of 1 0 EV_READ 10 0] s show ?thesis by (simp add: INFINITE_def)
qed

end
