(* ===== verification/Notifications.thy ===== *)
theory Notifications
  imports RtspLifetime Clients
begin

text \<open>
  Sessions and their client: what a session tells the client through its queue (\<open>RtspSession\<close>, \<open>RtspLifetime\<close>) and what the client makes of
  it (\<open>Clients\<close>). There is no code here, only properties of the two together.
\<close>

section \<open>What sessions notify\<close>

lemma notified_WriteMsg: "WriteMsg env m s = Inr (r, s') \<Longrightarrow> notified s' = notified s"
  by (auto simp: WriteMsg_def WriteBytes_def split: option.splits if_splits prod.splits elim!: bindE_elims)

lemma notified_SendOPTIONS: "SendOPTIONS env s = Inr (r, s') \<Longrightarrow> notified s' = notified s"
  by (auto simp: SendOPTIONS_def split: option.splits if_splits prod.splits elim!: bindE_elims dest!: notified_WriteMsg)

lemma notified_SendDESCRIBE: "SendDESCRIBE env s = Inr (r, s') \<Longrightarrow> notified s' = notified s"
  by (auto simp: SendDESCRIBE_def Let_def split: option.splits if_splits prod.splits elim!: bindE_elims dest!: notified_WriteMsg)

lemma notified_SendPLAY: "SendPLAY env s = Inr (r, s') \<Longrightarrow> notified s' = notified s"
  by (auto simp: SendPLAY_def Let_def split: option.splits if_splits prod.splits elim!: bindE_elims dest!: notified_WriteMsg)

lemma notified_SendSETUP: "SendSETUP env s = Inr (r, s') \<Longrightarrow> notified s' = notified s"
  by (auto simp: SendSETUP_def Let_def split: option.splits if_splits prod.splits elim!: bindE_elims dest!: notified_WriteMsg)

lemmas notified_sends = notified_SendOPTIONS notified_SendDESCRIBE notified_SendPLAY notified_SendSETUP

lemma notified_next_request: "next_request env media s = Inr (r, s') \<Longrightarrow> notified s' = notified s"
  by (auto simp: next_request_def split: if_splits dest!: notified_sends)

lemma notified_OnOptions: "OnOptionsRespond env m s = Inr (r, s') \<Longrightarrow> notified s' = notified s"
  by (auto simp: OnOptionsRespond_def split: if_splits elim!: bindE_elims dest!: notified_sends)

lemma notified_OnDescribe: "OnDescribeRespond env m s = Inr (r, s') \<Longrightarrow> notified s' = notified s"
  by (auto simp: OnDescribeRespond_def Let_def split: if_splits option.splits prod.splits elim!: bindE_elims dest!: notified_sends)

lemma notified_OnSetup: "OnSetupRespond env m s = Inr (r, s') \<Longrightarrow> notified s' = notified s"
  by (auto simp: OnSetupRespond_def Let_def split: if_splits option.splits elim!: bindE_elims dest!: notified_next_request)

lemma notified_StartRead: "StartRead env s = (r, s') \<Longrightarrow> notified s' = notified s"
  by (auto simp: StartRead_def split: prod.splits)

lemma notified_Invoke: "InvokeStateMachine env mth m s = Inr (r, s') \<Longrightarrow> notified s' = notified s"
  by (auto simp: InvokeStateMachine_def split: if_splits prod.splits elim!: bindE_elims
    dest!: notified_OnOptions notified_OnDescribe notified_OnSetup notified_StartRead)

lemma notified_Dispatch: "Dispatch env m s = Inr (r, s') \<Longrightarrow> notified s' = notified s"
  by (auto simp: Dispatch_def split: option.splits RtspMsgObj.splits if_splits prod.splits elim!: bindE_elims dest!: notified_Invoke)

lemma notified_close: "session_close env s = Inr s' \<Longrightarrow> notified s' = notified s"
  by (auto simp: session_close_def elim!: bindE_elims)

lemma notified_NotifyError: "NotifyError env ev e s = Inr s' \<Longrightarrow> notified s' = notified s @ [(ev, e)]"
  by (auto simp: NotifyError_def Notify_def elim!: bindE_elims)

lemma notified_OnStart: "OnStart env s = Inr (r, s') \<Longrightarrow> notified s' = notified s"
  by (auto simp: OnStart_def Connect_def AsyncConnect_def Let_def split: if_splits prod.splits elim!: bindE_elims dest!: notified_close)

lemma notified_OnStop: "OnStop env s = Inr (r, s') \<Longrightarrow> notified s' = notified s"
  by (auto simp: OnStop_def Let_def split: if_splits elim!: bindE_elims)

text \<open>Sessions notify errors of reads and writes, and a connection that failed under another name.\<close>

definition notice :: "ev_id \<times> u32 \<Rightarrow> bool" where
  "notice i \<longleftrightarrow> fst i \<in> {EV_READ, EV_WRITE} \<and> snd i \<noteq> 0 \<or> i = (EV_NOTIFY, z3_rtsp_errno_code Z3_RTSP_SESSION_ECONNECT)"

lemma OnEvRead_notices:
  assumes "OnEvRead env e packet s = Inr (r, s')"
  shows "notified s' = notified s @ (if e = 0 then [] else [(EV_READ, e)])"
proof (cases "e = 0")
  case True
  then show ?thesis using assms
    by (auto simp: OnEvRead_def GetProtoParser_def Let_def split: if_splits option.splits elim!: bindE_elims dest!: notified_Dispatch)
qed (use assms in \<open>auto simp: OnEvRead_def elim!: bindE_elims dest!: notified_NotifyError notified_close\<close>)

lemma OnEvWrite_notices:
  assumes "OnEvWrite env e n s = Inr (r, s')"
  shows "notified s' = notified s @ (if e = 0 then [] else [(EV_WRITE, e)])"
  using assms by (auto simp: OnEvWrite_def WriteBytes_def split: if_splits prod.splits elim!: bindE_elims dest!: notified_NotifyError notified_close)

lemma OnConnect_notices:
  assumes "OnConnect env e s = Inr (r, s')"
  shows "notified s' = notified s @ (if e = 0 then [] else [(EV_NOTIFY, z3_rtsp_errno_code Z3_RTSP_SESSION_ECONNECT)])"
  using assms by (auto simp: OnConnect_def Notify_def split: if_splits elim!: bindE_elims dest!: notified_SendOPTIONS notified_StartRead)

lemma step_notices: "session_step env s s' \<Longrightarrow> \<forall>i \<in> set (notified s). notice i \<Longrightarrow> \<forall>i \<in> set (notified s'). notice i"
  by (erule session_stepE)
    (auto simp: notice_def split: if_splits dest!: notified_OnStart notified_OnStop OnConnect_notices OnEvRead_notices OnEvWrite_notices)

lemma steps_notices: "(session_step env)\<^sup>*\<^sup>* s s' \<Longrightarrow> notified s = [] \<Longrightarrow> \<forall>i \<in> set (notified s'). notice i"
  by (induction rule: rtranclp_induct) (auto dest: step_notices)

section \<open>What the client hears\<close>

lemma notice_harmless: "notice (ev, e) \<Longrightarrow> harmless (C_Notify a ev e) \<and> OnNotify ev e a c = Inr c"
  by (auto simp: notice_def OnNotify_def)

text \<open>A client and its sessions: every notification is one that a session made.\<close>

fun from_session :: "session_env \<Rightarrow> client_act \<Rightarrow> bool" where
  "from_session env (C_Notify a ev e) \<longleftrightarrow> (\<exists>s s'. notified s = [] \<and> (session_step env)\<^sup>*\<^sup>* s s' \<and> (ev, e) \<in> set (notified s'))"
| "from_session env _ \<longleftrightarrow> True"

definition added :: "client_act list \<Rightarrow> addr set" where
  "added as = {a. \<exists>url start. C_Add a url start \<in> set as}"

lemma from_session_harmless: "from_session env act \<Longrightarrow> harmless act"
proof (cases act)
  case (C_Notify a ev e)
  assume "from_session env act"
  then obtain s s' where "notified s = []" "(session_step env)\<^sup>*\<^sup>* s s'" "(ev, e) \<in> set (notified s')" using C_Notify by auto
  then have "notice (ev, e)" using steps_notices by blast
  then show ?thesis using notice_harmless C_Notify by blast
qed simp_all

text \<open>Whatever is in the store is in the list.\<close>

definition listed :: "RtspClient \<Rightarrow> bool" where
  "listed c \<longleftrightarrow> (\<forall>a. objects c a \<noteq> None \<longrightarrow> a \<in> set (m_lstSessions c))"

lemma client_do_lists:
  assumes "balanced c" "listed c" "harmless act" "client_do act c = Inr c'"
  shows "listed c' \<and> set (m_lstSessions c') = set (m_lstSessions c) \<union> added [act]"
proof (cases act)
  case (C_Add a url start)
  then show ?thesis using assms
    by (auto simp: listed_def added_def AddSession_def AddRef_def Let_def split: if_splits)
next
  case (C_Notify a ev e)
  then show ?thesis using assms
    by (auto simp: listed_def added_def session_Notify_def AddRef_def split: if_splits option.splits)
next
  case C_Run
  show ?thesis
  proof (cases "WaitForEV (m_pMsgQueue c)")
    case (Pair i q)
    show ?thesis
    proof (cases i)
      case (Some item)
      have "item \<in> set (m_Queue (m_pMsgQueue c))" using Pair Some
        by (auto simp: WaitForEV_def queue_simps split: list.splits if_splits)
      then have h: "n_id item \<noteq> EV_UNKNOWN" "n_id item = EV_CONNECT \<longrightarrow> n_nErrorCode item = 0" using assms(1) by (auto simp: balanced_def)
      then have "Client_RunOnce c = bindE (Release (n_data item) (objects c)) (\<lambda>h. Inr (c\<lparr>m_pMsgQueue := q, objects := h\<rparr>))"
        using Pair Some by (cases "Release (n_data item) (objects c)") (auto simp: Client_RunOnce_def OnNotify_def OBJ_RELEASE_def)
      then obtain hp where "Release (n_data item) (objects c) = Inr hp" "c' = c\<lparr>m_pMsgQueue := q, objects := hp\<rparr>"
        using assms(4) C_Run by (auto simp: bindE_Inr_iff)
      then show ?thesis using assms(2) C_Run
        by (auto simp: listed_def added_def Release_def Let_def split: option.splits if_splits)
    qed (use assms C_Run Pair in \<open>auto simp: Client_RunOnce_def listed_def added_def\<close>)
  qed
qed

lemma client_run_lists:
  "balanced c \<Longrightarrow> listed c \<Longrightarrow> \<forall>act \<in> set as. harmless act \<Longrightarrow> client_run as c = Inr c' \<Longrightarrow>
    listed c' \<and> set (m_lstSessions c') = set (m_lstSessions c) \<union> added as"
proof (induction as arbitrary: c)
  case (Cons act as)
  obtain c1 where c1: "client_do act c = Inr c1" "balanced c1" using balanced_do [OF Cons.prems(1), of act] Cons.prems(3) by auto
  then have "listed c1 \<and> set (m_lstSessions c1) = set (m_lstSessions c) \<union> added [act]"
    using client_do_lists [OF Cons.prems(1,2) _ c1(1)] Cons.prems(3) by auto
  moreover have "client_run as c1 = Inr c'" using Cons.prems(4) c1(1) by simp
  ultimately have "listed c' \<and> set (m_lstSessions c') = set (m_lstSessions c) \<union> added [act] \<union> added as"
    using Cons.IH [OF c1(2)] Cons.prems(3) by auto
  then show ?case by (auto simp: added_def)
qed (simp add: added_def)

section \<open>Properties\<close>

text \<open>C32. The client never hears of a session that cannot connect. The session notifies \<open>EV_NOTIFY\<close>, and its socket stays open; the client
  only looks at \<open>EV_CONNECT\<close>, which no session ever notifies. So whatever sessions do, and whatever errors they notify, no
  session is ever taken off the client's list: all that were added are in it until the client stops.\<close>

theorem failures_unheard:
  assumes "\<forall>act \<in> set as. from_session env act"
  shows "(\<exists>c. client_run as RtspClient_new = Inr c \<and> balanced c \<and> set (m_lstSessions c) = added as)
    \<and> (e \<noteq> 0 \<longrightarrow> Run env (Connected e) s = Inr (EOK, s\<lparr>connecting := connecting s - 1,
        notified := notified s @ [(EV_NOTIFY, z3_rtsp_errno_code Z3_RTSP_SESSION_ECONNECT)]\<rparr>))"
proof -
  have h: "\<forall>act \<in> set as. harmless act" using assms from_session_harmless by blast
  obtain c where c: "client_run as RtspClient_new = Inr c" "balanced c" using balanced_run [OF balanced_new h] by blast
  have "listed RtspClient_new" by (simp add: listed_def RtspClient_new_def)
  then have "set (m_lstSessions c) = added as" using client_run_lists [OF balanced_new _ h c(1)] by (simp add: RtspClient_new_def)
  then show ?thesis using c by (auto simp: OnConnect_def Notify_def)
qed

theorem failures_unheard_witness:
  "\<exists>c. client_run [C_Add 7 EOK EOK, C_Notify 7 EV_NOTIFY (z3_rtsp_errno_code Z3_RTSP_SESSION_ECONNECT), C_Run] RtspClient_new = Inr c
    \<and> set (m_lstSessions c) = {7}"
proof -
  let ?s = "(RtspSession_new False None)\<lparr>connecting := 1\<rparr>"
  let ?t = "?s\<lparr>connecting := 0, notified := [(EV_NOTIFY, z3_rtsp_errno_code Z3_RTSP_SESSION_ECONNECT)]\<rparr>"
  let ?env = "sample_env"
  have "Run ?env (Connected 5) ?s = Inr (EOK, ?t)" by (simp add: OnConnect_def Notify_def RtspSession_new_def)
  then have "session_step ?env ?s ?t" by (rule session_step.connected [rotated]) simp
  then have "(session_step ?env)\<^sup>*\<^sup>* ?s ?t" by (rule r_into_rtranclp)
  moreover have "notified ?s = []" by (simp add: RtspSession_new_def)
  moreover have "(EV_NOTIFY, z3_rtsp_errno_code Z3_RTSP_SESSION_ECONNECT) \<in> set (notified ?t)" by simp
  ultimately have n: "from_session ?env (C_Notify 7 EV_NOTIFY (z3_rtsp_errno_code Z3_RTSP_SESSION_ECONNECT))"
    unfolding from_session.simps by blast
  let ?as = "[C_Add 7 EOK EOK, C_Notify 7 EV_NOTIFY (z3_rtsp_errno_code Z3_RTSP_SESSION_ECONNECT), C_Run]"
  from failures_unheard [of ?as ?env 0] n have "\<exists>c. client_run ?as RtspClient_new = Inr c \<and> set (m_lstSessions c) = added ?as" by auto
  moreover have "added ?as = {7}" by (auto simp: added_def)
  ultimately show ?thesis by metis
qed

end
