(* ===== verification/Spec2Isabelle.thy ===== *)
theory Spec2Isabelle
  imports SessionThreads RtcpRules RtpSources HashTables MemoryObjects SdpMemory LogThreads Locks Overlapped Notifications
begin

text \<open>
  \<^bold>\<open>A verification library of z3_engine.\<close>

  The repository is a Windows library for asynchronous input and output (\<open>z3_engine/\<close>) with an RTSP streaming client on top of
  it (\<open>z3_rtsp_client/\<close>) and a few C utilities (\<open>z3_utilib/\<close>). A session (\<open>RtspSession\<close>) is a
  \<open>Connector\<close>, which is a \<open>SocketObj\<close>: the executor hands it completions (\<open>IOEndpoint::Run\<close>), bytes that were read go to
  \<open>RtspProtoParser::Parse\<close>, the message that comes out to \<open>RtspSession::Dispatch\<close>, and the session answers with the next of
  OPTIONS, DESCRIBE, SETUP and PLAY. The body of the DESCRIBE response is read by \<open>SDPMessage::ParseString\<close>; for each track a
  \<open>MediaSession\<close> takes a pair of ports from \<open>MediaPorts\<close> and opens two UDP sessions on it, whose datagrams
  go through \<open>RTPUDPParser::Parse\<close> into an H.264 frame.

  \<^bold>\<open>Theories and sources.\<close>
  \<^item> \<open>Z3Prelude\<close>: the ways a program can die (\<open>fault\<close>), the type \<open>'a outcome\<close> of code that can, its bind and their rules,
    bytes, C strings (\<open>cstr\<close>, \<open>atoi\<close>, \<open>stricmp_eq\<close>, \<open>snprintf_s\<close>), allocation as a parameter (\<open>alloc\<close>), result codes.
  \<^item> \<open>RtspDef\<close>: \<open>z3_rtsp_def.cpp\<close>, tables of methods and headers, scanning and squeezing of text.
  \<^item> \<open>RtspMsg\<close>: \<open>z3_rtsp_msg.cpp\<close>, header arrays, requests, responses, data packets, printing.
  \<^item> \<open>RtspParser\<close> and \<open>RtspParserMessages\<close>: \<open>z3_rtsp_proto_parser.cpp\<close>; the first has the code, the invariant of the buffer and
    termination, the second what comes out for which text.
  \<^item> \<open>MediaPorts\<close>: \<open>z3_media_ports.cpp\<close>, the bitmap, single ports and pairs; two locales state what a client may rely on and are
    interpreted on the code's operations.
  \<^item> \<open>RtpMedia\<close>: \<open>z3_rtp.hpp\<close>, \<open>z3_rtp_msg.cpp\<close>, \<open>z3_h264_frame.cpp\<close> and the parser of \<open>z3_rtp_udp_session.cpp\<close>.
  \<^item> \<open>SdpMsg\<close>: \<open>z3_sdp.cpp\<close>, the setters, the line parser and the loop over the lines. \<open>SdpMemory\<close> has the destructors, and counts the blocks
    that parsing takes and destroying gives back.
  \<^item> \<open>Sockets\<close>: \<open>z3_socket_obj.cpp\<close>, \<open>z3_io_endpoint.cpp\<close>, \<open>z3_udp_session.cpp\<close> and the dispatch of \<open>z3_rtp_udp_session.cpp\<close>.
  \<^item> \<open>Rtcp\<close>: \<open>z3_rtcp.hpp\<close>, \<open>z3_rtcp_msg.cpp\<close>, \<open>z3_rtcp_udp_session.cpp\<close>, \<open>z3_rtp_reception_stats.cpp\<close>; \<open>RtcpPackets\<close> has its properties.
  \<^item> \<open>RtcpRules\<close>: \<open>rtcp_from_spec.c\<close>, the transmission rules of RFC 3550, over any arithmetic, and what \<open>z3_rtcp_udp_session.cpp\<close> gives them. The rules
    are used three times: by participants that keep sets of members, by one whose timers run, and by the session of the repository.
  \<^item> \<open>RtpSources\<close>: \<open>rfc3550/rtp.c\<close>, the sequence numbers of a source and source descriptions.
  \<^item> \<open>RtspSession\<close>: \<open>z3_rtsp_session.cpp\<close>, \<open>z3_rtsp_media.cpp\<close>, \<open>z3_connector.cpp\<close>, \<open>IOEndpoint::Run\<close>, \<open>IOCPObj::Notify\<close>.
  \<^item> \<open>RtspRequests\<close>, \<open>RtspHandshake\<close> and \<open>RtspLifetime\<close>: no code, only properties of the session. The first has the text
    of each request; the second composes parser, session, description, ports and sockets into the handshake; the third has the step relation of a
    session (\<open>session_step\<close>), its invariant, and its errors.
  \<^item> \<open>LinkedLists\<close> and \<open>HashTables\<close>: \<open>z3_list.c\<close> and \<open>z3_hash.c\<close>, on a store of nodes; the locale \<open>data_list\<close> says what a list of data
    promises, and the hash tables and the allocator rest on its interpretation.
  \<^item> \<open>DebugAlloc\<close>: \<open>z3_alloc.c\<close>, the allocator of debug builds with the marks of its blocks, its list and its counters. \<open>MemoryObjects\<close>:
    \<open>z3_memory_obj.cpp\<close>, the operators \<open>new\<close> and \<open>delete\<close> in every build, two interpretations of the locale \<open>allocation\<close>.
  \<^item> \<open>Trace\<close> and \<open>Truck\<close>: \<open>z3_trace.c\<close>; the first has levels, prefixes, dumps and the clock, the second the thread that writes the log.
    \<open>LogThreads\<close> has that thread in the variant for pthreads, and the beginning and the end of the log.
  \<^item> \<open>AsyncQueues\<close>: \<open>z3_async_queue.hpp\<close>, and two locales, \<open>mailbox\<close> and \<open>waking_mailbox\<close>, for what queues between threads promise. The
    queue is an instance of both; the log, in both variants, and the executor are instances of the first.
  \<^item> \<open>Executors\<close>: \<open>z3_engine.cpp\<close>, \<open>z3_executor.cpp\<close> and \<open>z3_timer_obj.cpp\<close>, the way of a completion from the port to its object.
  \<^item> \<open>SessionThreads\<close>: \<open>Connector::OnEvCompleted\<close>; the session of \<open>RtspSession\<close> as the object of the engine of \<open>Executors\<close>.
  \<^item> \<open>Locks\<close>: \<open>Lock\<close>, \<open>AddRef\<close>, \<open>Release\<close> and \<open>GetRefCount\<close> of \<open>z3_async_obj.cpp\<close> step by step, for any number of threads.
  \<^item> \<open>Clients\<close>: \<open>z3_ref_obj.cpp\<close>, \<open>z3_async_obj.cpp\<close>, \<open>z3_thread.cpp\<close>, \<open>z3_executor_pool.cpp\<close>, \<open>z3_client.cpp\<close>, \<open>z3_rtsp_client.cpp\<close>.
  \<^item> \<open>Overlapped\<close>: who owns an overlapped structure: \<open>IOEndpoint\<close> and \<open>IOCPObj\<close> (\<open>z3_io_endpoint.cpp\<close>, \<open>z3_iocp_obj.cpp\<close>), the end
    of the engine, and timers that outlive what they refer to.
  \<^item> \<open>Notifications\<close>: no code; sessions and their client together.

  \<^bold>\<open>How state and operations correspond.\<close> An object is a record with the members of the class; an operation takes
  the object and returns it, with the result code in front. A pointer that may be NULL is an option. Everything that ends the program (a failed
  \<open>assert\<close>, a NULL pointer, an access outside a buffer, an invalid parameter of a \<open>_s\<close> function) is an \<open>Inl\<close> value, so that
  a statement with \<open>Inr\<close> on its right also says that none of it happens. Widths are kept where the code depends on them
  (\<open>u8\<close>, \<open>u16\<close>, \<open>u32\<close>). Whether \<open>malloc\<close> succeeds, what Windows answers, the time, and the contents of
  memory the code does not initialise are parameters; the theorems either hold for all of them or name the ones they need.

  \<^bold>\<open>What the groups of lemmas show.\<close> Each component has its invariant with its preservation (\<open>parser_inv\<close>, \<open>ports_inv\<close>, \<open>frame_holds\<close>,
  \<open>kvs_inv\<close>, \<open>session_inv\<close>), an abstract view where it has one (a message is a list of headers; a frame is the list of
  bytes written; the allocator is the set of ports in use; a description is \<open>sdp_desc\<close>), and the behaviour of each operation on every branch,
  the branches included on which the code is wrong.

  \<^bold>\<open>Loops.\<close> Loops over data are structural recursion. Six loops carry fuel, and running out is the value
  \<open>Inl OutOfFuel\<close>. The parser loop has \<open>parse_fuel\<close>; \<open>Parse_ends\<close> shows that every iteration decreases a measure below it, except for
  the one livelock the code has (\<open>data_header_livelock\<close>). \<open>scan_fuel\<close> bounds the walk over the values of a header line by the length
  of the line. \<open>pair_fuel\<close> bounds the search of \<open>GetTwo\<close>: a full turn over at most 65536 ports comes back to where it began, and
  \<open>GetTwo_livelock\<close> shows the one case in which no fuel is enough. \<open>public_fuel\<close> is one more than the most headers a message can have.
  \<open>rtcp_fuel\<close> is more than the packets of four bytes in a receive buffer, and \<open>rtcp_datagram_crashes\<close> shows that
  a receive buffer for which it does not do has no fuel that does; \<open>RTCP_Parse_split\<close> shows which these are;
  \<open>ReapOldMembers\<close> needs one unit.
  The loops of the list functions take a fuel, of which the number of nodes and one more is enough.

  \<^bold>\<open>Threads.\<close> In \<open>AsyncQueues\<close>, \<open>Truck\<close>, \<open>LogThreads\<close>, \<open>Executors\<close>, \<open>Overlapped\<close> and \<open>SessionThreads\<close> threads take turns: an action is a section that holds a
  lock or one call of Windows, and \<open>run_acts\<close> runs a sequence of actions, any sequence for a statement about all interleavings. An
  action that has to wait has the value \<open>None\<close>, so that a deadlock is a state in which the actions of the threads concerned have
  no value. The session itself (\<open>RtspLifetime\<close>) takes its events in any order; \<open>completions_in_order\<close> shows that they
  come one at a time, and \<open>session_under_threads\<close> joins the two. \<open>Locks\<close> goes below that: there a step is a read, a write or a call, and
  \<open>references_atomic\<close> shows when the sections with a lock are one step. \<open>Thread_Start\<close> has the value \<open>None\<close> where the call does not return.

  \<^bold>\<open>Not modelled.\<close> Windows itself: what its calls answer are parameters or actions. The
  messages that other components trace, except where \<open>Trace\<close> speaks of one. The copy of \<open>z3_alloc.c\<close>'s bookkeeping in a hash table, which
  the build leaves out. Of the members that the RTCP session calls for the rules and no class
  declares, of \<open>find_member\<close>, \<open>member_sdes\<close> and \<open>drand30\<close> there is no code; they are parameters or recorded calls. Destructors that only free what the object has (but
  for those of descriptions),
  getters of one field, abstract base classes without behaviour, and the test programs.

  \<^bold>\<open>Simplified.\<close> The datagrams of a UDP session: one is in the receive buffer before the parser reads it, or comes after the handler has returned; a
  buffer that changes while it is read is not considered. The counters of the RTCP rules and the counter of references in \<open>Locks\<close> have no bound, and
  times are rational numbers, for which a bandwidth of 0 has no meaning. Objects that threads use after their deletion are still there in
  \<open>Locks\<close>. The trace of the allocator, which reads the list outside the mutex, is part of the operation that writes it.
\<close>

end
